(* ===== verification/JsPrelude.thy ===== *)
theory JsPrelude
  imports
    Complex_Main
    "HOL-Library.AList"
    "HOL-Library.Char_ord"
    "HOL-Library.List_Lexorder"
    "HOL-Library.Multiset"
    "HOL-Library.Sublist"
begin

text \<open>
  What the components share: the parts of the JavaScript language and its standard library
  that the modelled source uses, with the lemmas that carry the component proofs.

  \<^item> A string is a list of code units; the model's \<open>char\<close> holds the code units below 256,
    so white space and letter case are those of Latin-1.
  \<^item> A finite number is a \<open>rat\<close>: the model computes exactly and does not round to 53 bits.
    Where the code asks about finiteness, a number is a \<open>js_number\<close>, which also has the two
    infinities and NaN.
  \<^item> \<open>Map\<close> and plain objects keep insertion order: an association list with the library's
    \<open>AList.update\<close> and \<open>AList.delete\<close>. \<open>Set\<close> is a list without duplicates.
  \<^item> \<open>Array.prototype.sort\<close> is the stable sort by a comparator function.
\<close>

named_theorems js_map_simps \<open>lookup, update and key lemmas for insertion-ordered maps\<close>
named_theorems js_set_simps \<open>membership and size lemmas for insertion-ordered sets\<close>

section \<open>Numbers\<close>

datatype js_number = JsFin rat | JsInf | JsNegInf | JsNaN

fun isFinite :: "js_number \<Rightarrow> bool" where
  "isFinite (JsFin _) = True"
| "isFinite _ = False"

definition isNaN :: "js_number \<Rightarrow> bool" where
  "isNaN x = (x = JsNaN)"

text \<open>The relational operators: every comparison with NaN is false.\<close>

fun js_less :: "js_number \<Rightarrow> js_number \<Rightarrow> bool" where
  "js_less JsNaN _ = False"
| "js_less _ JsNaN = False"
| "js_less (JsFin a) (JsFin b) = (a < b)"
| "js_less JsInf _ = False"
| "js_less _ JsNegInf = False"
| "js_less _ _ = True"

fun js_leq :: "js_number \<Rightarrow> js_number \<Rightarrow> bool" where
  "js_leq JsNaN _ = False"
| "js_leq _ JsNaN = False"
| "js_leq (JsFin a) (JsFin b) = (a \<le> b)"
| "js_leq JsNegInf _ = True"
| "js_leq _ JsInf = True"
| "js_leq _ _ = False"

lemma js_less_Fin_iff [simp]: "js_less (JsFin a) (JsFin b) \<longleftrightarrow> a < b"
  by simp

lemma isFinite_iff: "isFinite x \<longleftrightarrow> (\<exists>r. x = JsFin r)"
  by (cases x) auto

text \<open>\<open>Number.isInteger\<close>.\<close>

fun isInteger :: "js_number \<Rightarrow> bool" where
  "isInteger (JsFin r) = (snd (quotient_of r) = 1)"
| "isInteger _ = False"

section \<open>Strings\<close>

abbreviation code_unit :: "char \<Rightarrow> nat" where
  "code_unit c \<equiv> of_char c"

definition is_space :: "char \<Rightarrow> bool" where
  "is_space c = (code_unit c \<in> {9, 10, 11, 12, 13, 32, 160})"

definition is_digit :: "char \<Rightarrow> bool" where
  "is_digit c = (48 \<le> code_unit c \<and> code_unit c \<le> 57)"

definition is_lower_alpha :: "char \<Rightarrow> bool" where
  "is_lower_alpha c = (97 \<le> code_unit c \<and> code_unit c \<le> 122)"

definition is_upper_alpha :: "char \<Rightarrow> bool" where
  "is_upper_alpha c = (65 \<le> code_unit c \<and> code_unit c \<le> 90)"

definition trimStart :: "string \<Rightarrow> string" where
  "trimStart s = dropWhile is_space s"

definition trim :: "string \<Rightarrow> string" where
  "trim s = rev (dropWhile is_space (rev (trimStart s)))"

definition lower_char :: "char \<Rightarrow> char" where
  "lower_char c =
     (let n = code_unit c in
      if 65 \<le> n \<and> n \<le> 90 \<or> 192 \<le> n \<and> n \<le> 222 \<and> n \<noteq> 215 then char_of (n + 32) else c)"

definition toLowerCase :: "string \<Rightarrow> string" where
  "toLowerCase s = map lower_char s"

definition startsWith :: "string \<Rightarrow> string \<Rightarrow> bool" where
  "startsWith s p = (take (length p) s = p)"

definition endsWith :: "string \<Rightarrow> string \<Rightarrow> bool" where
  "endsWith s p = (length p \<le> length s \<and> drop (length s - length p) s = p)"

fun str_includes :: "string \<Rightarrow> string \<Rightarrow> bool" where
  "str_includes [] p = (p = [])"
| "str_includes (c # s) p = (startsWith (c # s) p \<or> str_includes s p)"

text \<open>\<open>s.split(c)\<close> for a separator of one code unit; the empty string gives one empty part.\<close>

fun split_on :: "char \<Rightarrow> string \<Rightarrow> string list" where
  "split_on c [] = [[]]"
| "split_on c (x # xs) =
     (if x = c then [] # split_on c xs
      else (case split_on c xs of [] \<Rightarrow> [[x]] | w # ws \<Rightarrow> (x # w) # ws))"

fun join :: "string \<Rightarrow> string list \<Rightarrow> string" where
  "join sep [] = []"
| "join sep [x] = x"
| "join sep (x # y # ys) = x @ sep @ join sep (y # ys)"

lemma length_toLowerCase [simp]: "length (toLowerCase s) = length s"
  by (simp add: toLowerCase_def)

lemma startsWith_iff: "startsWith s p \<longleftrightarrow> (\<exists>r. s = p @ r)"
  unfolding startsWith_def by (metis append_eq_conv_conj append_take_drop_id)

lemma startsWith_append [simp]: "startsWith (p @ s) p"
  by (simp add: startsWith_iff)

lemma includes_iff: "str_includes s p \<longleftrightarrow> (\<exists>a b. s = a @ p @ b)"
proof (induction s)
  case Nil
  then show ?case by auto
next
  case (Cons c s)
  show ?case
  proof
    assume "str_includes (c # s) p"
    then show "\<exists>a b. c # s = a @ p @ b"
      using Cons.IH by (metis append_Cons append_Nil str_includes.simps(2) startsWith_iff)
  next
    assume "\<exists>a b. c # s = a @ p @ b"
    then obtain a b where ab: "c # s = a @ p @ b" by blast
    show "str_includes (c # s) p"
    proof (cases a)
      case Nil
      with ab have "startsWith (c # s) p" by simp
      then show ?thesis by simp
    next
      case (Cons x xs)
      with ab have "s = xs @ p @ b" by simp
      with Cons.IH show ?thesis by auto
    qed
  qed
qed

lemma includes_refl [simp]: "str_includes s s"
  unfolding includes_iff by (metis append_Nil append_Nil2)

lemma includes_length: "str_includes s p \<Longrightarrow> length p \<le> length s"
  by (auto simp: includes_iff)

lemma split_on_not_Nil [simp]: "split_on c s \<noteq> []"
  by (induction s) (auto split: list.splits)

lemma join_Cons_head [simp]: "join sep ((x # w) # ws) = x # join sep (w # ws)"
  by (cases ws) simp_all

lemma join_split_on: "join [c] (split_on c s) = s"
proof (induction s)
  case Nil
  then show ?case by simp
next
  case (Cons x xs)
  then show ?case
    by (cases "split_on c xs") auto
qed

lemma split_on_no_sep: "c \<notin> set w \<Longrightarrow> split_on c w = [w]"
  by (induction w) auto

lemma split_on_append: "c \<notin> set w \<Longrightarrow> split_on c (w @ c # s) = w # split_on c s"
  by (induction w) auto

lemma split_on_join:
  "ws \<noteq> [] \<Longrightarrow> \<forall>w \<in> set ws. c \<notin> set w \<Longrightarrow> split_on c (join [c] ws) = ws"
proof (induction ws rule: induct_list012)
  case (3 x y zs)
  then show ?case by (simp add: split_on_append)
qed (auto simp: split_on_no_sep)

lemma join_not_Nil: "ws \<noteq> [] \<Longrightarrow> \<forall>w \<in> set ws. w \<noteq> [] \<Longrightarrow> join sep ws \<noteq> []"
  by (cases ws rule: remdups_adj.cases) auto

section \<open>Insertion-ordered maps and sets\<close>

text \<open>
  \<open>m.set(k, v)\<close> and \<open>o[k] = v\<close> keep the place of a key that is present and append a new one;
  \<open>m.get(k)\<close> is \<open>map_of\<close>.
\<close>

abbreviation map_set :: "'k \<Rightarrow> 'v \<Rightarrow> ('k \<times> 'v) list \<Rightarrow> ('k \<times> 'v) list" where
  "map_set k v m \<equiv> AList.update k v m"

abbreviation map_delete :: "'k \<Rightarrow> ('k \<times> 'v) list \<Rightarrow> ('k \<times> 'v) list" where
  "map_delete k m \<equiv> AList.delete k m"

abbreviation map_has :: "('k \<times> 'v) list \<Rightarrow> 'k \<Rightarrow> bool" where
  "map_has m k \<equiv> map_of m k \<noteq> None"

definition map_from_entries :: "('k \<times> 'v) list \<Rightarrow> ('k \<times> 'v) list" where
  "map_from_entries kvs = fold (\<lambda>(k, v). map_set k v) kvs []"

definition set_add :: "'a \<Rightarrow> 'a list \<Rightarrow> 'a list" where
  "set_add x s = (if x \<in> set s then s else s @ [x])"

definition set_from_list :: "'a list \<Rightarrow> 'a list" where
  "set_from_list xs = fold set_add xs []"

lemma map_of_map_set [js_map_simps, simp]: "map_of (map_set k v m) = (map_of m)(k \<mapsto> v)"
  by (simp add: update_conv')

lemma map_of_map_delete [js_map_simps, simp]: "map_of (map_delete k m) = (map_of m)(k := None)"
  by (simp add: delete_conv')

lemma keys_map_set [js_map_simps]:
  "map fst (map_set k v m) = (if k \<in> fst ` set m then map fst m else map fst m @ [k])"
  by (induction m) auto

lemma distinct_keys_map_set [js_map_simps, intro]:
  "distinct (map fst m) \<Longrightarrow> distinct (map fst (map_set k v m))"
  by (rule distinct_update)

lemma set_keys_map_set [js_map_simps]: "fst ` set (map_set k v m) = insert k (fst ` set m)"
  by (simp add: dom_update flip: dom_map_of_conv_image_fst)

lemma length_map_set_new: "k \<notin> fst ` set m \<Longrightarrow> map_set k v m = m @ [(k, v)]"
  by (induction m) auto

lemma set_set_add [js_set_simps, simp]: "set (set_add x s) = insert x (set s)"
  by (auto simp: set_add_def)

lemma distinct_set_add [js_set_simps, simp]: "distinct (set_add x s) = distinct s"
  by (auto simp: set_add_def)

lemma set_fold_set_add: "set (fold set_add xs s) = set s \<union> set xs"
  by (induction xs arbitrary: s) auto

lemma set_set_from_list [js_set_simps, simp]: "set (set_from_list xs) = set xs"
  by (simp add: set_from_list_def set_fold_set_add)

lemma distinct_fold_set_add: "distinct s \<Longrightarrow> distinct (fold set_add xs s)"
  by (induction xs arbitrary: s) auto

lemma distinct_set_from_list [js_set_simps, simp]: "distinct (set_from_list xs)"
  by (simp add: set_from_list_def distinct_fold_set_add)

lemma length_set_from_list [js_set_simps]: "length (set_from_list xs) = card (set xs)"
  using distinct_card [of "set_from_list xs"] by simp

lemma fold_set_add_id: "distinct (s @ xs) \<Longrightarrow> fold set_add xs s = s @ xs"
  by (induction xs arbitrary: s) (auto simp: set_add_def)

lemma set_from_list_id [simp]: "distinct xs \<Longrightarrow> set_from_list xs = xs"
  by (simp add: set_from_list_def fold_set_add_id)

section \<open>Stable sorting by a comparator\<close>

text \<open>
  \<open>xs.sort(cmp)\<close>: a positive result of \<open>cmp x y\<close> puts \<open>y\<close> first, any other keeps the order.
  Inserting from the right, each element is placed before the first later one that it may precede.
\<close>

fun insert_by :: "('a \<Rightarrow> 'a \<Rightarrow> 'n::{linorder,zero}) \<Rightarrow> 'a \<Rightarrow> 'a list \<Rightarrow> 'a list" where
  "insert_by cmp x [] = [x]"
| "insert_by cmp x (y # ys) = (if 0 < cmp x y then y # insert_by cmp x ys else x # y # ys)"

definition sort_by :: "('a \<Rightarrow> 'a \<Rightarrow> 'n::{linorder,zero}) \<Rightarrow> 'a list \<Rightarrow> 'a list" where
  "sort_by cmp xs = foldr (insert_by cmp) xs []"

lemma mset_insert_by [simp]: "mset (insert_by cmp x xs) = add_mset x (mset xs)"
  by (induction xs) auto

lemma mset_sort_by [simp]: "mset (sort_by cmp xs) = mset xs"
  by (induction xs) (auto simp: sort_by_def)

lemma set_sort_by [simp]: "set (sort_by cmp xs) = set xs"
  by (metis mset_sort_by set_mset_mset)

lemma length_sort_by [simp]: "length (sort_by cmp xs) = length xs"
  by (metis mset_sort_by size_mset)

lemma distinct_sort_by [simp]: "distinct (sort_by cmp xs) = distinct xs"
  by (rule mset_eq_imp_distinct_iff) simp

lemma distinct_map_sort_by [simp]: "distinct (map f (sort_by cmp xs)) = distinct (map f xs)"
  by (rule mset_eq_imp_distinct_iff) simp

lemma sort_by_Nil [simp]: "sort_by cmp [] = []"
  by (simp add: sort_by_def)

lemma sort_by_eq_Nil [simp]: "sort_by cmp xs = [] \<longleftrightarrow> xs = []"
  by (metis length_0_conv length_sort_by)

text \<open>
  A comparator on the elements of \<open>A\<close>: never positive both ways round, and \<open>not positive\<close> is
  transitive. A client that sorts elements of \<open>A\<close> gets an ordered list.
\<close>

locale comparator =
  fixes A :: "'a set" and cmp :: "'a \<Rightarrow> 'a \<Rightarrow> 'n::{linorder,zero}"
  assumes total: "\<lbrakk>x \<in> A; y \<in> A; 0 < cmp x y\<rbrakk> \<Longrightarrow> cmp y x \<le> 0"
    and trans: "\<lbrakk>x \<in> A; y \<in> A; z \<in> A; cmp x y \<le> 0; cmp y z \<le> 0\<rbrakk> \<Longrightarrow> cmp x z \<le> 0"
begin

lemma sorted_insert_by:
  assumes "x \<in> A" "set ys \<subseteq> A" "sorted_wrt (\<lambda>a b. cmp a b \<le> 0) ys"
  shows "sorted_wrt (\<lambda>a b. cmp a b \<le> 0) (insert_by cmp x ys)"
  using assms
proof (induction ys)
  case Nil
  then show ?case by simp
next
  case (Cons y ys)
  have set_ins: "set (insert_by cmp x ys) = insert x (set ys)"
    by (metis mset_insert_by set_mset_add_mset_insert set_mset_mset)
  show ?case
  proof (cases "0 < cmp x y")
    case True
    with Cons total [of x y] show ?thesis by (auto simp: set_ins)
  next
    case False
    with Cons have "\<forall>z \<in> set ys. cmp x z \<le> 0"
      using trans [of x y] by auto
    with Cons False show ?thesis by auto
  qed
qed

lemma sorted_sort_by:
  "set xs \<subseteq> A \<Longrightarrow> sorted_wrt (\<lambda>a b. cmp a b \<le> 0) (sort_by cmp xs)"
proof (induction xs)
  case Nil
  then show ?case by simp
next
  case (Cons x xs)
  then have "sorted_wrt (\<lambda>a b. cmp a b \<le> 0) (insert_by cmp x (sort_by cmp xs))"
    by (intro sorted_insert_by) auto
  then show ?case by (simp add: sort_by_def)
qed

text \<open>The first element of the result comes before every element of the input.\<close>

lemma sort_by_head_least:
  assumes "set xs \<subseteq> A" "sort_by cmp xs = y # ys" "x \<in> set xs" "x \<noteq> y"
  shows "cmp y x \<le> 0"
proof -
  have "x \<in> set ys"
    using assms(2-4) set_sort_by [of cmp xs] by auto
  with sorted_sort_by [OF assms(1)] assms(2) show ?thesis by auto
qed

end

text \<open>Numeric subtraction, the comparator of \<open>(a, b) => a - b\<close>, orders any set of keys.\<close>

lemma comparator_diff: "comparator A (\<lambda>x y. (f x :: rat) - f y)"
  by unfold_locales auto

section \<open>Folds\<close>

lemma foldl_invariant:
  assumes "P s" and "\<And>s x. x \<in> set xs \<Longrightarrow> P s \<Longrightarrow> P (f s x)"
  shows "P (foldl f s xs)"
  using assms by (induction xs arbitrary: s) auto

end
