(* ===== verification/JsNumbers.thy ===== *)
theory JsNumbers
  imports JsPrelude
begin

text \<open>
  The conversions between strings and numbers that the source calls: \<open>Number(s)\<close>,
  \<open>String(n)\<close>, \<open>parseInt(s, 10)\<close>, \<open>parseInt(s, 16)\<close>, \<open>n.toString(16)\<close>, \<open>padStart\<close>,
  \<open>Math.round\<close> and \<open>toFixed(6)\<close>.

  \<open>String\<close> prints the decimal expansion, cut after 20 fractional digits. On integers below
  \<open>10 ^ 21\<close> and on short decimals this is what the language prints; the exponent forms
  are not modelled.
\<close>

section \<open>Digits\<close>

definition digit_char :: "nat \<Rightarrow> char" where
  "digit_char d = char_of (if d < 10 then 48 + d else 87 + d)"

definition digits_value :: "string \<Rightarrow> nat" where
  "digits_value s = foldl (\<lambda>n c. 10 * n + (code_unit c - 48)) 0 s"

fun show_nat :: "nat \<Rightarrow> string" where
  "show_nat n = (if n < 10 then [digit_char n] else show_nat (n div 10) @ [digit_char (n mod 10)])"

declare show_nat.simps [simp del]

lemma is_digit_digit_char: "d < 10 \<Longrightarrow> is_digit (digit_char d)"
  by (simp add: is_digit_def digit_char_def)

lemma digit_char_value: "d < 10 \<Longrightarrow> of_char (digit_char d) - 48 = (d :: nat)"
  by (simp add: digit_char_def)

lemma show_nat_digits: "list_all is_digit (show_nat n)"
  by (induction n rule: show_nat.induct)
     (subst show_nat.simps, auto simp: is_digit_digit_char)

lemma show_nat_not_Nil [simp]: "show_nat n \<noteq> []"
  by (subst show_nat.simps) simp

lemma digits_value_snoc: "digits_value (s @ [c]) = 10 * digits_value s + (of_char c - 48)"
  by (simp add: digits_value_def)

text \<open>Reading back what was printed.\<close>

lemma digits_value_show_nat [simp]: "digits_value (show_nat n) = n"
proof (induction n rule: show_nat.induct)
  case (1 n)
  show ?case
  proof (cases "n < 10")
    case True
    then show ?thesis
      by (subst show_nat.simps) (simp add: digits_value_def digit_char_value)
  next
    case False
    then have "digits_value (show_nat n) = 10 * (n div 10) + n mod 10"
      using 1 by (subst show_nat.simps) (simp add: digits_value_snoc digit_char_value)
    then show ?thesis by simp
  qed
qed

lemma show_nat_inject [simp]: "show_nat m = show_nat n \<longleftrightarrow> m = n"
  by (metis digits_value_show_nat)

definition show_int :: "int \<Rightarrow> string" where
  "show_int i = (if i < 0 then CHR ''-'' # show_nat (nat (- i)) else show_nat (nat i))"

lemma show_nat_hd_digit: "is_digit (hd (show_nat n))"
  using show_nat_digits [of n] by (cases "show_nat n") auto

lemma show_int_inject [simp]: "show_int i = show_int j \<longleftrightarrow> i = j"
proof -
  have "\<not> is_digit CHR ''-''" by (simp add: is_digit_def)
  then have "CHR ''-'' # s \<noteq> show_nat n" for s n
    using show_nat_hd_digit [of n] by (metis list.sel(1))
  then show ?thesis by (auto simp: show_int_def dest: sym)
qed

section \<open>String(n)\<close>

fun fraction_digits :: "nat \<Rightarrow> nat \<Rightarrow> nat \<Rightarrow> string" where
  "fraction_digits 0 r q = []"
| "fraction_digits (Suc k) r q =
     (if r = 0 then [] else digit_char (10 * r div q) # fraction_digits k (10 * r mod q) q)"

definition show_rat :: "rat \<Rightarrow> string" where
  "show_rat r =
     (case quotient_of r of (p, q) \<Rightarrow>
        if q = 1 then show_int p
        else (if p < 0 then ''-'' else '''')
             @ show_nat (nat \<bar>p\<bar> div nat q) @ ''.''
             @ fraction_digits 20 (nat \<bar>p\<bar> mod nat q) (nat q))"

fun js_String_number :: "js_number \<Rightarrow> string" where
  "js_String_number (JsFin r) = show_rat r"
| "js_String_number JsInf = ''Infinity''"
| "js_String_number JsNegInf = ''-Infinity''"
| "js_String_number JsNaN = ''NaN''"

lemma show_rat_of_int [simp]: "show_rat (of_int i) = show_int i"
  by (simp add: show_rat_def quotient_of_int)

section \<open>Number(s) and parseInt\<close>

definition hex_value :: "char \<Rightarrow> nat option" where
  "hex_value c =
     (let n = code_unit c in
      if 48 \<le> n \<and> n \<le> 57 then Some (n - 48)
      else if 97 \<le> n \<and> n \<le> 102 then Some (n - 87)
      else if 65 \<le> n \<and> n \<le> 70 then Some (n - 55) else None)"

definition radix_digit :: "nat \<Rightarrow> char \<Rightarrow> bool" where
  "radix_digit b c = (case hex_value c of None \<Rightarrow> False | Some v \<Rightarrow> v < b)"

definition radix_value :: "nat \<Rightarrow> string \<Rightarrow> nat" where
  "radix_value b s = foldl (\<lambda>n c. b * n + (case hex_value c of None \<Rightarrow> 0 | Some v \<Rightarrow> v)) 0 s"

definition sign_split :: "string \<Rightarrow> bool \<times> string" where
  "sign_split s =
     (case s of c # r \<Rightarrow> if c = CHR ''-'' then (True, r) else if c = CHR ''+'' then (False, r)
                         else (False, s)
              | [] \<Rightarrow> (False, s))"

definition parse_exponent :: "string \<Rightarrow> int option" where
  "parse_exponent s =
     (case sign_split s of (neg, ds) \<Rightarrow>
        if ds = [] \<or> \<not> list_all is_digit ds then None
        else Some (if neg then - int (digits_value ds) else int (digits_value ds)))"

definition scale10 :: "rat \<Rightarrow> int \<Rightarrow> rat" where
  "scale10 m e = (if 0 \<le> e then m * 10 ^ nat e else m / 10 ^ nat (- e))"

definition parse_unsigned_decimal :: "string \<Rightarrow> rat option" where
  "parse_unsigned_decimal s =
     (let ip = takeWhile is_digit s; r1 = dropWhile is_digit s;
          (fp, r2) = (case r1 of c # r \<Rightarrow> if c = CHR ''.'' then (takeWhile is_digit r, dropWhile is_digit r)
                                          else ([], r1)
                               | [] \<Rightarrow> ([], r1));
          m = of_nat (digits_value (ip @ fp)) / 10 ^ length fp
      in if ip = [] \<and> fp = [] then None
         else (case r2 of [] \<Rightarrow> Some m
                        | c # r \<Rightarrow> if c = CHR ''e'' \<or> c = CHR ''E''
                                   then map_option (scale10 m) (parse_exponent r) else None))"

definition parse_radix_literal :: "string \<Rightarrow> nat option" where
  "parse_radix_literal s =
     (case s of z # x # ds \<Rightarrow>
        (let b = (if x \<in> {CHR ''x'', CHR ''X''} then 16
                  else if x \<in> {CHR ''o'', CHR ''O''} then 8
                  else if x \<in> {CHR ''b'', CHR ''B''} then 2 else 0)
         in if z = CHR ''0'' \<and> b \<noteq> 0 \<and> ds \<noteq> [] \<and> list_all (radix_digit b) ds
            then Some (radix_value b ds) else None)
      | _ \<Rightarrow> None)"

definition js_Number_string :: "string \<Rightarrow> js_number" where
  "js_Number_string s =
     (let t = trim s in
      if t = [] then JsFin 0
      else case parse_radix_literal t of Some n \<Rightarrow> JsFin (of_nat n)
      | None \<Rightarrow>
          (case sign_split t of (neg, u) \<Rightarrow>
             if u = ''Infinity'' then (if neg then JsNegInf else JsInf)
             else case parse_unsigned_decimal u of None \<Rightarrow> JsNaN
             | Some r \<Rightarrow> JsFin (if neg then - r else r)))"

definition parseInt :: "nat \<Rightarrow> string \<Rightarrow> int option" where
  "parseInt b s =
     (case sign_split (trimStart s) of (neg, u0) \<Rightarrow>
        let u = (if b = 16 \<and> (startsWith u0 ''0x'' \<or> startsWith u0 ''0X'') then drop 2 u0 else u0);
            ds = takeWhile (radix_digit b) u
        in if ds = [] then None
           else Some (if neg then - int (radix_value b ds) else int (radix_value b ds)))"

lemma takeWhile_all: "list_all P s \<Longrightarrow> takeWhile P s = s"
  by (induction s) auto

lemma dropWhile_all: "list_all P s \<Longrightarrow> dropWhile P s = []"
  by (induction s) auto

lemma digits_no_space: "list_all is_digit s \<Longrightarrow> trim s = s"
proof -
  assume d: "list_all is_digit s"
  have nd: "\<not> is_space c" if "is_digit c" for c
    using that by (auto simp: is_digit_def is_space_def)
  have dr: "dropWhile is_space t = t" if "list_all is_digit t" for t
    using that by (cases t) (auto simp: nd)
  show ?thesis
    using d dr [of s] dr [of "rev s"] by (simp add: trim_def trimStart_def)
qed

lemma parse_unsigned_decimal_digits:
  "s \<noteq> [] \<Longrightarrow> list_all is_digit s \<Longrightarrow> parse_unsigned_decimal s = Some (of_nat (digits_value s))"
  by (simp add: parse_unsigned_decimal_def takeWhile_all dropWhile_all)

lemma sign_split_digits: "list_all is_digit s \<Longrightarrow> sign_split s = (False, s)"
  by (cases s) (auto simp: sign_split_def is_digit_def)

lemma radix_letters_no_digit:
  "is_digit x \<Longrightarrow> x \<notin> {CHR ''x'', CHR ''X''} \<and> x \<notin> {CHR ''o'', CHR ''O''} \<and> x \<notin> {CHR ''b'', CHR ''B''}"
  by (auto simp: is_digit_def)

lemma parse_radix_literal_digits: "list_all is_digit s \<Longrightarrow> parse_radix_literal s = None"
  unfolding parse_radix_literal_def Let_def
  by (cases s rule: remdups_adj.cases) (simp_all add: radix_letters_no_digit del: insert_iff)

lemma digits_not_Infinity: "list_all is_digit s \<Longrightarrow> s \<noteq> ''Infinity''"
  by (auto simp: is_digit_def)

lemma js_Number_string_digits:
  "s \<noteq> [] \<Longrightarrow> list_all is_digit s \<Longrightarrow> js_Number_string s = JsFin (of_nat (digits_value s))"
  by (simp add: js_Number_string_def digits_no_space parse_radix_literal_digits
      sign_split_digits digits_not_Infinity parse_unsigned_decimal_digits)

lemma js_Number_show_nat [simp]: "js_Number_string (show_nat n) = JsFin (of_nat n)"
  by (simp add: js_Number_string_digits show_nat_digits)

section \<open>Number(String(n))\<close>

text \<open>
  A number whose decimal expansion ends within the 20 digits that are printed reads back as
  itself. JavaScript prints such numbers this way between \<open>1e-6\<close> and \<open>1e21\<close>.
\<close>

lemma digits_value_foldl: "foldl (\<lambda>n c. 10 * n + (of_char c - 48)) a s = a * 10 ^ length s + digits_value s"
  for a :: nat
proof (induction s rule: rev_induct)
  case (snoc c s)
  then show ?case by (simp add: digits_value_snoc algebra_simps)
qed (simp add: digits_value_def)

lemma digits_value_append: "digits_value (s @ t) = digits_value s * 10 ^ length t + digits_value t"
  using digits_value_foldl [of "digits_value s" t] by (simp add: digits_value_def)

lemma digits_value_Cons_digit: "d < 10 \<Longrightarrow> digits_value (digit_char d # s) = d * 10 ^ length s + digits_value s"
  using digits_value_append [of "[digit_char d]" s] by (simp add: digits_value_def digit_char_value)

lemma fraction_digits_digits: "r < q \<Longrightarrow> list_all is_digit (fraction_digits k r q)"
proof (induction k arbitrary: r)
  case (Suc k)
  have "10 * r div q < 10" using Suc.prems by (simp add: less_mult_imp_div_less)
  then show ?case using Suc by (simp add: is_digit_digit_char)
qed simp

lemma fraction_digits_value:
  "r < q \<Longrightarrow> q dvd r * 10 ^ k \<Longrightarrow>
   digits_value (fraction_digits k r q) * q = r * 10 ^ length (fraction_digits k r q)"
proof (induction k arbitrary: r)
  case 0
  then have "r = 0" using nat_dvd_not_less by (metis mult.right_neutral neq0_conv power_0)
  then show ?case by (simp add: digits_value_def)
next
  case (Suc k)
  show ?case
  proof (cases "r = 0")
    case True
    then show ?thesis by (simp add: digits_value_def)
  next
    case False
    let ?d = "10 * r div q" and ?m = "10 * r mod q" and ?n = "length (fraction_digits k (10 * r mod q) q)"
    have q: "0 < q" using Suc.prems by simp
    have d: "?d < 10" using Suc.prems by (simp add: less_mult_imp_div_less)
    have split: "10 * r = ?d * q + ?m" by simp
    have "q dvd (10 * r) * 10 ^ k" using Suc.prems(2) by (simp add: mult.assoc mult.left_commute)
    then have "q dvd ?m * 10 ^ k"
      by (metis dvd_add_right_iff dvd_triv_right dvd_mult2 distrib_right split)
    then have "digits_value (fraction_digits k ?m q) * q = ?m * 10 ^ ?n"
      using Suc.IH [of ?m] q by simp
    moreover have "(?d * q + ?m) * 10 ^ ?n = r * 10 ^ Suc ?n" by (metis split mult.assoc mult.commute power_Suc)
    moreover have "?d * 10 ^ ?n * q = ?d * q * 10 ^ ?n" by (simp only: mult.assoc mult.commute)
    ultimately have "(?d * 10 ^ ?n + digits_value (fraction_digits k ?m q)) * q = r * 10 ^ Suc ?n"
      by (simp only: distrib_right)
    moreover have "fraction_digits (Suc k) r q = digit_char ?d # fraction_digits k ?m q" using False by simp
    ultimately show ?thesis using d by (simp only: digits_value_Cons_digit length_Cons)
  qed
qed

lemma fraction_digits_not_Nil: "r \<noteq> 0 \<Longrightarrow> 0 < k \<Longrightarrow> fraction_digits k r q \<noteq> []"
  by (cases k) simp_all

definition short_decimal :: "rat \<Rightarrow> bool" where
  "short_decimal r \<longleftrightarrow> nat (snd (quotient_of r)) dvd 10 ^ 20"

lemma trim_id: "s \<noteq> [] \<Longrightarrow> \<not> is_space (hd s) \<Longrightarrow> \<not> is_space (last s) \<Longrightarrow> trim s = s"
proof -
  assume a: "s \<noteq> []" "\<not> is_space (hd s)" "\<not> is_space (last s)"
  then obtain c t where s: "s = c # t" by (cases s) auto
  from a obtain u d where r: "rev s = d # u" "d = last s" by (cases "rev s") (auto simp: last_rev hd_rev)
  have "rev u @ [d] = s" using r(1) by (metis rev_rev_ident rev.simps(2))
  then show ?thesis using a s r by (simp add: trim_def trimStart_def)
qed

lemma parse_decimal_fraction:
  "ip \<noteq> [] \<Longrightarrow> list_all is_digit ip \<Longrightarrow> list_all is_digit fp \<Longrightarrow>
   parse_unsigned_decimal (ip @ ''.'' @ fp) = Some (of_nat (digits_value (ip @ fp)) / 10 ^ length fp)"
proof -
  assume a: "ip \<noteq> []" "list_all is_digit ip" "list_all is_digit fp"
  have t: "takeWhile is_digit (ip @ CHR ''.'' # fp) = ip" "dropWhile is_digit (ip @ CHR ''.'' # fp) = CHR ''.'' # fp"
    using a(2) by (induction ip) (auto simp: is_digit_def)
  show ?thesis using a by (simp add: parse_unsigned_decimal_def t takeWhile_all dropWhile_all)
qed


lemma short_decimalI:
  assumes "r * 10 ^ 20 = of_int n"
  shows "short_decimal r"
proof -
  obtain p q where pq: "quotient_of r = (p, q)" by (metis surj_pair)
  then have q: "0 < q" "coprime p q" "r = of_int p / of_int q"
    by (simp_all add: quotient_of_denom_pos quotient_of_coprime quotient_of_div)
  have "(of_int (p * 10 ^ 20) :: rat) = of_int (n * q)" using assms q by (simp add: field_simps)
  then have "p * 10 ^ 20 = n * q" by (simp only: of_int_eq_iff)
  then have "q dvd p * 10 ^ 20" by simp
  then have "q dvd 10 ^ 20" using q(2) by (simp add: coprime_commute coprime_dvd_mult_right_iff)
  then have "int (nat q) dvd int (10 ^ 20)" using q(1) by simp
  then show ?thesis using pq by (simp only: of_nat_dvd_iff short_decimal_def snd_conv)
qed

definition decimal_text :: "string \<Rightarrow> bool" where
  "decimal_text u \<longleftrightarrow> u \<noteq> [] \<and> is_digit (hd u) \<and> is_digit (last u) \<and> (\<forall>c \<in> set u. is_digit c \<or> c = CHR ''.'')"

lemma digit_facts: "is_digit c \<Longrightarrow> \<not> is_space c \<and> c \<noteq> CHR ''-'' \<and> c \<noteq> CHR ''+'' \<and> c \<noteq> CHR ''I''"
  by (auto simp: is_digit_def is_space_def)

lemma decimal_text_no_radix:
  assumes "decimal_text u"
  shows "parse_radix_literal u = None" "parse_radix_literal (CHR ''-'' # u) = None"
proof -
  have letters: "x \<notin> {CHR ''x'', CHR ''X''} \<and> x \<notin> {CHR ''o'', CHR ''O''} \<and> x \<notin> {CHR ''b'', CHR ''B''}"
    if "x \<in> set u" for x
    using assms that radix_letters_no_digit [of x] unfolding decimal_text_def by auto
  show "parse_radix_literal u = None"
  proof (cases u rule: remdups_adj.cases)
    case (3 z x ds)
    then have "x \<in> set u" by simp
    from letters [OF this] show ?thesis
      by (simp add: 3 parse_radix_literal_def Let_def del: insert_iff)
  qed (simp_all add: parse_radix_literal_def)
  show "parse_radix_literal (CHR ''-'' # u) = None"
    unfolding parse_radix_literal_def by (simp split: list.split)
qed

lemma js_Number_decimal:
  assumes "decimal_text u" "parse_unsigned_decimal u = Some r"
  shows "js_Number_string u = JsFin r" "js_Number_string (CHR ''-'' # u) = JsFin (- r)"
proof -
  from assms(1) obtain c t where u: "u = c # t" "is_digit c" by (cases u) (auto simp: decimal_text_def)
  have ends: "\<not> is_space (hd u)" "\<not> is_space (last u)" "\<not> is_space (CHR ''-'')"
    using assms(1) digit_facts by (auto simp: decimal_text_def is_space_def)
  have trims: "trim u = u" "trim (CHR ''-'' # u) = CHR ''-'' # u"
    using ends assms(1) by (auto intro!: trim_id simp: decimal_text_def)
  have s: "sign_split u = (False, u)" "u \<noteq> ''Infinity''" using u digit_facts [of c] by (auto simp: sign_split_def)
  show "js_Number_string u = JsFin r"
    using assms s decimal_text_no_radix [OF assms(1)] by (simp add: js_Number_string_def trims decimal_text_def)
  show "js_Number_string (CHR ''-'' # u) = JsFin (- r)"
    using assms s decimal_text_no_radix [OF assms(1)] by (simp add: js_Number_string_def trims sign_split_def)
qed

lemma decimal_text_show_nat: "decimal_text (show_nat n)"
  using show_nat_digits [of n] by (auto simp: decimal_text_def list_all_iff)

lemma quotient_remainder:
  assumes "quotient_of r = (p, q)" "q \<noteq> 1"
  shows "nat \<bar>p\<bar> mod nat q < nat q" "nat \<bar>p\<bar> mod nat q \<noteq> 0"
proof -
  have q: "0 < q" "coprime p q" using assms(1) by (simp_all add: quotient_of_denom_pos quotient_of_coprime)
  then show "nat \<bar>p\<bar> mod nat q < nat q" by simp
  show "nat \<bar>p\<bar> mod nat q \<noteq> 0"
  proof
    assume "nat \<bar>p\<bar> mod nat q = 0"
    then have "int (nat q) dvd int (nat \<bar>p\<bar>)" by (simp add: mod_eq_0_iff_dvd)
    then have "q dvd p" using q by simp
    with q(2) have "is_unit q" by (rule coprime_common_divisor) simp
    then show False using q assms(2) by simp
  qed
qed

lemma fraction_text:
  assumes "b < q" "b \<noteq> 0"
  shows "decimal_text (show_nat a @ ''.'' @ fraction_digits 20 b q)"
  using fraction_digits_digits [OF assms(1), of 20] fraction_digits_not_Nil [OF assms(2), of 20 q]
    show_nat_digits [of a] show_nat_hd_digit [of a]
  by (auto simp: decimal_text_def list_all_iff)

lemma show_rat_text: "\<exists>u. decimal_text u \<and> (show_rat r = u \<or> show_rat r = CHR ''-'' # u)"
proof -
  obtain p q where pq: "quotient_of r = (p, q)" by (metis surj_pair)
  show ?thesis
  proof (cases "q = 1")
    case True
    then show ?thesis using decimal_text_show_nat pq by (auto simp: show_rat_def show_int_def)
  next
    case False
    let ?u = "show_nat (nat \<bar>p\<bar> div nat q) @ ''.'' @ fraction_digits 20 (nat \<bar>p\<bar> mod nat q) (nat q)"
    have "decimal_text ?u" using quotient_remainder [OF pq False] by (rule fraction_text)
    moreover have "show_rat r = ?u \<or> show_rat r = CHR ''-'' # ?u" using False pq by (simp add: show_rat_def)
    ultimately show ?thesis by blast
  qed
qed

lemma show_rat_chars: "c \<in> set (show_rat r) \<Longrightarrow> is_digit c \<or> c = CHR ''.'' \<or> c = CHR ''-''"
  using show_rat_text [of r] by (auto simp: decimal_text_def)

lemma trim_show_rat [simp]: "trim (show_rat r) = show_rat r" "trim (CHR '' '' # show_rat r) = show_rat r"
proof -
  obtain u where u: "decimal_text u" "show_rat r = u \<or> show_rat r = CHR ''-'' # u"
    using show_rat_text by blast
  have d: "u \<noteq> []" "\<not> is_space (hd u)" "\<not> is_space (last u)"
    using u(1) digit_facts by (simp_all add: decimal_text_def)
  have "\<not> is_space (CHR ''-'')" by (simp add: is_space_def)
  with u(2) d have "show_rat r \<noteq> []" "\<not> is_space (hd (show_rat r))" "\<not> is_space (last (show_rat r))" by auto
  then show t: "trim (show_rat r) = show_rat r" by (rule trim_id)
  have "trimStart (CHR '' '' # show_rat r) = trimStart (show_rat r)" by (simp add: trimStart_def is_space_def)
  then show "trim (CHR '' '' # show_rat r) = show_rat r" using t by (simp add: trim_def)
qed

lemma scaled_sum: "v * q = b * l \<Longrightarrow> (a * l + v) * q = (a * q + b) * (l :: rat)"
  by (simp add: algebra_simps)

lemma js_Number_show_rat:
  assumes "short_decimal r"
  shows "js_Number_string (show_rat r) = JsFin r"
proof -
  obtain p q where pq: "quotient_of r = (p, q)" by (metis surj_pair)
  then have q: "0 < q" and r: "r = of_int p / of_int q"
    using quotient_of_denom_pos quotient_of_div by blast+
  let ?q = "nat q" and ?a = "nat \<bar>p\<bar> div nat q" and ?b = "nat \<bar>p\<bar> mod nat q"
  show ?thesis
  proof (cases "q = 1")
    case True
    have "parse_unsigned_decimal (show_nat n) = Some (of_nat n)" for n
      using parse_unsigned_decimal_digits [of "show_nat n"] show_nat_digits by simp
    from js_Number_decimal [OF decimal_text_show_nat this] show ?thesis
      using True r pq by (auto simp: show_rat_def show_int_def)
  next
    case False
    let ?fp = "fraction_digits 20 ?b ?q" and ?ip = "show_nat ?a"
    let ?u = "?ip @ ''.'' @ ?fp"
    note b = quotient_remainder [OF pq False]
    have fp: "list_all is_digit ?fp" using fraction_digits_digits [OF b(1)] .
    have "?q dvd ?b * 10 ^ 20" using assms by (simp add: short_decimal_def pq)
    from fraction_digits_value [OF b(1) this]
    have "(of_nat (digits_value ?fp * ?q) :: rat) = of_nat (?b * 10 ^ length ?fp)" by (rule arg_cong)
    then have v: "of_nat (digits_value ?fp) * (of_nat ?q :: rat) = of_nat ?b * 10 ^ length ?fp"
      by (simp only: of_nat_mult of_nat_power of_nat_numeral)
    have dt: "decimal_text ?u" using b by (rule fraction_text)
    have "(of_nat (digits_value (?ip @ ?fp)) :: rat) / 10 ^ length ?fp = of_nat (nat \<bar>p\<bar>) / of_nat ?q"
    proof -
      have "(of_nat ?a * 10 ^ length ?fp + of_nat (digits_value ?fp)) * (of_nat ?q :: rat)
          = (of_nat ?a * of_nat ?q + of_nat ?b) * 10 ^ length ?fp"
        using v by (rule scaled_sum)
      also have "(of_nat ?a * of_nat ?q + of_nat ?b :: rat) = of_nat (nat \<bar>p\<bar>)"
        by (simp only: of_nat_mult [symmetric] of_nat_add [symmetric] div_mult_mod_eq)
      finally have "(of_nat ?a * 10 ^ length ?fp + of_nat (digits_value ?fp)) * (of_nat ?q :: rat)
          = of_nat (nat \<bar>p\<bar>) * 10 ^ length ?fp" .
      moreover have "(of_nat (digits_value (?ip @ ?fp)) :: rat) = of_nat ?a * 10 ^ length ?fp + of_nat (digits_value ?fp)"
        by (simp only: digits_value_append digits_value_show_nat of_nat_add of_nat_mult of_nat_power of_nat_numeral)
      moreover have "x / l = p' / q'" if "x * q' = p' * l" "l \<noteq> 0" "q' \<noteq> 0" for x l p' q' :: rat
        using that by (simp add: frac_eq_eq)
      ultimately show ?thesis using q by (metis nat_0_iff not_le of_nat_eq_0_iff power_not_zero zero_neq_numeral)
    qed
    then have "parse_unsigned_decimal ?u = Some (of_nat (nat \<bar>p\<bar>) / of_nat ?q)"
      using parse_decimal_fraction [of ?ip ?fp] show_nat_digits fp by simp
    from js_Number_decimal [OF dt this] show ?thesis
      using False r pq q by (auto simp: show_rat_def)
  qed
qed

section \<open>Subtraction and comparators\<close>

text \<open>Subtraction of numbers: opposite infinities give NaN.\<close>

fun js_minus :: "js_number \<Rightarrow> js_number \<Rightarrow> js_number" where
  "js_minus (JsFin a) (JsFin b) = JsFin (a - b)"
| "js_minus JsNaN y = JsNaN"
| "js_minus x JsNaN = JsNaN"
| "js_minus JsInf JsInf = JsNaN"
| "js_minus JsNegInf JsNegInf = JsNaN"
| "js_minus JsInf y = JsInf"
| "js_minus JsNegInf y = JsNegInf"
| "js_minus x JsInf = JsNegInf"
| "js_minus x JsNegInf = JsInf"

text \<open>What \<open>sort\<close> makes of a comparator result: NaN counts as 0.\<close>

fun compare_sign :: "js_number \<Rightarrow> rat" where
  "compare_sign (JsFin r) = r"
| "compare_sign JsInf = 1"
| "compare_sign JsNegInf = -1"
| "compare_sign JsNaN = 0"

section \<open>Rounding and hexadecimal output\<close>

definition math_round :: "rat \<Rightarrow> int" where
  "math_round r = \<lfloor>r + 1 / 2\<rfloor>"

text \<open>\<open>Number(x.toFixed(6))\<close>: the sign is taken off first, ties go away from zero.\<close>

definition to_fixed6 :: "rat \<Rightarrow> rat" where
  "to_fixed6 r =
     (if r < 0 then - (of_int \<lfloor>(- r) * 10 ^ 6 + 1 / 2\<rfloor> / 10 ^ 6)
      else of_int \<lfloor>r * 10 ^ 6 + 1 / 2\<rfloor> / 10 ^ 6)"

fun show_hex :: "nat \<Rightarrow> string" where
  "show_hex n = (if n < 16 then [digit_char n] else show_hex (n div 16) @ [digit_char (n mod 16)])"

declare show_hex.simps [simp del]

definition padStart :: "nat \<Rightarrow> char \<Rightarrow> string \<Rightarrow> string" where
  "padStart n c s = replicate (n - length s) c @ s"

lemma length_padStart: "length (padStart n c s) = max n (length s)"
  by (simp add: padStart_def)

lemma length_show_hex_le: "n < 16 ^ k \<Longrightarrow> 0 < k \<Longrightarrow> length (show_hex n) \<le> k"
proof (induction n arbitrary: k rule: show_hex.induct)
  case (1 n)
  show ?case
  proof (cases "n < 16")
    case True
    then show ?thesis using 1 by (subst show_hex.simps) simp
  next
    case False
    with 1 have "k \<noteq> 1" by auto
    with 1 obtain k' where k: "k = Suc k'" "0 < k'"
      by (cases k) auto
    with 1 have "n div 16 < 16 ^ k'" by (auto simp: less_mult_imp_div_less mult.commute)
    with False k 1 have "length (show_hex (n div 16)) \<le> k'" by simp
    with False k show ?thesis by (subst show_hex.simps) simp
  qed
qed

lemma length_hex_byte: "n < 256 \<Longrightarrow> length (padStart 2 CHR ''0'' (show_hex n)) = 2"
  using length_show_hex_le [of n 2] by (simp add: length_padStart)

lemma math_round_bounds: "of_int a \<le> r \<Longrightarrow> r \<le> of_int b \<Longrightarrow> a \<le> math_round r \<and> math_round r \<le> b"
  unfolding math_round_def by (simp add: le_floor_iff floor_le_iff)

lemma math_round_of_int [simp]: "math_round (of_int n) = n"
  unfolding math_round_def by (simp add: floor_eq_iff)

end
