(* ===== verification/CatalogCandidate.thy ===== *)
theory CatalogCandidate
  imports JsNumbers
begin

text \<open>
  \<open>webapp/src/lib/catalog-repository.ts\<close>, where a candidate catalog comes from:
  validation of a database file before it serves requests, and the three kinds of source
  with the checks each makes before bytes reach the disk.

  The SQLite driver, \<open>fetch\<close> and the schema library are outside the repository: what they
  read is a value of the model (\<open>catalog_db\<close>, \<open>http_response\<close>), and the SHA-256 digest is
  a parameter.
\<close>

section \<open>Validation of a candidate\<close>

definition CATALOG_APPLICATION_ID :: int where
  "CATALOG_APPLICATION_ID = 1212761676"

definition CATALOG_SCHEMA_VERSION :: int where
  "CATALOG_SCHEMA_VERSION = 2"

definition CATALOG_SUPPORTED_SCHEMA_VERSIONS :: "int list" where
  "CATALOG_SUPPORTED_SCHEMA_VERSIONS = [1, CATALOG_SCHEMA_VERSION]"

record catalog_metadata =
  schema_version :: int
  catalog_generation :: string
  created_at :: string

text \<open>What the pragmas and the metadata query read from a database file.\<close>

record catalog_db =
  application_id :: "int option"
  user_version :: "int option"
  quick_check :: "string option"
  metadata_row :: "catalog_metadata option"

definition pragmaInteger :: "int option \<Rightarrow> string + int" where
  "pragmaInteger v = (case v of None \<Rightarrow> Inl ''ZodError'' | Some i \<Rightarrow> Inr i)"

definition quickCheck :: "catalog_db \<Rightarrow> string + unit" where
  "quickCheck db =
     (case quick_check db of None \<Rightarrow> Inl ''ZodError''
      | Some v \<Rightarrow> if v \<noteq> ''ok'' then Inl ''Catalog SQLite quick_check failed'' else Inr ())"

definition metadataSchema_ok :: "catalog_metadata \<Rightarrow> bool" where
  "metadataSchema_ok m = (catalog_generation m \<noteq> [] \<and> created_at m \<noteq> [])"

definition catalogMetadata :: "catalog_db \<Rightarrow> string + catalog_metadata" where
  "catalogMetadata db =
     (case metadata_row db of None \<Rightarrow> Inl ''Catalog SQLite metadata is missing''
      | Some m \<Rightarrow> if metadataSchema_ok m then Inr m else Inl ''ZodError'')"

definition validateCatalogDatabase :: "catalog_db \<Rightarrow> string + string \<times> string" where
  "validateCatalogDatabase db =
     (case pragmaInteger (application_id db) of Inl e \<Rightarrow> Inl e
      | Inr app \<Rightarrow>
        if app \<noteq> CATALOG_APPLICATION_ID then Inl ''Unsupported catalog SQLite application ID''
        else case pragmaInteger (user_version db) of Inl e \<Rightarrow> Inl e
        | Inr v \<Rightarrow>
          if v \<notin> set CATALOG_SUPPORTED_SCHEMA_VERSIONS
          then Inl ''Unsupported catalog SQLite schema version''
          else case quickCheck db of Inl e \<Rightarrow> Inl e
          | Inr _ \<Rightarrow>
            (case catalogMetadata db of Inl e \<Rightarrow> Inl e
             | Inr m \<Rightarrow>
               if schema_version m \<noteq> v
               then Inl ''Catalog metadata schema version does not match SQLite schema version''
               else Inr (catalog_generation m, created_at m)))"

definition valid_catalog :: "catalog_db \<Rightarrow> catalog_metadata \<Rightarrow> bool" where
  "valid_catalog db m \<longleftrightarrow>
     application_id db = Some CATALOG_APPLICATION_ID \<and>
     user_version db = Some (schema_version m) \<and> schema_version m \<in> {1, 2} \<and>
     quick_check db = Some ''ok'' \<and> metadata_row db = Some m \<and> metadataSchema_ok m"

lemma validateCatalogDatabase_Inr:
  "validateCatalogDatabase db = Inr v \<longleftrightarrow>
     (\<exists>m. valid_catalog db m \<and> v = (catalog_generation m, created_at m))"
  by (auto simp: validateCatalogDatabase_def pragmaInteger_def quickCheck_def catalogMetadata_def
      valid_catalog_def CATALOG_SUPPORTED_SCHEMA_VERSIONS_def CATALOG_SCHEMA_VERSION_def
      split: option.splits if_splits sum.splits)

section \<open>Sources\<close>

datatype CatalogSource = SourceFile string | SourceUrl string | SourcePointer string

text \<open>A parsed URL, as far as the code reads and writes it.\<close>

record js_url =
  url_origin :: string
  url_pathname :: string
  url_search :: string
  url_hash :: string

definition url_href :: "js_url \<Rightarrow> string" where
  "url_href u = url_origin u @ url_pathname u @ url_search u @ url_hash u"

record release_pointer =
  protocol_version :: int
  generation :: string
  catalog_key :: string
  root_key :: string
  sha256 :: string
  size_bytes :: int

definition pointer_suffix :: string where
  "pointer_suffix = ''/_catalog/current.json''"

definition releaseCatalogUrl :: "js_url \<Rightarrow> string \<Rightarrow> string + string" where
  "releaseCatalogUrl pointer catalogKey =
     (if \<not> endsWith (url_pathname pointer) pointer_suffix
      then Inl ''Catalog release pointer URL must end with /_catalog/current.json''
      else let rootPath = take (length (url_pathname pointer) - (length pointer_suffix - 1))
                               (url_pathname pointer)
           in Inr (url_href (pointer\<lparr>url_pathname := rootPath @ catalogKey,
                                     url_search := '''', url_hash := ''''\<rparr>)))"

text \<open>A response: status, the headers that are read, and the body.\<close>

record 'b http_response =
  status_code :: nat
  etag :: "string option"
  content_length :: "string option"
  goog_sha256 :: "string option"
  amz_sha256 :: "string option"
  body :: 'b

definition response_ok :: "('b, 'z) http_response_scheme \<Rightarrow> bool" where
  "response_ok r = (200 \<le> status_code r \<and> status_code r \<le> 299)"

record snapshot =
  snap_fingerprint :: string
  snap_url :: "string option"

definition fileSnapshot :: "string \<Rightarrow> string \<Rightarrow> snapshot" where
  "fileSnapshot bytes mtimeMs = \<lparr>snap_fingerprint = bytes @ '':'' @ mtimeMs, snap_url = None\<rparr>"

definition pointer_in_release :: "release_pointer \<Rightarrow> bool" where
  "pointer_in_release p =
     (let releasePrefix = ''releases/'' @ generation p @ ''/'' in
      startsWith (catalog_key p) releasePrefix \<and>
      catalog_key p = releasePrefix @ ''_catalog/catalog.sqlite'' \<and>
      root_key p = releasePrefix @ ''catalog.json'')"

text \<open>
  The body of the pointer response is \<open>None\<close> when \<open>releasePointerSchema.parse\<close> throws.
\<close>

definition pointerSnapshot ::
  "js_url \<Rightarrow> release_pointer option http_response \<Rightarrow> string + snapshot" where
  "pointerSnapshot url response =
     (if \<not> response_ok response
      then Inl (''Catalog release pointer fetch failed: '' @ show_nat (status_code response))
      else case body response of None \<Rightarrow> Inl ''ZodError''
      | Some pointer \<Rightarrow>
        if \<not> pointer_in_release pointer
        then Inl ''Catalog release pointer escapes its selected release''
        else case releaseCatalogUrl url (catalog_key pointer) of Inl e \<Rightarrow> Inl e
        | Inr catalogUrl \<Rightarrow>
            Inr \<lparr>snap_fingerprint = (case etag response of Some t \<Rightarrow> t
                   | None \<Rightarrow> generation pointer @ '':'' @ sha256 pointer),
                 snap_url = Some catalogUrl\<rparr>)"

text \<open>
  \<open>write\<close> of a pointer source: the bytes reach the disk only when length and checksum agree.
  \<open>sha256hex\<close> is the digest of \<open>node:crypto\<close>.
\<close>

definition pointerWrite ::
  "('byte list \<Rightarrow> string) \<Rightarrow> release_pointer \<Rightarrow> 'byte list http_response \<Rightarrow> string + 'byte list" where
  "pointerWrite sha256hex pointer catalog =
     (if \<not> response_ok catalog
      then Inl (''Catalog release download failed: '' @ show_nat (status_code catalog))
      else if int (length (body catalog)) \<noteq> size_bytes pointer
      then Inl ''Catalog release content length does not match pointer''
      else if sha256hex (body catalog) \<noteq> sha256 pointer
      then Inl ''Catalog release checksum does not match pointer''
      else Inr (body catalog))"

definition nonempty_header :: "string option \<Rightarrow> bool" where
  "nonempty_header h = (case h of None \<Rightarrow> False | Some v \<Rightarrow> v \<noteq> [])"

definition url_sha256 :: "('b, 'z) http_response_scheme \<Rightarrow> string option" where
  "url_sha256 h = (case goog_sha256 h of Some v \<Rightarrow> Some v | None \<Rightarrow> amz_sha256 h)"

definition urlSnapshot :: "string \<Rightarrow> unit http_response \<Rightarrow> string + snapshot" where
  "urlSnapshot url head =
     (if \<not> response_ok head
      then Inl (''Catalog SQLite HEAD failed: '' @ show_nat (status_code head))
      else if \<not> nonempty_header (etag head) \<or> \<not> nonempty_header (content_length head)
              \<or> \<not> nonempty_header (url_sha256 head)
      then Inl ''Catalog SQLite metadata must include ETag, content length, and SHA-256''
      else let n = js_Number_string (the (content_length head)) in
           if isInteger n \<and> js_leq (JsFin 0) n
           then Inr \<lparr>snap_fingerprint = the (etag head), snap_url = Some url\<rparr>
           else Inl ''ZodError'')"

definition urlWrite ::
  "('byte list \<Rightarrow> string) \<Rightarrow> nat \<Rightarrow> string \<Rightarrow> 'byte list http_response \<Rightarrow> string + 'byte list" where
  "urlWrite sha256hex expectedLength expectedSha256 response =
     (if status_code response = 412 then Inl ''Catalog SQLite changed during download''
      else if \<not> response_ok response
      then Inl (''Catalog SQLite download failed: '' @ show_nat (status_code response))
      else if length (body response) \<noteq> expectedLength
      then Inl ''Catalog SQLite content length does not match metadata''
      else if sha256hex (body response) \<noteq> toLowerCase expectedSha256
      then Inl ''Catalog SQLite checksum does not match metadata''
      else Inr (body response))"

lemma pointerWrite_Inr:
  "pointerWrite sha256hex p r = Inr bytes \<longleftrightarrow>
     response_ok r \<and> body r = bytes \<and> int (length bytes) = size_bytes p \<and> sha256hex bytes = sha256 p"
  by (auto simp: pointerWrite_def)

lemma urlWrite_Inr:
  "urlWrite sha256hex n d r = Inr bytes \<longleftrightarrow>
     response_ok r \<and> body r = bytes \<and> length bytes = n \<and> sha256hex bytes = toLowerCase d"
  by (auto simp: urlWrite_def response_ok_def)

lemma take_before_suffix:
  "take (length (base @ s) - (length s - 1)) (base @ s) = base @ take 1 s"
  by (cases s) (auto simp: take_Cons')

lemma releaseCatalogUrl_append:
  assumes "url_pathname u = base @ pointer_suffix"
  shows "releaseCatalogUrl u key = Inr (url_origin u @ base @ ''/'' @ key)"
proof -
  have "take (length (url_pathname u) - (length pointer_suffix - 1)) (url_pathname u)
        = base @ ''/''"
    unfolding assms take_before_suffix by (simp add: pointer_suffix_def)
  then show ?thesis
    by (simp add: releaseCatalogUrl_def endsWith_def assms url_href_def)
qed

section \<open>Statements\<close>

text \<open>
  A database is accepted exactly when it carries the application ID, a supported schema
  version that its metadata repeats, a clean quick check and non-empty metadata; the accepted
  generation and date are those of the metadata row.
\<close>

theorem validation_accepts_exactly:
  "validateCatalogDatabase db = Inr (gen, created) \<longleftrightarrow>
     (\<exists>m. application_id db = Some 1212761676 \<and> user_version db = Some (schema_version m) \<and>
          schema_version m \<in> {1, 2} \<and> quick_check db = Some ''ok'' \<and> metadata_row db = Some m \<and>
          gen = catalog_generation m \<and> gen \<noteq> [] \<and> created = created_at m \<and> created \<noteq> [])"
  unfolding validateCatalogDatabase_Inr
  by (auto simp: valid_catalog_def CATALOG_APPLICATION_ID_def metadataSchema_ok_def)

text \<open>
  C4: a release pointer cannot name a catalog outside its own release. When the snapshot of a
  pointer source is accepted, the catalog URL is the pointer URL with the tail
  \<open>/_catalog/current.json\<close> replaced by the catalog of the named release, on the same origin,
  and the fingerprint is the ETag or else identifies generation and digest.
\<close>

theorem pointer_stays_in_release:
  assumes "pointerSnapshot url response = Inr snap"
  shows "\<exists>p base. body response = Some p \<and> url_pathname url = base @ ''/_catalog/current.json'' \<and>
     snap_url snap = Some (url_origin url @ base @ ''/releases/'' @ generation p
                           @ ''/_catalog/catalog.sqlite'') \<and>
     root_key p = ''releases/'' @ generation p @ ''/catalog.json'' \<and>
     snap_fingerprint snap = (case etag response of Some t \<Rightarrow> t
       | None \<Rightarrow> generation p @ '':'' @ sha256 p)"
proof -
  obtain p cu where p: "body response = Some p" "pointer_in_release p"
      "releaseCatalogUrl url (catalog_key p) = Inr cu"
    and snap: "snap = \<lparr>snap_fingerprint = (case etag response of Some t \<Rightarrow> t
        | None \<Rightarrow> generation p @ '':'' @ sha256 p), snap_url = Some cu\<rparr>"
    using assms by (auto simp: pointerSnapshot_def split: if_splits option.splits sum.splits)
  have "endsWith (url_pathname url) pointer_suffix"
    using p(3) by (auto simp: releaseCatalogUrl_def split: if_splits)
  then obtain base where base: "url_pathname url = base @ pointer_suffix"
    unfolding endsWith_def by (metis append_take_drop_id)
  have "cu = url_origin url @ base @ ''/'' @ catalog_key p"
    using p(3) releaseCatalogUrl_append [OF base] by simp
  with p base snap show ?thesis
    by (auto simp: pointer_in_release_def pointer_suffix_def Let_def intro!: exI [of _ p] exI [of _ base])
qed

definition sample_pointer :: release_pointer where
  "sample_pointer = \<lparr>protocol_version = 1, generation = ''g'',
     catalog_key = ''releases/g/_catalog/catalog.sqlite'', root_key = ''releases/g/catalog.json'',
     sha256 = ''00'', size_bytes = 2\<rparr>"

definition sample_pointer_url :: js_url where
  "sample_pointer_url = \<lparr>url_origin = ''https://x'', url_pathname = ''/b/_catalog/current.json'',
     url_search = ''?v=1'', url_hash = ''''\<rparr>"

theorem pointer_stays_in_release_witness:
  "\<exists>snap. pointerSnapshot sample_pointer_url
       \<lparr>status_code = 200, etag = None, content_length = None, goog_sha256 = None, amz_sha256 = None,
        body = Some sample_pointer\<rparr> = Inr snap \<and>
     snap_url snap = Some ''https://x/b/releases/g/_catalog/catalog.sqlite''"
proof -
  let ?r = "\<lparr>status_code = 200, etag = None, content_length = None, goog_sha256 = None,
    amz_sha256 = None, body = Some sample_pointer\<rparr>"
  have ok: "pointerSnapshot sample_pointer_url ?r
    = Inr \<lparr>snap_fingerprint = ''g:00'', snap_url = Some ''https://x/b/releases/g/_catalog/catalog.sqlite''\<rparr>"
    by code_simp
  from pointer_stays_in_release [OF this] ok show ?thesis by simp
qed


end
