(* ===== verification/CatalogLifecycle.thy ===== *)
theory CatalogLifecycle
  imports CatalogCandidate
begin

text \<open>
  The class \<open>CatalogLifecycle\<close> of \<open>webapp/src/lib/catalog-repository.ts\<close>, which swaps
  immutable SQLite repositories under running reads, and \<open>webapp/src/lib/catalog-runtime.ts\<close>,
  which starts it once.

  The class is a state machine. A transition is the code that runs between two \<open>await\<close>s; the
  environment (network, file system, readers) delivers the results. \<open>lc_closed\<close>, \<open>lc_next\<close> and
  \<open>lc_readers\<close> are not fields of the class: the first lists the repositories on which
  \<open>close()\<close> has been called, the second numbers repository objects by their creation, the
  third holds the local variable \<open>repository\<close> of each call of \<open>withSnapshot\<close> that has not
  reached its \<open>finally\<close> block.
\<close>

section \<open>State\<close>

record repository =
  repo_id :: nat
  repo_generation :: string

text \<open>Where a refresh waits: the \<open>await\<close>s of \<open>#refreshImpl\<close> in their order.\<close>

datatype refresh_phase =
    AwaitSnapshot
  | AwaitMkdtemp snapshot
  | AwaitWrite snapshot
  | AwaitRename snapshot

record lifecycle =
  lc_repository :: "repository option"
  lc_directory :: "string option"
  lc_fingerprint :: "string option"
  lc_lastSuccessfulRefresh :: "string option"
  lc_lastError :: "string option"
  lc_activeUrl :: "string option"
  lc_refreshing :: "refresh_phase option"
  lc_leases :: "(nat \<times> nat) list"
  lc_retired :: "nat list"
  lc_closed :: "nat list"
  lc_readers :: "(nat \<times> nat) list"
  lc_next :: nat

definition new_lifecycle :: lifecycle where
  "new_lifecycle = \<lparr>lc_repository = None, lc_directory = None, lc_fingerprint = None,
     lc_lastSuccessfulRefresh = None, lc_lastError = None, lc_activeUrl = None,
     lc_refreshing = None, lc_leases = [], lc_retired = [], lc_closed = [], lc_readers = [],
     lc_next = 0\<rparr>"

record catalog_status =
  st_generation :: "string option"
  st_lastSuccessfulRefresh :: "string option"
  st_lastError :: "string option"

definition status :: "lifecycle \<Rightarrow> catalog_status" where
  "status s = \<lparr>st_generation = map_option repo_generation (lc_repository s),
     st_lastSuccessfulRefresh = lc_lastSuccessfulRefresh s, st_lastError = lc_lastError s\<rparr>"

definition leases_of :: "lifecycle \<Rightarrow> nat \<Rightarrow> nat" where
  "leases_of s r = (case map_of (lc_leases s) r of None \<Rightarrow> 0 | Some n \<Rightarrow> n)"

definition close_repository :: "nat \<Rightarrow> lifecycle \<Rightarrow> lifecycle" where
  "close_repository r s = s\<lparr>lc_closed := lc_closed s @ [r]\<rparr>"

section \<open>Reads\<close>

text \<open>
  \<open>withSnapshot\<close> up to its \<open>await\<close>: without a repository the call returns \<open>null\<close> and nothing
  changes. The call is numbered by \<open>k\<close>.
\<close>

definition withSnapshot_begin :: "nat \<Rightarrow> lifecycle \<Rightarrow> lifecycle" where
  "withSnapshot_begin k s =
     (case lc_repository s of None \<Rightarrow> s
      | Some repo \<Rightarrow>
          s\<lparr>lc_leases := map_set (repo_id repo) (leases_of s (repo_id repo) + 1) (lc_leases s),
            lc_readers := (k, repo_id repo) # lc_readers s\<rparr>)"

text \<open>The \<open>finally\<close> block of the call, whether the read returned or threw.\<close>

definition withSnapshot_finally :: "nat \<Rightarrow> lifecycle \<Rightarrow> lifecycle" where
  "withSnapshot_finally r s =
     (let remaining = (case map_of (lc_leases s) r of None \<Rightarrow> 1 | Some n \<Rightarrow> n) - 1 in
      if remaining = 0
      then (let s1 = s\<lparr>lc_leases := map_delete r (lc_leases s)\<rparr> in
            if r \<in> set (lc_retired s1)
            then close_repository r (s1\<lparr>lc_retired := remove1 r (lc_retired s1)\<rparr>)
            else s1)
      else s\<lparr>lc_leases := map_set r remaining (lc_leases s)\<rparr>)"

definition withSnapshot_end :: "nat \<Rightarrow> lifecycle \<Rightarrow> lifecycle" where
  "withSnapshot_end k s =
     (case map_of (lc_readers s) k of None \<Rightarrow> s
      | Some r \<Rightarrow> withSnapshot_finally r (s\<lparr>lc_readers := AList.delete k (lc_readers s)\<rparr>))"

section \<open>Refresh\<close>

text \<open>\<open>refresh()\<close>: a refresh in flight is joined, never doubled.\<close>

definition refresh :: "lifecycle \<Rightarrow> lifecycle" where
  "refresh s = (if lc_refreshing s = None then s\<lparr>lc_refreshing := Some AwaitSnapshot\<rparr> else s)"

text \<open>The \<open>catch\<close> block, and the \<open>finally\<close> of \<open>refresh()\<close>.\<close>

definition refresh_failed :: "string \<Rightarrow> lifecycle \<Rightarrow> lifecycle" where
  "refresh_failed e s = s\<lparr>lc_lastError := Some e, lc_refreshing := None\<rparr>"

definition refresh_snapshot :: "string + snapshot \<Rightarrow> lifecycle \<Rightarrow> lifecycle" where
  "refresh_snapshot result s =
     (case result of Inl e \<Rightarrow> refresh_failed e s
      | Inr source \<Rightarrow>
          if Some (snap_fingerprint source) = lc_fingerprint s \<and> lc_repository s \<noteq> None
          then s\<lparr>lc_refreshing := None\<rparr>
          else if lc_directory s = None then s\<lparr>lc_refreshing := Some (AwaitMkdtemp source)\<rparr>
          else s\<lparr>lc_refreshing := Some (AwaitWrite source)\<rparr>)"

definition refresh_mkdtemp :: "snapshot \<Rightarrow> string + string \<Rightarrow> lifecycle \<Rightarrow> lifecycle" where
  "refresh_mkdtemp source result s =
     (case result of Inl e \<Rightarrow> refresh_failed e s
      | Inr dir \<Rightarrow> s\<lparr>lc_directory := Some dir, lc_refreshing := Some (AwaitWrite source)\<rparr>)"

text \<open>
  After the write the candidate is validated; \<open>join(null, ...)\<close> throws when \<open>close()\<close> has
  cleared the directory meanwhile.
\<close>

definition refresh_written :: "snapshot \<Rightarrow> string + catalog_db \<Rightarrow> lifecycle \<Rightarrow> lifecycle" where
  "refresh_written source result s =
     (case result of Inl e \<Rightarrow> refresh_failed e s
      | Inr db \<Rightarrow>
          (case validateCatalogDatabase db of Inl e \<Rightarrow> refresh_failed e s
           | Inr _ \<Rightarrow>
               if lc_directory s = None then refresh_failed ''TypeError'' s
               else s\<lparr>lc_refreshing := Some (AwaitRename source)\<rparr>))"

text \<open>
  From the \<open>rename\<close> to the end nothing is awaited. \<open>opened\<close> is the file at \<open>active.sqlite\<close>
  as the constructor of \<open>SQLiteCatalogRepository\<close> finds it, which validates it again.
\<close>

definition install_repository :: "repository \<Rightarrow> snapshot \<Rightarrow> string \<Rightarrow> lifecycle \<Rightarrow> lifecycle" where
  "install_repository candidate source now s =
     (let s1 = s\<lparr>lc_repository := Some candidate, lc_next := Suc (lc_next s),
                 lc_fingerprint := Some (snap_fingerprint source),
                 lc_activeUrl := snap_url source,
                 lc_lastSuccessfulRefresh := Some now, lc_lastError := None,
                 lc_refreshing := None\<rparr>
      in case lc_repository s of None \<Rightarrow> s1
         | Some previous \<Rightarrow>
             if leases_of s1 (repo_id previous) = 0 then close_repository (repo_id previous) s1
             else s1\<lparr>lc_retired := set_add (repo_id previous) (lc_retired s1)\<rparr>)"

definition refresh_renamed ::
  "snapshot \<Rightarrow> string + catalog_db \<Rightarrow> string \<Rightarrow> lifecycle \<Rightarrow> lifecycle" where
  "refresh_renamed source opened now s =
     (case opened of Inl e \<Rightarrow> refresh_failed e s
      | Inr db \<Rightarrow>
          (case validateCatalogDatabase db of Inl e \<Rightarrow> refresh_failed e s
           | Inr (gen, _) \<Rightarrow>
               install_repository \<lparr>repo_id = lc_next s, repo_generation = gen\<rparr> source now s))"

text \<open>\<open>start()\<close> after its \<open>await this.refresh()\<close>, whose value is \<open>refreshed\<close>.\<close>

definition start :: "bool \<Rightarrow> lifecycle \<Rightarrow> string + unit" where
  "start refreshed s =
     (if \<not> refreshed \<or> lc_repository s = None
      then Inl (case lc_lastError s of Some e \<Rightarrow> e | None \<Rightarrow> ''Catalog is unavailable'')
      else Inr ())"

section \<open>Closing\<close>

text \<open>\<open>close()\<close> up to the removal of the directory, and after it.\<close>

definition close_begin :: "lifecycle \<Rightarrow> lifecycle" where
  "close_begin s =
     s\<lparr>lc_closed := lc_closed s
                    @ (case lc_repository s of None \<Rightarrow> [] | Some repo \<Rightarrow> [repo_id repo])
                    @ lc_retired s,
       lc_retired := [], lc_repository := None\<rparr>"

definition close_end :: "lifecycle \<Rightarrow> lifecycle" where
  "close_end s = s\<lparr>lc_directory := None\<rparr>"

section \<open>Events\<close>

datatype event =
    ReadBegin nat
  | ReadEnd nat
  | Refresh
  | SnapshotResult "string + snapshot"
  | MkdtempResult "string + string"
  | WriteResult "string + catalog_db"
  | RenameResult "string + catalog_db" string
  | CloseBegin
  | CloseEnd

text \<open>
  One transition. A result that no \<open>await\<close> waits for cannot arrive; a read number is used once
  at a time.
\<close>

fun lifecycle_step :: "event \<Rightarrow> lifecycle \<Rightarrow> lifecycle" where
  "lifecycle_step (ReadBegin k) s =
     (if k \<in> fst ` set (lc_readers s) then s else withSnapshot_begin k s)"
| "lifecycle_step (ReadEnd k) s = withSnapshot_end k s"
| "lifecycle_step Refresh s = refresh s"
| "lifecycle_step (SnapshotResult x) s =
     (case lc_refreshing s of Some AwaitSnapshot \<Rightarrow> refresh_snapshot x s | _ \<Rightarrow> s)"
| "lifecycle_step (MkdtempResult x) s =
     (case lc_refreshing s of Some (AwaitMkdtemp src) \<Rightarrow> refresh_mkdtemp src x s | _ \<Rightarrow> s)"
| "lifecycle_step (WriteResult x) s =
     (case lc_refreshing s of Some (AwaitWrite src) \<Rightarrow> refresh_written src x s | _ \<Rightarrow> s)"
| "lifecycle_step (RenameResult x now) s =
     (case lc_refreshing s of Some (AwaitRename src) \<Rightarrow> refresh_renamed src x now s | _ \<Rightarrow> s)"
| "lifecycle_step CloseBegin s = close_begin s"
| "lifecycle_step CloseEnd s = close_end s"

definition lifecycle_run :: "event list \<Rightarrow> lifecycle \<Rightarrow> lifecycle" where
  "lifecycle_run es s = fold lifecycle_step es s"

inductive reachable :: "lifecycle \<Rightarrow> bool" where
  reachable_new: "reachable new_lifecycle"
| reachable_step: "reachable s \<Longrightarrow> reachable (lifecycle_step e s)"

text \<open>Reachable while nobody has called \<open>close()\<close>: the lifetime of the server process.\<close>

inductive serving :: "lifecycle \<Rightarrow> bool" where
  serving_new: "serving new_lifecycle"
| serving_step: "serving s \<Longrightarrow> e \<noteq> CloseBegin \<Longrightarrow> e \<noteq> CloseEnd \<Longrightarrow> serving (lifecycle_step e s)"

section \<open>Invariant\<close>

definition readers_of :: "lifecycle \<Rightarrow> nat \<Rightarrow> nat" where
  "readers_of s r = length (filter (\<lambda>(k, x). x = r) (lc_readers s))"

text \<open>
  Leases count the running reads; a retired repository is leased, not current and not closed;
  nothing is closed twice; every repository object ever created is current, retired or closed.
\<close>

definition lifecycle_inv :: "lifecycle \<Rightarrow> bool" where
  "lifecycle_inv s \<longleftrightarrow>
     distinct (map fst (lc_readers s)) \<and>
     (\<forall>r. map_of (lc_leases s) r = (if readers_of s r = 0 then None else Some (readers_of s r))) \<and>
     distinct (lc_retired s @ lc_closed s @ (case lc_repository s of None \<Rightarrow> [] | Some p \<Rightarrow> [repo_id p])) \<and>
     (\<forall>r \<in> set (lc_retired s). 0 < readers_of s r) \<and>
     set (lc_retired s @ lc_closed s @ (case lc_repository s of None \<Rightarrow> [] | Some p \<Rightarrow> [repo_id p]))
       = {..<lc_next s} \<and>
     snd ` set (lc_readers s) \<subseteq> {..<lc_next s}"

text \<open>What \<open>close()\<close> can break: a repository that a read holds is open.\<close>

definition readers_open :: "lifecycle \<Rightarrow> bool" where
  "readers_open s \<longleftrightarrow> (\<forall>(k, r) \<in> set (lc_readers s). r \<notin> set (lc_closed s))"

named_theorems lifecycle_defs \<open>the operations of the lifecycle, for unfolding in one step\<close>

declare withSnapshot_begin_def [lifecycle_defs] withSnapshot_end_def [lifecycle_defs]
  withSnapshot_finally_def [lifecycle_defs] refresh_def [lifecycle_defs]
  refresh_failed_def [lifecycle_defs] refresh_snapshot_def [lifecycle_defs]
  refresh_mkdtemp_def [lifecycle_defs] refresh_written_def [lifecycle_defs]
  refresh_renamed_def [lifecycle_defs] install_repository_def [lifecycle_defs]
  close_begin_def [lifecycle_defs] close_end_def [lifecycle_defs]
  close_repository_def [lifecycle_defs]

text \<open>The fields the invariant reads.\<close>

definition same_core :: "lifecycle \<Rightarrow> lifecycle \<Rightarrow> bool" where
  "same_core s t \<longleftrightarrow> lc_repository t = lc_repository s \<and> lc_leases t = lc_leases s \<and>
     lc_retired t = lc_retired s \<and> lc_closed t = lc_closed s \<and> lc_readers t = lc_readers s \<and>
     lc_next t = lc_next s"

lemma same_core_refl [simp]: "same_core s s"
  by (simp add: same_core_def)

lemma same_core_inv: "same_core s t \<Longrightarrow> lifecycle_inv s \<Longrightarrow> lifecycle_inv t"
  by (simp add: same_core_def lifecycle_inv_def readers_of_def)

lemma same_core_readers_open: "same_core s t \<Longrightarrow> readers_open s \<Longrightarrow> readers_open t"
  by (simp add: same_core_def readers_open_def)

text \<open>Until the rename has succeeded a refresh changes none of them.\<close>

lemma refresh_same_core [simp]:
  "same_core s (refresh s)"
  "same_core s (refresh_failed e s)"
  "same_core s (refresh_snapshot x s)"
  "same_core s (refresh_mkdtemp src y s)"
  "same_core s (refresh_written src z s)"
  "same_core s (close_end s)"
  by (auto simp: same_core_def lifecycle_defs split: sum.splits)

lemma leases_of_readers: "lifecycle_inv s \<Longrightarrow> leases_of s r = readers_of s r"
  by (simp add: lifecycle_inv_def leases_of_def)

lemma inv_new: "lifecycle_inv new_lifecycle"
  by (auto simp: lifecycle_inv_def new_lifecycle_def readers_of_def)

lemma readers_of_Cons:
  "readers_of (s\<lparr>lc_readers := (k, x) # lc_readers s\<rparr>) r = (if x = r then 1 else 0) + readers_of s r"
  by (simp add: readers_of_def)

lemma length_filter_delete:
  assumes "distinct (map fst xs)" "map_of xs k = Some x"
  shows "length (filter (\<lambda>(k, y). y = r) xs)
         = (if x = r then 1 else 0) + length (filter (\<lambda>(k, y). y = r) (AList.delete k xs))"
  using assms by (induction xs) (auto simp: delete_conv split: if_splits)

lemma readers_of_pos: "(k, r) \<in> set (lc_readers s) \<Longrightarrow> 0 < readers_of s r"
  by (auto simp: readers_of_def filter_empty_conv intro!: bexI [of _ "(k, r)"])

lemma inv_withSnapshot_begin:
  assumes inv: "lifecycle_inv s" and fresh: "k \<notin> fst ` set (lc_readers s)"
  shows "lifecycle_inv (withSnapshot_begin k s)"
proof (cases "lc_repository s")
  case None
  with inv show ?thesis by (simp add: withSnapshot_begin_def)
next
  case (Some p)
  have cur: "repo_id p < lc_next s"
    using inv Some by (auto simp: lifecycle_inv_def)
  have rd: "readers_of (withSnapshot_begin k s) r = (if repo_id p = r then 1 else 0) + readers_of s r" for r
    by (simp add: withSnapshot_begin_def Some readers_of_def)
  show ?thesis
    using inv fresh cur
    unfolding lifecycle_inv_def rd
    by (auto simp: withSnapshot_begin_def Some leases_of_def split: option.splits if_splits)
qed

lemma inv_withSnapshot_end:
  assumes inv: "lifecycle_inv s"
  shows "lifecycle_inv (withSnapshot_end k s)"
proof (cases "map_of (lc_readers s) k")
  case None
  with inv show ?thesis by (simp add: withSnapshot_end_def)
next
  case (Some x)
  let ?t = "withSnapshot_end k s"
  have dist: "distinct (map fst (lc_readers s))" using inv by (simp add: lifecycle_inv_def)
  have readers: "lc_readers ?t = AList.delete k (lc_readers s)"
    by (simp add: withSnapshot_end_def Some withSnapshot_finally_def close_repository_def Let_def)
  define n where "n = readers_of ?t"
  have rd: "readers_of s r = (if x = r then 1 else 0) + n r" for r
    unfolding n_def readers_of_def readers using dist Some by (rule length_filter_delete)
  have lease: "map_of (lc_leases s) x = Some (Suc (n x))"
    using inv rd [of x] by (auto simp: lifecycle_inv_def)
  have other: "map_of (lc_leases s) r = (if n r = 0 then None else Some (n r))" if "r \<noteq> x" for r
    using inv rd [of r] that by (auto simp: lifecycle_inv_def)
  have dist_t: "distinct (map fst (lc_readers ?t))"
    unfolding readers using dist by (rule distinct_delete)
  have sub: "snd ` set (lc_readers ?t) \<subseteq> {..<lc_next s}"
    unfolding readers using inv by (auto simp: lifecycle_inv_def AList.delete_eq)
  let ?cur = "case lc_repository s of None \<Rightarrow> [] | Some p \<Rightarrow> [repo_id p]"
  have D: "distinct (lc_retired s @ lc_closed s @ ?cur)"
    and S: "set (lc_retired s @ lc_closed s @ ?cur) = {..<lc_next s}"
    using inv by (auto simp: lifecycle_inv_def)
  have ret: "\<forall>r \<in> set (lc_retired s). r \<noteq> x \<longrightarrow> 0 < n r"
    using inv rd by (auto simp: lifecycle_inv_def)
  have frame: "lc_repository ?t = lc_repository s" "lc_next ?t = lc_next s"
    by (simp_all add: withSnapshot_end_def Some withSnapshot_finally_def close_repository_def Let_def)
  have eqs: "lc_leases ?t = (if n x = 0 then map_delete x (lc_leases s) else map_set x (n x) (lc_leases s))"
    "lc_retired ?t = (if n x = 0 then remove1 x (lc_retired s) else lc_retired s)"
    "lc_closed ?t = (if n x = 0 \<and> x \<in> set (lc_retired s) then lc_closed s @ [x] else lc_closed s)"
    by (auto simp: withSnapshot_end_def Some withSnapshot_finally_def close_repository_def lease
        remove1_idem Let_def)
  have leases_t: "map_of (lc_leases ?t) r = (if n r = 0 then None else Some (n r))" for r
    using other [of r] by (cases "r = x") (auto simp: eqs lease)
  have lists: "distinct (lc_retired ?t @ lc_closed ?t @ ?cur) \<and>
     set (lc_retired ?t @ lc_closed ?t @ ?cur) = {..<lc_next s} \<and>
     (\<forall>r \<in> set (lc_retired ?t). 0 < n r)"
  proof (cases "n x = 0 \<and> x \<in> set (lc_retired s)")
    case True
    have eq: "set (lc_retired ?t) = set (lc_retired s) - {x}"
      using D True by (auto simp: eqs)
    have "set (lc_retired ?t @ lc_closed ?t @ ?cur) = set (lc_retired s @ lc_closed s @ ?cur)"
      using True eq by (auto simp: eqs)
    moreover have "distinct (lc_retired ?t @ lc_closed ?t @ ?cur)"
      using True eq D by (auto simp: eqs)
    ultimately show ?thesis using S ret eq by auto
  next
    case False
    then have "lc_retired ?t = lc_retired s" "lc_closed ?t = lc_closed s"
      by (auto simp: eqs remove1_idem)
    with False D S ret show ?thesis by auto
  qed
  show ?thesis
    unfolding lifecycle_inv_def n_def [symmetric] frame using dist_t leases_t lists sub by blast
qed

lemma inv_install_repository:
  assumes inv: "lifecycle_inv s"
  shows "lifecycle_inv (install_repository \<lparr>repo_id = lc_next s, repo_generation = g\<rparr> src now s)"
proof -
  let ?t = "install_repository \<lparr>repo_id = lc_next s, repo_generation = g\<rparr> src now s"
  have frame: "lc_readers ?t = lc_readers s" "lc_leases ?t = lc_leases s"
    "lc_next ?t = Suc (lc_next s)" "lc_repository ?t = Some \<lparr>repo_id = lc_next s, repo_generation = g\<rparr>"
    by (auto simp: install_repository_def close_repository_def Let_def split: option.splits)
  have rd: "readers_of ?t r = readers_of s r" for r
    by (simp add: readers_of_def frame)
  have lease: "leases_of (s\<lparr>lc_repository := a, lc_next := b, lc_fingerprint := c, lc_activeUrl := d,
      lc_lastSuccessfulRefresh := e, lc_lastError := f, lc_refreshing := h\<rparr>) r = readers_of s r"
    for a b c d e f h r
    using leases_of_readers [OF inv] by (simp add: leases_of_def)
  let ?old = "case lc_repository s of None \<Rightarrow> [] | Some p \<Rightarrow> [repo_id p]"
  have D: "distinct (lc_retired s @ lc_closed s @ ?old)"
    and S: "set (lc_retired s @ lc_closed s @ ?old) = {..<lc_next s}"
    using inv by (auto simp: lifecycle_inv_def)
  then have new: "lc_next s \<notin> set (lc_retired s @ lc_closed s @ ?old)" by simp
  have lists: "distinct (lc_retired ?t @ lc_closed ?t) \<and>
      set (lc_retired ?t @ lc_closed ?t) = {..<lc_next s} \<and>
      (\<forall>r \<in> set (lc_retired ?t). r \<in> set (lc_retired s) \<or> 0 < readers_of s r)"
  proof (cases "lc_repository s")
    case None
    with D S show ?thesis by (simp add: install_repository_def Let_def)
  next
    case (Some p)
    with D S show ?thesis
      by (simp add: install_repository_def Let_def lease close_repository_def set_add_def)
  qed
  from inv lists new S show ?thesis
    unfolding lifecycle_inv_def rd frame by (auto simp: lessThan_Suc)
qed

lemma inv_close_begin: "lifecycle_inv s \<Longrightarrow> lifecycle_inv (close_begin s)"
  by (auto simp: close_begin_def lifecycle_inv_def readers_of_def split: option.splits)

lemma inv_step: "lifecycle_inv s \<Longrightarrow> lifecycle_inv (lifecycle_step e s)"
proof (cases e)
  case (RenameResult x now)
  assume inv: "lifecycle_inv s"
  with RenameResult show ?thesis
    by (auto simp: refresh_renamed_def intro: same_core_inv [OF refresh_same_core(2)]
        inv_install_repository split: option.splits refresh_phase.splits sum.splits)
qed (auto simp: inv_withSnapshot_begin inv_withSnapshot_end inv_close_begin
       intro: same_core_inv refresh_same_core split: option.splits refresh_phase.splits)

lemma reachable_inv: "reachable s \<Longrightarrow> lifecycle_inv s"
  by (induction rule: reachable.induct) (auto simp: inv_new inv_step)

section \<open>Properties\<close>

lemma serving_reachable: "serving s \<Longrightarrow> reachable s"
  by (induction rule: serving.induct) (auto intro: reachable.intros)

lemma serving_run:
  "serving s \<Longrightarrow> \<forall>e \<in> set es. e \<noteq> CloseBegin \<and> e \<noteq> CloseEnd \<Longrightarrow> serving (lifecycle_run es s)"
  unfolding lifecycle_run_def by (induction es arbitrary: s) (auto intro: serving.intros)

lemma reachable_run: "reachable s \<Longrightarrow> reachable (lifecycle_run es s)"
  unfolding lifecycle_run_def by (induction es arbitrary: s) (auto intro: reachable.intros)

lemma readers_open_iff: "readers_open s \<longleftrightarrow> (\<forall>r \<in> set (lc_closed s). readers_of s r = 0)"
  by (auto simp: readers_open_def readers_of_def filter_empty_conv)

text \<open>A read that ends closes at most the repository nobody holds any more.\<close>

lemma readers_open_withSnapshot_end:
  assumes inv: "lifecycle_inv s" and open_s: "readers_open s"
  shows "readers_open (withSnapshot_end k s)"
proof (cases "map_of (lc_readers s) k")
  case None
  with open_s show ?thesis by (simp add: withSnapshot_end_def)
next
  case (Some x)
  let ?t = "withSnapshot_end k s"
  define n where "n = readers_of ?t"
  have readers: "lc_readers ?t = AList.delete k (lc_readers s)"
    by (simp add: withSnapshot_end_def Some withSnapshot_finally_def close_repository_def Let_def)
  have rd: "readers_of s r = (if x = r then 1 else 0) + n r" for r
    unfolding n_def readers_of_def readers
    using inv Some by (intro length_filter_delete) (auto simp: lifecycle_inv_def)
  have lease: "map_of (lc_leases s) x = Some (Suc (n x))"
    using inv rd [of x] by (auto simp: lifecycle_inv_def)
  have "lc_closed ?t = (if n x = 0 \<and> x \<in> set (lc_retired s) then lc_closed s @ [x] else lc_closed s)"
    by (auto simp: withSnapshot_end_def Some withSnapshot_finally_def close_repository_def lease Let_def)
  moreover have "n r = 0" if "r \<in> set (lc_closed s)" for r
    using open_s rd [of r] that by (auto simp: readers_open_iff)
  ultimately show ?thesis unfolding readers_open_iff n_def [symmetric] by auto
qed

lemma readers_open_install:
  assumes inv: "lifecycle_inv s" and open_s: "readers_open s"
  shows "readers_open (install_repository \<lparr>repo_id = lc_next s, repo_generation = g\<rparr> src now s)"
  using open_s leases_of_readers [OF inv]
  by (auto simp: readers_open_iff install_repository_def close_repository_def leases_of_def
      readers_of_def Let_def split: option.splits)

lemma readers_open_step:
  assumes "lifecycle_inv s" "readers_open s" "e \<noteq> CloseBegin" "e \<noteq> CloseEnd"
  shows "readers_open (lifecycle_step e s)"
proof (cases e)
  case (ReadBegin k)
  have "repo_id p \<notin> set (lc_closed s)" if "lc_repository s = Some p" for p
    using assms(1) that by (auto simp: lifecycle_inv_def)
  with ReadBegin assms(2) show ?thesis
    by (auto simp: readers_open_def withSnapshot_begin_def split: option.splits)
next
  case (RenameResult x now)
  with assms show ?thesis
    by (auto simp: refresh_renamed_def intro: same_core_readers_open [OF refresh_same_core(2)]
        readers_open_install split: option.splits refresh_phase.splits sum.splits)
qed (use assms in \<open>auto simp: readers_open_withSnapshot_end
       intro: same_core_readers_open [OF _ assms(2)] split: option.splits refresh_phase.splits\<close>)

lemma serving_readers_open: "serving s \<Longrightarrow> readers_open s"
proof (induction rule: serving.induct)
  case serving_new
  show ?case by (simp add: readers_open_def new_lifecycle_def)
next
  case (serving_step s e)
  then show ?case by (auto intro: readers_open_step reachable_inv serving_reachable)
qed

subsection \<open>A concrete run\<close>

definition sample_db :: "string \<Rightarrow> catalog_db" where
  "sample_db gen = \<lparr>application_id = Some 1212761676, user_version = Some 2,
     quick_check = Some ''ok'',
     metadata_row = Some \<lparr>schema_version = 2, catalog_generation = gen, created_at = ''now''\<rparr>\<rparr>"

definition sample_snapshot :: "string \<Rightarrow> snapshot" where
  "sample_snapshot fp = \<lparr>snap_fingerprint = fp, snap_url = Some ''https://x/c.sqlite''\<rparr>"

text \<open>A catalog is loaded, a read starts, a second catalog replaces the first under the read.\<close>

definition sample_events :: "event list" where
  "sample_events =
     [Refresh, SnapshotResult (Inr (sample_snapshot ''a'')), MkdtempResult (Inr ''/tmp/d''),
      WriteResult (Inr (sample_db ''g1'')), RenameResult (Inr (sample_db ''g1'')) ''t1'',
      ReadBegin 7,
      Refresh, SnapshotResult (Inr (sample_snapshot ''b'')),
      WriteResult (Inr (sample_db ''g2'')), RenameResult (Inr (sample_db ''g2'')) ''t2'']"

definition sample_state :: lifecycle where
  "sample_state = lifecycle_run sample_events new_lifecycle"

lemma sample_state_eq:
  "sample_state = \<lparr>lc_repository = Some \<lparr>repo_id = 1, repo_generation = ''g2''\<rparr>,
     lc_directory = Some ''/tmp/d'', lc_fingerprint = Some ''b'',
     lc_lastSuccessfulRefresh = Some ''t2'', lc_lastError = None,
     lc_activeUrl = Some ''https://x/c.sqlite'', lc_refreshing = None,
     lc_leases = [(0, 1)], lc_retired = [0], lc_closed = [], lc_readers = [(7, 0)], lc_next = 2\<rparr>"
  by code_simp

lemma serving_sample_state: "serving sample_state"
  unfolding sample_state_def by (rule serving_run) (auto intro: serving.intros simp: sample_events_def)

subsection \<open>Statements\<close>

text \<open>
  C1: while the server runs (nobody calls \<open>close()\<close>), whatever the order of refreshes, failures
  and reads, no repository is closed while a read that was handed it is running.
\<close>

theorem running_reads_keep_repository_open:
  assumes "serving s" and "(k, r) \<in> set (lc_readers s)"
  shows "r \<notin> set (lc_closed s)"
  using serving_readers_open [OF assms(1)] assms(2) by (auto simp: readers_open_def)

theorem running_reads_keep_repository_open_witness:
  "(7, 0) \<in> set (lc_readers sample_state) \<and> 0 \<notin> set (lc_closed sample_state)"
proof -
  have "(7, 0) \<in> set (lc_readers sample_state)" by (simp add: sample_state_eq)
  then show ?thesis
    using running_reads_keep_repository_open [OF serving_sample_state] by simp
qed

text \<open>
  C2: no leak and no double close. In every reachable state, also across \<open>close()\<close>, a repository
  that is neither current nor held by a read has been closed, no repository is closed twice, and
  the lease table holds exactly the numbers of running reads.
\<close>

theorem repositories_closed_exactly_once:
  assumes "reachable s"
  shows "distinct (lc_closed s) \<and> leases_of s r = readers_of s r \<and>
    (r < lc_next s \<and> readers_of s r = 0 \<and> (\<forall>p. lc_repository s = Some p \<longrightarrow> repo_id p \<noteq> r)
      \<longrightarrow> r \<in> set (lc_closed s))"
proof -
  have inv: "lifecycle_inv s" using assms by (rule reachable_inv)
  let ?cur = "case lc_repository s of None \<Rightarrow> [] | Some p \<Rightarrow> [repo_id p]"
  have "r \<in> set (lc_closed s)"
    if r: "r < lc_next s" "readers_of s r = 0" "\<forall>p. lc_repository s = Some p \<longrightarrow> repo_id p \<noteq> r"
  proof -
    have "set (lc_retired s @ lc_closed s @ ?cur) = {..<lc_next s}"
      using inv unfolding lifecycle_inv_def by blast
    then have "r \<in> set (lc_retired s @ lc_closed s @ ?cur)" using r(1) by blast
    moreover have "r \<notin> set (lc_retired s)" using inv r(2) unfolding lifecycle_inv_def by force
    moreover have "r \<notin> set ?cur" using r(3) by (cases "lc_repository s") auto
    ultimately show ?thesis by auto
  qed
  moreover have "distinct (lc_closed s)" using inv by (auto simp: lifecycle_inv_def)
  ultimately show ?thesis using leases_of_readers [OF inv] by blast
qed

definition ended_state :: lifecycle where
  "ended_state = lifecycle_step (ReadEnd 7) sample_state"

theorem repositories_closed_exactly_once_witness:
  "readers_of ended_state 0 = 0 \<and> 0 \<in> set (lc_closed ended_state)"
proof -
  have reach: "reachable ended_state"
    unfolding ended_state_def
    by (intro reachable_step serving_reachable serving_sample_state)
  have "0 < lc_next ended_state" "readers_of ended_state 0 = 0"
    "\<forall>p. lc_repository ended_state = Some p \<longrightarrow> repo_id p \<noteq> 0"
    by (simp_all add: ended_state_def sample_state_eq lifecycle_defs readers_of_def)
  then show ?thesis using repositories_closed_exactly_once [OF reach, of 0] by blast
qed



definition refresh_events :: "snapshot \<Rightarrow> string \<Rightarrow> catalog_db \<Rightarrow> string \<Rightarrow> lifecycle \<Rightarrow> event list" where
  "refresh_events src dir db now s =
     [Refresh, SnapshotResult (Inr src)] @
     (if lc_directory s = None then [MkdtempResult (Inr dir)] else []) @
     [WriteResult (Inr db), RenameResult (Inr db) now]"



text \<open>
  \<open>close()\<close> neither stops nor waits for a refresh in flight: when the rename of a valid
  candidate is pending while \<open>close()\<close> runs to its end, the closed lifecycle serves the
  candidate afterwards, and no later transition of \<open>close()\<close> releases it.
\<close>

theorem close_does_not_stop_refresh:
  assumes "lc_refreshing s = Some (AwaitRename src)" "valid_catalog db m"
  shows "lc_repository (lifecycle_run [CloseBegin, CloseEnd, RenameResult (Inr db) now] s)
         = Some \<lparr>repo_id = lc_next s, repo_generation = catalog_generation m\<rparr>"
proof -
  have "validateCatalogDatabase db = Inr (catalog_generation m, created_at m)"
    using assms(2) by (auto simp: validateCatalogDatabase_Inr)
  with assms(1) show ?thesis
    by (simp add: lifecycle_run_def close_begin_def close_end_def refresh_renamed_def
        install_repository_def Let_def)
qed

theorem close_does_not_stop_refresh_witness:
  "lc_repository (lifecycle_run [CloseBegin, CloseEnd, RenameResult (Inr (sample_db ''g1'')) ''t'']
     (new_lifecycle\<lparr>lc_refreshing := Some (AwaitRename (sample_snapshot ''a''))\<rparr>))
   = Some \<lparr>repo_id = 0, repo_generation = ''g1''\<rparr>"
proof -
  have v: "valid_catalog (sample_db ''g1'')
      \<lparr>schema_version = 2, catalog_generation = ''g1'', created_at = ''now''\<rparr>"
    by (simp add: valid_catalog_def sample_db_def CATALOG_APPLICATION_ID_def metadataSchema_ok_def)
  show ?thesis
    using close_does_not_stop_refresh [OF _ v, of
      "new_lifecycle\<lparr>lc_refreshing := Some (AwaitRename (sample_snapshot ''a''))\<rparr>"]
    by (simp add: new_lifecycle_def)
qed

end
