(* ===== verification/McpApp.thy ===== *)
theory McpApp
  imports JsNumbers
begin

text \<open>
  The host bridge of the dataset MCP map widget, \<open>dataset-mcp/ui/src/mcp/useMcpApp.ts\<close>: it
  receives map results from the host, prepares pending layers, refreshes expired query tokens and
  shows a map configuration with the tokens its tiles need.

  The hook is a state machine driven by the host. A transition is one synchronous run of its code,
  up to the next \<open>await\<close>; during a run the clock \<open>now\<close> stands still. The refs and React states
  of the hook are fields; \<open>mcp_calls\<close> and \<open>mcp_publishes\<close> hold the server calls and status
  messages that are awaited, so a response may arrive in any order, or never.

  The results that the schemas of \<open>contracts.ts\<close> parse are values of datatypes; members of a
  layer that the bridge only carries are one field (\<open>ql_rest\<close>). A timestamp is its value in
  milliseconds.
\<close>

section \<open>Contracts\<close>

record query_layer =
  ql_query_id :: string
  ql_query_token :: string
  ql_layer_name :: string
  ql_rest :: string

datatype preparation_status = Preparing | Failed

record pending_layer =
  pl_layer_id :: string
  pl_layer_name :: string
  pl_preparation_status :: preparation_status
  pl_preparation_error :: "string option"
  pl_rest :: string

record external_layer =
  el_layer_id :: string
  el_layer_name :: string
  el_rest :: string

text \<open>
  The members of \<open>MapResultSchema.layers\<close> and \<open>MapConfigurationSchema.layers\<close>: a query layer
  has \<open>expires_at\<close> in a result and not in a configuration.
\<close>

datatype map_layer =
    ResultLayer query_layer int
  | ConfigLayer query_layer
  | ExternalLayer external_layer
  | PendingLayer pending_layer

datatype spec_source = SpecQuery string | SpecExternal string | SpecCatalog string

datatype spec_layer = QuerySpec string string | SourceSpec string spec_source

record map_definition =
  md_title :: string
  md_layers :: "spec_layer list"

record map_result =
  mr_title :: string
  mr_basemap :: string
  mr_worker_url :: string
  mr_camera :: "string option"
  mr_layers :: "map_layer list"
  mr_map_spec :: map_definition

record map_configuration =
  mc_title :: string
  mc_basemap :: string
  mc_worker_url :: string
  mc_camera :: "string option"
  mc_layers :: "map_layer list"

fun strip_expiration :: "map_layer \<Rightarrow> map_layer" where
  "strip_expiration (ResultLayer q e) = ConfigLayer q"
| "strip_expiration l = l"

definition runtimeConfiguration :: "map_result \<Rightarrow> map_configuration" where
  "runtimeConfiguration r =
     \<lparr>mc_title = mr_title r, mc_basemap = mr_basemap r, mc_worker_url = mr_worker_url r,
      mc_camera = mr_camera r, mc_layers = map strip_expiration (mr_layers r)\<rparr>"

fun layer_expiration :: "map_layer \<Rightarrow> int list" where
  "layer_expiration (ResultLayer q e) = [e]"
| "layer_expiration l = []"

text \<open>\<open>Math.min\<close> of no arguments is infinite.\<close>

fun min_times :: "int list \<Rightarrow> js_number" where
  "min_times [] = JsInf"
| "min_times [x] = JsFin (of_int x)"
| "min_times (x # y # ys) = min_times (min x y # ys)"

definition earliestExpiration :: "map_result \<Rightarrow> js_number" where
  "earliestExpiration r = min_times (concat (map layer_expiration (mr_layers r)))"

definition expired :: "map_result \<Rightarrow> int \<Rightarrow> bool" where
  "expired r now = js_leq (earliestExpiration r) (JsFin (of_int now))"

lemma min_times_leq: "js_leq (min_times xs) (JsFin (of_int n)) \<longleftrightarrow> (\<exists>x \<in> set xs. x \<le> n)"
  by (induction xs rule: min_times.induct) auto

lemma expired_iff: "expired r now \<longleftrightarrow> (\<exists>q e. ResultLayer q e \<in> set (mr_layers r) \<and> e \<le> now)"
proof -
  have "x \<in> set (layer_expiration l) \<longleftrightarrow> (\<exists>q. l = ResultLayer q x)" for l x
    by (cases l) auto
  then show ?thesis by (auto simp: expired_def earliestExpiration_def min_times_leq) blast+
qed

fun layer_token :: "map_layer \<Rightarrow> (string \<times> string) list" where
  "layer_token (ResultLayer q e) = [(ql_query_id q, ql_query_token q)]"
| "layer_token (ConfigLayer q) = [(ql_query_id q, ql_query_token q)]"
| "layer_token l = []"

definition tokens_of :: "map_layer list \<Rightarrow> (string \<times> string) list" where
  "tokens_of layers = map_from_entries (concat (map layer_token layers))"

lemma layer_token_strip [simp]: "layer_token (strip_expiration l) = layer_token l"
  by (cases l) auto

lemma tokens_of_runtimeConfiguration [simp]:
  "tokens_of (mc_layers (runtimeConfiguration r)) = tokens_of (mr_layers r)"
  by (simp add: tokens_of_def runtimeConfiguration_def o_def)

fun is_pending :: "map_layer \<Rightarrow> bool" where
  "is_pending (PendingLayer p) = True"
| "is_pending l = False"

fun has_expiration :: "map_layer \<Rightarrow> bool" where
  "has_expiration (ResultLayer q e) = True"
| "has_expiration l = False"

lemma strip_no_expiration [simp]: "\<not> has_expiration (strip_expiration l)"
  by (cases l) auto

section \<open>State\<close>

record controller =
  ctl_aborted :: bool
  ctl_sequence :: nat
  ctl_result :: map_result
  ctl_current :: map_result

datatype call = PrepareCall nat nat | RefreshCall nat map_definition

record bridge =
  mcp_sequence :: nat
  mcp_refreshExpired :: "(map_definition \<times> nat) option"
  mcp_tokens :: "(string \<times> string) list"
  mcp_preparation :: "nat option"
  mcp_controllers :: "(nat \<times> controller) list"
  mcp_mapConfiguration :: "map_configuration option"
  mcp_queryTokens :: "(string \<times> string) list"
  mcp_bridgeError :: "string option"
  mcp_feedbackNotice :: "string option"
  mcp_refreshing :: "(nat \<times> nat) option"
  mcp_calls :: "(nat \<times> call) list"
  mcp_publishes :: "(nat \<times> nat \<times> string) list"
  mcp_next :: nat

definition initial_bridge :: bridge where
  "initial_bridge = \<lparr>mcp_sequence = 0, mcp_refreshExpired = None, mcp_tokens = [],
     mcp_preparation = None, mcp_controllers = [], mcp_mapConfiguration = None,
     mcp_queryTokens = [], mcp_bridgeError = None, mcp_feedbackNotice = None,
     mcp_refreshing = None, mcp_calls = [], mcp_publishes = [], mcp_next = 0\<rparr>"

definition FEEDBACK_UNAVAILABLE :: string where
  "FEEDBACK_UNAVAILABLE = ''The host could not receive map status updates. Share this widget's status or error with the agent.''"

section \<open>Operations\<close>

definition abort_controller :: "nat \<Rightarrow> (nat \<times> controller) list \<Rightarrow> (nat \<times> controller) list" where
  "abort_controller c cs =
     (case map_of cs c of None \<Rightarrow> cs | Some k \<Rightarrow> map_set c (k\<lparr>ctl_aborted := True\<rparr>) cs)"

definition cancelPreparation :: "bridge \<Rightarrow> bridge" where
  "cancelPreparation s =
     (case mcp_preparation s of None \<Rightarrow> s
      | Some c \<Rightarrow> s\<lparr>mcp_controllers := abort_controller c (mcp_controllers s),
                    mcp_preparation := None\<rparr>)"

text \<open>\<open>failMap\<close>: the map, its tokens and the preparation are dropped and the host is told.\<close>

definition failMap :: "string \<Rightarrow> bridge \<Rightarrow> bridge" where
  "failMap message s =
     (let s1 = cancelPreparation (s\<lparr>mcp_refreshExpired := None, mcp_tokens := []\<rparr>) in
      s1\<lparr>mcp_mapConfiguration := None, mcp_queryTokens := [], mcp_bridgeError := Some message,
         mcp_publishes := (mcp_next s1, mcp_sequence s1, message) # mcp_publishes s1,
         mcp_next := Suc (mcp_next s1)\<rparr>)"

definition show_result :: "map_result \<Rightarrow> bridge \<Rightarrow> bridge" where
  "show_result r s =
     s\<lparr>mcp_mapConfiguration := Some (runtimeConfiguration r),
       mcp_tokens := tokens_of (mr_layers r),
       mcp_queryTokens := tokens_of (mr_layers r),
       mcp_bridgeError := None\<rparr>"

definition controller_stale :: "controller \<Rightarrow> bridge \<Rightarrow> bool" where
  "controller_stale k s = (ctl_aborted k \<or> ctl_sequence k \<noteq> mcp_sequence s)"

definition publish :: "nat \<Rightarrow> bridge \<Rightarrow> bridge" where
  "publish c s =
     (case map_of (mcp_controllers s) c of None \<Rightarrow> s
      | Some k \<Rightarrow> if controller_stale k s then s else show_result (ctl_current k) s)"

definition replace_layer :: "nat \<Rightarrow> nat \<Rightarrow> map_layer \<Rightarrow> bridge \<Rightarrow> bridge" where
  "replace_layer c index layer s =
     (case map_of (mcp_controllers s) c of None \<Rightarrow> s
      | Some k \<Rightarrow>
          publish c (s\<lparr>mcp_controllers := map_set c
            (k\<lparr>ctl_current := (ctl_current k)
                 \<lparr>mr_layers := (mr_layers (ctl_current k))[index := layer]\<rparr>\<rparr>) (mcp_controllers s)\<rparr>))"

text \<open>The early returns of \<open>prepare\<close>: a query spec and a pending layer at that index.\<close>

definition preparable :: "map_result \<Rightarrow> nat \<Rightarrow> pending_layer option" where
  "preparable r index =
     (if index < length (md_layers (mr_map_spec r)) \<and> index < length (mr_layers r)
      then (case (md_layers (mr_map_spec r) ! index, mr_layers r ! index) of
              (SourceSpec _ (SpecQuery _), PendingLayer original) \<Rightarrow> Some original
            | _ \<Rightarrow> None)
      else None)"

definition prepare :: "nat \<Rightarrow> nat \<Rightarrow> bridge \<Rightarrow> bridge" where
  "prepare c index s =
     (case map_of (mcp_controllers s) c of None \<Rightarrow> s
      | Some k \<Rightarrow>
          (case preparable (ctl_result k) index of None \<Rightarrow> s
           | Some original \<Rightarrow>
               (let s1 = replace_layer c index
                           (PendingLayer (original\<lparr>pl_preparation_status := Preparing\<rparr>)) s
                in s1\<lparr>mcp_calls := (mcp_next s1, PrepareCall c index) # mcp_calls s1,
                      mcp_next := Suc (mcp_next s1)\<rparr>)))"

definition preparing_indices :: "map_result \<Rightarrow> nat list" where
  "preparing_indices r =
     filter (\<lambda>i. case mr_layers r ! i of PendingLayer p \<Rightarrow> pl_preparation_status p = Preparing
                 | _ \<Rightarrow> False)
            [0..<length (mr_layers r)]"

text \<open>
  \<open>refreshMap\<close> up to the server call of \<open>performRefresh\<close>; a refresh of the same sequence in
  flight is joined.
\<close>

definition refreshMap :: "map_definition \<Rightarrow> nat \<Rightarrow> bridge \<Rightarrow> bridge" where
  "refreshMap spec sequence s =
     (if sequence \<noteq> mcp_sequence s then s
      else if (case mcp_refreshing s of None \<Rightarrow> False | Some (q, _) \<Rightarrow> q = sequence) then s
      else s\<lparr>mcp_refreshing := Some (sequence, mcp_next s),
             mcp_calls := (mcp_next s, RefreshCall sequence spec) # mcp_calls s,
             mcp_next := Suc (mcp_next s)\<rparr>)"

definition acceptMapResult :: "map_result \<Rightarrow> nat \<Rightarrow> int \<Rightarrow> bridge \<Rightarrow> bridge" where
  "acceptMapResult result sequence now s =
     (if sequence \<noteq> mcp_sequence s then s
      else let s1 = s\<lparr>mcp_refreshExpired := Some (mr_map_spec result, sequence)\<rparr> in
        if \<exists>l \<in> set (mr_layers result). is_pending l
        then let s2 = cancelPreparation s1; c = mcp_next s2;
                 s3 = s2\<lparr>mcp_preparation := Some c, mcp_next := Suc c,
                         mcp_controllers := (c, \<lparr>ctl_aborted = False, ctl_sequence = sequence,
                            ctl_result = result, ctl_current = result\<rparr>) # mcp_controllers s2\<rparr>
             in fold (prepare c) (preparing_indices result) (publish c s3)
        else if expired result now then refreshMap (mr_map_spec result) sequence s1
        else show_result result s1)"

text \<open>\<open>refreshExpiredToken\<close>: only for the token that is still in use.\<close>

definition refreshExpiredToken :: "string \<Rightarrow> string \<Rightarrow> bridge \<Rightarrow> bridge" where
  "refreshExpiredToken queryId token s =
     (case mcp_refreshExpired s of None \<Rightarrow> s
      | Some (spec, sequence) \<Rightarrow>
          if sequence \<noteq> mcp_sequence s \<or> map_of (mcp_tokens s) queryId \<noteq> Some token then s
          else refreshMap spec sequence s)"

section \<open>Responses\<close>

text \<open>
  What \<open>MapResultSchema.safeParse\<close> and \<open>ErrorResultSchema.safeParse\<close> make of a tool result:
  a map, an error payload, or neither, with the message of \<open>invalidMapMessage\<close>.
\<close>

datatype parsed_result = ParsedMap map_result | ParsedError string | ParsedInvalid string

definition ontoolresult :: "parsed_result \<Rightarrow> int \<Rightarrow> bridge \<Rightarrow> bridge" where
  "ontoolresult params now s =
     (let s1 = cancelPreparation s; sequence = mcp_sequence s1 + 1;
          s2 = s1\<lparr>mcp_sequence := sequence\<rparr>
      in case params of ParsedMap r \<Rightarrow> acceptMapResult r sequence now s2
         | ParsedError message \<Rightarrow> failMap message s2
         | ParsedInvalid message \<Rightarrow> failMap message s2)"

definition onerror :: "string \<Rightarrow> bridge \<Rightarrow> bridge" where
  "onerror message s = failMap message (s\<lparr>mcp_sequence := mcp_sequence s + 1\<rparr>)"

definition onteardown :: "bridge \<Rightarrow> bridge" where
  "onteardown s =
     (cancelPreparation (s\<lparr>mcp_sequence := mcp_sequence s + 1\<rparr>))\<lparr>mcp_refreshExpired := None\<rparr>"

text \<open>The cleanup of the effect: the controller is aborted but stays in its ref.\<close>

definition unmount :: "bridge \<Rightarrow> bridge" where
  "unmount s =
     s\<lparr>mcp_sequence := mcp_sequence s + 1, mcp_refreshExpired := None,
       mcp_controllers := (case mcp_preparation s of None \<Rightarrow> mcp_controllers s
          | Some c \<Rightarrow> abort_controller c (mcp_controllers s))\<rparr>"

datatype refresh_response = Refreshed parsed_result | RefreshThrew

definition refresh_answer :: "nat \<Rightarrow> refresh_response \<Rightarrow> int \<Rightarrow> bridge \<Rightarrow> bridge" where
  "refresh_answer sequence response now s =
     (if sequence \<noteq> mcp_sequence s then s
      else case response of
        Refreshed (ParsedMap r) \<Rightarrow>
          if expired r now
          then failMap ''The server returned an expired replacement query token. Reopen the map to retry.'' s
          else acceptMapResult r sequence now s
      | Refreshed (ParsedError message) \<Rightarrow> failMap message s
      | Refreshed (ParsedInvalid message) \<Rightarrow> failMap message s
      | RefreshThrew \<Rightarrow> failMap ''This MCP host could not refresh the map's expired query tokens.'' s)"

text \<open>The answer, then the \<open>finally\<close> block of \<open>refreshMap\<close>.\<close>

definition refresh_finally :: "nat \<Rightarrow> bridge \<Rightarrow> bridge" where
  "refresh_finally call s =
     (case mcp_refreshing s of None \<Rightarrow> s
      | Some (q, c) \<Rightarrow> if c = call then s\<lparr>mcp_refreshing := None\<rparr> else s)"

datatype prepare_response =
    Prepared query_layer int
  | PrepareError string string
  | PrepareInvalid
  | PrepareThrew

definition prepare_failed :: "nat \<Rightarrow> nat \<Rightarrow> pending_layer \<Rightarrow> string \<Rightarrow> bridge \<Rightarrow> bridge" where
  "prepare_failed c index original message =
     replace_layer c index (PendingLayer (original\<lparr>pl_preparation_status := Failed,
                                                  pl_preparation_error := Some message\<rparr>))"

definition contract_mismatch :: string where
  "contract_mismatch = ''The prepared layer did not match the map contract. Reopen the map with the current MCP connection.''"

definition prepare_answer :: "nat \<Rightarrow> nat \<Rightarrow> prepare_response \<Rightarrow> int \<Rightarrow> bridge \<Rightarrow> bridge" where
  "prepare_answer c index response now s =
     (case map_of (mcp_controllers s) c of None \<Rightarrow> s
      | Some k \<Rightarrow>
        if controller_stale k s then s
        else (case preparable (ctl_result k) index of None \<Rightarrow> s
        | Some original \<Rightarrow>
            (case response of
               Prepared q expires \<Rightarrow>
                 if ql_layer_name q \<noteq> pl_layer_name original
                 then prepare_failed c index original contract_mismatch s
                 else if expires \<le> now
                 then prepare_failed c index original
                        ''The prepared query token has expired. Reopen the map to retry.'' s
                 else replace_layer c index (ResultLayer q expires) s
             | PrepareError message code \<Rightarrow>
                 prepare_failed c index original (message @ '' ('' @ code @ '')'') s
             | PrepareInvalid \<Rightarrow> prepare_failed c index original contract_mismatch s
             | PrepareThrew \<Rightarrow>
                 prepare_failed c index original
                   ''The host could not prepare this query layer. Reopen the map to retry.'' s)))"

section \<open>Events\<close>

datatype mcp_event =
    ToolResult parsed_result int
  | HostError string
  | Teardown
  | Unmount
  | TokenExpired string string
  | RefreshAnswer nat refresh_response int
  | PrepareAnswer nat prepare_response int
  | PublishSettled nat bool

fun mcp_step :: "mcp_event \<Rightarrow> bridge \<Rightarrow> bridge" where
  "mcp_step (ToolResult r now) s = ontoolresult r now s"
| "mcp_step (HostError m) s = onerror m s"
| "mcp_step Teardown s = onteardown s"
| "mcp_step Unmount s = unmount s"
| "mcp_step (TokenExpired q t) s = refreshExpiredToken q t s"
| "mcp_step (RefreshAnswer call r now) s =
     (case map_of (mcp_calls s) call of
        Some (RefreshCall sequence spec) \<Rightarrow>
          refresh_finally call
            (refresh_answer sequence r now (s\<lparr>mcp_calls := AList.delete call (mcp_calls s)\<rparr>))
      | _ \<Rightarrow> s)"
| "mcp_step (PrepareAnswer call r now) s =
     (case map_of (mcp_calls s) call of
        Some (PrepareCall c index) \<Rightarrow>
          prepare_answer c index r now (s\<lparr>mcp_calls := AList.delete call (mcp_calls s)\<rparr>)
      | _ \<Rightarrow> s)"
| "mcp_step (PublishSettled p updated) s =
     (case map_of (mcp_publishes s) p of None \<Rightarrow> s
      | Some (sequence, message) \<Rightarrow>
          (let s1 = s\<lparr>mcp_publishes := AList.delete p (mcp_publishes s)\<rparr> in
           if \<not> updated \<and> sequence = mcp_sequence s
           then s1\<lparr>mcp_bridgeError := Some (message @ '' '' @ FEEDBACK_UNAVAILABLE)\<rparr>
           else s1))"

inductive mcp_reachable :: "bridge \<Rightarrow> bool" where
  mcp_reachable_init: "mcp_reachable initial_bridge"
| mcp_reachable_step: "mcp_reachable s \<Longrightarrow> mcp_reachable (mcp_step e s)"

section \<open>Invariants\<close>

text \<open>The shown configuration and the token tables agree, and no layer shows its expiration.\<close>

definition tokens_inv :: "bridge \<Rightarrow> bool" where
  "tokens_inv s \<longleftrightarrow> mcp_queryTokens s = mcp_tokens s \<and>
     (case mcp_mapConfiguration s of None \<Rightarrow> mcp_tokens s = []
      | Some c \<Rightarrow> mcp_tokens s = tokens_of (mc_layers c) \<and> (\<forall>l \<in> set (mc_layers c). \<not> has_expiration l))"

lemma tokens_inv_frame [simp]:
  "tokens_inv (s\<lparr>mcp_controllers := a\<rparr>) = tokens_inv s"
  "tokens_inv (s\<lparr>mcp_calls := b\<rparr>) = tokens_inv s"
  "tokens_inv (s\<lparr>mcp_next := c\<rparr>) = tokens_inv s"
  "tokens_inv (s\<lparr>mcp_refreshing := d\<rparr>) = tokens_inv s"
  "tokens_inv (s\<lparr>mcp_preparation := e\<rparr>) = tokens_inv s"
  "tokens_inv (s\<lparr>mcp_refreshExpired := f\<rparr>) = tokens_inv s"
  "tokens_inv (s\<lparr>mcp_sequence := g\<rparr>) = tokens_inv s"
  "tokens_inv (s\<lparr>mcp_publishes := h\<rparr>) = tokens_inv s"
  "tokens_inv (s\<lparr>mcp_bridgeError := i\<rparr>) = tokens_inv s"
  by (simp_all add: tokens_inv_def split: option.split)

text \<open>A controller that is not aborted is the current preparation.\<close>

definition controllers_inv :: "bridge \<Rightarrow> bool" where
  "controllers_inv s \<longleftrightarrow>
     (\<forall>c k. map_of (mcp_controllers s) c = Some k \<longrightarrow>
        c < mcp_next s \<and> ctl_sequence k \<le> mcp_sequence s \<and>
        (\<not> ctl_aborted k \<longrightarrow> mcp_preparation s = Some c)) \<and>
     (\<forall>c. mcp_preparation s = Some c \<longrightarrow> c < mcp_next s)"

text \<open>
  A refresh call of the current sequence is the one in the slot; the refresh closure belongs to
  the current sequence.
\<close>

fun call_ok :: "bridge \<Rightarrow> nat \<Rightarrow> call \<Rightarrow> bool" where
  "call_ok s i (RefreshCall q d) \<longleftrightarrow>
     q \<le> mcp_sequence s \<and> (q = mcp_sequence s \<longrightarrow> mcp_refreshing s = Some (q, i))"
| "call_ok s i (PrepareCall c x) \<longleftrightarrow> map_of (mcp_controllers s) c \<noteq> None"

definition calls_inv :: "bridge \<Rightarrow> bool" where
  "calls_inv s \<longleftrightarrow>
     distinct (map fst (mcp_calls s)) \<and>
     (\<forall>p \<in> set (mcp_calls s). fst p < mcp_next s \<and> call_ok s (fst p) (snd p)) \<and>
     (\<forall>q i. mcp_refreshing s = Some (q, i) \<longrightarrow> q \<le> mcp_sequence s \<and> i < mcp_next s) \<and>
     (\<forall>d q. mcp_refreshExpired s = Some (d, q) \<longrightarrow> q = mcp_sequence s)"

lemma call_ok_mono:
  assumes "call_ok s i x" "mcp_sequence t = mcp_sequence s"
    "\<And>c. map_of (mcp_controllers s) c \<noteq> None \<Longrightarrow> map_of (mcp_controllers t) c \<noteq> None"
    "mcp_refreshing s = Some (mcp_sequence s, i) \<Longrightarrow> mcp_refreshing t = mcp_refreshing s"
  shows "call_ok t i x"
  using assms by (cases x) auto

definition mcp_inv :: "bridge \<Rightarrow> bool" where
  "mcp_inv s \<longleftrightarrow> tokens_inv s \<and> controllers_inv s \<and> calls_inv s"

lemma map_of_abort_controller:
  "map_of (abort_controller c cs) d =
     (if d = c then map_option (ctl_aborted_update (\<lambda>_. True)) (map_of cs c) else map_of cs d)"
  by (auto simp: abort_controller_def split: option.splits)

lemma cancelPreparation_frame [simp]:
  "mcp_sequence (cancelPreparation s) = mcp_sequence s"
  "mcp_refreshExpired (cancelPreparation s) = mcp_refreshExpired s"
  "mcp_tokens (cancelPreparation s) = mcp_tokens s"
  "mcp_mapConfiguration (cancelPreparation s) = mcp_mapConfiguration s"
  "mcp_queryTokens (cancelPreparation s) = mcp_queryTokens s"
  "mcp_bridgeError (cancelPreparation s) = mcp_bridgeError s"
  "mcp_refreshing (cancelPreparation s) = mcp_refreshing s"
  "mcp_calls (cancelPreparation s) = mcp_calls s"
  "mcp_next (cancelPreparation s) = mcp_next s"
  "mcp_preparation (cancelPreparation s) = None"
  by (auto simp: cancelPreparation_def split: option.splits)

lemma cancelPreparation_aborts:
  assumes "controllers_inv s"
  shows "map_of (mcp_controllers (cancelPreparation s)) c
         = map_option (ctl_aborted_update (\<lambda>_. True)) (map_of (mcp_controllers s) c)"
proof (cases "map_of (mcp_controllers s) c")
  case None
  then show ?thesis
    by (auto simp: cancelPreparation_def map_of_abort_controller split: option.splits)
next
  case (Some k)
  show ?thesis
  proof (cases "mcp_preparation s = Some c")
    case True
    then show ?thesis by (simp add: cancelPreparation_def map_of_abort_controller)
  next
    case False
    with assms Some have ab: "ctl_aborted k" by (auto simp: controllers_inv_def)
    then have "ctl_aborted_update (\<lambda>_. True) k = k" by simp
    with False Some show ?thesis
      by (auto simp: cancelPreparation_def map_of_abort_controller split: option.splits)
  qed
qed

lemma controllers_inv_cancel: "controllers_inv s \<Longrightarrow> controllers_inv (cancelPreparation s)"
  unfolding controllers_inv_def [of "cancelPreparation s"]
  by (auto simp: cancelPreparation_aborts) (auto simp: controllers_inv_def)

text \<open>A state with the same calls, where controllers only grow and the slot is kept.\<close>

lemma calls_inv_mono:
  assumes "calls_inv s" "mcp_sequence t = mcp_sequence s" "mcp_calls t = mcp_calls s"
    "mcp_refreshing t = mcp_refreshing s" "mcp_next s \<le> mcp_next t"
    "\<And>c. map_of (mcp_controllers s) c \<noteq> None \<Longrightarrow> map_of (mcp_controllers t) c \<noteq> None"
    "mcp_refreshExpired t = None \<or> mcp_refreshExpired t = mcp_refreshExpired s"
  shows "calls_inv t"
proof -
  have "call_ok t i x" if "(i, x) \<in> set (mcp_calls s)" for i x
    by (rule call_ok_mono [of s]) (use assms that in \<open>auto simp: calls_inv_def\<close>)
  moreover have "\<forall>d q. mcp_refreshExpired t = Some (d, q) \<longrightarrow> q = mcp_sequence t"
    using assms(1,2,7) by (metis calls_inv_def option.distinct(1))
  ultimately show ?thesis
    using assms(1-5) by (auto simp: calls_inv_def intro: order_less_le_trans)
qed

lemma calls_inv_cancel: "controllers_inv s \<Longrightarrow> calls_inv s \<Longrightarrow> calls_inv (cancelPreparation s)"
  by (rule calls_inv_mono) (auto simp: cancelPreparation_aborts)

lemma mcp_inv_fail:
  assumes "controllers_inv s" "calls_inv (s\<lparr>mcp_refreshExpired := None\<rparr>)"
  shows "mcp_inv (failMap m s)"
proof -
  let ?s = "s\<lparr>mcp_refreshExpired := None, mcp_tokens := []\<rparr>"
  let ?c = "cancelPreparation ?s"
  have c: "controllers_inv ?s" using assms(1) by (simp add: controllers_inv_def)
  have "calls_inv ?s" by (rule calls_inv_mono [OF assms(2)]) auto
  with c have "calls_inv ?c" by (rule calls_inv_cancel)
  then have "calls_inv (failMap m s)"
    by (rule calls_inv_mono) (auto simp: failMap_def Let_def)
  moreover have "controllers_inv ?c" using c by (rule controllers_inv_cancel)
  then have "controllers_inv (failMap m s)"
    by (auto simp: failMap_def Let_def controllers_inv_def intro: less_SucI)
  moreover have "tokens_inv (failMap m s)" by (simp add: failMap_def Let_def tokens_inv_def)
  ultimately show ?thesis by (simp add: mcp_inv_def)
qed

lemma tokens_inv_show: "tokens_inv (show_result r s)"
  by (auto simp: tokens_inv_def show_result_def)
     (auto simp: runtimeConfiguration_def)

lemma show_result_frame:
  "controllers_inv (show_result r s) = controllers_inv s"
  "calls_inv s \<Longrightarrow> calls_inv (show_result r s)"
  by (simp_all add: show_result_def controllers_inv_def) (rule calls_inv_mono, auto)

lemma mcp_inv_publish: "mcp_inv s \<Longrightarrow> mcp_inv (publish c s)"
  by (auto simp: publish_def mcp_inv_def tokens_inv_show show_result_frame split: option.splits)

lemma mcp_inv_replace_layer:
  assumes "mcp_inv s"
  shows "mcp_inv (replace_layer c i l s)"
proof (cases "map_of (mcp_controllers s) c")
  case None
  with assms show ?thesis by (simp add: replace_layer_def)
next
  case (Some k)
  let ?k = "k\<lparr>ctl_current := (ctl_current k)\<lparr>mr_layers := (mr_layers (ctl_current k))[i := l]\<rparr>\<rparr>"
  let ?t = "s\<lparr>mcp_controllers := map_set c ?k (mcp_controllers s)\<rparr>"
  have "calls_inv ?t" by (rule calls_inv_mono [of s]) (use assms in \<open>auto simp: mcp_inv_def\<close>)
  moreover have "controllers_inv ?t"
    using assms Some by (auto simp: mcp_inv_def controllers_inv_def split: if_splits)
  ultimately have "mcp_inv ?t" using assms by (simp add: mcp_inv_def)
  with Some show ?thesis by (simp add: replace_layer_def mcp_inv_publish)
qed

lemma publish_frame [simp]:
  "mcp_sequence (publish c s) = mcp_sequence s" "mcp_calls (publish c s) = mcp_calls s"
  "mcp_next (publish c s) = mcp_next s" "mcp_controllers (publish c s) = mcp_controllers s"
  "mcp_refreshing (publish c s) = mcp_refreshing s"
  by (auto simp: publish_def show_result_def split: option.splits)

lemma replace_layer_frame [simp]:
  "mcp_sequence (replace_layer c i l s) = mcp_sequence s"
  "mcp_calls (replace_layer c i l s) = mcp_calls s"
  "mcp_next (replace_layer c i l s) = mcp_next s"
  "mcp_refreshing (replace_layer c i l s) = mcp_refreshing s"
  by (auto simp: replace_layer_def split: option.splits)

lemma replace_layer_controllers:
  "map_option ctl_sequence (map_of (mcp_controllers (replace_layer c i l s)) d)
   = map_option ctl_sequence (map_of (mcp_controllers s) d)"
  by (auto simp: replace_layer_def split: option.splits)

text \<open>A new server call, whose number is fresh.\<close>

lemma mcp_inv_new_call:
  assumes inv: "mcp_inv s"
    and t: "t = s\<lparr>mcp_refreshing := slot, mcp_calls := (mcp_next s, x) # mcp_calls s,
                  mcp_next := Suc (mcp_next s)\<rparr>"
    and ok: "call_ok t (mcp_next s) x"
    and slot: "slot = mcp_refreshing s \<or>
      (slot = Some (mcp_sequence s, mcp_next s) \<and>
       (\<forall>i. mcp_refreshing s \<noteq> Some (mcp_sequence s, i)))"
  shows "mcp_inv t"
proof -
  have "call_ok t i y" if "(i, y) \<in> set (mcp_calls s)" for i y
    by (rule call_ok_mono [of s]) (use inv that t slot in \<open>auto simp: mcp_inv_def calls_inv_def\<close>)
  moreover have "mcp_next s \<notin> fst ` set (mcp_calls s)"
    using inv by (auto simp: mcp_inv_def calls_inv_def)
  ultimately have "calls_inv t"
    using inv t ok slot by (auto simp: mcp_inv_def calls_inv_def intro: less_SucI)
  moreover have "controllers_inv t"
    using inv t by (auto simp: mcp_inv_def controllers_inv_def intro: less_SucI)
  ultimately show ?thesis using inv t by (simp add: mcp_inv_def)
qed

lemma mcp_inv_prepare: "mcp_inv s \<Longrightarrow> mcp_inv (prepare c i s)"
proof (cases "map_of (mcp_controllers s) c")
  case (Some k)
  assume inv: "mcp_inv s"
  have "map_of (mcp_controllers (replace_layer c i l s)) c \<noteq> None" for l
    using Some replace_layer_controllers [of c i l s c] by auto
  then have "mcp_inv (replace_layer c i l s
      \<lparr>mcp_calls := (mcp_next s, PrepareCall c i) # mcp_calls s, mcp_next := Suc (mcp_next s)\<rparr>)" for l
    by (intro mcp_inv_new_call [OF mcp_inv_replace_layer [OF inv, of c i l], where
          slot = "mcp_refreshing s" and x = "PrepareCall c i"]) auto
  with inv Some show ?thesis
    by (auto simp: prepare_def Let_def split: option.splits)
qed (simp add: prepare_def)

lemma mcp_inv_fold_prepare: "mcp_inv s \<Longrightarrow> mcp_inv (fold (prepare c) is s)"
  by (induction "is" arbitrary: s) (auto simp: mcp_inv_prepare)

lemma mcp_inv_refreshMap:
  assumes inv: "mcp_inv s"
  shows "mcp_inv (refreshMap d q s)"
proof (cases "q \<noteq> mcp_sequence s \<or> (\<exists>i. mcp_refreshing s = Some (q, i))")
  case True
  with inv show ?thesis by (auto simp: refreshMap_def split: option.splits)
next
  case False
  then have t: "refreshMap d q s = s\<lparr>mcp_refreshing := Some (mcp_sequence s, mcp_next s),
      mcp_calls := (mcp_next s, RefreshCall q d) # mcp_calls s, mcp_next := Suc (mcp_next s)\<rparr>"
    by (auto simp: refreshMap_def split: option.splits)
  have "mcp_inv (s\<lparr>mcp_refreshing := Some (mcp_sequence s, mcp_next s),
      mcp_calls := (mcp_next s, RefreshCall q d) # mcp_calls s, mcp_next := Suc (mcp_next s)\<rparr>)"
    by (rule mcp_inv_new_call [OF inv refl]) (use False in auto)
  then show ?thesis by (simp only: t)
qed

text \<open>The runs that answer the host: the closure is written before it is read.\<close>

definition between_inv :: "bridge \<Rightarrow> bool" where
  "between_inv s \<longleftrightarrow> tokens_inv s \<and> controllers_inv s \<and> calls_inv (s\<lparr>mcp_refreshExpired := None\<rparr>)"

lemma calls_inv_refreshExpired:
  assumes "calls_inv (s\<lparr>mcp_refreshExpired := None\<rparr>)" "x = None \<or> (\<exists>d. x = Some (d, mcp_sequence s))"
  shows "calls_inv (s\<lparr>mcp_refreshExpired := x\<rparr>)"
proof -
  let ?n = "s\<lparr>mcp_refreshExpired := None\<rparr>" and ?x = "s\<lparr>mcp_refreshExpired := x\<rparr>"
  have "call_ok ?x i y = call_ok ?n i y" for i y by (cases y) auto
  with assms show ?thesis unfolding calls_inv_def by auto
qed

lemma between_inv_of: "mcp_inv s \<Longrightarrow> between_inv s"
  using calls_inv_mono [of s "s\<lparr>mcp_refreshExpired := None\<rparr>"]
  by (auto simp: mcp_inv_def between_inv_def)

lemma between_inv_bump: "mcp_inv s \<Longrightarrow> between_inv (s\<lparr>mcp_sequence := mcp_sequence s + 1\<rparr>)"
proof -
  assume inv: "mcp_inv s"
  let ?t = "s\<lparr>mcp_sequence := mcp_sequence s + 1, mcp_refreshExpired := None\<rparr>"
  have "call_ok ?t i y" if "call_ok s i y" for i y
    using that by (cases y) auto
  moreover have "calls_inv s" using inv by (simp add: mcp_inv_def)
  ultimately have "calls_inv ?t" unfolding calls_inv_def by auto
  with inv show ?thesis
    by (auto simp: between_inv_def mcp_inv_def controllers_inv_def intro: le_SucI)
qed

lemma between_inv_fail: "between_inv s \<Longrightarrow> mcp_inv (failMap m s)"
  by (simp add: between_inv_def mcp_inv_fail)

lemma tokens_inv_cancel: "tokens_inv (cancelPreparation s) = tokens_inv s"
  by (simp add: cancelPreparation_def split: option.split)

lemma mcp_inv_show: "mcp_inv s \<Longrightarrow> mcp_inv (show_result r s)"
  by (simp add: mcp_inv_def tokens_inv_show show_result_frame)

lemma mcp_inv_cancel: "mcp_inv s \<Longrightarrow> mcp_inv (cancelPreparation s)"
  by (simp add: mcp_inv_def calls_inv_cancel controllers_inv_cancel tokens_inv_cancel)

lemma mcp_inv_accept:
  assumes "between_inv s"
  shows "mcp_inv (acceptMapResult r (mcp_sequence s) now s)"
proof -
  let ?s1 = "s\<lparr>mcp_refreshExpired := Some (mr_map_spec r, mcp_sequence s)\<rparr>"
  let ?s2 = "cancelPreparation ?s1"
  let ?c = "mcp_next ?s2"
  let ?s3 = "?s2\<lparr>mcp_preparation := Some ?c, mcp_next := Suc ?c,
    mcp_controllers := (?c, \<lparr>ctl_aborted = False, ctl_sequence = mcp_sequence s,
                             ctl_result = r, ctl_current = r\<rparr>) # mcp_controllers ?s2\<rparr>"
  have 1: "mcp_inv ?s1"
    using assms calls_inv_refreshExpired [of s]
    by (auto simp: between_inv_def mcp_inv_def controllers_inv_def)
  then have 2: "mcp_inv ?s2" by (rule mcp_inv_cancel)
  have "calls_inv ?s3" by (rule calls_inv_mono [of ?s2]) (use 2 in \<open>auto simp: mcp_inv_def\<close>)
  moreover have "controllers_inv ?s3"
    using 1 cancelPreparation_aborts [of ?s1]
    by (auto simp: mcp_inv_def controllers_inv_def less_Suc_eq)
  ultimately have "mcp_inv ?s3" using 2 by (simp add: mcp_inv_def)
  then have "mcp_inv (fold (prepare ?c) (preparing_indices r) (publish ?c ?s3))"
    by (intro mcp_inv_fold_prepare mcp_inv_publish)
  with 1 show ?thesis
    by (simp add: acceptMapResult_def Let_def mcp_inv_refreshMap mcp_inv_show)
qed

lemma mcp_inv_refresh_answer:
  assumes "mcp_inv s"
  shows "mcp_inv (refresh_answer q r now s)"
  using assms between_inv_of [OF assms] mcp_inv_accept [of s] between_inv_fail [of s]
  by (auto simp: refresh_answer_def split: refresh_response.split parsed_result.split)

lemma mcp_inv_prepare_answer: "mcp_inv s \<Longrightarrow> mcp_inv (prepare_answer c i r now s)"
  by (auto simp: prepare_answer_def prepare_failed_def Let_def mcp_inv_replace_layer
      split: option.split prepare_response.split)

text \<open>A call that has been answered leaves the list; so does a settled message.\<close>

lemma mcp_inv_delete_call:
  assumes "mcp_inv s"
  shows "mcp_inv (s\<lparr>mcp_calls := AList.delete i (mcp_calls s)\<rparr>)"
proof -
  let ?t = "s\<lparr>mcp_calls := AList.delete i (mcp_calls s)\<rparr>"
  have "call_ok ?t j x = call_ok s j x" for j x by (cases x) auto
  moreover have "set (AList.delete i (mcp_calls s)) \<subseteq> set (mcp_calls s)"
    by (auto simp: AList.delete_eq)
  ultimately have "calls_inv ?t" if "calls_inv s"
    using that unfolding calls_inv_def by (auto simp: distinct_delete)
  with assms show ?thesis by (auto simp: mcp_inv_def controllers_inv_def)
qed

lemma mcp_inv_refresh_finally:
  assumes inv: "mcp_inv s" and gone: "i \<notin> fst ` set (mcp_calls s)"
  shows "mcp_inv (refresh_finally i s)"
proof (cases "mcp_refreshing s")
  case (Some p)
  obtain q c where p: "p = (q, c)" by force
  have "calls_inv (s\<lparr>mcp_refreshing := None\<rparr>)" if c: "c = i"
  proof -
    have "call_ok (s\<lparr>mcp_refreshing := None\<rparr>) j x" if "(j, x) \<in> set (mcp_calls s)" for j x
    proof -
      have "j \<noteq> i" using gone that by force
      moreover have "call_ok s j x" using inv that by (auto simp: mcp_inv_def calls_inv_def)
      ultimately show ?thesis using Some p c by (cases x) auto
    qed
    with inv show ?thesis unfolding mcp_inv_def calls_inv_def by auto
  qed
  with inv Some p show ?thesis
    by (auto simp: refresh_finally_def mcp_inv_def controllers_inv_def)
qed (use inv in \<open>simp add: refresh_finally_def\<close>)

definition grows :: "bridge \<Rightarrow> bridge \<Rightarrow> bool" where
  "grows s t \<longleftrightarrow> mcp_sequence s \<le> mcp_sequence t \<and> mcp_next s \<le> mcp_next t \<and>
     (\<forall>p \<in> set (mcp_calls t). p \<in> set (mcp_calls s) \<or> mcp_next s \<le> fst p) \<and>
     (\<forall>c < mcp_next s. map_option ctl_sequence (map_of (mcp_controllers t) c)
                       = map_option ctl_sequence (map_of (mcp_controllers s) c))"

lemma grows_refl [simp]: "grows s s" by (simp add: grows_def)

lemma grows_trans:
  assumes st: "grows s t" and tu: "grows t u"
  shows "grows s u"
proof -
  have "p \<in> set (mcp_calls s) \<or> mcp_next s \<le> fst p" if "p \<in> set (mcp_calls u)" for p
    using st tu that unfolding grows_def by (meson le_trans)
  moreover have "map_option ctl_sequence (map_of (mcp_controllers u) c)
      = map_option ctl_sequence (map_of (mcp_controllers s) c)" if "c < mcp_next s" for c
  proof -
    have "c < mcp_next t" using st that by (simp add: grows_def)
    with st tu that show ?thesis by (simp add: grows_def)
  qed
  moreover have "mcp_sequence s \<le> mcp_sequence u" "mcp_next s \<le> mcp_next u"
    using st tu by (auto simp: grows_def)
  ultimately show ?thesis by (simp add: grows_def)
qed

lemma cancelPreparation_sequences [simp]:
  "map_option ctl_sequence (map_of (mcp_controllers (cancelPreparation s)) c)
   = map_option ctl_sequence (map_of (mcp_controllers s) c)"
  by (auto simp: cancelPreparation_def map_of_abort_controller option.map_comp o_def
      split: option.split)

lemma grows_prepare: "grows s (prepare c i s)"
  by (auto simp: grows_def prepare_def Let_def replace_layer_controllers split: option.split)

lemma grows_fold_prepare: "grows s (fold (prepare c) is s)"
proof (induction "is" arbitrary: s)
  case (Cons i "is")
  then show ?case using grows_trans [OF grows_prepare [of s c i]] by simp
qed simp

lemma grows_fail: "grows s (failMap m s)"
  by (auto simp: grows_def failMap_def Let_def)

lemma grows_refreshMap: "grows s (refreshMap d q s)"
  by (auto simp: grows_def refreshMap_def)

lemma grows_accept: "grows s (acceptMapResult r q now s)"
proof -
  have 1: "grows s (fold (prepare c) is (publish c t))" if "grows s t" for c "is" t
    by (rule grows_trans [OF that], rule grows_trans [OF _ grows_fold_prepare])
      (simp add: grows_def)
  have 2: "grows s (refreshMap d q (s\<lparr>mcp_refreshExpired := x\<rparr>))" for d q x
    using grows_refreshMap [of "s\<lparr>mcp_refreshExpired := x\<rparr>" d q] by (simp add: grows_def)
  show ?thesis
    unfolding acceptMapResult_def Let_def
    by (auto intro!: 1 2) (simp_all add: grows_def show_result_def)
qed

lemma grows_refresh_answer: "grows s (refresh_answer q r now s)"
  by (auto simp: refresh_answer_def grows_fail grows_accept
      split: refresh_response.split parsed_result.split)

lemma grows_prepare_answer: "grows s (prepare_answer c i r now s)"
  by (auto simp: prepare_answer_def prepare_failed_def Let_def grows_def replace_layer_controllers
      split: option.split prepare_response.split)

lemma mcp_inv_step: "mcp_inv s \<Longrightarrow> mcp_inv (mcp_step e s)"
proof (cases e)
  case (ToolResult r now)
  assume inv: "mcp_inv s"
  let ?c = "cancelPreparation s"
  have "between_inv (?c\<lparr>mcp_sequence := mcp_sequence ?c + 1\<rparr>)"
    using inv by (intro between_inv_bump mcp_inv_cancel)
  then show ?thesis
    using mcp_inv_accept [of "?c\<lparr>mcp_sequence := mcp_sequence ?c + 1\<rparr>"]
      between_inv_fail [of "?c\<lparr>mcp_sequence := mcp_sequence ?c + 1\<rparr>"]
    by (auto simp: ToolResult ontoolresult_def Let_def split: parsed_result.split)
next
  case (RefreshAnswer i r now)
  assume inv: "mcp_inv s"
  let ?s = "s\<lparr>mcp_calls := AList.delete i (mcp_calls s)\<rparr>"
  have "mcp_inv (refresh_finally i (refresh_answer q r now ?s))"
    if "map_of (mcp_calls s) i = Some x" for q x
  proof (rule mcp_inv_refresh_finally)
    show "mcp_inv (refresh_answer q r now ?s)"
      using inv by (intro mcp_inv_refresh_answer mcp_inv_delete_call)
    have "i < mcp_next s"
      using that inv by (auto simp: mcp_inv_def calls_inv_def dest!: map_of_SomeD)
    then show "i \<notin> fst ` set (mcp_calls (refresh_answer q r now ?s))"
      using grows_refresh_answer [of ?s q r now] by (fastforce simp: grows_def AList.delete_eq)
  qed
  with inv show ?thesis by (auto simp: RefreshAnswer split: option.split call.split)
next
  case Teardown
  assume inv: "mcp_inv s"
  let ?n = "s\<lparr>mcp_sequence := mcp_sequence s + 1, mcp_refreshExpired := None\<rparr>"
  have n: "mcp_inv ?n"
    using between_inv_bump [OF inv] by (auto simp: between_inv_def mcp_inv_def controllers_inv_def)
  have "(cancelPreparation (s\<lparr>mcp_sequence := mcp_sequence s + 1\<rparr>))\<lparr>mcp_refreshExpired := None\<rparr>
      = cancelPreparation ?n"
    by (simp add: cancelPreparation_def split: option.split)
  with mcp_inv_cancel [OF n] show ?thesis by (simp add: Teardown onteardown_def)
next
  case Unmount
  assume inv: "mcp_inv s"
  let ?n = "s\<lparr>mcp_sequence := mcp_sequence s + 1, mcp_refreshExpired := None\<rparr>"
  have "mcp_inv ?n"
    using between_inv_bump [OF inv] by (auto simp: between_inv_def mcp_inv_def controllers_inv_def)
  moreover from this have "calls_inv (unmount s)"
  proof (elim calls_inv_mono [of ?n, OF conjunct2 [OF conjunct2 [OF iffD1 [OF mcp_inv_def]]]])
    fix c
    assume "map_of (mcp_controllers ?n) c \<noteq> None"
    then show "map_of (mcp_controllers (unmount s)) c \<noteq> None"
      by (simp add: unmount_def map_of_abort_controller split: option.split)
  qed (simp_all add: unmount_def)
  moreover have "controllers_inv (unmount s)"
  proof (cases "mcp_preparation s")
    case None
    with \<open>mcp_inv ?n\<close> show ?thesis by (simp add: unmount_def mcp_inv_def controllers_inv_def)
  next
    case (Some c)
    with \<open>mcp_inv ?n\<close> show ?thesis
      by (auto simp: unmount_def mcp_inv_def controllers_inv_def map_of_abort_controller
          split: if_splits)
  qed
  moreover have "tokens_inv (unmount s)"
    using inv by (simp add: unmount_def mcp_inv_def)
  ultimately show ?thesis by (simp add: Unmount mcp_inv_def)
next
  case (PublishSettled p u)
  assume inv: "mcp_inv s"
  have "calls_inv (s\<lparr>mcp_publishes := a, mcp_bridgeError := b\<rparr>)"
    "calls_inv (s\<lparr>mcp_publishes := a\<rparr>)" for a b
    by (rule calls_inv_mono [of s]; use inv in \<open>simp add: mcp_inv_def\<close>)+
  with inv show ?thesis
    by (auto simp: PublishSettled mcp_inv_def controllers_inv_def Let_def split: option.split)
next
  case (HostError m)
  assume "mcp_inv s"
  then show ?thesis
    unfolding HostError mcp_step.simps onerror_def by (intro between_inv_fail between_inv_bump)
next
  case (TokenExpired q t)
  assume "mcp_inv s"
  then show ?thesis
    by (simp add: TokenExpired refreshExpiredToken_def mcp_inv_refreshMap split: option.split prod.split)
next
  case (PrepareAnswer i r now)
  assume "mcp_inv s"
  then show ?thesis
    by (simp add: PrepareAnswer mcp_inv_prepare_answer mcp_inv_delete_call
        split: option.split call.split)
qed

theorem mcp_reachable_inv: "mcp_reachable s \<Longrightarrow> mcp_inv s"
proof (induction rule: mcp_reachable.induct)
  case mcp_reachable_init
  show ?case
    by (simp add: initial_bridge_def mcp_inv_def tokens_inv_def controllers_inv_def calls_inv_def)
qed (rule mcp_inv_step)

text \<open>Every step only adds controllers and calls with fresh numbers.\<close>

lemma grows_step: "grows s (mcp_step e s)"
proof (cases e)
  case (ToolResult r now)
  let ?t = "(cancelPreparation s)\<lparr>mcp_sequence := mcp_sequence s + 1\<rparr>"
  have "grows s ?t" by (simp add: grows_def)
  then have "grows s (acceptMapResult x q now ?t)" "grows s (failMap m ?t)" for x q m
    using grows_trans grows_accept grows_fail by blast+
  then show ?thesis
    by (simp add: ToolResult ontoolresult_def Let_def split: parsed_result.split)
next
  case (HostError m)
  have "grows s (s\<lparr>mcp_sequence := mcp_sequence s + 1\<rparr>)" by (simp add: grows_def)
  then have "grows s (failMap m (s\<lparr>mcp_sequence := mcp_sequence s + 1\<rparr>))"
    using grows_trans grows_fail by blast
  then show ?thesis by (simp add: HostError onerror_def)
next
  case Teardown
  then show ?thesis
    using cancelPreparation_sequences [of "s\<lparr>mcp_sequence := mcp_sequence s + 1\<rparr>"]
    by (simp add: onteardown_def grows_def)
next
  case Unmount
  then show ?thesis
    by (auto simp: unmount_def grows_def map_of_abort_controller option.map_comp o_def
        split: option.split)
next
  case (RefreshAnswer i r now)
  have "grows s (s\<lparr>mcp_calls := AList.delete i (mcp_calls s)\<rparr>)"
    by (simp add: grows_def AList.delete_eq)
  then have "grows s (refresh_answer q r now (s\<lparr>mcp_calls := AList.delete i (mcp_calls s)\<rparr>))" for q
    using grows_trans grows_refresh_answer by blast
  moreover have "grows s (refresh_finally i t)" if "grows s t" for t
    using that by (auto simp: refresh_finally_def grows_def split: option.split)
  ultimately show ?thesis by (auto simp: RefreshAnswer split: option.split call.split)
next
  case (PrepareAnswer i r now)
  have "grows s (s\<lparr>mcp_calls := AList.delete i (mcp_calls s)\<rparr>)"
    by (simp add: grows_def AList.delete_eq)
  then have "grows s (prepare_answer c n r now (s\<lparr>mcp_calls := AList.delete i (mcp_calls s)\<rparr>))"
    for c n using grows_trans grows_prepare_answer by blast
  then show ?thesis by (auto simp: PrepareAnswer split: option.split call.split)
next
  case (PublishSettled p u)
  then show ?thesis by (auto simp: Let_def grows_def split: option.split)
qed (auto simp: refreshExpiredToken_def grows_refreshMap split: option.split)

definition mcp_run :: "mcp_event list \<Rightarrow> bridge \<Rightarrow> bridge" where
  "mcp_run es s = fold mcp_step es s"

lemma mcp_run_simps [simp]:
  "mcp_run [] s = s" "mcp_run (e # es) s = mcp_run es (mcp_step e s)"
  by (simp_all add: mcp_run_def)

lemma mcp_reachable_run: "mcp_reachable s \<Longrightarrow> mcp_reachable (mcp_run es s)"
  by (induction es arbitrary: s) (auto intro: mcp_reachable_step)

lemma grows_run: "grows s (mcp_run es s)"
proof (induction es arbitrary: s)
  case (Cons e es)
  then show ?case using grows_trans [OF grows_step [of s e]] by simp
qed simp

lemma calls_inv_callD:
  "calls_inv s \<Longrightarrow> (i, x) \<in> set (mcp_calls s) \<Longrightarrow> i < mcp_next s \<and> call_ok s i x"
  by (force simp: calls_inv_def)

text \<open>The events that start a new sequence, and what the widget shows.\<close>

fun supersedes :: "mcp_event \<Rightarrow> bool" where
  "supersedes (ToolResult r now) = True"
| "supersedes (HostError m) = True"
| "supersedes Teardown = True"
| "supersedes Unmount = True"
| "supersedes e = False"

fun answers_call :: "nat \<Rightarrow> mcp_event \<Rightarrow> bool" where
  "answers_call i (RefreshAnswer j r now) \<longleftrightarrow> i = j"
| "answers_call i (PrepareAnswer j r now) \<longleftrightarrow> i = j"
| "answers_call i e \<longleftrightarrow> False"

definition shown where
  "shown s = (mcp_mapConfiguration s, mcp_tokens s, mcp_queryTokens s, mcp_bridgeError s)"

lemma supersedes_sequence: "supersedes e \<Longrightarrow> mcp_sequence s < mcp_sequence (mcp_step e s)"
proof (induction e rule: supersedes.induct)
  case (1 r now)
  have "mcp_sequence s < mcp_sequence t" if "grows (cancelPreparation s\<lparr>mcp_sequence := Suc (mcp_sequence s)\<rparr>) t" for t
    using that by (simp add: grows_def)
  then show ?case
    by (auto simp: ontoolresult_def Let_def grows_accept grows_fail split: parsed_result.split)
next
  case (2 m)
  show ?case
    using grows_fail [of "s\<lparr>mcp_sequence := Suc (mcp_sequence s)\<rparr>" m]
    by (simp add: onerror_def grows_def)
qed (auto simp: onteardown_def unmount_def)

section \<open>Properties\<close>

text \<open>
  C6: whatever the host sends and in whatever order responses arrive, the query tokens given to
  the tiles (React state and ref alike) are exactly the tokens of the layers shown, no layer
  shown carries its expiration time, and with no map shown no token is kept.
\<close>

theorem shown_tokens_are_current:
  assumes "mcp_reachable s"
  shows "mcp_queryTokens s = mcp_tokens s \<and>
    mcp_tokens s = (case mcp_mapConfiguration s of None \<Rightarrow> [] | Some c \<Rightarrow> tokens_of (mc_layers c)) \<and>
    (\<forall>c l. mcp_mapConfiguration s = Some c \<longrightarrow> l \<in> set (mc_layers c) \<longrightarrow> \<not> has_expiration l)"
  using mcp_reachable_inv [OF assms]
  by (simp add: mcp_inv_def tokens_inv_def split: option.splits)

text \<open>
  two refresh calls in flight for the current map are one and the same call, so an expiring
  map asks the server once however many tiles report the expiry.
\<close>

theorem single_refresh_in_flight:
  assumes "mcp_reachable s"
    and "(i, RefreshCall (mcp_sequence s) d) \<in> set (mcp_calls s)"
    and "(j, RefreshCall (mcp_sequence s) e) \<in> set (mcp_calls s)"
  shows "i = j \<and> d = e"
proof -
  have inv: "calls_inv s" using mcp_reachable_inv [OF assms(1)] by (simp add: mcp_inv_def)
  have "mcp_refreshing s = Some (mcp_sequence s, i)" "mcp_refreshing s = Some (mcp_sequence s, j)"
    using inv assms(2,3) by (auto simp: calls_inv_def)
  with inv assms(2,3) show ?thesis
    by (auto simp: calls_inv_def dest: eq_key_imp_eq_value)
qed

text \<open>
  C5: once the host has sent a new result, an error or a teardown, or the widget was unmounted,
  the answer of any server call made before changes nothing the user sees, however late it
  arrives.
\<close>

theorem superseded_answers_are_ignored:
  assumes reach: "mcp_reachable s" and "i < mcp_next s" and "supersedes e" and "answers_call i a"
  shows "shown (mcp_step a (mcp_run es (mcp_step e s))) = shown (mcp_run es (mcp_step e s))"
proof -
  let ?u = "mcp_run es (mcp_step e s)"
  have new: "mcp_sequence s < mcp_sequence ?u"
    using supersedes_sequence [OF assms(3), of s] grows_run [of "mcp_step e s" es]
    by (simp add: grows_def)
  have g: "grows s ?u" using grows_trans [OF grows_step grows_run] .
  have inv: "mcp_inv s" using reach by (rule mcp_reachable_inv)
  have old: "(i, x) \<in> set (mcp_calls s)" if "map_of (mcp_calls ?u) i = Some x" for x
    using map_of_SomeD [OF that] g assms(2) by (auto simp: grows_def)
  have refresh: "q < mcp_sequence ?u" if "map_of (mcp_calls ?u) i = Some (RefreshCall q d)" for q d
    using old [OF that] inv new by (auto simp: mcp_inv_def calls_inv_def)
  have stale: "prepare_answer c n r now (?u\<lparr>mcp_calls := cs\<rparr>) = ?u\<lparr>mcp_calls := cs\<rparr>"
    if pend: "map_of (mcp_calls ?u) i = Some (PrepareCall c n)" for c n r now cs
  proof -
    obtain k where k: "map_of (mcp_controllers s) c = Some k"
      using calls_inv_callD [OF _ old [OF pend]] inv by (auto simp: mcp_inv_def)
    then have "c < mcp_next s" "ctl_sequence k \<le> mcp_sequence s"
      using inv by (auto simp: mcp_inv_def controllers_inv_def)
    moreover from this g have "map_option ctl_sequence (map_of (mcp_controllers ?u) c)
        = map_option ctl_sequence (Some k)"
      unfolding grows_def k [symmetric] by blast
    ultimately obtain k' where "map_of (mcp_controllers ?u) c = Some k'"
      "ctl_sequence k' < mcp_sequence ?u"
      using new by (auto simp: map_option_eq_Some)
    then show ?thesis by (simp add: prepare_answer_def controller_stale_def)
  qed
  show ?thesis
  proof (cases a)
    case (RefreshAnswer j r now)
    then show ?thesis
      using refresh assms(4)
      by (auto simp: refresh_answer_def refresh_finally_def shown_def
          split: option.split call.split)
  next
    case (PrepareAnswer j r now)
    then show ?thesis
      using stale assms(4) by (auto simp: shown_def split: option.split call.split)
  qed (use assms(4) in auto)
qed

definition refresh_wanted :: "(string \<times> string) list \<Rightarrow> bridge \<Rightarrow> bool" where
  "refresh_wanted reports s \<longleftrightarrow>
     (\<exists>(q, t) \<in> set reports. map_of (mcp_tokens s) q = Some t) \<and>
     (case mcp_refreshExpired s of None \<Rightarrow> False | Some (_, n) \<Rightarrow> n = mcp_sequence s) \<and>
     (case mcp_refreshing s of None \<Rightarrow> True | Some (n, _) \<Rightarrow> n \<noteq> mcp_sequence s)"

lemma refreshExpiredToken_cases:
  "refreshExpiredToken q t s = s \<and> \<not> refresh_wanted [(q, t)] s \<or>
   refresh_wanted [(q, t)] s \<and>
   (\<exists>d. mcp_refreshExpired s = Some (d, mcp_sequence s) \<and>
        refreshExpiredToken q t s = s\<lparr>mcp_refreshing := Some (mcp_sequence s, mcp_next s),
          mcp_calls := (mcp_next s, RefreshCall (mcp_sequence s) d) # mcp_calls s,
          mcp_next := Suc (mcp_next s)\<rparr>)"
  by (auto simp: refreshExpiredToken_def refreshMap_def refresh_wanted_def
      split: option.split)

lemma not_wanted_no_refresh:
  "\<not> refresh_wanted ps s \<Longrightarrow> fold (\<lambda>(q, t). refreshExpiredToken q t) ps s = s"
proof (induction ps)
  case (Cons p ps)
  obtain q t where p: "p = (q, t)" by force
  have "\<not> refresh_wanted ps s" "\<not> refresh_wanted [(q, t)] s"
    using Cons.prems p by (auto simp: refresh_wanted_def)
  with Cons p refreshExpiredToken_cases [of q t s] show ?case by auto
qed simp

text \<open>
  Any number of tiles may report expired tokens, in any order: together they start exactly
  one refresh call, and only if one of the reported tokens is still the token in use and no
  refresh of the current map is in flight.
\<close>

theorem expired_tokens_refresh_once:
  "map snd (mcp_calls (fold (\<lambda>(q, t). refreshExpiredToken q t) reports s)) =
   (if refresh_wanted reports s
    then [RefreshCall (mcp_sequence s) (fst (the (mcp_refreshExpired s)))] else [])
   @ map snd (mcp_calls s)"
proof (induction reports)
  case (Cons p ps)
  obtain q t where p: "p = (q, t)" by force
  show ?case
  proof (cases "refresh_wanted [(q, t)] s")
    case True
    with refreshExpiredToken_cases [of q t s] obtain d where
      d: "mcp_refreshExpired s = Some (d, mcp_sequence s)" and
      r: "refreshExpiredToken q t s = s\<lparr>mcp_refreshing := Some (mcp_sequence s, mcp_next s),
          mcp_calls := (mcp_next s, RefreshCall (mcp_sequence s) d) # mcp_calls s,
          mcp_next := Suc (mcp_next s)\<rparr>" by auto
    have "\<not> refresh_wanted ps (refreshExpiredToken q t s)" by (simp add: r refresh_wanted_def)
    then have "fold (\<lambda>(q, t). refreshExpiredToken q t) (p # ps) s = refreshExpiredToken q t s"
      by (simp add: p not_wanted_no_refresh)
    moreover have "refresh_wanted (p # ps) s" using True p by (auto simp: refresh_wanted_def)
    ultimately show ?thesis by (simp add: r d)
  next
    case False
    then have "refreshExpiredToken q t s = s" using refreshExpiredToken_cases [of q t s] by auto
    moreover have "refresh_wanted (p # ps) s = refresh_wanted ps s"
      using False p by (auto simp: refresh_wanted_def)
    ultimately show ?thesis using Cons p by simp
  qed
qed (simp add: refresh_wanted_def)

lemma replace_layer_live:
  assumes "map_of (mcp_controllers s) c = Some k" "\<not> controller_stale k s"
  shows "replace_layer c i l s =
    (let k' = k\<lparr>ctl_current := (ctl_current k)\<lparr>mr_layers := (mr_layers (ctl_current k))[i := l]\<rparr>\<rparr>
     in show_result (ctl_current k') (s\<lparr>mcp_controllers := map_set c k' (mcp_controllers s)\<rparr>))"
  using assms by (simp add: replace_layer_def publish_def controller_stale_def Let_def)

lemma replace_layers_commute:
  assumes "i \<noteq> j"
  shows "replace_layer c i l (replace_layer c j m s) = replace_layer c j m (replace_layer c i l s)"
proof (cases "map_of (mcp_controllers s) c")
  case (Some k)
  have upd: "map_set c x (map_set c y cs) = map_set c x cs" for x y :: controller and cs
    by (induction cs) auto
  have sw: "xs[j := m, i := l] = xs[i := l, j := m]" for xs :: "map_layer list"
    using assms by (rule list_update_swap [OF not_sym])
  show ?thesis
  proof (cases "controller_stale k s")
    case True
    with Some show ?thesis by (simp add: replace_layer_def publish_def controller_stale_def upd sw)
  next
    case False
    with Some show ?thesis
      by (simp add: replace_layer_def publish_def controller_stale_def show_result_def upd sw)
  qed
qed (simp add: replace_layer_def)

text \<open>What the answer makes of a layer.\<close>

definition failed_layer :: "pending_layer \<Rightarrow> string \<Rightarrow> map_layer" where
  "failed_layer original message =
     PendingLayer (original\<lparr>pl_preparation_status := Failed, pl_preparation_error := Some message\<rparr>)"

fun prepared_layer :: "pending_layer \<Rightarrow> prepare_response \<Rightarrow> int \<Rightarrow> map_layer" where
  "prepared_layer original (Prepared q expires) now =
     (if ql_layer_name q \<noteq> pl_layer_name original then failed_layer original contract_mismatch
      else if expires \<le> now
      then failed_layer original ''The prepared query token has expired. Reopen the map to retry.''
      else ResultLayer q expires)"
| "prepared_layer original (PrepareError message code) now =
     failed_layer original (message @ '' ('' @ code @ '')'')"
| "prepared_layer original PrepareInvalid now = failed_layer original contract_mismatch"
| "prepared_layer original PrepareThrew now =
     failed_layer original ''The host could not prepare this query layer. Reopen the map to retry.''"

lemma prepare_answer_layer:
  "prepare_answer c i r now s =
     (case map_of (mcp_controllers s) c of None \<Rightarrow> s
      | Some k \<Rightarrow> if controller_stale k s then s
          else (case preparable (ctl_result k) i of None \<Rightarrow> s
                | Some original \<Rightarrow> replace_layer c i (prepared_layer original r now) s))"
  by (cases r) (auto simp: prepare_answer_def prepare_failed_def failed_layer_def split: option.split)

text \<open>Whether a layer is still to be answered depends on the part of the state that stays.\<close>

definition answerable :: "nat \<Rightarrow> nat \<Rightarrow> bridge \<Rightarrow> pending_layer option" where
  "answerable c i s = (case map_of (mcp_controllers s) c of None \<Rightarrow> None
     | Some k \<Rightarrow> if controller_stale k s then None else preparable (ctl_result k) i)"

lemma prepare_answer_answerable:
  "prepare_answer c i r now s = (case answerable c i s of None \<Rightarrow> s
     | Some original \<Rightarrow> replace_layer c i (prepared_layer original r now) s)"
  by (simp add: prepare_answer_layer answerable_def split: option.split)

lemma answerable_replace_layer [simp]: "answerable c i (replace_layer c j l s) = answerable c i s"
  by (simp add: answerable_def replace_layer_def publish_def show_result_def controller_stale_def
      split: option.split)

text \<open>
  C8: the layers of a map are prepared by independent server calls; the order in which their
  answers arrive does not matter, neither for what is shown nor for the rest of the state.
\<close>

theorem prepare_answers_commute:
  assumes "i \<noteq> j"
  shows "prepare_answer c i a now (prepare_answer c j b later s) =
         prepare_answer c j b later (prepare_answer c i a now s)"
  by (simp add: prepare_answer_answerable replace_layers_commute [OF assms] split: option.split)

definition answered_layers where
  "answered_layers r answers =
     fold (\<lambda>(i, a, now) ls. case preparable r i of None \<Rightarrow> ls
             | Some original \<Rightarrow> ls[i := prepared_layer original a now]) answers (mr_layers r)"

definition showing_preparation :: "map_result \<Rightarrow> nat \<Rightarrow> map_layer list \<Rightarrow> bridge \<Rightarrow> bool" where
  "showing_preparation r c ls s \<longleftrightarrow>
     map_of (mcp_controllers s) c = Some \<lparr>ctl_aborted = False, ctl_sequence = mcp_sequence s,
        ctl_result = r, ctl_current = r\<lparr>mr_layers := ls\<rparr>\<rparr> \<and>
     mcp_mapConfiguration s = Some (runtimeConfiguration (r\<lparr>mr_layers := ls\<rparr>))"

lemma showing_replace_layer:
  "showing_preparation r c ls s \<Longrightarrow> showing_preparation r c (ls[i := l]) (replace_layer c i l s)"
  by (simp add: showing_preparation_def replace_layer_live controller_stale_def show_result_def)

lemma showing_answer:
  "showing_preparation r c ls s \<Longrightarrow>
   showing_preparation r c (case preparable r i of None \<Rightarrow> ls
       | Some original \<Rightarrow> ls[i := prepared_layer original a now]) (prepare_answer c i a now s)"
  using showing_replace_layer [of r c ls s]
  by (auto simp: prepare_answer_layer controller_stale_def showing_preparation_def
      split: option.split)

lemma showing_answers:
  "showing_preparation r c ls s \<Longrightarrow>
   showing_preparation r c
     (fold (\<lambda>(i, a, now) ls. case preparable r i of None \<Rightarrow> ls
             | Some original \<Rightarrow> ls[i := prepared_layer original a now]) answers ls)
     (fold (\<lambda>(i, a, now). prepare_answer c i a now) answers s)"
proof (induction answers arbitrary: ls s)
  case (Cons x xs)
  obtain i a now where "x = (i, a, now)" by (metis surj_pair)
  with Cons show ?case using showing_answer [OF Cons.prems, of i a now] by simp
qed simp

lemma preparable_layer:
  "preparable r i = Some original \<Longrightarrow> i < length (mr_layers r) \<and> mr_layers r ! i = PendingLayer original"
  by (auto simp: preparable_def split: if_splits spec_layer.splits spec_source.splits map_layer.splits)

lemma showing_preparation_calls [simp]:
  "showing_preparation r c ls (s\<lparr>mcp_calls := x, mcp_next := n\<rparr>) = showing_preparation r c ls s"
  by (simp add: showing_preparation_def)

lemma showing_prepare:
  assumes "showing_preparation r c (mr_layers r) s" "i \<in> set (preparing_indices r)"
  shows "showing_preparation r c (mr_layers r) (prepare c i s)"
proof (cases "preparable r i")
  case (Some original)
  then have "pl_preparation_status original = Preparing"
    using assms(2) preparable_layer [OF Some] by (simp add: preparing_indices_def)
  then have "original\<lparr>pl_preparation_status := Preparing\<rparr> = original" by simp
  then have "(mr_layers r)[i := PendingLayer (original\<lparr>pl_preparation_status := Preparing\<rparr>)]
      = mr_layers r"
    using preparable_layer [OF Some] by (metis list_update_id)
  then have "showing_preparation r c (mr_layers r)
      (replace_layer c i (PendingLayer (original\<lparr>pl_preparation_status := Preparing\<rparr>)) s)"
    using showing_replace_layer [OF assms(1), of i
        "PendingLayer (original\<lparr>pl_preparation_status := Preparing\<rparr>)"] by simp
  then show ?thesis
    using assms(1) Some by (simp add: prepare_def Let_def showing_preparation_def [of _ _ _ s])
qed (use assms in \<open>simp add: prepare_def showing_preparation_def\<close>)

lemma showing_fold_prepare:
  "set is \<subseteq> set (preparing_indices r) \<Longrightarrow> showing_preparation r c (mr_layers r) s \<Longrightarrow>
   showing_preparation r c (mr_layers r) (fold (prepare c) is s)"
  by (induction "is" arbitrary: s) (auto simp: showing_prepare)

text \<open>
  C7: when a result with pending layers arrives, the widget shows it at once, and after any
  answers of the preparation calls it shows the same map with each answered layer replaced by
  what its answer makes of it: the prepared layer, or the failure the user reads.
\<close>

theorem prepared_map_shows_answers:
  assumes "\<exists>l \<in> set (mr_layers r). is_pending l"
  shows "mcp_mapConfiguration
      (fold (\<lambda>(i, a, now). prepare_answer (mcp_next s) i a now) answers
         (acceptMapResult r (mcp_sequence s) now s))
    = Some (runtimeConfiguration (r\<lparr>mr_layers := answered_layers r answers\<rparr>))"
proof -
  have "showing_preparation r (mcp_next s) (mr_layers r) (acceptMapResult r (mcp_sequence s) now s)"
    using assms
    by (auto simp: acceptMapResult_def Let_def publish_def controller_stale_def show_result_def
        intro!: showing_fold_prepare) (simp add: showing_preparation_def)
  from showing_answers [OF this] show ?thesis
    by (simp add: showing_preparation_def answered_layers_def)
qed

text \<open>
  After an error of the host the widget shows no map, keeps no token and no way to refresh
  one, has aborted every preparation, shows the message and has queued it once for the agent.
\<close>

theorem host_error_clears:
  assumes "mcp_reachable s"
  shows "let t = mcp_step (HostError m) s in
    mcp_mapConfiguration t = None \<and> mcp_tokens t = [] \<and> mcp_queryTokens t = [] \<and>
    mcp_refreshExpired t = None \<and> mcp_preparation t = None \<and>
    (\<forall>c k. map_of (mcp_controllers t) c = Some k \<longrightarrow> ctl_aborted k) \<and>
    mcp_bridgeError t = Some m \<and>
    mcp_publishes t = (mcp_next s, mcp_sequence s + 1, m) # mcp_publishes s"
proof -
  let ?t = "mcp_step (HostError m) s"
  have prep: "mcp_preparation ?t = None" by (simp add: onerror_def failMap_def Let_def)
  have "controllers_inv ?t"
    using mcp_inv_step [OF mcp_reachable_inv [OF assms], of "HostError m"]
    by (simp only: mcp_inv_def)
  with prep have "map_of (mcp_controllers ?t) c = Some k \<Longrightarrow> ctl_aborted k" for c k
    by (auto simp: controllers_inv_def)
  moreover have "mcp_publishes (cancelPreparation u) = mcp_publishes u" for u
    by (simp add: cancelPreparation_def split: option.split)
  ultimately show ?thesis by (auto simp: Let_def onerror_def failMap_def)
qed

section \<open>Sample maps\<close>

definition sample_query :: query_layer where
  "sample_query = \<lparr>ql_query_id = ''q'', ql_query_token = ''t'', ql_layer_name = ''roads'', ql_rest = []\<rparr>"

definition sample_pending :: pending_layer where
  "sample_pending = \<lparr>pl_layer_id = ''p'', pl_layer_name = ''roads'', pl_preparation_status = Preparing,
     pl_preparation_error = None, pl_rest = []\<rparr>"

definition sample_result :: "map_layer list \<Rightarrow> map_result" where
  "sample_result ls = \<lparr>mr_title = [], mr_basemap = [], mr_worker_url = [], mr_camera = None,
     mr_layers = ls, mr_map_spec = \<lparr>md_title = [],
     md_layers = map (\<lambda>_. SourceSpec ''roads'' (SpecQuery ''handle'')) ls\<rparr>\<rparr>"

lemma sample_reachable: "mcp_reachable (mcp_run es initial_bridge)"
  by (rule mcp_reachable_run, rule mcp_reachable_init)

theorem shown_tokens_are_current_witness:
  "let s = mcp_run [ToolResult (ParsedMap (sample_result [ResultLayer sample_query 10])) 5] initial_bridge
   in mcp_tokens s = [(''q'', ''t'')] \<and> mcp_queryTokens s = mcp_tokens s"
proof -
  let ?s = "mcp_run [ToolResult (ParsedMap (sample_result [ResultLayer sample_query 10])) 5] initial_bridge"
  have "mcp_tokens ?s = [(''q'', ''t'')]" by code_simp
  then show ?thesis
    using shown_tokens_are_current [OF sample_reachable] unfolding Let_def by blast
qed

theorem single_refresh_in_flight_witness:
  "let s = mcp_run [ToolResult (ParsedMap (sample_result [ResultLayer sample_query 10])) 20] initial_bridge;
       d = mr_map_spec (sample_result [ResultLayer sample_query 10])
   in mcp_calls s = [(0, RefreshCall 1 d)] \<and>
      (0, RefreshCall (mcp_sequence s) d) \<in> set (mcp_calls s) \<and> (0::nat) = 0 \<and> d = d"
proof -
  let ?s = "mcp_run [ToolResult (ParsedMap (sample_result [ResultLayer sample_query 10])) 20] initial_bridge"
  let ?d = "mr_map_spec (sample_result [ResultLayer sample_query 10])"
  have c: "mcp_calls ?s = [(0, RefreshCall 1 ?d)]" "mcp_sequence ?s = 1" by code_simp+
  then have "(0, RefreshCall (mcp_sequence ?s) ?d) \<in> set (mcp_calls ?s)" by simp
  with c single_refresh_in_flight [OF sample_reachable this this] show ?thesis
    by (simp del: mcp_run_simps)
qed

theorem superseded_answers_are_ignored_witness:
  "let s = mcp_run [ToolResult (ParsedMap (sample_result [ResultLayer sample_query 10])) 20] initial_bridge;
       u = mcp_run [] (mcp_step (HostError ''gone'') s);
       a = RefreshAnswer 0 (Refreshed (ParsedMap (sample_result [ResultLayer sample_query 90]))) 30
   in shown (mcp_step a u) = shown u \<and> shown (mcp_step a s) \<noteq> shown s"
proof -
  let ?s = "mcp_run [ToolResult (ParsedMap (sample_result [ResultLayer sample_query 10])) 20] initial_bridge"
  let ?a = "RefreshAnswer 0 (Refreshed (ParsedMap (sample_result [ResultLayer sample_query 90]))) 30"
  have "0 < mcp_next ?s" "supersedes (HostError ''gone'')" "answers_call 0 ?a" by code_simp+
  moreover have "shown (mcp_step ?a ?s) \<noteq> shown ?s" by code_simp
  ultimately show ?thesis
    using superseded_answers_are_ignored [OF sample_reachable, of 0 _ "HostError ''gone''" ?a "[]"]
    unfolding Let_def by blast
qed

theorem prepare_answers_commute_witness:
  "let s = mcp_run [ToolResult (ParsedMap (sample_result [PendingLayer sample_pending, PendingLayer sample_pending])) 5] initial_bridge
   in prepare_answer 0 0 (Prepared sample_query 50) 6 (prepare_answer 0 1 PrepareThrew 7 s) =
      prepare_answer 0 1 PrepareThrew 7 (prepare_answer 0 0 (Prepared sample_query 50) 6 s)"
  unfolding Let_def by (rule prepare_answers_commute) simp

theorem prepared_map_shows_answers_witness:
  "let r = sample_result [PendingLayer sample_pending];
       s = prepare_answer 0 0 (Prepared sample_query 50) 6 (acceptMapResult r 0 5 initial_bridge)
   in map_option mc_layers (mcp_mapConfiguration s) = Some [ConfigLayer sample_query]"
proof -
  let ?r = "sample_result [PendingLayer sample_pending]"
  have pending: "\<exists>l \<in> set (mr_layers ?r). is_pending l" by (simp add: sample_result_def)
  have "answered_layers ?r [(0, Prepared sample_query 50, 6)] = [ResultLayer sample_query 50]"
    by code_simp
  then show ?thesis
    using prepared_map_shows_answers [OF pending, of initial_bridge "[(0, Prepared sample_query 50, 6)]" 5]
    by (simp add: Let_def runtimeConfiguration_def initial_bridge_def)
qed

theorem host_error_clears_witness:
  "let s = mcp_run [ToolResult (ParsedMap (sample_result [ResultLayer sample_query 10])) 5] initial_bridge
   in mcp_tokens s \<noteq> [] \<and> mcp_tokens (mcp_step (HostError ''gone'') s) = []"
proof -
  let ?s = "mcp_run [ToolResult (ParsedMap (sample_result [ResultLayer sample_query 10])) 5] initial_bridge"
  have "mcp_tokens ?s \<noteq> []" by code_simp
  then show ?thesis
    using host_error_clears [OF sample_reachable, where m = "''gone''"] unfolding Let_def by blast
qed

end
