(* ===== verification/VersionLabel.thy ===== *)
theory VersionLabel
  imports JsNumbers
begin

text \<open>
  Version labels and their order, \<open>webapp/src/components/dataset/versionLabel.ts\<close>.

  A version is a string or a number. \<open>String.prototype.localeCompare\<close> depends on the collation
  of the host and is the parameter \<open>lc\<close>. A comparison is a number, possibly NaN, which
  \<open>Array.prototype.sort\<close> reads as 0 (\<open>compare_sign\<close>).
\<close>

section \<open>Labels\<close>

datatype js_version = VersionString string | VersionNumber js_number

fun version_string :: "js_version \<Rightarrow> string" where
  "version_string (VersionString s) = s"
| "version_string (VersionNumber n) = js_String_number n"

text \<open>\<open>/^\d{4}-\d{2}-\d{2}$/\<close>.\<close>

fun is_date_label :: "string \<Rightarrow> bool" where
  "is_date_label [a, b, c, d, s, e, f, t, g, h] \<longleftrightarrow>
     list_all is_digit [a, b, c, d, e, f, g, h] \<and> s = CHR ''-'' \<and> t = CHR ''-''"
| "is_date_label _ \<longleftrightarrow> False"

definition formatVersionLabel :: "js_version option \<Rightarrow> string" where
  "formatVersionLabel version =
     (case version of None \<Rightarrow> []
      | Some v \<Rightarrow>
          (let normalized = version_string v in
           if is_date_label normalized \<or> startsWith normalized ''v'' then normalized
           else ''v'' @ normalized))"

definition parseVersionValue :: "string \<Rightarrow> js_version" where
  "parseVersionValue value =
     (if is_date_label value \<or> startsWith value ''v'' then VersionString value
      else let numeric = js_Number_string value in
        if isNaN numeric then VersionString value else VersionNumber numeric)"

section \<open>Order\<close>

definition parseSemverVersion :: "string \<Rightarrow> (nat \<times> nat \<times> nat) option" where
  "parseSemverVersion value =
     (case value of [] \<Rightarrow> None
      | v # rest \<Rightarrow>
          if v \<noteq> CHR ''v'' then None
          else (case split_on (CHR ''.'') rest of
             [major, minor, patch] \<Rightarrow>
               if list_all (\<lambda>p. p \<noteq> [] \<and> list_all is_digit p) [major, minor, patch]
               then Some (digits_value major, digits_value minor, digits_value patch)
               else None
           | _ \<Rightarrow> None))"

definition semver_diff :: "nat \<times> nat \<times> nat \<Rightarrow> nat \<times> nat \<times> nat \<Rightarrow> int" where
  "semver_diff l r =
     (case (l, r) of ((a, b, c), (x, y, z)) \<Rightarrow>
        if int x - int a \<noteq> 0 then int x - int a
        else if int y - int b \<noteq> 0 then int y - int b
        else int z - int c)"

definition compareVersionValues :: "(string \<Rightarrow> string \<Rightarrow> int) \<Rightarrow> js_version \<Rightarrow> js_version \<Rightarrow> js_number" where
  "compareVersionValues lc left right =
     (let l = version_string left; r = version_string right in
      case (parseSemverVersion l, parseSemverVersion r) of
        (Some a, Some b) \<Rightarrow> JsFin (of_int (semver_diff a b))
      | _ \<Rightarrow>
          if \<not> isNaN (js_Number_string l) \<and> \<not> isNaN (js_Number_string r)
          then js_minus (js_Number_string r) (js_Number_string l)
          else JsFin (of_int (lc r l)))"

definition version_cmp :: "(string \<Rightarrow> string \<Rightarrow> int) \<Rightarrow> js_version \<Rightarrow> js_version \<Rightarrow> rat" where
  "version_cmp lc left right = compare_sign (compareVersionValues lc left right)"

section \<open>Semantic versions are ordered newest first\<close>

definition semver_versions :: "js_version set" where
  "semver_versions = {v. parseSemverVersion (version_string v) \<noteq> None}"

definition semver_of :: "js_version \<Rightarrow> nat \<times> nat \<times> nat" where
  "semver_of v = the (parseSemverVersion (version_string v))"

text \<open>The release order of semantic versions: major, then minor, then patch.\<close>

fun semver_le :: "nat \<times> nat \<times> nat \<Rightarrow> nat \<times> nat \<times> nat \<Rightarrow> bool" where
  "semver_le (a, b, c) (x, y, z) \<longleftrightarrow> a < x \<or> a = x \<and> (b < y \<or> b = y \<and> c \<le> z)"

lemma semver_diff_le: "semver_diff l r \<le> 0 \<longleftrightarrow> semver_le r l"
  by (cases l; cases r) (auto simp: semver_diff_def)

lemma version_cmp_semver:
  "v \<in> semver_versions \<Longrightarrow> w \<in> semver_versions \<Longrightarrow>
   version_cmp lc v w = of_int (semver_diff (semver_of v) (semver_of w))"
  by (auto simp: version_cmp_def compareVersionValues_def semver_versions_def semver_of_def Let_def)

lemma version_cmp_semver_le:
  "v \<in> semver_versions \<Longrightarrow> w \<in> semver_versions \<Longrightarrow>
   version_cmp lc v w \<le> 0 \<longleftrightarrow> semver_le (semver_of w) (semver_of v)"
  by (simp add: version_cmp_semver semver_diff_le)

interpretation semver: comparator semver_versions "version_cmp lc" for lc
proof unfold_locales
  fix x y
  assume "x \<in> semver_versions" "y \<in> semver_versions" "0 < version_cmp lc x y"
  then show "version_cmp lc y x \<le> 0"
    by (cases "semver_of x"; cases "semver_of y")
       (auto simp: version_cmp_semver version_cmp_semver_le semver_diff_def split: if_splits)
next
  fix x y z
  assume "x \<in> semver_versions" "y \<in> semver_versions" "z \<in> semver_versions"
    "version_cmp lc x y \<le> 0" "version_cmp lc y z \<le> 0"
  then show "version_cmp lc x z \<le> 0"
    by (cases "semver_of x"; cases "semver_of y"; cases "semver_of z")
       (auto simp: version_cmp_semver_le)
qed

section \<open>Properties\<close>

text \<open>
  Formatting a version label twice changes nothing, and a label is empty, a date or starts
  with \<open>v\<close>.
\<close>

theorem formatVersionLabel_idempotent:
  "formatVersionLabel (Some (VersionString (formatVersionLabel (Some v)))) = formatVersionLabel (Some v) \<and>
   (is_date_label (formatVersionLabel (Some v)) \<or> startsWith (formatVersionLabel (Some v)) ''v'')"
proof -
  have "startsWith (CHR ''v'' # s) ''v''" for s by (simp add: startsWith_def)
  then show ?thesis by (auto simp: formatVersionLabel_def Let_def)
qed

text \<open>
  A list of semantic versions is sorted newest first, with versions of the same release in
  the order they had; nothing is lost.
\<close>

theorem semver_sorted_newest_first:
  assumes "set vs \<subseteq> semver_versions"
  shows "sorted_wrt (\<lambda>v w. semver_le (semver_of w) (semver_of v)) (sort_by (version_cmp lc) vs) \<and>
    mset (sort_by (version_cmp lc) vs) = mset vs"
proof -
  have "sorted_wrt (\<lambda>a b. version_cmp lc a b \<le> 0) (sort_by (version_cmp lc) vs)"
    using assms by (rule semver.sorted_sort_by)
  moreover have "semver_le (semver_of w) (semver_of v)"
    if "v \<in> set vs" "w \<in> set vs" "version_cmp lc v w \<le> 0" for v w
    using that assms by (auto simp: version_cmp_semver_le subset_iff)
  ultimately have "sorted_wrt (\<lambda>v w. semver_le (semver_of w) (semver_of v)) (sort_by (version_cmp lc) vs)"
    by (elim sorted_wrt_mono_rel [rotated]) auto
  then show ?thesis by simp
qed

theorem semver_sorted_newest_first_witness:
  "sort_by (version_cmp (\<lambda>_ _. 0)) (map VersionString [''v1.2.0'', ''v1.10.0'', ''v0.9.9''])
     = map VersionString [''v1.10.0'', ''v1.2.0'', ''v0.9.9''] \<and>
   sorted_wrt (\<lambda>v w. semver_le (semver_of w) (semver_of v))
     (sort_by (version_cmp (\<lambda>_ _. 0)) (map VersionString [''v1.2.0'', ''v1.10.0'', ''v0.9.9'']))"
proof -
  have "set (map VersionString [''v1.2.0'', ''v1.10.0'', ''v0.9.9'']) \<subseteq> semver_versions"
    by (simp add: semver_versions_def parseSemverVersion_def is_digit_def)
  from semver_sorted_newest_first [OF this] show ?thesis
    by (intro conjI; simp?) code_simp
qed

text \<open>
  on lists that mix full semantic versions with shorter labels the comparison is not
  transitive: with a collation that compares character by character there is a cycle, so
  \<open>sort\<close> gives an order that depends on the input order.
\<close>

theorem version_order_has_cycle:
  assumes "lc ''v1.15'' ''v1.2.0'' < 0" and "lc ''v1.10.0'' ''v1.15'' < 0"
  shows "version_cmp lc (VersionString ''v1.10.0'') (VersionString ''v1.2.0'') < 0 \<and>
    version_cmp lc (VersionString ''v1.2.0'') (VersionString ''v1.15'') < 0 \<and>
    version_cmp lc (VersionString ''v1.15'') (VersionString ''v1.10.0'') < 0"
proof -
  have "parseSemverVersion ''v1.10.0'' = Some (1, 10, 0)" "parseSemverVersion ''v1.2.0'' = Some (1, 2, 0)"
    "parseSemverVersion ''v1.15'' = None" "isNaN (js_Number_string ''v1.15'')"
    by code_simp+
  with assms show ?thesis
    by (simp add: version_cmp_def compareVersionValues_def semver_diff_def)
qed

text \<open>Character by character: the sign of the first difference.\<close>

fun char_compare :: "string \<Rightarrow> string \<Rightarrow> int" where
  "char_compare [] [] = 0"
| "char_compare [] (y # ys) = -1"
| "char_compare (x # xs) [] = 1"
| "char_compare (x # xs) (y # ys) =
     (if code_unit x < (code_unit y :: nat) then -1 else if (code_unit y :: nat) < code_unit x then 1
      else char_compare xs ys)"

theorem version_order_has_cycle_witness:
  "version_cmp char_compare (VersionString ''v1.10.0'') (VersionString ''v1.2.0'') < 0 \<and>
   version_cmp char_compare (VersionString ''v1.2.0'') (VersionString ''v1.15'') < 0 \<and>
   version_cmp char_compare (VersionString ''v1.15'') (VersionString ''v1.10.0'') < 0"
  by (rule version_order_has_cycle) simp_all

end
