(* ===== verification/JsJson.thy ===== *)
theory JsJson
  imports JsNumbers
begin

text \<open>
  JSON and percent encoding, as the source uses them: values, \<open>JSON.stringify\<close> and
  \<open>JSON.parse\<close>, \<open>encodeURIComponent\<close> and \<open>decodeURIComponent\<close>, and the round trips.

  An object is its list of members in insertion order; a member whose value is \<open>undefined\<close> is
  left out of the list, as \<open>JSON.stringify\<close> does. A number that is not finite prints as
  \<open>null\<close>. Escapes and percent sequences for code units above 255 are outside the model's
  \<open>char\<close> and read as an error.
\<close>

section \<open>Values\<close>

datatype json =
    JNull
  | JBool bool
  | JNum js_number
  | JStr string
  | JArr "json list"
  | JObj "(string \<times> json) list"

fun json_escape_char :: "char \<Rightarrow> string" where
  "json_escape_char c =
     (if c = CHR 34 then [CHR 92, CHR 34]
      else if c = CHR 92 then [CHR 92, CHR 92]
      else if c = CHR 8 then [CHR 92, CHR ''b'']
      else if c = CHR 9 then [CHR 92, CHR ''t'']
      else if c = CHR 10 then [CHR 92, CHR ''n'']
      else if c = CHR 12 then [CHR 92, CHR ''f'']
      else if c = CHR 13 then [CHR 92, CHR ''r'']
      else if code_unit c < 32
      then [CHR 92, CHR ''u'', CHR ''0'', CHR ''0'', digit_char (code_unit c div 16),
            digit_char (code_unit c mod 16)]
      else [c])"

definition json_quote :: "string \<Rightarrow> string" where
  "json_quote s = CHR 34 # concat (map json_escape_char s) @ [CHR 34]"

fun json_stringify :: "json \<Rightarrow> string"
  and stringify_elements :: "json list \<Rightarrow> string"
  and stringify_members :: "(string \<times> json) list \<Rightarrow> string" where
  "json_stringify JNull = ''null''"
| "json_stringify (JBool b) = (if b then ''true'' else ''false'')"
| "json_stringify (JNum n) = (if isFinite n then js_String_number n else ''null'')"
| "json_stringify (JStr s) = json_quote s"
| "json_stringify (JArr xs) = ''['' @ stringify_elements xs @ '']''"
| "json_stringify (JObj ms) = ''{'' @ stringify_members ms @ ''}''"
| "stringify_elements [] = []"
| "stringify_elements [x] = json_stringify x"
| "stringify_elements (x # y # ys) = json_stringify x @ '','' @ stringify_elements (y # ys)"
| "stringify_members [] = []"
| "stringify_members [(k, v)] = json_quote k @ '':'' @ json_stringify v"
| "stringify_members ((k, v) # m # ms) =
     json_quote k @ '':'' @ json_stringify v @ '','' @ stringify_members (m # ms)"

section \<open>Parsing\<close>

definition json_ws :: "string \<Rightarrow> string" where
  "json_ws s = dropWhile (\<lambda>c. code_unit c \<in> {9, 10, 13, 32}) s"

definition json_unescape :: "char \<Rightarrow> char option" where
  "json_unescape e =
     (if e \<in> {CHR 34, CHR 92, CHR ''/''} then Some e
      else if e = CHR ''b'' then Some (CHR 8)
      else if e = CHR ''f'' then Some (CHR 12)
      else if e = CHR ''n'' then Some (CHR 10)
      else if e = CHR ''r'' then Some (CHR 13)
      else if e = CHR ''t'' then Some (CHR 9)
      else None)"

definition hex4 :: "char \<Rightarrow> char \<Rightarrow> char \<Rightarrow> char \<Rightarrow> nat option" where
  "hex4 a b c d = (case (hex_value a, hex_value b, hex_value c, hex_value d) of
     (Some w, Some x, Some y, Some z) \<Rightarrow> Some (4096 * w + 256 * x + 16 * y + z) | _ \<Rightarrow> None)"

text \<open>The rest of a string literal, after its opening quote.\<close>

fun json_string :: "string \<Rightarrow> (string \<times> string) option" where
  "json_string [] = None"
| "json_string (x # s) =
     (if x = CHR 34 then Some ([], s)
      else if x = CHR 92 then
        (case s of
           [] \<Rightarrow> None
         | e # r \<Rightarrow>
             if e = CHR ''u'' then
               (case r of
                  a # b # c # d # t \<Rightarrow>
                    (case hex4 a b c d of
                       Some n \<Rightarrow> if n < 256 then map_option (apfst ((#) (char_of n))) (json_string t) else None
                     | None \<Rightarrow> None)
                | _ \<Rightarrow> None)
             else (case json_unescape e of
                     Some y \<Rightarrow> map_option (apfst ((#) y)) (json_string r)
                   | None \<Rightarrow> None))
      else if code_unit x < 32 then None
      else map_option (apfst ((#) x)) (json_string s))"

definition json_exponent :: "string \<Rightarrow> (int \<times> string) option" where
  "json_exponent s =
     (case s of
        c # r \<Rightarrow>
          if c \<in> {CHR ''e'', CHR ''E''} then
            (case sign_split r of (neg, u) \<Rightarrow>
               let ds = takeWhile is_digit u in
               if ds = [] then None
               else Some (if neg then - int (digits_value ds) else int (digits_value ds),
                          dropWhile is_digit u))
          else Some (0, s)
      | [] \<Rightarrow> Some (0, s))"

definition json_number :: "string \<Rightarrow> (rat \<times> string) option" where
  "json_number s =
     (let neg = startsWith s ''-''; s1 = (if neg then tl s else s);
          ip = takeWhile is_digit s1; r1 = dropWhile is_digit s1;
          dot = startsWith r1 ''.''; fp = (if dot then takeWhile is_digit (tl r1) else []);
          r2 = (if dot then dropWhile is_digit (tl r1) else r1) in
      if ip = [] \<or> hd ip = CHR ''0'' \<and> 1 < length ip \<or> dot \<and> fp = [] then None
      else map_option
        (\<lambda>(e, r). (let m = scale10 (of_nat (digits_value (ip @ fp))) (e - int (length fp)) in
                   (if neg then - m else m, r)))
        (json_exponent r2))"

definition json_literal :: "string \<Rightarrow> (json \<times> string) option" where
  "json_literal s =
     (if startsWith s ''null'' then Some (JNull, drop 4 s)
      else if startsWith s ''true'' then Some (JBool True, drop 4 s)
      else if startsWith s ''false'' then Some (JBool False, drop 5 s)
      else map_option (apfst (\<lambda>r. JNum (JsFin r))) (json_number s))"

text \<open>
  The parser descends with fuel, one unit per value or list cell; every unit is paid for by a
  character, so the length of the text is enough.
\<close>

fun json_value :: "nat \<Rightarrow> string \<Rightarrow> (json \<times> string) option"
  and json_elements :: "nat \<Rightarrow> string \<Rightarrow> (json list \<times> string) option"
  and json_members :: "nat \<Rightarrow> string \<Rightarrow> ((string \<times> json) list \<times> string) option" where
  "json_value 0 s = None"
| "json_value (Suc n) s =
     (case json_ws s of
        [] \<Rightarrow> None
      | c # r \<Rightarrow>
          if c = CHR 34 then map_option (apfst JStr) (json_string r)
          else if c = CHR ''['' then
            (if startsWith (json_ws r) '']'' then Some (JArr [], tl (json_ws r))
             else map_option (apfst JArr) (json_elements n r))
          else if c = CHR ''{'' then
            (if startsWith (json_ws r) ''}'' then Some (JObj [], tl (json_ws r))
             else map_option (apfst (\<lambda>ms. JObj (map_from_entries ms))) (json_members n r))
          else json_literal (c # r))"
| "json_elements 0 s = None"
| "json_elements (Suc n) s =
     (case json_value n s of
        None \<Rightarrow> None
      | Some (v, r) \<Rightarrow>
          (case json_ws r of
             [] \<Rightarrow> None
           | c # t \<Rightarrow>
               if c = CHR '','' then map_option (apfst ((#) v)) (json_elements n t)
               else if c = CHR '']'' then Some ([v], t) else None))"
| "json_members 0 s = None"
| "json_members (Suc n) s =
     (case json_ws s of
        [] \<Rightarrow> None
      | q # u \<Rightarrow>
          if q \<noteq> CHR 34 then None
          else (case json_string u of
             None \<Rightarrow> None
           | Some (k, r) \<Rightarrow>
               (case json_ws r of
                  [] \<Rightarrow> None
                | c # w \<Rightarrow>
                    if c \<noteq> CHR '':'' then None
                    else (case json_value n w of
                       None \<Rightarrow> None
                     | Some (v, t) \<Rightarrow>
                         (case json_ws t of
                            [] \<Rightarrow> None
                          | d # x \<Rightarrow>
                              if d = CHR '','' then map_option (apfst ((#) (k, v))) (json_members n x)
                              else if d = CHR ''}'' then Some ([(k, v)], x) else None)))))"

definition json_parse :: "string \<Rightarrow> json option" where
  "json_parse s =
     (case json_value (length s) s of
        Some (v, r) \<Rightarrow> if json_ws r = [] then Some v else None
      | None \<Rightarrow> None)"

section \<open>Parsing what was printed\<close>

lemma hex_value_digit_char: "d < 16 \<Longrightarrow> hex_value (digit_char d) = Some d"
  by (auto simp: hex_value_def digit_char_def Let_def)

lemma hex4_control:
  "n < 32 \<Longrightarrow> hex4 (CHR ''0'') (CHR ''0'') (digit_char (n div 16)) (digit_char (n mod 16)) = Some n"
proof -
  assume "n < 32"
  moreover have "hex_value (CHR ''0'') = Some 0" by (simp add: hex_value_def)
  ultimately show ?thesis by (simp add: hex4_def hex_value_digit_char)
qed

lemma json_string_escape:
  "json_string (json_escape_char c @ t) = map_option (apfst ((#) c)) (json_string t)"
proof (cases "c \<in> {CHR 34, CHR 92, CHR 8, CHR 9, CHR 10, CHR 12, CHR 13}")
  case True
  then show ?thesis by (auto simp: json_unescape_def)
next
  case False
  show ?thesis
  proof (cases "code_unit c < (32 :: nat)")
    case True
    then have "json_escape_char c = [CHR 92, CHR ''u'', CHR ''0'', CHR ''0'',
        digit_char (code_unit c div 16), digit_char (code_unit c mod 16)]"
      using False by simp
    then show ?thesis using hex4_control [OF True] by simp
  qed (use False in simp)
qed

declare json_escape_char.simps [simp del]

lemma json_string_quoted: "json_string (concat (map json_escape_char s) @ CHR 34 # r) = Some (s, r)"
proof (induction s)
  case (Cons c s)
  then show ?case by (simp add: json_string_escape del: json_string.simps(2))
qed simp

declare json_string.simps [simp del]

lemma json_quote_hd: "json_quote s @ r = CHR 34 # concat (map json_escape_char s) @ CHR 34 # r"
  by (simp add: json_quote_def)

lemma json_ws_Cons [simp]: "code_unit c \<notin> {9, 10, 13, 32 :: nat} \<Longrightarrow> json_ws (c # s) = c # s"
  by (simp add: json_ws_def)

text \<open>The values whose numbers are integers and whose objects have no key twice.\<close>

fun json_clean :: "json \<Rightarrow> bool" where
  "json_clean (JNum n) = isInteger n"
| "json_clean (JArr xs) = (\<forall>x \<in> set xs. json_clean x)"
| "json_clean (JObj ms) = (distinct (map fst ms) \<and> (\<forall>m \<in> set ms. json_clean (snd m)))"
| "json_clean v = True"

fun json_need :: "json \<Rightarrow> nat"
  and elements_need :: "json list \<Rightarrow> nat"
  and members_need :: "(string \<times> json) list \<Rightarrow> nat" where
  "json_need (JArr xs) = Suc (elements_need xs)"
| "json_need (JObj ms) = Suc (members_need ms)"
| "json_need v = 1"
| "elements_need [] = 0"
| "elements_need (x # xs) = Suc (max (json_need x) (elements_need xs))"
| "members_need [] = 0"
| "members_need ((k, v) # ms) = Suc (max (json_need v) (members_need ms))"

lemma map_from_entries_id:
  assumes "distinct (map fst ms)"
  shows "map_from_entries ms = ms"
proof -
  have "fold (\<lambda>(k, v). map_set k v) ms acc = acc @ ms" if "distinct (map fst (acc @ ms))"
    for acc :: "('a \<times> 'b) list"
    using that
  proof (induction ms arbitrary: acc)
    case (Cons m ms)
    then show ?case by (cases m) (auto simp: length_map_set_new)
  qed simp
  from this [of "[]"] assms show ?thesis by (simp add: map_from_entries_def)
qed

lemma isInteger_iff: "isInteger n \<longleftrightarrow> (\<exists>i. n = JsFin (of_int i))"
proof (cases n)
  case (JsFin r)
  obtain p q where pq: "quotient_of r = (p, q)" by fastforce
  then have r: "r = of_int p / of_int q" by (rule quotient_of_div)
  show ?thesis
  proof
    assume "isInteger n"
    then have "n = JsFin (of_int p)" using JsFin pq r by simp
    then show "\<exists>i. n = JsFin (of_int i)" ..
  next
    assume "\<exists>i. n = JsFin (of_int i)"
    then show "isInteger n" by auto
  qed
qed auto

lemma json_stringify_int [simp]: "json_stringify (JNum (JsFin (of_int i))) = show_int i"
  by simp

lemma show_nat_leading_zero: "hd (show_nat n) = CHR ''0'' \<Longrightarrow> length (show_nat n) = 1"
proof (induction n rule: show_nat.induct)
  case (1 n)
  show ?case
  proof (cases "n < 10")
    case False
    then have eq: "show_nat n = show_nat (n div 10) @ [digit_char (n mod 10)]" by (subst show_nat.simps) simp
    then have zero: "hd (show_nat (n div 10)) = CHR ''0''" using 1(2) by simp
    then have "length (show_nat (n div 10)) = 1" using 1(1) False by simp
    then have "show_nat (n div 10) = [CHR ''0'']" using zero by (cases "show_nat (n div 10)") auto
    then have "digits_value (show_nat (n div 10)) = 0" by (simp add: digits_value_def)
    then show ?thesis using False by simp
  qed (subst show_nat.simps, simp)
qed

definition number_char :: "char \<Rightarrow> bool" where
  "number_char c \<longleftrightarrow> is_digit c \<or> c \<in> {CHR ''.'', CHR ''e'', CHR ''E''}"

definition ends_number :: "string \<Rightarrow> bool" where
  "ends_number r \<longleftrightarrow> r = [] \<or> \<not> number_char (hd r)"

lemma ends_number_simps [simp]: "ends_number []" "ends_number (c # r) \<longleftrightarrow> \<not> number_char c"
  by (simp_all add: ends_number_def)

lemma number_char_closing [simp]: "\<not> number_char (CHR '','')" "\<not> number_char (CHR '']'')" "\<not> number_char (CHR ''}'')"
  by (simp_all add: number_char_def is_digit_def)

lemma json_number_show_nat:
  assumes "ends_number r"
  shows "json_number (show_nat n @ r) = Some (of_nat n, r)"
    "json_number (CHR ''-'' # show_nat n @ r) = Some (- of_nat n, r)"
proof -
  obtain d u where d: "show_nat n = d # u" by (cases "show_nat n") simp_all
  have digits: "\<forall>c \<in> set (show_nat n). is_digit c" by (simp add: show_nat_digits [unfolded list_all_iff])
  have tail: "takeWhile is_digit r = []" "dropWhile is_digit r = r" "\<not> startsWith r ''.''" "json_exponent r = Some (0, r)"
    using assms by (cases r; auto simp: number_char_def startsWith_def json_exponent_def)+
  have parts: "takeWhile is_digit (show_nat n @ r) = show_nat n" "dropWhile is_digit (show_nat n @ r) = r"
    using digits tail by (simp_all add: takeWhile_append2 dropWhile_append2)
  have "d \<noteq> CHR ''-''" using digits d by (auto simp: is_digit_def)
  moreover have "\<not> (hd (show_nat n) = CHR ''0'' \<and> 1 < length (show_nat n))" using show_nat_leading_zero by force
  ultimately show "json_number (show_nat n @ r) = Some (of_nat n, r)"
    "json_number (CHR ''-'' # show_nat n @ r) = Some (- of_nat n, r)"
    using parts tail digits_value_show_nat [of n] unfolding d
    by (simp_all add: json_number_def startsWith_def Let_def scale10_def)
qed

lemma show_int_Cons: "\<exists>c u. show_int i = c # u \<and> (is_digit c \<or> c = CHR ''-'')"
proof (cases "i < 0")
  case False
  then show ?thesis using show_nat_digits [of "nat i"] by (cases "show_nat (nat i)") (simp_all add: show_int_def)
qed (simp add: show_int_def)

lemma json_value_int:
  assumes "ends_number r"
  shows "json_value (Suc m) (show_int i @ r) = Some (JNum (JsFin (of_int i)), r)"
proof -
  have "json_number (show_int i @ r) = Some (of_int i, r)"
    using json_number_show_nat [OF assms] by (auto simp: show_int_def)
  moreover obtain c u where c: "show_int i = c # u" "is_digit c \<or> c = CHR ''-''" using show_int_Cons by blast
  moreover have "c \<noteq> CHR ''n''" "c \<noteq> CHR ''t''" "c \<noteq> CHR ''f''"
    "code_unit c \<notin> {9, 10, 13, 32 :: nat}" "c \<noteq> CHR 34" "c \<noteq> CHR ''[''" "c \<noteq> CHR ''{''"
    using c(2) by (auto simp: is_digit_def)
  ultimately show ?thesis by (simp add: json_literal_def startsWith_def)
qed

lemma json_value_number:
  assumes "json_clean (JNum a)" and "ends_number r"
  shows "json_value (Suc m) (json_stringify (JNum a) @ r) = Some (JNum a, r)"
proof -
  obtain i where "a = JsFin (of_int i)" using assms(1) by (auto simp: isInteger_iff)
  then show ?thesis using json_value_int [OF assms(2)] by simp
qed

lemma json_number_length:
  "json_need (JNum a) \<le> length (json_stringify (JNum a)) \<or> \<not> json_clean (JNum a)"
proof (cases "json_clean (JNum a)")
  case True
  then obtain i where "a = JsFin (of_int i)" by (auto simp: isInteger_iff)
  moreover obtain c u where "show_int i = c # u" using show_int_Cons by blast
  ultimately show ?thesis by simp
qed simp

lemma json_value_not_closing: "json_clean v \<Longrightarrow> \<exists>c t. json_stringify v = c # t \<and>
    code_unit c \<notin> {9, 10, 13, 32 :: nat} \<and> c \<noteq> CHR '']'' \<and> c \<noteq> CHR ''}''"
proof (cases v)
  case (JNum n)
  assume "json_clean v"
  then obtain i where "json_stringify v = show_int i" using JNum by (auto simp: isInteger_iff)
  moreover obtain c u where c: "show_int i = c # u" "is_digit c \<or> c = CHR ''-''" using show_int_Cons by blast
  moreover have "code_unit c \<notin> {9, 10, 13, 32 :: nat}" "c \<noteq> CHR '']''" "c \<noteq> CHR ''}''"
    using c(2) by (auto simp: is_digit_def)
  ultimately show ?thesis by simp
qed (auto simp: json_quote_def)

lemma stringify_elements_Cons:
  "stringify_elements (x # xs) = json_stringify x @ (if xs = [] then [] else CHR '','' # stringify_elements xs)"
  by (cases xs) auto

lemma stringify_members_Cons:
  "stringify_members ((k, v) # ms) = json_quote k @ CHR '':'' # json_stringify v
     @ (if ms = [] then [] else CHR '','' # stringify_members ms)"
  by (cases ms) auto

lemma startsWith_Cons [simp]: "startsWith (c # s) [d] \<longleftrightarrow> c = d"
  by (simp add: startsWith_def)

theorem json_value_stringify:
  "json_clean v \<Longrightarrow> json_need v \<le> n \<Longrightarrow> ends_number r \<Longrightarrow> json_value n (json_stringify v @ r) = Some (v, r)"
  "xs \<noteq> [] \<Longrightarrow> \<forall>x \<in> set xs. json_clean x \<Longrightarrow> elements_need xs \<le> n \<Longrightarrow>
     json_elements n (stringify_elements xs @ CHR '']'' # r) = Some (xs, r)"
  "ms \<noteq> [] \<Longrightarrow> \<forall>m \<in> set ms. json_clean (snd m) \<Longrightarrow> members_need ms \<le> n \<Longrightarrow>
     json_members n (stringify_members ms @ CHR ''}'' # r) = Some (ms, r)"
proof (induction v and xs and ms arbitrary: n r and n r and n r
    rule: json_need_elements_need_members_need.induct)
  case (1 xs)
  then obtain m where n: "n = Suc m" by (cases n) auto
  show ?case
  proof (cases xs)
    case (Cons x ys)
    then obtain c t where "json_stringify x = c # t" "code_unit c \<notin> {9, 10, 13, 32 :: nat}" "c \<noteq> CHR '']''"
      using 1(2) json_value_not_closing [of x] by auto
    then have "\<not> startsWith (json_ws (stringify_elements xs @ CHR '']'' # r)) '']''"
      by (simp add: Cons stringify_elements_Cons)
    then show ?thesis using 1 n Cons by simp
  qed (simp add: n)
next
  case (2 ms)
  then obtain m where n: "n = Suc m" by (cases n) auto
  show ?case
  proof (cases ms)
    case (Cons x ys)
    obtain k v where "x = (k, v)" by force
    then have "\<not> startsWith (json_ws (stringify_members ms @ CHR ''}'' # r)) ''}''"
      by (simp add: Cons stringify_members_Cons json_quote_hd)
    then show ?thesis using 2 n Cons by (simp add: map_from_entries_id)
  qed (simp add: n)
next
  case "3_1"
  then obtain m where n: "n = Suc m" by (cases n) auto
  then show ?case by (simp add: json_literal_def startsWith_def)
next
  case "3_2"
  then obtain m where n: "n = Suc m" by (cases n) auto
  then show ?case by (simp add: json_literal_def startsWith_def)
next
  case "3_3"
  then obtain m where n: "n = Suc m" by (cases n) auto
  show ?case unfolding n by (rule json_value_number [OF "3_3"(1) "3_3"(3)])
next
  case "3_4"
  then obtain m where n: "n = Suc m" by (cases n) auto
  then show ?case by (simp add: json_quote_hd json_string_quoted)
next
  case 4
  then show ?case by simp
next
  case (5 x xs)
  then obtain m where n: "n = Suc m" by (cases n) auto
  have v: "json_value m (json_stringify x @ u) = Some (x, u)" if "ends_number u" for u
    using 5(1) [of m u] 5(4,5) n that by simp
  show ?case
  proof (cases "xs = []")
    case False
    then have "json_elements m (stringify_elements xs @ CHR '']'' # r) = Some (xs, r)"
      using 5(2) [of m r] 5(4,5) n by simp
    with v False show ?thesis by (simp add: n stringify_elements_Cons)
  qed (simp add: n v)
next
  case 6
  then show ?case by simp
next
  case (7 k x ms)
  then obtain m where n: "n = Suc m" by (cases n) auto
  have v: "json_value m (json_stringify x @ u) = Some (x, u)" if "ends_number u" for u
    using 7(1) [of m u] 7(4,5) n that by simp
  show ?case
  proof (cases "ms = []")
    case False
    then have "json_members m (stringify_members ms @ CHR ''}'' # r) = Some (ms, r)"
      using 7(2) [of m r] 7(4,5) n by simp
    with v False show ?thesis
      by (simp add: n stringify_members_Cons json_quote_hd json_string_quoted)
  qed (simp add: n v json_quote_hd json_string_quoted)
qed

lemma json_need_le:
  "json_need v \<le> length (json_stringify v) \<or> \<not> json_clean v"
  "elements_need xs \<le> length (stringify_elements xs) + 1 \<or> \<not> (\<forall>x \<in> set xs. json_clean x)"
  "members_need ms \<le> length (stringify_members ms) + 1 \<or> \<not> (\<forall>m \<in> set ms. json_clean (snd m))"
proof (induction v and xs and ms rule: json_need_elements_need_members_need.induct)
  case (5 x xs)
  show ?case
    using 5 by (cases "xs = []") (auto simp: stringify_elements_Cons)
next
  case (7 k x ms)
  show ?case
    using 7 by (cases "ms = []") (auto simp: stringify_members_Cons json_quote_def)
next
  case "3_3"
  show ?case by (rule json_number_length)
qed (auto simp: json_quote_def)

theorem json_parse_stringify: "json_clean v \<Longrightarrow> json_parse (json_stringify v) = Some v"
  using json_value_stringify(1) [of v "length (json_stringify v)" "[]"] json_need_le(1) [of v]
  by (simp add: json_parse_def json_ws_def)

section \<open>Percent encoding\<close>

definition uri_unreserved :: "char \<Rightarrow> bool" where
  "uri_unreserved c \<longleftrightarrow> is_digit c \<or> is_lower_alpha c \<or> is_upper_alpha c \<or>
     c \<in> {CHR ''-'', CHR ''_'', CHR ''.'', CHR ''!'', CHR ''~'', CHR ''*'', CHR 39, CHR ''('', CHR '')''}"

definition upper_hex :: "nat \<Rightarrow> char" where
  "upper_hex d = char_of (if d < 10 then 48 + d else 55 + d)"

definition percent_byte :: "nat \<Rightarrow> string" where
  "percent_byte n = [CHR ''%'', upper_hex (n div 16), upper_hex (n mod 16)]"

text \<open>UTF-8 of a code unit below 256 is one byte or two.\<close>

definition percent_char :: "char \<Rightarrow> string" where
  "percent_char c =
     (let n = code_unit c in
      if uri_unreserved c then [c]
      else if n < 128 then percent_byte n
      else percent_byte (192 + n div 64) @ percent_byte (128 + n mod 64))"

definition encodeURIComponent :: "string \<Rightarrow> string" where
  "encodeURIComponent s = concat (map percent_char s)"

definition hex2 :: "char \<Rightarrow> char \<Rightarrow> nat option" where
  "hex2 a b = (case (hex_value a, hex_value b) of (Some x, Some y) \<Rightarrow> Some (16 * x + y) | _ \<Rightarrow> None)"

text \<open>
  \<open>None\<close> is the \<open>URIError\<close>: a bad escape, a stray continuation byte, an overlong or cut
  sequence.
\<close>

fun decodeURIComponent :: "string \<Rightarrow> string option" where
  "decodeURIComponent [] = Some []"
| "decodeURIComponent (c # s) =
     (if c \<noteq> CHR ''%'' then map_option ((#) c) (decodeURIComponent s)
      else (case s of
        a # b # t \<Rightarrow>
          (case hex2 a b of
             None \<Rightarrow> None
           | Some n \<Rightarrow>
               if n < 128 then map_option ((#) (char_of n)) (decodeURIComponent t)
               else if n = 194 \<or> n = 195 then
                 (case t of
                    p # d # e # u \<Rightarrow>
                      if p \<noteq> CHR ''%'' then None
                      else (case hex2 d e of
                         None \<Rightarrow> None
                       | Some m \<Rightarrow>
                           if 128 \<le> m \<and> m < 192
                           then map_option ((#) (char_of ((n - 192) * 64 + (m - 128)))) (decodeURIComponent u)
                           else None)
                  | _ \<Rightarrow> None)
               else None)
      | _ \<Rightarrow> None))"

lemma hex_value_upper_hex: "d < 16 \<Longrightarrow> hex_value (upper_hex d) = Some d"
  by (auto simp: hex_value_def upper_hex_def Let_def)

lemma hex2_percent_byte: "n < 256 \<Longrightarrow> hex2 (upper_hex (n div 16)) (upper_hex (n mod 16)) = Some n"
  by (simp add: hex2_def hex_value_upper_hex less_mult_imp_div_less)



lemma decode_percent_char:
  "decodeURIComponent (percent_char c @ t) = map_option ((#) c) (decodeURIComponent t)"
proof -
  define n where "n = (of_char c :: nat)"
  have n: "n < 256" "char_of n = c" by (simp_all add: n_def)
  show ?thesis
  proof (cases "uri_unreserved c")
    case True
    then have "c \<noteq> CHR ''%''"
      by (auto simp: uri_unreserved_def is_digit_def is_lower_alpha_def is_upper_alpha_def)
    with True show ?thesis by (simp add: percent_char_def Let_def)
  next
    case False
    show ?thesis
    proof (cases "n < 128")
      case True
      with False n show ?thesis
        by (simp add: percent_char_def percent_byte_def hex2_percent_byte n_def [symmetric])
    next
      case big: False
      let ?a = "192 + n div 64" and ?b = "128 + n mod 64"
      have ab: "hex2 (upper_hex (?a div 16)) (upper_hex (?a mod 16)) = Some ?a"
        "hex2 (upper_hex (?b div 16)) (upper_hex (?b mod 16)) = Some ?b"
        by (rule hex2_percent_byte, use n in linarith)+
      have "n div 64 = 2 \<or> n div 64 = 3" using n big by linarith
      moreover have "(?a - 192) * 64 + (?b - 128) = n" by simp
      ultimately show ?thesis
        using False big n ab by (simp add: percent_char_def percent_byte_def n_def [symmetric])
    qed
  qed
qed

declare decodeURIComponent.simps(2) [simp del]

theorem decode_encodeURIComponent [simp]: "decodeURIComponent (encodeURIComponent s) = Some s"
proof (induction s)
  case (Cons c s)
  then show ?case by (simp add: encodeURIComponent_def decode_percent_char)
qed (simp add: encodeURIComponent_def)

text \<open>What the encoding never contains.\<close>

lemma upper_hex_alnum: "d < 16 \<Longrightarrow> is_digit (upper_hex d) \<or> is_upper_alpha (upper_hex d)"
  by (auto simp: upper_hex_def is_digit_def is_upper_alpha_def)

lemma encodeURIComponent_chars:
  "c \<in> set (encodeURIComponent s) \<Longrightarrow> uri_unreserved c \<or> c = CHR ''%''"
proof -
  have "uri_unreserved c \<or> c = CHR ''%''" if "c \<in> set (percent_char x)" for x
  proof -
    define n where "n = (of_char x :: nat)"
    have "n < 256" by (simp add: n_def)
    then have b: "n div 16 < 16" "n mod 16 < 16" "(192 + n div 64) div 16 < 16" "(128 + n mod 64) div 16 < 16"
      "(192 + n div 64) mod 16 < 16" "(128 + n mod 64) mod 16 < 16" by linarith+
    from that b [THEN upper_hex_alnum] show ?thesis
      by (auto simp: percent_char_def percent_byte_def uri_unreserved_def Let_def n_def [symmetric]
          split: if_splits)
  qed
  then show "c \<in> set (encodeURIComponent s) \<Longrightarrow> ?thesis"
    by (auto simp: encodeURIComponent_def)
qed

end
