(* ===== verification/DatasetSources.thy ===== *)
theory DatasetSources
  imports VersionLabel JsJson
begin

text \<open>
  Dataset sources of the web application: the presentation types of \<open>webapp/src/lib/api-client.ts\<close>
  and the pure modules over them in \<open>webapp/src/components/dataset/\<close>: \<open>sourceUrls.ts\<close>,
  \<open>compareSources.ts\<close>, \<open>schemaSources.ts\<close>, \<open>geoparquetTree.ts\<close> and \<open>parquetPreviewOptions.ts\<close>.

  Members that these modules never read (checksums, timestamps, object lists) are left out of
  the records. \<open>lc\<close> is the host's \<open>localeCompare\<close>.
\<close>

section \<open>Types\<close>

datatype source_location = FileLocation string string | ApiLocation string string

datatype source_type = FileSource | ApiSource

record column_schema =
  cs_name :: string
  cs_type :: string
  cs_description :: "string option"
  cs_nullable :: bool
  cs_num_null_values :: "js_number option"
  cs_num_unique_values :: "js_number option"
  cs_example_values :: "string list option"
  cs_min :: "js_number option"
  cs_max :: "js_number option"
  cs_length :: "js_number option"
  cs_possible_values :: "string list option"

text \<open>A \<open>null\<close> member is as absent as a missing one: no reader tells them apart.\<close>

record file_metadata =
  fm_version :: string
  fm_description :: "string option"
  fm_size_bytes :: "js_number option"
  fm_mime_type :: "string option"
  fm_feature_count :: "js_number option"
  fm_bounds :: "js_number list option"
  fm_geometry_type :: "string option"
  fm_invalid_geometry_count :: "js_number option"
  fm_quality_check_passed :: "bool option"
  fm_columns_hash :: "string option"
  fm_columns :: "column_schema list option"

record storage_config =
  sc_type :: "string option"
  sc_base_url :: string
  sc_bucket :: string
  sc_endpoint_url :: "string option"

record storage_location =
  sl_id :: string
  sl_slug :: "string option"
  sl_name :: string
  sl_config :: "storage_config option"

record dataset_source =
  ds_id :: string
  ds_asset_key :: "string option"
  ds_version :: "js_version option"
  ds_url :: "string option"
  ds_storage_uri :: "string option"
  ds_glob_pattern :: "string option"
  ds_source_type :: source_type
  ds_location :: source_location
  ds_metadata :: "file_metadata option"
  ds_storage_location :: "storage_location option"

record file_format =
  ff_format_type :: string
  ff_name :: string

record dataset_format =
  df_format :: file_format
  df_sources :: "dataset_source list"

text \<open>A string used as a condition: absent and empty are false.\<close>

definition truthy :: "string option \<Rightarrow> bool" where
  "truthy s = (case s of None \<Rightarrow> False | Some t \<Rightarrow> t \<noteq> [])"

text \<open>\<open>source.version ?? "1"\<close> and its string.\<close>

definition version_or_1 :: "dataset_source \<Rightarrow> js_version" where
  "version_or_1 s = (case ds_version s of None \<Rightarrow> VersionString ''1'' | Some v \<Rightarrow> v)"

definition version_key :: "dataset_source \<Rightarrow> string" where
  "version_key s = version_string (version_or_1 s)"

section \<open>URLs\<close>

definition strip_leading_slashes :: "string \<Rightarrow> string" where
  "strip_leading_slashes s = dropWhile (\<lambda>c. c = CHR ''/'') s"

definition strip_trailing_slashes :: "string \<Rightarrow> string" where
  "strip_trailing_slashes s = rev (dropWhile (\<lambda>c. c = CHR ''/'') (rev s))"

definition joinUrlPath :: "string \<Rightarrow> string \<Rightarrow> string" where
  "joinUrlPath baseUrl path = strip_trailing_slashes baseUrl @ ''/'' @ strip_leading_slashes path"

definition buildBucketFileUrl :: "string \<Rightarrow> string \<Rightarrow> storage_config \<Rightarrow> string" where
  "buildBucketFileUrl baseUrl path config =
     (if sc_type config = Some ''seaweedfs'' \<and> sc_bucket config \<noteq> []
      then joinUrlPath baseUrl (sc_bucket config @ ''/'' @ path)
      else joinUrlPath baseUrl path)"

text \<open>\<open>s.slice(0, s.lastIndexOf("/") + 1)\<close>, empty without a slash.\<close>

definition directory_part :: "string \<Rightarrow> string" where
  "directory_part s = rev (dropWhile (\<lambda>c. c \<noteq> CHR ''/'') (rev s))"

definition pathToGlob :: "string \<Rightarrow> string \<Rightarrow> string" where
  "pathToGlob path extension =
     (let cleanPath = strip_leading_slashes path in
      if str_includes cleanPath ''*'' then cleanPath
      else directory_part cleanPath
           @ ''*.'' @ (if startsWith extension ''.'' then tl extension else extension))"

definition is_line_terminator :: "char \<Rightarrow> bool" where
  "is_line_terminator c = (code_unit c \<in> {10, 13})"

text \<open>
  \<open>/^([a-z][a-z0-9+.-]*:\/\/[^/]+)(?:\/.*)?$/i\<close>: the first group of a match.
\<close>

definition uri_origin :: "string \<Rightarrow> string option" where
  "uri_origin s =
     (let ok = (\<lambda>c. is_digit c \<or> is_lower_alpha c \<or> is_upper_alpha c \<or> c \<in> {CHR ''+'', CHR ''.'', CHR ''-''});
          scheme = takeWhile ok s; rest = dropWhile ok s in
      if scheme = [] \<or> \<not> (is_lower_alpha (hd scheme) \<or> is_upper_alpha (hd scheme))
         \<or> \<not> startsWith rest ''://'' then None
      else let authority = takeWhile (\<lambda>c. c \<noteq> CHR ''/'') (drop 3 rest);
               tail = dropWhile (\<lambda>c. c \<noteq> CHR ''/'') (drop 3 rest) in
        if authority = [] \<or> list_ex is_line_terminator tail then None
        else Some (scheme @ ''://'' @ authority))"

definition replaceStorageUriPath :: "string \<Rightarrow> string \<Rightarrow> string" where
  "replaceStorageUriPath storageUri path =
     (let parts = split_on (CHR ''?'') storageUri; uriPart = hd parts in
      if uriPart = [] then storageUri
      else (case uri_origin uriPart of
        None \<Rightarrow> storageUri
      | Some origin \<Rightarrow>
          (let nextUri = origin @ ''/'' @ strip_leading_slashes path in
           if 1 < length parts \<and> parts ! 1 \<noteq> [] then nextUri @ ''?'' @ parts ! 1 else nextUri)))"

definition buildSourceFileUrl :: "dataset_source \<Rightarrow> string option" where
  "buildSourceFileUrl source =
     (if truthy (ds_asset_key source) then ds_url source
      else case (ds_source_type source, ds_location source) of
        (ApiSource, ApiLocation _ url) \<Rightarrow> Some url
      | (FileSource, FileLocation _ path) \<Rightarrow>
          if path = [] \<or> str_includes path ''*'' then None
          else (case Option.bind (ds_storage_location source) sl_config of
             Some config \<Rightarrow>
               if sc_base_url config \<noteq> [] then Some (buildBucketFileUrl (sc_base_url config) path config)
               else ds_url source
           | None \<Rightarrow> ds_url source)
      | _ \<Rightarrow> ds_url source)"

definition buildSourceStorageUri :: "dataset_source \<Rightarrow> string option \<Rightarrow> string option" where
  "buildSourceStorageUri source globExtension =
     (case (ds_source_type source, ds_location source) of
        (FileSource, FileLocation _ sourcePath) \<Rightarrow>
          if sourcePath = [] then None
          else let uriPath = (if truthy globExtension then pathToGlob sourcePath (the globExtension)
                              else strip_leading_slashes sourcePath) in
            if truthy (ds_storage_uri source)
            then Some (replaceStorageUriPath (the (ds_storage_uri source)) uriPath)
            else (case Option.bind (ds_storage_location source) sl_config of
                None \<Rightarrow> None
              | Some config \<Rightarrow>
                  if sc_bucket config = [] then None
                  else let scheme = (if sc_type config = Some ''gcs'' then ''gs'' else ''s3'');
                           uri = scheme @ ''://'' @ sc_bucket config @ ''/'' @ uriPath in
                    if truthy (sc_endpoint_url config) \<and> scheme = ''s3''
                    then Some (uri @ ''?endpoint_url='' @ the (sc_endpoint_url config))
                    else Some uri)
      | _ \<Rightarrow> ds_storage_uri source)"

text \<open>\<open>url.split(/[?#]/, 1)[0]\<close>.\<close>

definition before_query :: "string \<Rightarrow> string" where
  "before_query url = takeWhile (\<lambda>c. c \<notin> {CHR ''?'', CHR ''#''}) url"

text \<open>
  \<open>hasUsablePmtilesAsset\<close> of \<open>map/mapEligibility.ts\<close>; \<open>url_pathname\<close> is the pathname of
  \<open>new URL(url)\<close>, \<open>None\<close> where the constructor throws.
\<close>

definition hasUsablePmtilesAsset :: "(string \<Rightarrow> string option) \<Rightarrow> dataset_source option \<Rightarrow> bool" where
  "hasUsablePmtilesAsset url_pathname source =
     (case source of None \<Rightarrow> False
      | Some s \<Rightarrow>
          (case buildSourceFileUrl s of None \<Rightarrow> False
           | Some url \<Rightarrow>
               if url = [] \<or> str_includes url ''*'' then False
               else endsWith (toLowerCase (case url_pathname url of Some p \<Rightarrow> p | None \<Rightarrow> before_query url))
                      ''.pmtiles''))"

section \<open>Comparing versions\<close>

text \<open>\<open>getLocationOptions\<close>: the first name of each location with an id and a name.\<close>

definition add_location :: "(string \<times> string) list \<Rightarrow> dataset_source \<Rightarrow> (string \<times> string) list" where
  "add_location locations source =
     (case ds_storage_location source of None \<Rightarrow> locations
      | Some l \<Rightarrow>
          if sl_id l \<noteq> [] \<and> sl_name l \<noteq> [] \<and> \<not> map_has locations (sl_id l)
          then map_set (sl_id l) (sl_name l) locations else locations)"

definition getLocationOptions :: "dataset_format option \<Rightarrow> (string \<times> string) list" where
  "getLocationOptions formatEntry =
     (case formatEntry of None \<Rightarrow> [] | Some f \<Rightarrow> foldl add_location [] (df_sources f))"

text \<open>The first element of every key, in order.\<close>

definition add_first :: "('a \<Rightarrow> 'k) \<Rightarrow> ('k \<times> 'a) list \<Rightarrow> 'a \<Rightarrow> ('k \<times> 'a) list" where
  "add_first key m x = (if map_has m (key x) then m else map_set (key x) x m)"

definition sort_versions :: "(string \<Rightarrow> string \<Rightarrow> int) \<Rightarrow> dataset_source list \<Rightarrow> dataset_source list" where
  "sort_versions lc = sort_by (\<lambda>l r. version_cmp lc (version_or_1 l) (version_or_1 r))"

definition getVersionSourcesForLocation ::
  "(string \<Rightarrow> string \<Rightarrow> int) \<Rightarrow> dataset_format option \<Rightarrow> string option \<Rightarrow> dataset_source list" where
  "getVersionSourcesForLocation lc formatEntry locationId =
     (case formatEntry of None \<Rightarrow> []
      | Some f \<Rightarrow>
          if \<not> truthy locationId then []
          else sort_versions lc (map snd (foldl (add_first version_key) []
            (filter (\<lambda>s. map_option sl_id (ds_storage_location s) = locationId) (df_sources f)))))"

definition getComparableLocations ::
  "(string \<Rightarrow> string \<Rightarrow> int) \<Rightarrow> dataset_format option \<Rightarrow> (string \<times> string) list" where
  "getComparableLocations lc formatEntry =
     filter (\<lambda>l. 2 \<le> length (getVersionSourcesForLocation lc formatEntry (Some (fst l))))
       (getLocationOptions formatEntry)"

definition hasAnyComparableLocations :: "(string \<Rightarrow> string \<Rightarrow> int) \<Rightarrow> dataset_format option \<Rightarrow> bool" where
  "hasAnyComparableLocations lc formatEntry = (getComparableLocations lc formatEntry \<noteq> [])"

definition hasColumns :: "dataset_source \<Rightarrow> bool" where
  "hasColumns source =
     (case Option.bind (ds_metadata source) fm_columns of None \<Rightarrow> False | Some cs \<Rightarrow> cs \<noteq> [])"

definition sourceScore :: "dataset_format \<Rightarrow> dataset_source \<Rightarrow> nat" where
  "sourceScore formatEntry source =
     (if ff_format_type (df_format formatEntry) = ''geoparquet'' then 100 else 0)
     + (if hasColumns source then 10 else 0) + (if ds_metadata source \<noteq> None then 1 else 0)"

text \<open>A candidate of \<open>getComparableVersionSources\<close> with its score.\<close>

definition scored_sources :: "dataset_format list \<Rightarrow> (dataset_source \<times> nat) list" where
  "scored_sources formatEntries =
     concat (map (\<lambda>f. map (\<lambda>s. (s, sourceScore f s)) (df_sources f)) formatEntries)"

definition add_best ::
  "(string \<times> dataset_source \<times> nat) list \<Rightarrow> dataset_source \<times> nat \<Rightarrow> (string \<times> dataset_source \<times> nat) list" where
  "add_best byVersion candidate =
     (case map_of byVersion (version_key (fst candidate)) of
        None \<Rightarrow> map_set (version_key (fst candidate)) candidate byVersion
      | Some existing \<Rightarrow>
          if snd existing < snd candidate
          then map_set (version_key (fst candidate)) candidate byVersion else byVersion)"

definition getComparableVersionSources ::
  "(string \<Rightarrow> string \<Rightarrow> int) \<Rightarrow> dataset_format list option \<Rightarrow> dataset_source list" where
  "getComparableVersionSources lc formatEntries =
     sort_versions lc (map (fst \<circ> snd)
       (foldl add_best [] (scored_sources (case formatEntries of None \<Rightarrow> [] | Some fs \<Rightarrow> fs))))"

definition hasComparableVersions ::
  "(string \<Rightarrow> string \<Rightarrow> int) \<Rightarrow> dataset_format list option \<Rightarrow> bool" where
  "hasComparableVersions lc formatEntries = (2 \<le> length (getComparableVersionSources lc formatEntries))"

text \<open>The oldest and the newest version.\<close>

definition getDefaultCompareVersionPair ::
  "dataset_source list \<Rightarrow> dataset_source option \<times> dataset_source option" where
  "getDefaultCompareVersionPair versionSources =
     (if versionSources = [] then (None, None) else (Some (last versionSources), Some (hd versionSources)))"

section \<open>Schema sources\<close>

record schema_selection =
  ss_source :: dataset_source
  ss_formatType :: string
  ss_formatName :: string

definition schemaSourceScore :: "dataset_format \<Rightarrow> dataset_source \<Rightarrow> nat" where
  "schemaSourceScore formatEntry source =
     (if hasColumns source then 100 else 0)
     + (if ff_format_type (df_format formatEntry) = ''geoparquet'' then 10 else 0)
     + (if Option.bind (ds_metadata source) fm_feature_count \<noteq> None then 1 else 0)"

definition getSchemaCandidate :: "dataset_format \<Rightarrow> dataset_source \<Rightarrow> schema_selection \<times> nat" where
  "getSchemaCandidate formatEntry source =
     (\<lparr>ss_source = source, ss_formatType = ff_format_type (df_format formatEntry),
       ss_formatName = ff_name (df_format formatEntry)\<rparr>, schemaSourceScore formatEntry source)"

definition getSchemaCandidatesForVersion ::
  "dataset_format list \<Rightarrow> js_version \<Rightarrow> (schema_selection \<times> nat) list" where
  "getSchemaCandidatesForVersion formatEntries version =
     concat (map (\<lambda>f. map (getSchemaCandidate f)
       (filter (\<lambda>s. version_key s = version_string version \<and> hasColumns s) (df_sources f))) formatEntries)"

definition by_score_desc :: "'a \<times> nat \<Rightarrow> 'a \<times> nat \<Rightarrow> rat" where
  "by_score_desc left right = of_nat (snd right) - of_nat (snd left)"

definition getBestSchemaSourceForVersion ::
  "dataset_format list \<Rightarrow> js_version option \<Rightarrow> schema_selection option" where
  "getBestSchemaSourceForVersion formatEntries version =
     (case version of None \<Rightarrow> None
      | Some v \<Rightarrow>
          (case sort_by by_score_desc (getSchemaCandidatesForVersion formatEntries v) of
             [] \<Rightarrow> None | best # _ \<Rightarrow> Some (fst best)))"

definition getSchemaVersionOptions ::
  "(string \<Rightarrow> string \<Rightarrow> int) \<Rightarrow> dataset_format list \<Rightarrow> js_version list" where
  "getSchemaVersionOptions lc formatEntries =
     sort_by (version_cmp lc) (map snd
       (foldl (\<lambda>m s. map_set (version_key s) (version_or_1 s) m) []
          (filter hasColumns (concat (map df_sources formatEntries)))))"

definition getLatestSchemaVersion ::
  "(string \<Rightarrow> string \<Rightarrow> int) \<Rightarrow> dataset_format list \<Rightarrow> js_version option" where
  "getLatestSchemaVersion lc formatEntries =
     (case getSchemaVersionOptions lc formatEntries of [] \<Rightarrow> None | v # _ \<Rightarrow> Some v)"

definition hasSchemaMetadata :: "(string \<Rightarrow> string \<Rightarrow> int) \<Rightarrow> dataset_format list \<Rightarrow> bool" where
  "hasSchemaMetadata lc formatEntries = (getSchemaVersionOptions lc formatEntries \<noteq> [])"

record schema_summary =
  sm_columnCount :: nat
  sm_featureCount :: "js_number option"
  sm_geometryType :: "string option"
  sm_invalidGeometryCount :: "js_number option"
  sm_qualityCheckPassed :: "bool option"
  sm_columnsHash :: "string option"

definition getSchemaSummary :: "file_metadata option \<Rightarrow> schema_summary" where
  "getSchemaSummary metadata =
     \<lparr>sm_columnCount = (case Option.bind metadata fm_columns of None \<Rightarrow> 0 | Some cs \<Rightarrow> length cs),
      sm_featureCount = Option.bind metadata fm_feature_count,
      sm_geometryType = Option.bind metadata fm_geometry_type,
      sm_invalidGeometryCount = Option.bind metadata fm_invalid_geometry_count,
      sm_qualityCheckPassed = Option.bind metadata fm_quality_check_passed,
      sm_columnsHash = Option.bind metadata fm_columns_hash\<rparr>"

section \<open>The tree of geoparquet files\<close>

text \<open>
  The code pushes into the children array of a folder it has found or made; here the folder is
  rebuilt with its new children. A file has no children.
\<close>

datatype tree_node =
    TreeFolder string string "tree_node list"
  | TreeFile string string dataset_source

fun node_name :: "tree_node \<Rightarrow> string" where
  "node_name (TreeFolder name path children) = name"
| "node_name (TreeFile name path source) = name"

fun is_folder :: "string \<Rightarrow> tree_node \<Rightarrow> bool" where
  "is_folder name (TreeFolder n path children) \<longleftrightarrow> n = name"
| "is_folder name (TreeFile n path source) \<longleftrightarrow> False"

definition path_segments :: "string \<Rightarrow> string list" where
  "path_segments path = filter (\<lambda>s. s \<noteq> []) (split_on (CHR ''/'') path)"

text \<open>\<open>getSourcePath\<close> and the \<open>sourcePath\<close> of the previews, which keeps an empty path.\<close>

fun sourcePath :: "dataset_source \<Rightarrow> string option" where
  "sourcePath s = (case ds_location s of FileLocation _ path \<Rightarrow> Some path | ApiLocation _ _ \<Rightarrow> None)"

definition getSourcePath :: "dataset_source \<Rightarrow> string option" where
  "getSourcePath s =
     (case ds_location s of FileLocation _ path \<Rightarrow> if path = [] then None else Some path
      | ApiLocation _ _ \<Rightarrow> None)"

definition formatGeoparquetGlobLabel :: "string \<Rightarrow> string" where
  "formatGeoparquetGlobLabel globPattern =
     (if str_includes globPattern ''**/'' then ''**/*.parquet (glob)'' else ''*.parquet (glob)'')"

text \<open>\<open>s.slice(s.indexOf(p) + p.length)\<close> where \<open>p\<close> occurs.\<close>

fun after_first :: "string \<Rightarrow> string \<Rightarrow> string option" where
  "after_first p [] = (if p = [] then Some [] else None)"
| "after_first p (c # s) =
     (if startsWith (c # s) p then Some (drop (length p) (c # s)) else after_first p s)"

definition relativeGeoparquetPath :: "string \<Rightarrow> string" where
  "relativeGeoparquetPath path =
     (case after_first ''/geoparquet/'' path of
        Some r \<Rightarrow> r
      | None \<Rightarrow>
          (let parts = path_segments path in
           if ''geoparquet'' \<in> set parts
           then join ''/'' (tl (dropWhile (\<lambda>p. p \<noteq> ''geoparquet'') parts))
           else if parts = [] then path else last parts))"

definition extend_path :: "string \<Rightarrow> string \<Rightarrow> string" where
  "extend_path currentPath name = (if currentPath = [] then name else currentPath @ ''/'' @ name)"

definition sort_nodes :: "(string \<Rightarrow> string \<Rightarrow> int) \<Rightarrow> tree_node list \<Rightarrow> tree_node list" where
  "sort_nodes lc = sort_by (\<lambda>a b. lc (node_name a) (node_name b))"

fun in_folder :: "string \<Rightarrow> (tree_node list \<Rightarrow> tree_node list) \<Rightarrow> tree_node list \<Rightarrow> tree_node list" where
  "in_folder name f [] = []"
| "in_folder name f (TreeFile n p s # ns) = TreeFile n p s # in_folder name f ns"
| "in_folder name f (TreeFolder n p ch # ns) =
     (if n = name then TreeFolder n p (f ch) # ns else TreeFolder n p ch # in_folder name f ns)"

fun insert_file ::
  "(string \<Rightarrow> string \<Rightarrow> int) \<Rightarrow> string list \<Rightarrow> string \<Rightarrow> string \<Rightarrow> dataset_source \<Rightarrow> tree_node list \<Rightarrow> tree_node list"
where
  "insert_file lc [] currentPath fileName source siblings =
     sort_nodes lc (siblings @ [TreeFile fileName (extend_path currentPath fileName) source])"
| "insert_file lc (folder # rest) currentPath fileName source siblings =
     (let path = extend_path currentPath folder in
      if \<exists>n \<in> set siblings. is_folder folder n
      then in_folder folder (\<lambda>children. insert_file lc rest path fileName source children) siblings
      else sort_nodes lc
        (siblings @ [TreeFolder folder path (insert_file lc rest path fileName source [])]))"

definition add_source ::
  "(string \<Rightarrow> string \<Rightarrow> int) \<Rightarrow> tree_node list \<times> string list \<Rightarrow> dataset_source \<Rightarrow> tree_node list \<times> string list"
where
  "add_source lc state source =
     (case (state, getSourcePath source) of
        ((tree, seen), None) \<Rightarrow> (tree, seen)
      | ((tree, seen), Some path) \<Rightarrow>
          if str_includes path ''*'' \<or> path \<in> set seen then (tree, seen)
          else let parts = path_segments (relativeGeoparquetPath path) in
            if parts = [] then (tree, set_add path seen)
            else (insert_file lc (butlast parts) [] (last parts) source tree, set_add path seen))"

definition buildGeoparquetSourceTree ::
  "(string \<Rightarrow> string \<Rightarrow> int) \<Rightarrow> dataset_source list \<Rightarrow> tree_node list" where
  "buildGeoparquetSourceTree lc sources = fst (foldl (add_source lc) ([], []) sources)"

section \<open>Previews\<close>

record preview_option =
  po_storageLocationId :: string
  po_version :: js_version
  po_sourceId :: string
  po_fileName :: string
  po_url :: string
  po_storageLocationName :: string
  po_path :: string

text \<open>\<open>/^[^=]+=[^=]+$/\<close>.\<close>

definition is_partition :: "string \<Rightarrow> bool" where
  "is_partition segment =
     (case split_on (CHR ''='') segment of [k, v] \<Rightarrow> k \<noteq> [] \<and> v \<noteq> [] | _ \<Rightarrow> False)"

definition parquetFileLabel :: "string \<Rightarrow> string" where
  "parquetFileLabel path =
     (let segments = path_segments path;
          fileName = (if segments = [] then ''data.parquet'' else last segments);
          partitions = dropWhile (\<lambda>s. \<not> is_partition s) segments in
      if partitions \<noteq> [] then join ''/'' partitions else fileName)"

definition parquetPreviewOptionFromSource :: "dataset_source \<Rightarrow> preview_option option" where
  "parquetPreviewOptionFromSource source =
     (case (sourcePath source, buildSourceFileUrl source, ds_storage_location source) of
        (Some path, Some url, Some location) \<Rightarrow>
          if path = [] \<or> url = [] \<or> str_includes path ''*''
             \<or> \<not> endsWith (toLowerCase path) ''.parquet'' \<or> sl_id location = [] \<or> sl_name location = []
          then None
          else Some \<lparr>po_storageLocationId = sl_id location, po_version = version_or_1 source,
                     po_sourceId = ds_id source, po_fileName = parquetFileLabel path, po_url = url,
                     po_storageLocationName = sl_name location, po_path = path\<rparr>
      | _ \<Rightarrow> None)"

definition preview_cmp :: "(string \<Rightarrow> string \<Rightarrow> int) \<Rightarrow> preview_option \<Rightarrow> preview_option \<Rightarrow> rat" where
  "preview_cmp lc left right =
     (let versionCompare = compareVersionValues lc (po_version left) (po_version right);
          locationCompare = lc (po_storageLocationName left) (po_storageLocationName right) in
      if versionCompare \<noteq> JsFin 0 then compare_sign versionCompare
      else if locationCompare \<noteq> 0 then of_int locationCompare
      else of_int (lc (po_fileName left) (po_fileName right)))"

definition concreteParquetPreviewOptions ::
  "(string \<Rightarrow> string \<Rightarrow> int) \<Rightarrow> dataset_format option \<Rightarrow> preview_option list" where
  "concreteParquetPreviewOptions lc formatEntry =
     sort_by (preview_cmp lc) (List.map_filter parquetPreviewOptionFromSource
       (case formatEntry of None \<Rightarrow> [] | Some f \<Rightarrow> df_sources f))"

definition parquetPreviewOptionsForSelection ::
  "(string \<Rightarrow> string \<Rightarrow> int) \<Rightarrow> dataset_format option \<Rightarrow> string \<Rightarrow> js_version \<Rightarrow> preview_option list" where
  "parquetPreviewOptionsForSelection lc formatEntry storageLocationId version =
     filter (\<lambda>o'. po_storageLocationId o' = storageLocationId
                  \<and> version_string (po_version o') = version_string version)
       (concreteParquetPreviewOptions lc formatEntry)"

text \<open>The selection is a storage location, a version and a source.\<close>

definition defaultParquetPreviewSelection ::
  "(string \<Rightarrow> string \<Rightarrow> int) \<Rightarrow> dataset_format option \<Rightarrow> dataset_source option
   \<Rightarrow> (string \<times> js_version \<times> string) option" where
  "defaultParquetPreviewSelection lc formatEntry selectedSource =
     (let concreteOptions = concreteParquetPreviewOptions lc formatEntry;
          selectedOption = (case selectedSource of None \<Rightarrow> None
            | Some s \<Rightarrow> List.find (\<lambda>o'. po_sourceId o' = ds_id s) concreteOptions);
          firstOption = (case selectedOption of Some o' \<Rightarrow> Some o'
            | None \<Rightarrow> (case concreteOptions of [] \<Rightarrow> None | o' # _ \<Rightarrow> Some o')) in
      map_option (\<lambda>o'. (po_storageLocationId o', po_version o', po_sourceId o')) firstOption)"

section \<open>The best source of every version\<close>

definition best_inv :: "(string \<times> dataset_source \<times> nat) list \<Rightarrow> (dataset_source \<times> nat) list \<Rightarrow> bool" where
  "best_inv m cs \<longleftrightarrow> distinct (map fst m) \<and>
     (\<forall>(k, c) \<in> set m. c \<in> set cs \<and> k = version_key (fst c)) \<and>
     (\<forall>c \<in> set cs. \<exists>b. map_of m (version_key (fst c)) = Some b \<and> snd c \<le> snd b)"

lemma best_inv_add:
  assumes "best_inv m cs"
  shows "best_inv (add_best m c) (cs @ [c])"
proof -
  let ?k = "version_key (fst c)"
  have set: "best_inv (map_set ?k c m) (cs @ [c])"
    if low: "\<And>b. map_of m ?k = Some b \<Longrightarrow> snd b \<le> snd c"
  proof -
    have "distinct (map fst (map_set ?k c m))"
      using assms by (simp add: best_inv_def distinct_update)
    moreover have "\<forall>(k, d) \<in> set (map_set ?k c m). d \<in> set (cs @ [c]) \<and> k = version_key (fst d)"
    proof -
      have "set (map_set ?k c m) \<subseteq> insert (?k, c) (set m)" by (induction m) auto
      then show ?thesis using assms by (fastforce simp: best_inv_def)
    qed
    moreover have "\<exists>b. map_of (map_set ?k c m) (version_key (fst d)) = Some b \<and> snd d \<le> snd b"
      if "d \<in> set (cs @ [c])" for d
    proof (cases "d \<in> set cs")
      case True
      with assms obtain b where b: "map_of m (version_key (fst d)) = Some b" "snd d \<le> snd b"
        by (auto simp: best_inv_def)
      then show ?thesis using low [of b] by (cases "version_key (fst d) = ?k") auto
    next
      case False
      with that show ?thesis by simp
    qed
    ultimately show ?thesis unfolding best_inv_def by blast
  qed
  show ?thesis
  proof (cases "map_of m ?k")
    case None
    then show ?thesis using set by (simp add: add_best_def)
  next
    case (Some b)
    show ?thesis
    proof (cases "snd b < snd c")
      case True
      with Some show ?thesis using set by (simp add: add_best_def)
    next
      case False
      have "\<exists>b. map_of m (version_key (fst d)) = Some b \<and> snd d \<le> snd b"
        if "d \<in> set (cs @ [c])" for d
        using that assms Some False unfolding best_inv_def
        by (cases "d \<in> set cs") (simp_all del: map_of_eq_Some_iff)
      moreover have "\<forall>(k, d) \<in> set m. d \<in> set (cs @ [c]) \<and> k = version_key (fst d)"
        using assms unfolding best_inv_def by fastforce
      ultimately have "best_inv m (cs @ [c])"
        using assms unfolding best_inv_def by blast
      with False Some show ?thesis by (simp add: add_best_def)
    qed
  qed
qed

lemma best_inv_foldl: "best_inv m cs \<Longrightarrow> best_inv (foldl add_best m xs) (cs @ xs)"
proof (induction xs arbitrary: m cs)
  case (Cons x xs)
  from Cons.IH [OF best_inv_add [OF Cons.prems]] show ?case by simp
qed simp

lemma best_inv_Nil: "best_inv [] []"
  by (simp add: best_inv_def)

section \<open>The files of the tree\<close>

text \<open>Every file of a tree with the names of the folders above it and its own.\<close>

fun node_files :: "tree_node \<Rightarrow> (string list \<times> dataset_source) list" where
  "node_files (TreeFile n p s) = [([n], s)]"
| "node_files (TreeFolder n p ch) = map (apfst ((#) n)) (concat (map node_files ch))"

definition tree_files :: "tree_node list \<Rightarrow> (string list \<times> dataset_source) list" where
  "tree_files ns = concat (map node_files ns)"

lemma tree_files_simps [simp]:
  "tree_files [] = []" "tree_files (n # ns) = node_files n @ tree_files ns"
  "tree_files (ms @ ns) = tree_files ms @ tree_files ns"
  by (simp_all add: tree_files_def)

lemma node_files_folder [simp]: "node_files (TreeFolder n p ch) = map (apfst ((#) n)) (tree_files ch)"
  by (simp add: tree_files_def)

declare node_files.simps(2) [simp del]

lemma mset_tree_files: "mset (tree_files ns) = \<Sum>\<^sub># (image_mset (\<lambda>n. mset (node_files n)) (mset ns))"
  by (induction ns) auto

lemma mset_tree_files_sort [simp]: "mset (tree_files (sort_nodes lc ns)) = mset (tree_files ns)"
  by (simp add: mset_tree_files sort_nodes_def)

lemma mset_in_folder:
  assumes "\<And>ch. mset (tree_files (f ch)) = add_mset x (mset (tree_files ch))"
  shows "\<exists>n \<in> set ns. is_folder d n \<Longrightarrow>
    mset (tree_files (in_folder d f ns)) = add_mset (apfst ((#) d) x) (mset (tree_files ns))"
proof (induction ns)
  case (Cons n ns)
  then show ?case by (cases n) (auto simp: assms)
qed simp

lemma mset_insert_file:
  "mset (tree_files (insert_file lc ds cur name s ns)) = add_mset (ds @ [name], s) (mset (tree_files ns))"
proof (induction ds arbitrary: cur ns)
  case (Cons d ds)
  show ?case
  proof (cases "\<exists>n \<in> set ns. is_folder d n")
    case True
    then show ?thesis by (simp add: Let_def mset_in_folder [OF Cons.IH])
  next
    case False
    then show ?thesis by (simp add: Let_def Cons.IH)
  qed
qed simp

text \<open>The sources that get a file: one for each concrete path, with at least one name in it.\<close>

definition source_parts :: "dataset_source \<Rightarrow> string list" where
  "source_parts s = (case getSourcePath s of None \<Rightarrow> []
     | Some path \<Rightarrow> path_segments (relativeGeoparquetPath path))"

definition concrete_path :: "dataset_source \<Rightarrow> bool" where
  "concrete_path s = (case getSourcePath s of None \<Rightarrow> False | Some path \<Rightarrow> \<not> str_includes path ''*'')"

fun first_paths :: "string list \<Rightarrow> dataset_source list \<Rightarrow> dataset_source list" where
  "first_paths seen [] = []"
| "first_paths seen (s # ss) =
     (if concrete_path s \<and> the (getSourcePath s) \<notin> set seen
      then s # first_paths (the (getSourcePath s) # seen) ss else first_paths seen ss)"

lemma first_paths_cong: "set seen = set seen' \<Longrightarrow> first_paths seen ss = first_paths seen' ss"
proof (induction ss arbitrary: seen seen')
  case (Cons s ss)
  let ?p = "the (getSourcePath s)"
  have "first_paths (?p # seen) ss = first_paths (?p # seen') ss"
    by (rule Cons.IH) (simp add: Cons.prems)
  with Cons.IH [OF Cons.prems] show ?case by (simp add: Cons.prems)
qed simp

lemma tree_files_add_sources:
  "mset (tree_files (fst (foldl (add_source lc) (tree, seen) ss))) =
   mset (tree_files tree) + mset (map (\<lambda>s. (source_parts s, s))
     (filter (\<lambda>s. source_parts s \<noteq> []) (first_paths seen ss)))"
proof (induction ss arbitrary: tree seen)
  case (Cons s ss)
  show ?case
  proof (cases "getSourcePath s")
    case None
    with Cons show ?thesis by (simp add: add_source_def concrete_path_def)
  next
    case (Some path)
    have "first_paths (set_add path seen) ss = first_paths (path # seen) ss"
      by (rule first_paths_cong) simp
    then have "first_paths seen (s # ss) = (if \<not> str_includes path ''*'' \<and> path \<notin> set seen
        then s # first_paths (set_add path seen) ss else first_paths seen ss)"
      using Some by (simp add: concrete_path_def)
    moreover have parts: "source_parts s = path_segments (relativeGeoparquetPath path)"
      using Some by (simp add: source_parts_def)
    ultimately show ?thesis
      using Some Cons.IH [of tree seen] Cons.IH [of tree "set_add path seen"]
        Cons.IH [of "insert_file lc (butlast (source_parts s)) [] (last (source_parts s)) s tree"
          "set_add path seen"]
      by (cases "source_parts s = []")
         (simp_all add: add_source_def mset_insert_file parts Let_def)
  qed
qed simp

section \<open>Properties\<close>

text \<open>
  The version picker offers every version of the dataset once, with a source of that version
  that no other source of the same version, in any format, beats in score.
\<close>

theorem comparable_versions_best:
  "let offered = getComparableVersionSources lc (Some formatEntries);
       candidates = scored_sources formatEntries in
   distinct (map version_key offered) \<and>
   (\<forall>(s, score) \<in> set candidates. \<exists>(best, top) \<in> set candidates.
      best \<in> set offered \<and> version_key best = version_key s \<and> score \<le> top) \<and>
   set offered \<subseteq> fst ` set candidates"
proof -
  define m where "m = foldl add_best [] (scored_sources formatEntries)"
  have inv: "best_inv m (scored_sources formatEntries)"
    using best_inv_foldl [of "[]" "[]" "scored_sources formatEntries"]
    by (simp add: m_def best_inv_Nil)
  then have keys: "map version_key (map (fst \<circ> snd) m) = map fst m"
    by (fastforce simp: best_inv_def)
  have "distinct (map version_key (map (fst \<circ> snd) m))"
    unfolding keys using inv by (simp only: best_inv_def)
  moreover have "\<exists>(best, top) \<in> set (scored_sources formatEntries).
      best \<in> set (map (fst \<circ> snd) m) \<and> version_key best = version_key (fst c) \<and> snd c \<le> top"
    if "c \<in> set (scored_sources formatEntries)" for c
  proof -
    obtain b where b: "map_of m (version_key (fst c)) = Some b" "snd c \<le> snd b"
      using inv \<open>c \<in> _\<close> by (auto simp: best_inv_def)
    then have "(version_key (fst c), b) \<in> set m" by (rule_tac map_of_SomeD)
    moreover from this inv have "b \<in> set (scored_sources formatEntries)"
      "version_key (fst b) = version_key (fst c)" by (auto simp: best_inv_def)
    ultimately show ?thesis using b by (force intro!: bexI [of _ b])
  qed
  moreover have "set (map (fst \<circ> snd) m) \<subseteq> fst ` set (scored_sources formatEntries)"
    using inv by (fastforce simp: best_inv_def)
  ultimately show ?thesis
    by (auto simp: getComparableVersionSources_def sort_versions_def m_def [symmetric] Let_def)
qed

interpretation schema_score: comparator "UNIV :: (schema_selection \<times> nat) set" by_score_desc
  by unfold_locales (auto simp: by_score_desc_def)

text \<open>
  The schema shown for a version comes from a source of that version with columns, and no
  such source has a higher score; there is one whenever a source of the version has columns.
\<close>

theorem best_schema_source:
  "case getBestSchemaSourceForVersion formatEntries (Some v) of
     None \<Rightarrow> (\<forall>f \<in> set formatEntries. \<forall>s \<in> set (df_sources f). \<not> (version_key s = version_string v \<and> hasColumns s))
   | Some best \<Rightarrow> \<exists>f \<in> set formatEntries. ss_source best \<in> set (df_sources f) \<and>
       version_key (ss_source best) = version_string v \<and> hasColumns (ss_source best) \<and>
       (\<forall>g \<in> set formatEntries. \<forall>s \<in> set (df_sources g). version_key s = version_string v \<longrightarrow> hasColumns s \<longrightarrow>
          schemaSourceScore g s \<le> schemaSourceScore f (ss_source best))"
proof -
  let ?cs = "getSchemaCandidatesForVersion formatEntries v"
  have cand: "c \<in> set ?cs \<longleftrightarrow> (\<exists>f \<in> set formatEntries. \<exists>s \<in> set (df_sources f).
      c = getSchemaCandidate f s \<and> version_key s = version_string v \<and> hasColumns s)" for c
    by (auto simp: getSchemaCandidatesForVersion_def)
  show ?thesis
  proof (cases "sort_by by_score_desc ?cs")
    case Nil
    then have "?cs = []" by simp
    then show ?thesis using cand by (auto simp: getBestSchemaSourceForVersion_def)
  next
    case (Cons best rest)
    then have "best \<in> set ?cs" by (metis list.set_intros(1) set_sort_by)
    then obtain f s where fs: "f \<in> set formatEntries" "s \<in> set (df_sources f)"
      "best = getSchemaCandidate f s" "version_key s = version_string v" "hasColumns s"
      using cand by auto
    have top: "snd c \<le> snd best" if "c \<in> set ?cs" for c
      using schema_score.sort_by_head_least [OF _ Cons that]
      by (cases "c = best") (auto simp: by_score_desc_def)
    have "schemaSourceScore g t \<le> schemaSourceScore f s"
      if "g \<in> set formatEntries" "t \<in> set (df_sources g)" "version_key t = version_string v" "hasColumns t" for g t
      using top [of "getSchemaCandidate g t"] that cand fs(3) by (auto simp: getSchemaCandidate_def)
    with fs show ?thesis
      by (auto simp: getBestSchemaSourceForVersion_def Cons getSchemaCandidate_def)
  qed
qed

text \<open>
  The tree of a geoparquet asset holds exactly one file for every concrete path among its
  sources (the first source of the path), in the folders its relative path names; sorting and
  shared folders lose and duplicate nothing.
\<close>

theorem geoparquet_tree_complete:
  "mset (tree_files (buildGeoparquetSourceTree lc sources)) =
   mset (map (\<lambda>s. (source_parts s, s)) (filter (\<lambda>s. source_parts s \<noteq> []) (first_paths [] sources)))"
  by (simp add: buildGeoparquetSourceTree_def tree_files_add_sources)

lemma preview_option_ok:
  "parquetPreviewOptionFromSource s = Some p \<Longrightarrow>
   po_url p \<noteq> [] \<and> po_path p \<noteq> [] \<and> \<not> str_includes (po_path p) ''*'' \<and>
   endsWith (toLowerCase (po_path p)) ''.parquet'' \<and> po_sourceId p = ds_id s"
  by (auto simp: parquetPreviewOptionFromSource_def split: option.splits if_splits)

lemma preview_option_set:
  "p \<in> set (concreteParquetPreviewOptions lc (Some f)) \<longleftrightarrow>
   (\<exists>s \<in> set (df_sources f). parquetPreviewOptionFromSource s = Some p)"
  by (force simp: concreteParquetPreviewOptions_def List.map_filter_def)

text \<open>
  The source that the preview panel selects by default is one of the options it then lists
  for that location and version, and it is a concrete parquet file with a URL.
\<close>

theorem default_preview_listed:
  "case defaultParquetPreviewSelection lc (Some f) selectedSource of
     None \<Rightarrow> (\<forall>s \<in> set (df_sources f). parquetPreviewOptionFromSource s = None)
   | Some (location, version, source) \<Rightarrow>
       (\<exists>p \<in> set (parquetPreviewOptionsForSelection lc (Some f) location version).
          po_sourceId p = source \<and> po_url p \<noteq> [] \<and> \<not> str_includes (po_path p) ''*'' \<and>
          endsWith (toLowerCase (po_path p)) ''.parquet'')"
proof -
  let ?os = "concreteParquetPreviewOptions lc (Some f)"
  define chosen where "chosen = (case (case selectedSource of None \<Rightarrow> None
      | Some s \<Rightarrow> List.find (\<lambda>o'. po_sourceId o' = ds_id s) ?os) of
        Some o' \<Rightarrow> Some o' | None \<Rightarrow> (case ?os of [] \<Rightarrow> None | o' # _ \<Rightarrow> Some o'))"
  have sel: "defaultParquetPreviewSelection lc (Some f) selectedSource =
      map_option (\<lambda>o'. (po_storageLocationId o', po_version o', po_sourceId o')) chosen"
    by (simp add: defaultParquetPreviewSelection_def chosen_def Let_def)
  show ?thesis
  proof (cases chosen)
    case None
    then have "?os = []" by (auto simp: chosen_def split: option.splits list.splits)
    then have "\<forall>s \<in> set (df_sources f). parquetPreviewOptionFromSource s = None"
      using preview_option_set [of _ lc f] by (metis empty_iff list.set(1) option.exhaust)
    then show ?thesis by (simp add: sel None)
  next
    case (Some p)
    then have "p \<in> set ?os"
      by (auto simp: chosen_def find_Some_iff split: option.splits list.splits)
    moreover from this obtain s where "parquetPreviewOptionFromSource s = Some p"
      using preview_option_set by blast
    ultimately show ?thesis
      using preview_option_ok by (auto simp: sel Some parquetPreviewOptionsForSelection_def)
  qed
qed

section \<open>Sample sources\<close>

definition sample_source :: "string \<Rightarrow> string \<Rightarrow> dataset_source" where
  "sample_source i v =
     \<lparr>ds_id = i, ds_asset_key = Some ''a'', ds_version = Some (VersionString v), ds_url = Some ''u'',
      ds_storage_uri = None, ds_glob_pattern = None, ds_source_type = FileSource,
      ds_location = FileLocation ''1'' ''d/geoparquet/x=1/f.parquet'',
      ds_metadata = Some \<lparr>fm_version = ''1'', fm_description = None, fm_size_bytes = None, fm_mime_type = None, fm_feature_count = None, fm_bounds = None, fm_geometry_type = None,
        fm_invalid_geometry_count = None, fm_quality_check_passed = None, fm_columns_hash = None,
        fm_columns = Some [\<lparr>cs_name = ''c'', cs_type = ''t'', cs_description = None, cs_nullable = False,
          cs_num_null_values = None, cs_num_unique_values = None, cs_example_values = None, cs_min = None,
          cs_max = None, cs_length = None, cs_possible_values = None\<rparr>]\<rparr>,
      ds_storage_location = Some \<lparr>sl_id = ''l'', sl_slug = None, sl_name = ''L'', sl_config = None\<rparr>\<rparr>"

definition sample_format :: "string \<Rightarrow> string list \<Rightarrow> dataset_format" where
  "sample_format i vs = \<lparr>df_format = \<lparr>ff_format_type = i, ff_name = i\<rparr>, df_sources = map (sample_source i) vs\<rparr>"

theorem comparable_versions_best_witness:
  "let formats = [sample_format ''pmtiles'' [''v1.0.0''], sample_format ''geoparquet'' [''v1.0.0'', ''v2.0.0'']]
   in map ds_id (getComparableVersionSources char_compare (Some formats)) = [''geoparquet'', ''geoparquet''] \<and>
      distinct (map version_key (getComparableVersionSources char_compare (Some formats)))"
proof -
  let ?fs = "[sample_format ''pmtiles'' [''v1.0.0''], sample_format ''geoparquet'' [''v1.0.0'', ''v2.0.0'']]"
  have "map ds_id (getComparableVersionSources char_compare (Some ?fs)) = [''geoparquet'', ''geoparquet'']"
    by code_simp
  then show ?thesis
    using comparable_versions_best [of char_compare ?fs] unfolding Let_def by blast
qed

theorem best_schema_source_witness:
  "let formats = [sample_format ''pmtiles'' [''v1''], sample_format ''geoparquet'' [''v1'']]
   in (\<exists>best. getBestSchemaSourceForVersion formats (Some (VersionString ''v1'')) = Some best \<and>
         ss_formatType best = ''geoparquet'' \<and> hasColumns (ss_source best))"
proof -
  let ?fs = "[sample_format ''pmtiles'' [''v1''], sample_format ''geoparquet'' [''v1'']]"
  let ?best = "getBestSchemaSourceForVersion ?fs (Some (VersionString ''v1''))"
  have "map_option ss_formatType ?best = Some ''geoparquet''" by code_simp
  then obtain best where b: "?best = Some best" "ss_formatType best = ''geoparquet''"
    by (auto simp: map_option_eq_Some)
  then show ?thesis
    using best_schema_source [of ?fs "VersionString ''v1''"] by (auto simp: Let_def)
qed

theorem default_preview_listed_witness:
  "let f = sample_format ''g'' [''v1'']
   in defaultParquetPreviewSelection char_compare (Some f) None = Some (''l'', VersionString ''v1'', ''g'') \<and>
      parquetPreviewOptionsForSelection char_compare (Some f) ''l'' (VersionString ''v1'') \<noteq> []"
proof -
  let ?f = "sample_format ''g'' [''v1'']"
  have d: "defaultParquetPreviewSelection char_compare (Some ?f) None = Some (''l'', VersionString ''v1'', ''g'')"
    by code_simp
  then show ?thesis
    using default_preview_listed [where lc = char_compare and f = ?f and selectedSource = None] by (auto simp: Let_def)
qed

end
