(* ===== verification/MapCore.thy ===== *)
theory MapCore
  imports JsJson "HOL-Library.While_Combinator"
begin

text \<open>
  The shared map package, \<open>packages/map-core/src/\<close>: colour schemes and numeric styling
  (\<open>style.ts\<close>), categorical styling (\<open>category.ts\<close>), the selection box (\<open>selection.ts\<close>), the
  control labels (\<open>controls.ts\<close>) and the reserved tile properties (\<open>queryMvt.ts\<close>).

  Style expressions are the JSON values that MapLibre is given. Values that are sorted or
  counted are finite numbers; a category value may be any number.
\<close>

section \<open>Colour ramps\<close>

text \<open>\<open>Number.parseInt(s, 16)\<close>; the stops of the schemes are well-formed.\<close>

definition hex_channel :: "string \<Rightarrow> int" where
  "hex_channel s = (case parseInt 16 s of Some n \<Rightarrow> n | None \<Rightarrow> 0)"

definition remove_hash :: "string \<Rightarrow> string" where
  "remove_hash s = takeWhile (\<lambda>c. c \<noteq> CHR ''#'') s @ drop 1 (dropWhile (\<lambda>c. c \<noteq> CHR ''#'') s)"

definition interpolateRgb :: "string \<Rightarrow> string \<Rightarrow> rat \<Rightarrow> string" where
  "interpolateRgb start end t =
     (let startHex = remove_hash start; endHex = remove_hash end;
          channels = map (\<lambda>offset.
            let from = hex_channel (take 2 (drop offset startHex));
                to = hex_channel (take 2 (drop offset endHex)) in
            padStart 2 (CHR ''0'') (show_hex (nat (math_round (of_int from + of_int (to - from) * t)))))
            [0, 2, 4] in
      CHR ''#'' # concat channels)"

definition ramp :: "string list \<Rightarrow> rat \<Rightarrow> string" where
  "ramp stops t =
     (let bounded = max 0 (min 1 t); segmentCount = length stops - 1;
          rawIndex = bounded * of_nat segmentCount;
          index = min (int segmentCount - 1) \<lfloor>rawIndex\<rfloor>;
          start = (if nat index < length stops then stops ! nat index else hd stops);
          end = (if nat index + 1 < length stops then stops ! (nat index + 1) else last stops) in
      interpolateRgb start end (rawIndex - of_int index))"

record color_scheme =
  cs_id :: string
  cs_label :: string
  cs_stops :: "string list"
  cs_swatches :: "string list option"

definition tableau10_colors :: "string list" where
  "tableau10_colors = [''#4e79a7'', ''#f28e2b'', ''#e15759'', ''#76b7b2'', ''#59a14f'', ''#edc949'',
     ''#af7aa1'', ''#ff9da7'', ''#9c755f'', ''#bab0ab'']"

definition set3_colors :: "string list" where
  "set3_colors = [''#8dd3c7'', ''#ffffb3'', ''#bebada'', ''#fb8072'', ''#80b1d3'', ''#fdb462'',
     ''#b3de69'', ''#fccde5'', ''#d9d9d9'', ''#bc80bd'', ''#ccebc5'', ''#ffed6f'']"

definition colorSchemes :: "color_scheme list" where
  "colorSchemes =
    [\<lparr>cs_id = ''blues'', cs_label = ''Blues'', cs_stops = [''#f7fbff'', ''#6baed6'', ''#08306b''], cs_swatches = None\<rparr>,
     \<lparr>cs_id = ''greens'', cs_label = ''Greens'', cs_stops = [''#f7fcf5'', ''#74c476'', ''#00441b''], cs_swatches = None\<rparr>,
     \<lparr>cs_id = ''oranges'', cs_label = ''Oranges'', cs_stops = [''#fff5eb'', ''#fd8d3c'', ''#7f2704''], cs_swatches = None\<rparr>,
     \<lparr>cs_id = ''purples'', cs_label = ''Purples'', cs_stops = [''#fcfbfd'', ''#9e9ac8'', ''#3f007d''], cs_swatches = None\<rparr>,
     \<lparr>cs_id = ''viridis'', cs_label = ''Viridis'', cs_stops = [''#440154'', ''#21918c'', ''#fde725''], cs_swatches = None\<rparr>,
     \<lparr>cs_id = ''plasma'', cs_label = ''Plasma'', cs_stops = [''#0d0887'', ''#cc4778'', ''#f0f921''], cs_swatches = None\<rparr>,
     \<lparr>cs_id = ''rdyblu'', cs_label = ''RdYlBu'', cs_stops = [''#a50026'', ''#ffffbf'', ''#313695''], cs_swatches = None\<rparr>,
     \<lparr>cs_id = ''rdyg'', cs_label = ''RdYlGn'', cs_stops = [''#a50026'', ''#ffffbf'', ''#006837''], cs_swatches = None\<rparr>,
     \<lparr>cs_id = ''tableau10'', cs_label = ''Tableau 10'', cs_stops = tableau10_colors, cs_swatches = Some tableau10_colors\<rparr>,
     \<lparr>cs_id = ''set3'', cs_label = ''Set 3'', cs_stops = set3_colors, cs_swatches = Some set3_colors\<rparr>]"

definition find_scheme :: "string \<Rightarrow> color_scheme option" where
  "find_scheme schemeId = List.find (\<lambda>s. cs_id s = schemeId) colorSchemes"

definition getColorRamp :: "string \<Rightarrow> int \<Rightarrow> string list" where
  "getColorRamp schemeId cnt =
     (let scheme = (case find_scheme schemeId of Some s \<Rightarrow> s | None \<Rightarrow> colorSchemes ! 4);
          safeCount = max 2 (min 9 cnt);
          denominator = max 1 (safeCount - 1) in
      map (\<lambda>index. ramp (cs_stops scheme) (of_nat index / of_int denominator)) [0..<nat safeCount])"

section \<open>Numeric breaks\<close>

definition by_value :: "rat \<Rightarrow> rat \<Rightarrow> rat" where
  "by_value a b = a - b"

definition push_new :: "rat list \<Rightarrow> rat \<Rightarrow> rat list" where
  "push_new unique value = (if unique = [] \<or> last unique \<noteq> value then unique @ [value] else unique)"

definition quantile_index :: "int \<Rightarrow> nat \<Rightarrow> nat \<Rightarrow> nat" where
  "quantile_index cnt n i =
     nat (min (int n - 1) \<lfloor>of_nat i / of_int (cnt + 1) * (of_nat n - 1 :: rat)\<rfloor>)"

definition equal_breaks :: "rat \<Rightarrow> rat \<Rightarrow> int \<Rightarrow> rat list" where
  "equal_breaks lo hi cnt =
     (let step = (hi - lo) / of_int (cnt + 1) in
      map (\<lambda>index. to_fixed6 (lo + step * (of_nat index + 1))) [0..<nat cnt])"

definition computeQuantileBreaks :: "rat list \<Rightarrow> int \<Rightarrow> rat list" where
  "computeQuantileBreaks values cnt =
     (if cnt \<le> 0 \<or> values = [] then []
      else let sorted = sort_by by_value values;
               unique = foldl (\<lambda>u i. push_new u (sorted ! quantile_index cnt (length sorted) i)) []
                          [1..<nat cnt + 1] in
        if length unique = nat cnt then unique
        else let lo = hd sorted; hi = last sorted in
          if lo = hi then map (\<lambda>index. lo + of_nat index + 1) [0..<nat cnt]
          else equal_breaks lo hi cnt)"

definition getValueRange :: "rat list \<Rightarrow> rat \<times> rat" where
  "getValueRange values =
     (if values = [] then (0, 0)
      else foldl (\<lambda>(lo, hi) v. (if v < lo then v else lo, if v > hi then v else hi))
             (hd values, hd values) values)"

section \<open>Paint and legend\<close>

abbreviation paint :: "string \<Rightarrow> json" where
  "paint s \<equiv> JStr s"

definition default_fill :: string where
  "default_fill = ''#C5E8FF''"

definition buildColorExpression :: "string option \<Rightarrow> js_number list \<Rightarrow> string list \<Rightarrow> json" where
  "buildColorExpression property breaks colors =
     (let first = (if colors = [] then default_fill else hd colors) in
      case property of
        Some p \<Rightarrow>
          if p = [] \<or> breaks = [] then paint first
          else JArr ([JStr ''step'', JArr [JStr ''to-number'', JArr [JStr ''get'', JStr p]], paint first] @
            concat (map (\<lambda>index. [JNum (breaks ! index),
               paint (if index + 1 < length colors then colors ! (index + 1)
                      else if colors = [] then default_fill else last colors)]) [0..<length breaks]))
      | None \<Rightarrow> paint first)"

text \<open>A legend item is a label and a colour; \<open>breaks[i]\<close> out of range prints \<open>undefined\<close>.\<close>

definition show_break :: "js_number list \<Rightarrow> nat \<Rightarrow> string" where
  "show_break breaks i = (if i < length breaks then js_String_number (breaks ! i) else ''undefined'')"

definition getLegendItems :: "js_number list \<Rightarrow> string list \<Rightarrow> (string \<times> string) list" where
  "getLegendItems breaks colors =
     (if breaks = [] then [(''All values'', if colors = [] then default_fill else hd colors)]
      else map (\<lambda>index.
        (if index = 0 then ''<= '' @ show_break breaks 0
         else if index = length colors - 1 then ''> '' @ show_break breaks (length breaks - 1)
         else show_break breaks (index - 1) @ '' - '' @ show_break breaks index,
         colors ! index)) [0..<length colors])"

section \<open>Categories\<close>

datatype category_value = CatString string | CatNumber js_number | CatBool bool

datatype category_type = StringField | NumberField | BooleanField

record category_registry =
  cr_values :: "category_value list"
  cr_overflow :: bool

definition CATEGORY_CAP :: nat where "CATEGORY_CAP = 32"
definition NO_DATA_COLOR :: string where "NO_DATA_COLOR = ''#d1d5db''"
definition OTHER_VALUES_COLOR :: string where "OTHER_VALUES_COLOR = ''#6b7280''"

definition PALETTE_PREFERENCE :: "string list" where
  "PALETTE_PREFERENCE = [''viridis'', ''plasma'', ''blues'', ''greens'', ''oranges'', ''purples'',
     ''rdyblu'', ''rdyg'', ''tableau10'', ''set3'']"

definition show_bool :: "bool \<Rightarrow> string" where
  "show_bool b = (if b then ''true'' else ''false'')"

fun category_string :: "category_value \<Rightarrow> string" where
  "category_string (CatString s) = s"
| "category_string (CatNumber n) = js_String_number n"
| "category_string (CatBool b) = show_bool b"

fun category_number :: "category_value \<Rightarrow> js_number" where
  "category_number (CatString s) = js_Number_string s"
| "category_number (CatNumber n) = n"
| "category_number (CatBool b) = JsFin (if b then 1 else 0)"

fun normalizeCategory :: "category_value \<Rightarrow> category_type \<Rightarrow> category_value option" where
  "normalizeCategory v StringField =
     (if category_string v = [] then None else Some (CatString (category_string v)))"
| "normalizeCategory v NumberField =
     (if v = CatString [] then None
      else if isFinite (category_number v) then Some (CatNumber (category_number v)) else None)"
| "normalizeCategory v BooleanField =
     (case v of CatBool b \<Rightarrow> Some (CatBool b)
      | _ \<Rightarrow> if toLowerCase (category_string v) = ''true'' then Some (CatBool True)
            else if toLowerCase (category_string v) = ''false'' then Some (CatBool False)
            else None)"

fun categoryKey :: "category_value \<Rightarrow> string" where
  "categoryKey (CatString s) = ''string:'' @ s"
| "categoryKey (CatNumber n) = ''number:'' @ js_String_number n"
| "categoryKey (CatBool b) = ''boolean:'' @ show_bool b"

definition compare_text :: "string \<Rightarrow> string \<Rightarrow> rat" where
  "compare_text s t = (if s < t then -1 else if t < s then 1 else 0)"

text \<open>The registry holds finite numbers only, so the difference of two numbers is finite.\<close>

fun compareCategories :: "category_value \<Rightarrow> category_value \<Rightarrow> rat" where
  "compareCategories (CatNumber (JsFin a)) (CatNumber (JsFin b)) = a - b"
| "compareCategories (CatBool a) (CatBool b) = (if a then 1 else 0) - (if b then 1 else 0)"
| "compareCategories l r = compare_text (category_string l) (category_string r)"

definition unseen_categories ::
  "category_registry \<Rightarrow> category_value list \<Rightarrow> category_type \<Rightarrow> (string \<times> category_value) list" where
  "unseen_categories previous values type =
     foldl (\<lambda>unseen value. case normalizeCategory value type of None \<Rightarrow> unseen
        | Some normalized \<Rightarrow>
            if categoryKey normalized \<in> categoryKey ` set (cr_values previous) then unseen
            else map_set (categoryKey normalized) normalized unseen) [] values"

definition extendCategoryRegistry ::
  "category_registry \<Rightarrow> category_value list \<Rightarrow> category_type \<Rightarrow> category_registry" where
  "extendCategoryRegistry previous values type =
     (let unseen = unseen_categories previous values type in
      if unseen = [] then previous
      else let sorted = sort_by compareCategories (map snd unseen);
               available = CATEGORY_CAP - length (cr_values previous);
               appended = take available sorted;
               overflow = (cr_overflow previous \<or> available < length sorted) in
        if appended = [] \<and> overflow = cr_overflow previous then previous
        else \<lparr>cr_values = cr_values previous @ appended, cr_overflow = overflow\<rparr>)"

definition categoricalSwatches :: "string \<Rightarrow> string list" where
  "categoricalSwatches schemeId =
     (case find_scheme schemeId of
        Some s \<Rightarrow> (case cs_swatches s of Some sw \<Rightarrow> sw | None \<Rightarrow> getColorRamp (cs_id s) 9)
      | None \<Rightarrow> getColorRamp ''viridis'' 9)"

definition number_values :: "category_value list \<Rightarrow> js_number list" where
  "number_values values = List.map_filter (\<lambda>v. case v of CatNumber n \<Rightarrow> Some n | _ \<Rightarrow> None) values"

text \<open>
  The loop of \<open>numericSentinel\<close>: from \<open>Number.MIN_SAFE_INTEGER\<close> up to the first integer that
  is no category; it ends because every step passes one of the finitely many values.
\<close>

function sentinel_from :: "js_number list \<Rightarrow> int \<Rightarrow> int" where
  "sentinel_from numbers sentinel =
     (if JsFin (of_int sentinel) \<in> set numbers then sentinel_from numbers (sentinel + 1) else sentinel)"
  by pat_completeness auto

fun at_or_above :: "int \<Rightarrow> js_number \<Rightarrow> bool" where
  "at_or_above s (JsFin r) \<longleftrightarrow> of_int s \<le> r"
| "at_or_above s n \<longleftrightarrow> False"

termination sentinel_from
proof (relation "measure (\<lambda>(ns, s). length (filter (at_or_above s) ns))")
  fix ns :: "js_number list" and s :: int
  assume s: "JsFin (of_int s) \<in> set ns"
  have "length (filter (at_or_above (s + 1)) xs) \<le> length (filter (at_or_above s) xs) \<and>
    (JsFin (of_int s) \<in> set xs \<longrightarrow>
       length (filter (at_or_above (s + 1)) xs) < length (filter (at_or_above s) xs))" for xs
  proof (induction xs)
    case (Cons x xs)
    then show ?case by (cases x) auto
  qed simp
  with s show "((ns, s + 1), ns, s) \<in> measure (\<lambda>(ns, s). length (filter (at_or_above s) ns))"
    by simp
qed simp

declare sentinel_from.simps [simp del]

definition numericSentinel :: "category_value list \<Rightarrow> int" where
  "numericSentinel values = sentinel_from (number_values values) (- 9007199254740991)"

fun categoryInput :: "string \<Rightarrow> category_type \<Rightarrow> category_value list \<Rightarrow> json" where
  "categoryInput property NumberField values =
     JArr [JStr ''to-string'', JArr [JStr ''to-number'', JArr [JStr ''get'', JStr property],
       JNum (JsFin (of_int (numericSentinel values)))]]"
| "categoryInput property BooleanField values =
     JArr [JStr ''downcase'', JArr [JStr ''to-string'', JArr [JStr ''get'', JStr property]]]"
| "categoryInput property StringField values =
     JArr [JStr ''to-string'', JArr [JStr ''get'', JStr property]]"

record categorical_style =
  ct_color :: json
  ct_items :: "(string \<times> string) list"
  ct_notes :: "string list"

fun category_json :: "category_value \<Rightarrow> json" where
  "category_json (CatString s) = JStr s"
| "category_json (CatNumber n) = JNum n"
| "category_json (CatBool b) = JBool b"

definition missing_test :: "string \<Rightarrow> json" where
  "missing_test property =
     JArr [JStr ''any'', JArr [JStr ''!'', JArr [JStr ''has'', JStr property]],
       JArr [JStr ''=='', JArr [JStr ''get'', JStr property], JNull],
       JArr [JStr ''=='', JArr [JStr ''to-string'', JArr [JStr ''get'', JStr property]], JStr []]]"

definition category_color :: "string list \<Rightarrow> nat \<Rightarrow> string" where
  "category_color swatches index =
     (if swatches = [] then OTHER_VALUES_COLOR else swatches ! (index mod length swatches))"

definition categoricalStyle ::
  "string \<Rightarrow> category_registry \<Rightarrow> category_type \<Rightarrow> string \<Rightarrow> categorical_style" where
  "categoricalStyle property registry type scheme =
     (let swatches = categoricalSwatches scheme; values = cr_values registry;
          match = [JStr ''match'', categoryInput property type values] @
            concat (map (\<lambda>(index, value).
              [if type = StringField then category_json value else JStr (category_string value),
               paint (category_color swatches index)]) (enumerate 0 values)) @ [paint OTHER_VALUES_COLOR];
          classified = (if values = [] then paint OTHER_VALUES_COLOR else JArr match) in
      \<lparr>ct_color = JArr [JStr ''case'', missing_test property, paint NO_DATA_COLOR, classified],
       ct_items = map (\<lambda>(index, value). (category_string value, category_color swatches index))
                    (enumerate 0 values)
         @ [(''Other values'', OTHER_VALUES_COLOR), (''No data'', NO_DATA_COLOR)],
       ct_notes =
         (if cr_overflow registry
          then [''Showing the first 32 categories; additional categories use Other values.''] else []) @
         (if length swatches < length values
          then [''Palette colors are reused for some categories.''] else [])\<rparr>)"

text \<open>\<open>counts\<close> starts with every palette at 0; other names are skipped.\<close>

definition palette_counts :: "string list \<Rightarrow> (string \<times> nat) list" where
  "palette_counts used =
     foldl (\<lambda>counts scheme. if scheme \<in> set PALETTE_PREFERENCE
              then map_set scheme ((case map_of counts scheme of Some n \<Rightarrow> n | None \<Rightarrow> 0) + 1) counts
              else counts) (map (\<lambda>s. (s, 0)) PALETTE_PREFERENCE) used"

definition palette_count :: "string list \<Rightarrow> string \<Rightarrow> nat" where
  "palette_count used scheme = (case map_of (palette_counts used) scheme of Some n \<Rightarrow> n | None \<Rightarrow> 0)"

definition chooseLayerPalette :: "string list \<Rightarrow> string" where
  "chooseLayerPalette used =
     foldl (\<lambda>selected scheme.
        if palette_count used scheme < palette_count used selected then scheme else selected)
       (hd PALETTE_PREFERENCE) PALETTE_PREFERENCE"

definition solidPaletteColor :: "string \<Rightarrow> string" where
  "solidPaletteColor scheme =
     (let selected = (case find_scheme scheme of Some s \<Rightarrow> s | None \<Rightarrow> colorSchemes ! 4) in
      if cs_id selected = ''rdyblu'' \<or> cs_id selected = ''rdyg'' then ramp (cs_stops selected) 1
      else (case cs_swatches selected of
              Some (c # _) \<Rightarrow> c
            | _ \<Rightarrow> ramp (cs_stops selected) (1 / 2)))"

section \<open>Selection box, controls and reserved properties\<close>

type_synonym point = "rat \<times> rat"

definition MAX_SELECTED_FEATURES :: nat where "MAX_SELECTED_FEATURES = 100"
definition MIN_SELECTION_DRAG_DISTANCE :: rat where "MIN_SELECTION_DRAG_DISTANCE = 4"

definition isSelectionDrag :: "point \<Rightarrow> point \<Rightarrow> bool" where
  "isSelectionDrag start end \<longleftrightarrow>
     MIN_SELECTION_DRAG_DISTANCE \<le> \<bar>fst end - fst start\<bar> \<or> MIN_SELECTION_DRAG_DISTANCE \<le> \<bar>snd end - snd start\<bar>"

definition selectionBoxFeature :: "point \<Rightarrow> point \<Rightarrow> point list" where
  "selectionBoxFeature start end =
     [(fst start, snd start), (fst end, snd start), (fst end, snd end), (fst start, snd end),
      (fst start, snd start)]"

definition selectionScreenBounds :: "point \<Rightarrow> point \<Rightarrow> point \<times> point" where
  "selectionScreenBounds start end =
     ((min (fst start) (fst end), min (snd start) (snd end)),
      (max (fst start) (fst end), max (snd start) (snd end)))"

datatype basemap_mode = Street | Satellite

definition getSelectionControlLabel :: "bool \<Rightarrow> string" where
  "getSelectionControlLabel isSelectionActive =
     (if isSelectionActive then ''Turn off region highlighting''
      else ''Highlight a region on the map. You can also hold Shift.'')"

definition getSelectionControlAriaLabel :: "bool \<Rightarrow> string" where
  "getSelectionControlAriaLabel isSelectionActive =
     (if isSelectionActive then ''Turn off highlight region'' else ''Highlight a region'')"

definition getBasemapControlLabel :: "basemap_mode \<Rightarrow> string" where
  "getBasemapControlLabel m =
     (if m = Satellite then ''Switch to street map'' else ''Switch to satellite imagery'')"

definition QUERY_MVT_FEATURE_KEY_PROPERTY :: string where
  "QUERY_MVT_FEATURE_KEY_PROPERTY = ''__hifld_feature_key''"
definition QUERY_MVT_CENTROID_LNG_PROPERTY :: string where
  "QUERY_MVT_CENTROID_LNG_PROPERTY = ''__hifld_centroid_lng''"
definition QUERY_MVT_CENTROID_LAT_PROPERTY :: string where
  "QUERY_MVT_CENTROID_LAT_PROPERTY = ''__hifld_centroid_lat''"

definition QUERY_MVT_RESERVED_PROPERTY_NAMES :: "string list" where
  "QUERY_MVT_RESERVED_PROPERTY_NAMES =
     [''_mcp_feature_id'', ''__hifld_feature_hash'', QUERY_MVT_FEATURE_KEY_PROPERTY,
      QUERY_MVT_CENTROID_LNG_PROPERTY, QUERY_MVT_CENTROID_LAT_PROPERTY]"

definition isQueryMvtReservedProperty :: "string \<Rightarrow> bool" where
  "isQueryMvtReservedProperty propertyName = (propertyName \<in> set QUERY_MVT_RESERVED_PROPERTY_NAMES)"

section \<open>Category registries\<close>

fun category_of_type :: "category_type \<Rightarrow> category_value \<Rightarrow> bool" where
  "category_of_type StringField v = (case v of CatString s \<Rightarrow> True | _ \<Rightarrow> False)"
| "category_of_type NumberField v = (case v of CatNumber n \<Rightarrow> isFinite n | _ \<Rightarrow> False)"
| "category_of_type BooleanField v = (case v of CatBool b \<Rightarrow> True | _ \<Rightarrow> False)"

lemma normalizeCategory_type: "normalizeCategory v t = Some w \<Longrightarrow> category_of_type t w"
  by (cases t) (auto split: category_value.splits if_splits)

lemma category_of_typeE:
  assumes "category_of_type t v"
  obtains (str) s where "t = StringField" "v = CatString s"
  | (num) r where "t = NumberField" "v = CatNumber (JsFin r)"
  | (bool) b where "t = BooleanField" "v = CatBool b"
  using assms by (cases t; cases v) (auto simp: isFinite_iff)

lemma compare_text_le: "compare_text s t \<le> 0 \<longleftrightarrow> s \<le> t"
  by (auto simp: compare_text_def)

interpretation typed_categories: comparator "{v. category_of_type t v}" compareCategories for t
proof unfold_locales
  fix x y
  assume "x \<in> {v. category_of_type t v}" "y \<in> {v. category_of_type t v}" "0 < compareCategories x y"
  then show "compareCategories y x \<le> 0"
    by (auto elim!: category_of_typeE simp: compare_text_def split: if_splits)
next
  fix x y z
  assume "x \<in> {v. category_of_type t v}" "y \<in> {v. category_of_type t v}" "z \<in> {v. category_of_type t v}"
    "compareCategories x y \<le> 0" "compareCategories y z \<le> 0"
  then show "compareCategories x z \<le> 0"
    by (auto elim!: category_of_typeE simp: compare_text_le)
qed

interpretation value_order: comparator "UNIV :: rat set" by_value
  unfolding by_value_def by (rule comparator_diff)

definition unseen_inv :: "category_registry \<Rightarrow> category_type \<Rightarrow> (string \<times> category_value) list \<Rightarrow> bool" where
  "unseen_inv r t m \<longleftrightarrow> distinct (map fst m) \<and>
     (\<forall>(k, v) \<in> set m. k = categoryKey v \<and> category_of_type t v \<and> k \<notin> categoryKey ` set (cr_values r))"

lemma unseen_categories_snoc:
  "unseen_categories r (vs @ [v]) t =
     (case normalizeCategory v t of None \<Rightarrow> unseen_categories r vs t
      | Some w \<Rightarrow> if categoryKey w \<in> categoryKey ` set (cr_values r) then unseen_categories r vs t
                 else map_set (categoryKey w) w (unseen_categories r vs t))"
  by (simp add: unseen_categories_def split: option.split)

lemma set_map_set_subset: "set (map_set k v m) \<subseteq> insert (k, v) (set m)"
  by (induction m) auto

lemma unseen_inv_set:
  assumes "unseen_inv r t m" "category_of_type t w" "categoryKey w \<notin> categoryKey ` set (cr_values r)"
  shows "unseen_inv r t (map_set (categoryKey w) w m)"
proof -
  have "k = categoryKey v \<and> category_of_type t v \<and> k \<notin> categoryKey ` set (cr_values r)"
    if "(k, v) \<in> set (map_set (categoryKey w) w m)" for k v
  proof -
    have "(k, v) = (categoryKey w, w) \<or> (k, v) \<in> set m"
      using that set_map_set_subset [of "categoryKey w" w m] by blast
    then show ?thesis
    proof
      assume "(k, v) = (categoryKey w, w)"
      with assms(2,3) show ?thesis by simp
    next
      assume "(k, v) \<in> set m"
      with assms(1) have "case (k, v) of (k, v) \<Rightarrow> k = categoryKey v \<and> category_of_type t v \<and>
          k \<notin> categoryKey ` set (cr_values r)"
        unfolding unseen_inv_def by (rule_tac bspec [OF conjunct2])
      then show ?thesis by auto
    qed
  qed
  moreover have "distinct (map fst (map_set (categoryKey w) w m))"
    using assms(1) unfolding unseen_inv_def by (intro distinct_update) blast
  ultimately show ?thesis
    unfolding unseen_inv_def by (intro conjI ballI) (auto split: prod.split)
qed

lemma unseen_inv_categories: "unseen_inv r t (unseen_categories r vs t)"
proof (induction vs rule: rev_induct)
  case Nil
  then show ?case by (simp add: unseen_categories_def unseen_inv_def)
next
  case (snoc v vs)
  show ?case
  proof (cases "normalizeCategory v t")
    case None
    with snoc show ?thesis by (simp add: unseen_categories_snoc)
  next
    case (Some w)
    with snoc normalizeCategory_type [OF Some] show ?thesis
      using unseen_inv_set [of r t "unseen_categories r vs t" w]
      by (simp add: unseen_categories_snoc)
  qed
qed

lemma unseen_categories_keys:
  "fst ` set (unseen_categories r vs t) =
     {categoryKey w |v w. v \<in> set vs \<and> normalizeCategory v t = Some w} - categoryKey ` set (cr_values r)"
proof (induction vs rule: rev_induct)
  case Nil
  then show ?case by (simp add: unseen_categories_def)
next
  case (snoc v vs)
  let ?K = "categoryKey ` set (cr_values r)"
  show ?case
  proof (cases "normalizeCategory v t")
    case None
    then have "{categoryKey w |x w. x \<in> set (vs @ [v]) \<and> normalizeCategory x t = Some w}
        = {categoryKey w |x w. x \<in> set vs \<and> normalizeCategory x t = Some w}" by auto
    with None snoc show ?thesis by (simp add: unseen_categories_snoc)
  next
    case (Some u)
    then have "{categoryKey w |x w. x \<in> set (vs @ [v]) \<and> normalizeCategory x t = Some w}
        = insert (categoryKey u) {categoryKey w |x w. x \<in> set vs \<and> normalizeCategory x t = Some w}"
      by auto
    with Some snoc show ?thesis
      by (cases "categoryKey u \<in> ?K")
         (simp_all only: unseen_categories_snoc option.simps if_True if_False set_keys_map_set
            insert_Diff_if)
  qed
qed

lemma keys_of_unseen:
  "unseen_inv r t m \<Longrightarrow> map categoryKey (map snd m) = map fst m"
  by (fastforce simp: unseen_inv_def)

lemma category_registry_extended:
  assumes "length (cr_values r) \<le> CATEGORY_CAP" and "distinct (map categoryKey (cr_values r))"
  shows "let r' = extendCategoryRegistry r vs t in
    (\<exists>new. cr_values r' = cr_values r @ new \<and> sorted_wrt (\<lambda>a b. compareCategories a b \<le> 0) new) \<and>
    length (cr_values r') \<le> CATEGORY_CAP \<and> distinct (map categoryKey (cr_values r')) \<and>
    (cr_overflow r \<longrightarrow> cr_overflow r') \<and>
    (\<forall>v \<in> set vs. \<forall>w. normalizeCategory v t = Some w \<longrightarrow>
       categoryKey w \<in> categoryKey ` set (cr_values r') \<or> cr_overflow r')"
proof -
  let ?u = "unseen_categories r vs t"
  define s where "s = sort_by compareCategories (map snd ?u)"
  define a where "a = CATEGORY_CAP - length (cr_values r)"
  have inv: "unseen_inv r t ?u" by (rule unseen_inv_categories)
  have typed: "set (map snd ?u) \<subseteq> {v. category_of_type t v}"
    using inv by (fastforce simp: unseen_inv_def)
  have sorted: "sorted_wrt (\<lambda>a b. compareCategories a b \<le> 0) s"
    unfolding s_def using typed by (rule typed_categories.sorted_sort_by)
  have keys: "distinct (map categoryKey s)" "categoryKey ` set s = fst ` set ?u"
  proof -
    have "distinct (map categoryKey (map snd ?u))"
      unfolding keys_of_unseen [OF inv] using inv by (simp add: unseen_inv_def)
    then show "distinct (map categoryKey s)" by (simp add: s_def)
    have "categoryKey ` set s = set (map categoryKey (map snd ?u))" by (auto simp: s_def)
    also have "\<dots> = fst ` set ?u" unfolding keys_of_unseen [OF inv] by simp
    finally show "categoryKey ` set s = fst ` set ?u" .
  qed
  have disj: "categoryKey ` set s \<inter> categoryKey ` set (cr_values r) = {}"
    using inv unfolding keys(2) by (fastforce simp: unseen_inv_def)
  have ext: "extendCategoryRegistry r vs t =
      (if take a s = [] \<and> (cr_overflow r \<or> a < length s) = cr_overflow r then r
       else \<lparr>cr_values = cr_values r @ take a s, cr_overflow = cr_overflow r \<or> a < length s\<rparr>)"
    by (auto simp: extendCategoryRegistry_def Let_def s_def a_def)
  have vals: "cr_values (extendCategoryRegistry r vs t) = cr_values r @ take a s"
    and over: "cr_overflow (extendCategoryRegistry r vs t) = (cr_overflow r \<or> a < length s)"
    by (auto simp: ext)
  have dist: "distinct (map categoryKey (cr_values r @ take a s))"
  proof -
    have "set (map categoryKey (take a s)) \<subseteq> categoryKey ` set s" by (auto dest: in_set_takeD)
    then have "set (map categoryKey (cr_values r)) \<inter> set (map categoryKey (take a s)) = {}"
      using disj by auto
    moreover have "distinct (map categoryKey (take a s))"
      using keys(1) by (simp flip: take_map)
    ultimately show ?thesis using assms(2) by (simp only: map_append distinct_append)
  qed
  have seen: "categoryKey w \<in> categoryKey ` (set (cr_values r) \<union> set s)"
    if "v \<in> set vs" "normalizeCategory v t = Some w" for v w
    using that unseen_categories_keys [of r vs t] keys(2) by (auto simp: image_Un)
  show ?thesis
    unfolding Let_def vals over
  proof (intro conjI ballI allI impI)
    show "\<exists>new. cr_values r @ take a s = cr_values r @ new \<and>
        sorted_wrt (\<lambda>a b. compareCategories a b \<le> 0) new"
      using sorted by (intro exI [of _ "take a s"]) (simp add: sorted_wrt_take)
    show "length (cr_values r @ take a s) \<le> CATEGORY_CAP"
      using assms(1) by (simp add: a_def)
  next
    fix v w
    assume "v \<in> set vs" "normalizeCategory v t = Some w"
    then show "categoryKey w \<in> categoryKey ` set (cr_values r @ take a s) \<or> (cr_overflow r \<or> a < length s)"
      using seen [of v w] by (cases "a < length s") auto
  qed (use dist in auto)
qed

text \<open>
  A category registry only grows: the categories it has keep their place and so their
  colour, new ones come after them in order, at most 32 are kept and no category appears twice;
  every value seen is a category of the result, or the result says that it has overflowed.
\<close>

theorem category_registry_grows:
  assumes "length (cr_values r) \<le> CATEGORY_CAP" and "distinct (map categoryKey (cr_values r))"
  shows "let r' = extendCategoryRegistry r vs t in
    (\<exists>new. cr_values r' = cr_values r @ new \<and> sorted_wrt (\<lambda>a b. compareCategories a b \<le> 0) new) \<and>
    length (cr_values r') \<le> CATEGORY_CAP \<and> distinct (map categoryKey (cr_values r')) \<and>
    (cr_overflow r \<longrightarrow> cr_overflow r') \<and>
    (\<forall>v \<in> set vs. \<forall>w. normalizeCategory v t = Some w \<longrightarrow>
       categoryKey w \<in> categoryKey ` set (cr_values r') \<or> cr_overflow r')"
  using category_registry_extended [OF assms] .

theorem category_registry_grows_witness:
  "let r = \<lparr>cr_values = [CatString ''b''], cr_overflow = False\<rparr>;
       r' = extendCategoryRegistry r [CatString ''c'', CatString ''a'', CatString ''b''] StringField in
   cr_values r' = [CatString ''b'', CatString ''a'', CatString ''c''] \<and> length (cr_values r') \<le> CATEGORY_CAP"
proof -
  let ?r = "\<lparr>cr_values = [CatString ''b''], cr_overflow = False\<rparr>"
  have "length (cr_values ?r) \<le> CATEGORY_CAP" "distinct (map categoryKey (cr_values ?r))"
    by (simp_all add: CATEGORY_CAP_def)
  moreover have "cr_values (extendCategoryRegistry ?r [CatString ''c'', CatString ''a'', CatString ''b''] StringField)
      = [CatString ''b'', CatString ''a'', CatString ''c'']" by code_simp
  ultimately show ?thesis
    using category_registry_grows [of ?r "[CatString ''c'', CatString ''a'', CatString ''b'']" StringField]
    unfolding Let_def by blast
qed

section \<open>Palettes\<close>

lemma foldl_least:
  fixes f :: "'a \<Rightarrow> nat"
  shows "foldl (\<lambda>sel x. if f x < f sel then x else sel) a xs \<in> set (a # xs) \<and>
    (\<forall>x \<in> set (a # xs). f (foldl (\<lambda>sel x. if f x < f sel then x else sel) a xs) \<le> f x)"
proof (induction xs arbitrary: a)
  case (Cons y ys)
  show ?case using Cons.IH [of a] Cons.IH [of y] by auto
qed simp

lemma palette_counts_keys:
  "map fst (palette_counts used) = PALETTE_PREFERENCE \<and>
   (\<forall>s \<in> set PALETTE_PREFERENCE. map_of (palette_counts used) s = Some (count_list used s))"
proof (induction used rule: rev_induct)
  case Nil
  have "map_of (map (\<lambda>s. (s, 0)) xs) s = Some (0 :: nat)" if "s \<in> set xs" for xs and s :: string
    using that by (induction xs) auto
  then show ?case by (simp add: palette_counts_def o_def)
next
  case (snoc x xs)
  show ?case
  proof (cases "x \<in> set PALETTE_PREFERENCE")
    case True
    have step: "palette_counts (xs @ [x]) = map_set x (count_list xs x + 1) (palette_counts xs)"
      using snoc True by (simp add: palette_counts_def)
    have "x \<in> fst ` set (palette_counts xs)"
      using snoc True by (metis image_set)
    then have "map fst (palette_counts (xs @ [x])) = map fst (palette_counts xs)"
      by (simp add: step keys_map_set)
    with snoc True show ?thesis by (simp add: step)
  next
    case False
    then have "palette_counts (xs @ [x]) = palette_counts xs" by (simp add: palette_counts_def)
    with snoc False show ?thesis by auto
  qed
qed

lemma palette_count_list: "s \<in> set PALETTE_PREFERENCE \<Longrightarrow> palette_count used s = count_list used s"
  using palette_counts_keys [of used] by (simp add: palette_count_def)

lemma chosen_palette:
  "chooseLayerPalette used \<in> set PALETTE_PREFERENCE \<and>
   (\<forall>s \<in> set PALETTE_PREFERENCE. count_list used (chooseLayerPalette used) \<le> count_list used s)"
proof -
  have hd: "set (hd PALETTE_PREFERENCE # PALETTE_PREFERENCE) = set PALETTE_PREFERENCE"
    by (simp add: PALETTE_PREFERENCE_def)
  note least = foldl_least [of "palette_count used" "hd PALETTE_PREFERENCE" PALETTE_PREFERENCE,
      folded chooseLayerPalette_def, unfolded hd]
  then show ?thesis by (metis palette_count_list)
qed

text \<open>
  A new layer gets one of the palettes that fewest layers use.
\<close>

theorem new_layer_palette_least_used:
  "chooseLayerPalette used \<in> set PALETTE_PREFERENCE \<and>
   (\<forall>s \<in> set PALETTE_PREFERENCE. count_list used (chooseLayerPalette used) \<le> count_list used s)"
  by (rule chosen_palette)

theorem new_layer_palette_least_used_witness:
  "chooseLayerPalette [''viridis'', ''blues'', ''plasma''] = ''greens'' \<and>
   count_list [''viridis'', ''blues'', ''plasma''] (chooseLayerPalette [''viridis'', ''blues'', ''plasma''])
     \<le> count_list [''viridis'', ''blues'', ''plasma''] ''set3''"
proof -
  have "chooseLayerPalette [''viridis'', ''blues'', ''plasma''] = ''greens''" by code_simp
  moreover have "''set3'' \<in> set PALETTE_PREFERENCE" by (simp add: PALETTE_PREFERENCE_def)
  ultimately show ?thesis
    using new_layer_palette_least_used [of "[''viridis'', ''blues'', ''plasma'']"] by blast
qed

section \<open>The sentinel\<close>

lemma sentinel_from_free:
  "JsFin (of_int (sentinel_from ns s)) \<notin> set ns \<and> s \<le> sentinel_from ns s"
proof (induction ns s rule: sentinel_from.induct)
  case (1 ns s)
  then show ?case by (subst (1 2) sentinel_from.simps) auto
qed

lemma at_or_above_less:
  "length (filter (at_or_above (s + 1)) ns) \<le> length (filter (at_or_above s) ns) \<and>
   (JsFin (of_int s) \<in> set ns \<longrightarrow> length (filter (at_or_above (s + 1)) ns) < length (filter (at_or_above s) ns))"
proof (induction ns)
  case (Cons x xs)
  then show ?case by (cases x) auto
qed simp

lemma sentinel_from_bound: "sentinel_from ns s \<le> s + int (length (filter (at_or_above s) ns))"
proof (induction ns s rule: sentinel_from.induct)
  case (1 ns s)
  then show ?case using at_or_above_less [of s ns] by (subst sentinel_from.simps) auto
qed

lemma sentinel_loop:
  "while_option (\<lambda>s. JsFin (of_int s) \<in> set ns) (\<lambda>s. s + 1) s = Some (sentinel_from ns s)"
proof (induction ns s rule: sentinel_from.induct)
  case (1 ns s)
  then show ?case by (subst sentinel_from.simps, subst while_option_unfold) auto
qed

text \<open>
  The loop \<open>while (numbers.has(sentinel)) sentinel += 1\<close> ends, after at most as many
  steps as the layer has categories, with a number that is no category; so a tile value that is
  missing or not a number is never shown as one of them.
\<close>

theorem missing_number_is_no_category:
  "while_option (\<lambda>s. CatNumber (JsFin (of_int s)) \<in> set values) (\<lambda>s. s + 1) (- 9007199254740991)
     = Some (numericSentinel values) \<and>
   CatNumber (JsFin (of_int (numericSentinel values))) \<notin> set values \<and>
   - 9007199254740991 \<le> numericSentinel values \<and>
   numericSentinel values \<le> - 9007199254740991 + int (length values)"
proof -
  let ?ns = "number_values values"
  have mem: "n \<in> set ?ns \<longleftrightarrow> CatNumber n \<in> set values" for n
    by (induction "values")
       (auto simp: number_values_def map_filter_simps split: category_value.splits)
  have len: "length ?ns \<le> length values"
    by (induction "values") (auto simp: number_values_def map_filter_simps split: option.split)
  then have "length (filter P ?ns) \<le> length values" for P using length_filter_le le_trans by blast
  then have "numericSentinel values \<le> - 9007199254740991 + int (length values)"
    using sentinel_from_bound [of ?ns "- 9007199254740991"] unfolding numericSentinel_def
    by (smt (verit, best) of_nat_le_iff)
  then show ?thesis
    using sentinel_from_free [of ?ns "- 9007199254740991"] sentinel_loop [of ?ns "- 9007199254740991"]
    unfolding numericSentinel_def mem by blast
qed

section \<open>Breaks\<close>

lemma to_fixed6_increasing:
  assumes "1 / 10 ^ 6 \<le> y - x"
  shows "to_fixed6 x < to_fixed6 y"
proof -
  have fl: "\<lfloor>a + 1 / 2\<rfloor> < \<lfloor>b + 1 / 2\<rfloor>" if "1 \<le> b - a" for a b :: rat
  proof -
    have "\<lfloor>a + 1 / 2\<rfloor> + 1 = \<lfloor>a + 1 / 2 + 1\<rfloor>" using floor_add_int [of "a + 1 / 2" 1] by simp
    also have "\<dots> \<le> \<lfloor>b + 1 / 2\<rfloor>" by (rule floor_mono) (use that in simp)
    finally show ?thesis by simp
  qed
  let ?x = "x * 10 ^ 6" and ?y = "y * 10 ^ 6"
  have d: "1 \<le> ?y - ?x" using assms by (simp add: field_simps)
  consider "0 \<le> x" | "y < 0" | "x < 0" "0 \<le> y" by linarith
  then show ?thesis
  proof cases
    case 1
    moreover from this assms have "0 \<le> y" by simp
    ultimately show ?thesis using fl [OF d] by (simp add: to_fixed6_def divide_strict_right_mono)
  next
    case 2
    moreover from this assms have "x < 0" by simp
    moreover have "\<lfloor>- ?y + 1 / 2\<rfloor> < \<lfloor>- ?x + 1 / 2\<rfloor>" by (rule fl) (use d in simp)
    ultimately show ?thesis by (simp add: to_fixed6_def divide_strict_right_mono)
  next
    case 3
    have "0 \<le> \<lfloor>- ?x + 1 / 2\<rfloor>" "0 \<le> \<lfloor>?y + 1 / 2\<rfloor>" using 3 by simp_all
    moreover have "0 < \<lfloor>- ?x + 1 / 2\<rfloor> \<or> 0 < \<lfloor>?y + 1 / 2\<rfloor>" using d by (auto simp: less_floor_iff)
    ultimately have "- \<lfloor>- ?x + 1 / 2\<rfloor> < \<lfloor>?y + 1 / 2\<rfloor>" by linarith
    then have "(of_int (- \<lfloor>- ?x + 1 / 2\<rfloor>) :: rat) < of_int \<lfloor>?y + 1 / 2\<rfloor>" by (simp only: of_int_less_iff)
    then show ?thesis using 3 by (simp add: to_fixed6_def field_simps)
  qed
qed

lemma push_new_increasing:
  assumes mono: "\<And>i j. i \<le> j \<Longrightarrow> j \<le> k \<Longrightarrow> f i \<le> f j"
  shows "let u = foldl (\<lambda>u i. push_new u (f i)) [] [1..<Suc k] in
    sorted_wrt (<) u \<and> (0 < k \<longrightarrow> u \<noteq> [] \<and> last u = f k) \<and> set u \<subseteq> f ` {1..k}"
  using mono
proof (induction k)
  case (Suc k)
  let ?u = "foldl (\<lambda>u i. push_new u (f i)) [] [1..<Suc k]"
  have IH: "sorted_wrt (<) ?u" "0 < k \<longrightarrow> ?u \<noteq> [] \<and> last ?u = f k" "set ?u \<subseteq> f ` {1..k}"
    using Suc by (auto simp: Let_def)
  have empty: "k = 0 \<Longrightarrow> ?u = []" by simp
  have le: "x < f (Suc k)" if "x \<in> set ?u" "last ?u \<noteq> f (Suc k)" for x
  proof -
    have k: "0 < k" using that(1) empty by (metis emptyE gr0I list.set(1))
    have "f k \<le> f (Suc k)" using Suc.prems by simp
    with k IH(2) that have "f k < f (Suc k)" by simp
    moreover from that IH(3) obtain i where "x = f i" "i \<le> k" by auto
    ultimately show ?thesis using Suc.prems [of i k] by auto
  qed
  have "foldl (\<lambda>u i. push_new u (f i)) [] [1..<Suc (Suc k)] = push_new ?u (f (Suc k))" by simp
  then show ?case
    using IH le by (auto simp: push_new_def Let_def sorted_wrt_append)
qed simp

lemma quantile_index_mono:
  assumes "0 < c" "0 < n" "i \<le> j"
  shows "quantile_index c n i \<le> quantile_index c n j" "quantile_index c n i < n"
proof -
  have "(of_nat i / of_int (c + 1) * (of_nat n - 1) :: rat) \<le> of_nat j / of_int (c + 1) * (of_nat n - 1)"
    using assms by (intro mult_right_mono divide_right_mono) auto
  then show "quantile_index c n i \<le> quantile_index c n j"
    unfolding quantile_index_def by (intro nat_mono min.mono floor_mono) auto
  show "quantile_index c n i < n"
    using assms(2) by (auto simp: quantile_index_def nat_less_iff min_def)
qed

lemma sort_by_value:
  "sorted (sort_by by_value xs)"
  using value_order.sorted_sort_by [of xs] by (simp add: by_value_def)

lemma equal_breaks_increasing:
  assumes "0 < c" "of_int (c + 1) / 10 ^ 6 \<le> hi - lo"
  shows "sorted_wrt (<) (equal_breaks lo hi c)"
proof -
  define step where "step = (hi - lo) / of_int (c + 1)"
  have step: "1 / 10 ^ 6 \<le> step" using assms by (simp add: step_def field_simps)
  have "to_fixed6 (lo + step * (of_nat i + 1)) < to_fixed6 (lo + step * (of_nat j + 1))"
    if "i < j" for i j :: nat
  proof (rule to_fixed6_increasing)
    have "step * 1 \<le> step * (of_nat j - of_nat i)"
      using order_trans [OF _ step, of 0] that by (intro mult_left_mono) auto
    with step show "1 / 10 ^ 6 \<le> lo + step * (of_nat j + 1) - (lo + step * (of_nat i + 1))"
      by (simp add: algebra_simps)
  qed
  then show ?thesis
    unfolding equal_breaks_def Let_def sorted_wrt_map step_def [symmetric]
    by (intro sorted_wrt_mono_rel [OF _ sorted_wrt_upt]) blast
qed

text \<open>
  Automatic breaks of a numeric field: exactly as many as asked for, in strictly increasing
  order, whenever the values are all equal or spread over at least one millionth per class.
\<close>

theorem quantile_breaks_increasing:
  assumes "0 < c" and "xs \<noteq> []"
    and "Min (set xs) = Max (set xs) \<or> of_int (c + 1) / 10 ^ 6 \<le> Max (set xs) - Min (set xs)"
  shows "length (computeQuantileBreaks xs c) = nat c \<and> sorted_wrt (<) (computeQuantileBreaks xs c)"
proof -
  define s where "s = sort_by by_value xs"
  have s: "sorted s" "s \<noteq> []" "set s = set xs"
    using sort_by_value [of xs] assms(2) by (auto simp: s_def)
  have lo: "hd s = Min (set xs)"
    using s(1,2) unfolding s(3) [symmetric] by (cases s) (auto intro!: Min_eqI [symmetric])
  have hi: "last s = Max (set xs)"
    using s(1,2) unfolding s(3) [symmetric]
    by (cases s rule: rev_cases) (auto simp: sorted_append intro!: Max_eqI [symmetric])
  let ?f = "\<lambda>i. s ! quantile_index c (length s) i"
  let ?u = "foldl (\<lambda>u i. push_new u (?f i)) [] [1..<nat c + 1]"
  have "?f i \<le> ?f j" if "i \<le> j" for i j
    using quantile_index_mono [of c "length s" i j] quantile_index_mono(2) [of c "length s" j j]
      assms(1) s(1,2) that by (intro sorted_nth_mono) auto
  from push_new_increasing [of "nat c" ?f, OF this] have u: "sorted_wrt (<) ?u" by (simp add: Let_def)
  have eq: "computeQuantileBreaks xs c =
      (if length ?u = nat c then ?u
       else if hd s = last s then map (\<lambda>index. hd s + of_nat index + 1) [0..<nat c]
       else equal_breaks (hd s) (last s) c)"
    using assms(1,2) by (simp add: computeQuantileBreaks_def s_def Let_def)
  have "sorted_wrt (<) (map (\<lambda>index. hd s + of_nat index + 1) [0..<nat c])"
    by (simp add: sorted_wrt_map)
  moreover have "sorted_wrt (<) (equal_breaks (hd s) (last s) c)" if "hd s \<noteq> last s"
    using that assms(1,3) lo hi by (intro equal_breaks_increasing) auto
  moreover have "length (equal_breaks a b c) = nat c" for a b
    by (simp add: equal_breaks_def Let_def)
  ultimately show ?thesis using u by (auto simp: eq simp del: upt_Suc)
qed

theorem quantile_breaks_increasing_witness:
  "computeQuantileBreaks [10, 0, 0, 0] 3 = [5/2, 5, 15/2] \<and>
   sorted_wrt (<) (computeQuantileBreaks [10, 0, 0, 0] 3)"
proof -
  have "computeQuantileBreaks [10, 0, 0, 0] 3 = [5/2, 5, 15/2]" by code_simp
  then show ?thesis using quantile_breaks_increasing [of 3 "[10, 0, 0, 0]"] by auto
qed

text \<open>With a smaller spread the rounding to six decimals repeats breaks.\<close>

theorem tiny_spread_repeats_breaks: "computeQuantileBreaks [0, 1 / 10 ^ 7] 2 = [0, 0]"
  by code_simp

section \<open>Legend\<close>

lemma length_getColorRamp: "length (getColorRamp scheme n) = nat (max 2 (min 9 n))"
  by (simp add: getColorRamp_def Let_def)

text \<open>
  For up to eight breaks the legend shows, in order, exactly the colours that the paint
  expression steps through: the first colour below the first break, then one colour from each
  break on.
\<close>

theorem legend_matches_paint:
  assumes "breaks \<noteq> []" and "length breaks \<le> 8" and "property \<noteq> []"
  shows "let colors = getColorRamp scheme (int (length breaks) + 1) in
    map snd (getLegendItems breaks colors) = colors \<and>
    buildColorExpression (Some property) breaks colors =
      JArr ([JStr ''step'', JArr [JStr ''to-number'', JArr [JStr ''get'', JStr property]], JStr (hd colors)]
            @ concat (map (\<lambda>(b, c). [JNum b, JStr c]) (zip breaks (tl colors)))) \<and>
    length colors = length breaks + 1"
proof -
  let ?cs = "getColorRamp scheme (int (length breaks) + 1)"
  have len: "length ?cs = length breaks + 1"
    using assms(1,2) by (cases breaks) (auto simp: length_getColorRamp)
  then have ne: "?cs \<noteq> []" by auto
  have "map snd (getLegendItems breaks ?cs) = ?cs"
    using assms(1) by (simp add: getLegendItems_def o_def map_nth)
  moreover have "map (\<lambda>(b, c). [JNum b, JStr c]) (zip breaks (tl ?cs))
      = map (\<lambda>index. [JNum (breaks ! index),
           JStr (if index + 1 < length ?cs then ?cs ! (index + 1)
                 else if ?cs = [] then default_fill else last ?cs)]) [0..<length breaks]"
    using len by (intro nth_equalityI) (auto simp: nth_tl)
  ultimately show ?thesis
    using assms(1,3) len ne by (simp add: buildColorExpression_def Let_def)
qed

theorem legend_matches_paint_witness:
  "map snd (getLegendItems [JsFin 1, JsFin 2] (getColorRamp ''viridis'' 3)) = getColorRamp ''viridis'' 3 \<and>
   length (getColorRamp ''viridis'' 3) = 3"
  using legend_matches_paint [of "[JsFin 1, JsFin 2]" "''p''" "''viridis''"] by (simp add: Let_def)

text \<open>
  With nine or more breaks the ramp stays at nine colours: the paint expression goes on with
  the last one, and the legend skips the classes above the eighth break.
\<close>

theorem legend_skips_classes:
  "map fst (getLegendItems (map JsFin [1, 2, 3, 4, 5, 6, 7, 8, 9, 10]) (getColorRamp scheme 11))
   = [''<= 1'', ''1 - 2'', ''2 - 3'', ''3 - 4'', ''4 - 5'', ''5 - 6'', ''6 - 7'', ''7 - 8'', ''> 10'']"
proof -
  have "length (getColorRamp scheme 11) = 9" by (simp add: length_getColorRamp)
  then have "map fst (getLegendItems (map JsFin [1, 2, 3, 4, 5, 6, 7, 8, 9, 10]) (getColorRamp scheme 11))
      = map fst (getLegendItems (map JsFin [1, 2, 3, 4, 5, 6, 7, 8, 9, 10]) (replicate 9 []))"
    by (simp add: getLegendItems_def o_def)
  also have "\<dots> = [''<= 1'', ''1 - 2'', ''2 - 3'', ''3 - 4'', ''4 - 5'', ''5 - 6'', ''6 - 7'', ''7 - 8'', ''> 10'']"
    by (simp add: getLegendItems_def show_break_def upt_rec) code_simp
  finally show ?thesis .
qed

end
