(* ===== verification/LayerStyles.thy ===== *)
theory LayerStyles
  imports MapCore DatasetSources
begin

text \<open>
  Layer styles of the web viewer, \<open>webapp/src/components/viewer/\<close>: \<open>types.ts\<close>, \<open>utils.ts\<close>,
  \<open>categoricalFields.ts\<close>, \<open>layerColorStyle.ts\<close> and the sampling of \<open>useCategoryRegistries.ts\<close>.

  The tables of styles and registries by layer id are insertion-ordered maps. Reference equality
  of registries is equality here: \<open>extendCategoryRegistry\<close> makes a new object only with new
  contents.
\<close>

section \<open>Types\<close>

record scalar_field =
  sf_name :: string
  sf_type :: category_type
  sf_values :: "category_value list"

record numeric_field =
  nf_name :: string
  nf_min :: "js_number option"
  nf_max :: "js_number option"

record vector_layer =
  vl_id :: string
  vl_sourceLayerId :: "string option"
  vl_loadedLayerId :: "string option"
  vl_mapSourceId :: "string option"
  vl_mapLayerBaseId :: "string option"
  vl_fields :: "string list"
  vl_numericFields :: "numeric_field list"
  vl_scalarFields :: "scalar_field list option"
  vl_geometryType :: "string option"

datatype color_mode = NumericColor | CategoricalColor
datatype break_mode = AutoBreaks | ManualBreaks
datatype numeric_scale = LinearScale | SqrtScale | LogScale

record layer_style =
  st_colorMode :: "color_mode option"
  st_colorProperty :: "string option"
  st_colorScheme :: string
  st_breaksText :: string
  st_breakMode :: break_mode
  st_opacity :: js_number
  st_radius :: js_number
  st_lineWidth :: js_number
  st_radiusProperty :: "string option"
  st_lineWidthProperty :: "string option"
  st_radiusScale :: numeric_scale
  st_lineWidthScale :: numeric_scale

type_synonym layer_styles = "(string \<times> layer_style) list"
type_synonym field_registries = "(string \<times> category_registry) list"
type_synonym layer_registries = "(string \<times> field_registries) list"

definition DEFAULT_STYLE :: layer_style where
  "DEFAULT_STYLE =
     \<lparr>st_colorMode = None, st_colorProperty = None, st_colorScheme = ''viridis'', st_breaksText = [],
      st_breakMode = AutoBreaks, st_opacity = JsFin (7/10), st_radius = JsFin 4, st_lineWidth = JsFin 2,
      st_radiusProperty = None, st_lineWidthProperty = None, st_radiusScale = LinearScale,
      st_lineWidthScale = LinearScale\<rparr>"

definition DEFAULT_BREAK_COUNT :: int where "DEFAULT_BREAK_COUNT = 6"

section \<open>Breaks and colours\<close>

definition number_cmp :: "js_number \<Rightarrow> js_number \<Rightarrow> rat" where
  "number_cmp a b = compare_sign (js_minus a b)"

definition parseBreaks :: "string \<Rightarrow> js_number list" where
  "parseBreaks input =
     sort_by number_cmp (filter (\<lambda>v. \<not> isNaN v)
       (map (\<lambda>value. js_Number_string (trim value)) (split_on (CHR '','') input)))"

definition computeEqualIntervalBreaks :: "js_number \<Rightarrow> js_number \<Rightarrow> int \<Rightarrow> rat list" where
  "computeEqualIntervalBreaks lo hi n =
     (case (lo, hi) of
        (JsFin a, JsFin b) \<Rightarrow> if n \<le> 0 \<or> a = b then [] else equal_breaks a b n
      | _ \<Rightarrow> [])"

definition finite_values :: "js_number list \<Rightarrow> rat list" where
  "finite_values xs = List.map_filter (\<lambda>x. case x of JsFin r \<Rightarrow> Some r | _ \<Rightarrow> None) xs"

text \<open>The bounds of a field come from metadata and are finite.\<close>

definition automaticBreaksForNumericField ::
  "numeric_field option \<Rightarrow> js_number list \<Rightarrow> int \<Rightarrow> rat list" where
  "automaticBreaksForNumericField field sampledValues n =
     (let finiteSampledValues = finite_values sampledValues in
      if finiteSampledValues \<noteq> [] then computeQuantileBreaks finiteSampledValues n
      else computeQuantileBreaks
        (case field of None \<Rightarrow> []
         | Some f \<Rightarrow> (case (nf_min f, nf_max f) of (Some a, Some b) \<Rightarrow> finite_values [a, b] | _ \<Rightarrow> [])) n)"

text \<open>\<open>Number(raw)\<close> of a tile property; a missing one is \<open>None\<close>.\<close>

fun property_number :: "json option \<Rightarrow> js_number" where
  "property_number None = JsNaN"
| "property_number (Some JNull) = JsFin 0"
| "property_number (Some (JBool b)) = JsFin (if b then 1 else 0)"
| "property_number (Some (JNum n)) = n"
| "property_number (Some (JStr s)) = js_Number_string s"
| "property_number (Some v) = JsNaN"

text \<open>The loop of \<open>getSampledValues\<close> over the properties of the source's features.\<close>

fun sampled_values :: "nat \<Rightarrow> string \<Rightarrow> (string \<times> json) list list \<Rightarrow> js_number list \<Rightarrow> js_number list" where
  "sampled_values limit property [] vs = vs"
| "sampled_values limit property (f # fs) vs =
     (if limit \<le> length vs then vs
      else let v = property_number (map_of f property) in
        sampled_values limit property fs (if isNaN v then vs else vs @ [v]))"

definition getSampledValues :: "(string \<times> json) list list \<Rightarrow> string \<Rightarrow> js_number list" where
  "getSampledValues features property = sampled_values 5000 property features []"

definition invertHexColor :: "string \<Rightarrow> string" where
  "invertHexColor color =
     (let hex = remove_hash color in
      if length hex \<noteq> 6 then color
      else CHR ''#'' # concat (map (\<lambda>offset.
        padStart 2 (CHR ''0'') (show_hex (nat (255 - hex_channel (take 2 (drop offset hex)))))) [0, 2, 4]))"

section \<open>Scalar fields\<close>

text \<open>The type patterns of \<open>scalarFieldType\<close>: prefixes, as their regular expressions are not anchored at the end.\<close>

definition number_type_prefixes :: "string list" where
  "number_type_prefixes = [''int'', ''uint'', ''integer'', ''number'', ''float'', ''double'', ''decimal'',
     ''numeric'', ''real'', ''bigint'', ''smallint'']"

definition string_type_prefixes :: "string list" where
  "string_type_prefixes = [''string'', ''str'', ''text'', ''varchar'', ''char'', ''date'', ''timestamp'',
     ''utf8'', ''large_string'']"

definition scalarFieldType :: "category_value option \<Rightarrow> category_type option" where
  "scalarFieldType type =
     (case type of
        None \<Rightarrow> None
      | Some (CatNumber n) \<Rightarrow> Some NumberField
      | Some (CatBool b) \<Rightarrow> Some BooleanField
      | Some (CatString t) \<Rightarrow>
          (let normalized = toLowerCase t in
           if \<exists>p \<in> set number_type_prefixes. startsWith normalized p then Some NumberField
           else if startsWith normalized ''bool'' then Some BooleanField
           else if \<exists>p \<in> set string_type_prefixes. startsWith normalized p then Some StringField
           else None))"

text \<open>A column is its name, type and possible values.\<close>

definition scalarFieldSummaries ::
  "(string \<times> category_value) list \<Rightarrow> (string \<times> string \<times> string list option) list \<Rightarrow> scalar_field list" where
  "scalarFieldSummaries flds columns =
     concat (map (\<lambda>(name, tileType).
       (let column = map_of columns name;
            type = (case scalarFieldType (map_option (CatString \<circ> fst) column) of
                      Some t \<Rightarrow> Some t | None \<Rightarrow> scalarFieldType (Some tileType)) in
        case type of None \<Rightarrow> []
        | Some t \<Rightarrow> [\<lparr>sf_name = name, sf_type = t,
            sf_values = (case Option.bind column snd of None \<Rightarrow> [] | Some vs \<Rightarrow> map CatString vs)\<rparr>])) flds)"

section \<open>Styles and registries\<close>

definition has_name :: "string option \<Rightarrow> string \<Rightarrow> bool" where
  "has_name p n \<longleftrightarrow> p = Some n"

definition colorMode :: "vector_layer \<Rightarrow> layer_style \<Rightarrow> color_mode" where
  "colorMode layer style =
     (case st_colorMode style of Some m \<Rightarrow> m
      | None \<Rightarrow> if \<exists>f \<in> set (vl_numericFields layer). st_colorProperty style = Some (nf_name f)
                then NumericColor else CategoricalColor)"

definition kept_styles :: "vector_layer list \<Rightarrow> layer_styles \<Rightarrow> layer_styles" where
  "kept_styles layers previous =
     foldl (\<lambda>nxt layer. case map_of previous (vl_id layer) of None \<Rightarrow> nxt
              | Some s \<Rightarrow> map_set (vl_id layer) s nxt) [] layers"

text \<open>The state of the second loop: the new table, the palettes used and \<open>changed\<close>.\<close>

definition add_style :: "layer_styles \<times> string list \<times> bool \<Rightarrow> vector_layer \<Rightarrow> layer_styles \<times> string list \<times> bool" where
  "add_style state layer =
     (case state of (nxt, used, changed) \<Rightarrow>
        if map_has nxt (vl_id layer) then (nxt, used, changed)
        else let scheme = chooseLayerPalette used in
          (map_set (vl_id layer) (DEFAULT_STYLE\<lparr>st_colorScheme := scheme\<rparr>) nxt, used @ [scheme], True))"

definition initializeLayerStyles :: "vector_layer list \<Rightarrow> layer_styles \<Rightarrow> layer_styles" where
  "initializeLayerStyles layers previous =
     (let nxt = kept_styles layers previous;
          used = map (st_colorScheme \<circ> snd) nxt;
          changed = (length previous \<noteq> length nxt);
          (result, used', changed') = foldl add_style (nxt, used, changed) layers in
      if changed' then result else previous)"

definition EMPTY_REGISTRY :: category_registry where
  "EMPTY_REGISTRY = \<lparr>cr_values = [], cr_overflow = False\<rparr>"

definition find_scalar :: "vector_layer \<Rightarrow> string \<Rightarrow> scalar_field option" where
  "find_scalar layer property =
     (case vl_scalarFields layer of None \<Rightarrow> None | Some fs \<Rightarrow> List.find (\<lambda>f. sf_name f = property) fs)"

text \<open>The registry of one field after a pass: its dictionary values, then the values sampled.\<close>

definition refreshed_registry ::
  "category_registry option \<Rightarrow> scalar_field \<Rightarrow> category_value list \<Rightarrow> category_registry" where
  "refreshed_registry before field sampled =
     extendCategoryRegistry
       (extendCategoryRegistry (case before of None \<Rightarrow> EMPTY_REGISTRY | Some r \<Rightarrow> r) (sf_values field) (sf_type field))
       sampled (sf_type field)"

definition refresh_layer ::
  "layer_registries \<Rightarrow> layer_styles \<Rightarrow> (vector_layer \<Rightarrow> string \<Rightarrow> category_value list)
   \<Rightarrow> layer_registries \<times> bool \<Rightarrow> vector_layer \<Rightarrow> layer_registries \<times> bool" where
  "refresh_layer previous styles sample state layer =
     (case state of (nxt0, changed) \<Rightarrow>
        let flds = map_of previous (vl_id layer);
            nxt = (case flds of None \<Rightarrow> nxt0 | Some fs \<Rightarrow> map_set (vl_id layer) fs nxt0) in
        case map_of styles (vl_id layer) of None \<Rightarrow> (nxt, changed)
        | Some style \<Rightarrow>
            if \<not> truthy (st_colorProperty style) \<or> colorMode layer style \<noteq> CategoricalColor then (nxt, changed)
            else (case find_scalar layer (the (st_colorProperty style)) of None \<Rightarrow> (nxt, changed)
              | Some field \<Rightarrow>
                  (let before = Option.bind flds (\<lambda>fs. map_of fs (sf_name field));
                       registry = refreshed_registry before field (sample layer (sf_name field)) in
                   if before = Some registry then (nxt, changed)
                   else (map_set (vl_id layer)
                          (map_set (sf_name field) registry (case flds of None \<Rightarrow> [] | Some fs \<Rightarrow> fs)) nxt, True))))"

definition updateCategoryRegistries ::
  "layer_registries \<Rightarrow> vector_layer list \<Rightarrow> layer_styles
   \<Rightarrow> (vector_layer \<Rightarrow> string \<Rightarrow> category_value list) \<Rightarrow> layer_registries" where
  "updateCategoryRegistries previous layers styles sample =
     (let changed = (\<exists>p \<in> set previous. \<forall>layer \<in> set layers. vl_id layer \<noteq> fst p);
          (nxt, changed') = foldl (refresh_layer previous styles sample) ([], changed) layers in
      if changed' then nxt else previous)"

record layer_color =
  lc_color :: json
  lc_items :: "(string \<times> string) list"
  lc_notes :: "string list"

definition resolveLayerColor :: "vector_layer \<Rightarrow> layer_style \<Rightarrow> field_registries option \<Rightarrow> layer_color" where
  "resolveLayerColor layer style registries =
     (if \<not> truthy (st_colorProperty style)
      then let color = solidPaletteColor (st_colorScheme style) in
        \<lparr>lc_color = JStr color, lc_items = [(''All values'', color)], lc_notes = []\<rparr>
      else let property = the (st_colorProperty style) in
        if colorMode layer style = CategoricalColor
        then let field = find_scalar layer property;
                 vs = (case field of None \<Rightarrow> [] | Some f \<Rightarrow> sf_values f);
                 type = (case field of None \<Rightarrow> StringField | Some f \<Rightarrow> sf_type f);
                 registry = (case Option.bind registries (\<lambda>rs. map_of rs property) of
                    Some r \<Rightarrow> r | None \<Rightarrow> extendCategoryRegistry EMPTY_REGISTRY vs type);
                 resolved = categoricalStyle property registry type (st_colorScheme style) in
          \<lparr>lc_color = ct_color resolved, lc_items = ct_items resolved,
           lc_notes = [if vs \<noteq> []
               then ''Dictionary values supplemented by loaded features; not a complete inventory.''
               else ''Based on loaded features; not a complete inventory.'']
             @ (if cr_values registry = [] then [''No category values available yet.''] else [])
             @ ct_notes resolved\<rparr>
        else let breaks = (if trim (st_breaksText style) \<noteq> [] then parseBreaks (st_breaksText style) else []);
                 colors = getColorRamp (st_colorScheme style) (int (length breaks) + 1) in
          \<lparr>lc_color = buildColorExpression (Some property) breaks colors,
           lc_items = getLegendItems breaks colors, lc_notes = []\<rparr>)"

text \<open>
  The sampling loop of \<open>sampledCategories\<close>: it stops when one value more than the cap is found.
\<close>

fun category_of_json :: "json option \<Rightarrow> category_value option" where
  "category_of_json (Some (JStr s)) = Some (CatString s)"
| "category_of_json (Some (JBool b)) = Some (CatBool b)"
| "category_of_json (Some (JNum n)) = Some (CatNumber n)"
| "category_of_json v = None"

fun sample_categories ::
  "string \<Rightarrow> category_type \<Rightarrow> (string \<times> json) list list \<Rightarrow> category_value list \<Rightarrow> category_value list" where
  "sample_categories property type [] vs = vs"
| "sample_categories property type (f # fs) vs =
     (case category_of_json (map_of f property) of
        None \<Rightarrow> sample_categories property type fs vs
      | Some value \<Rightarrow>
          (let vs' = (case normalizeCategory value type of None \<Rightarrow> vs | Some n \<Rightarrow> set_add n vs) in
           if CATEGORY_CAP < length vs' then vs' else sample_categories property type fs vs'))"

definition sampledCategories ::
  "(string \<times> json) list list \<Rightarrow> string \<Rightarrow> category_type \<Rightarrow> category_value list" where
  "sampledCategories features property type = sample_categories property type features []"

section \<open>Styles of a changing set of layers\<close>

definition style_ok :: "layer_styles \<Rightarrow> vector_layer \<Rightarrow> layer_styles \<Rightarrow> bool" where
  "style_ok previous layer styles \<longleftrightarrow>
     (case map_of previous (vl_id layer) of
        Some s \<Rightarrow> map_of styles (vl_id layer) = Some s
      | None \<Rightarrow> \<exists>p \<in> set PALETTE_PREFERENCE. map_of styles (vl_id layer) = Some (DEFAULT_STYLE\<lparr>st_colorScheme := p\<rparr>))"

lemma kept_styles_lookup:
  "map_of (kept_styles layers previous) k =
     (if k \<in> vl_id ` set layers then map_of previous k else None)"
proof (induction layers rule: rev_induct)
  case (snoc l ls)
  then show ?case
    by (cases "map_of previous (vl_id l)") (auto simp: kept_styles_def)
qed (simp add: kept_styles_def)

lemma kept_styles_dom:
  "dom (map_of (kept_styles layers previous)) = vl_id ` set layers \<inter> dom (map_of previous)"
  by (simp add: set_eq_iff domIff kept_styles_lookup)

lemma kept_styles_distinct: "distinct (map fst (kept_styles layers previous))"
  unfolding kept_styles_def
  by (rule foldl_invariant) (auto split: option.split intro: distinct_keys_map_set)

lemma add_style_apply:
  "add_style (nxt, used, ch) l =
     (if map_has nxt (vl_id l) then (nxt, used, ch)
      else (map_set (vl_id l) (DEFAULT_STYLE\<lparr>st_colorScheme := chooseLayerPalette used\<rparr>) nxt,
            used @ [chooseLayerPalette used], True))"
  by (simp add: add_style_def Let_def)

lemma add_style_keeps:
  "map_of nxt k = Some s \<Longrightarrow> map_of (fst (foldl add_style (nxt, used, ch) ls)) k = Some s"
proof (induction ls arbitrary: nxt used ch)
  case (Cons l ls)
  show ?case
  proof (cases "map_has nxt (vl_id l)")
    case True
    with Cons show ?thesis by (simp add: add_style_apply)
  next
    case False
    with Cons.prems have "k \<noteq> vl_id l" by auto
    with False Cons.prems show ?thesis
      using Cons.IH [of "map_set (vl_id l) (DEFAULT_STYLE\<lparr>st_colorScheme := chooseLayerPalette used\<rparr>) nxt"]
      by (simp add: add_style_apply)
  qed
qed simp

lemma add_style_keys:
  "k \<in> dom (map_of (fst (foldl add_style (nxt, used, ch) ls))) \<longleftrightarrow>
     k \<in> dom (map_of nxt) \<or> k \<in> vl_id ` set ls"
proof (induction ls arbitrary: nxt used ch)
  case (Cons l ls)
  then show ?case by (auto simp: add_style_apply split: if_splits)
qed simp

lemma add_style_new:
  assumes "map_of nxt k = None" "map_of (fst (foldl add_style (nxt, used, ch) ls)) k = Some s"
  shows "\<exists>p \<in> set PALETTE_PREFERENCE. s = DEFAULT_STYLE\<lparr>st_colorScheme := p\<rparr>"
  using assms
proof (induction ls arbitrary: nxt used ch)
  case (Cons l ls)
  show ?case
  proof (cases "map_of nxt (vl_id l) \<noteq> None \<or> vl_id l \<noteq> k")
    case True
    then show ?thesis
      using Cons.prems Cons.IH [of nxt used ch]
        Cons.IH [of "map_set (vl_id l) (DEFAULT_STYLE\<lparr>st_colorScheme := chooseLayerPalette used\<rparr>) nxt"
          "used @ [chooseLayerPalette used]" True]
      by (cases "map_has nxt (vl_id l)") (auto simp: add_style_apply)
  next
    case False
    let ?s = "DEFAULT_STYLE\<lparr>st_colorScheme := chooseLayerPalette used\<rparr>"
    from False Cons.prems have "map_of (fst (foldl add_style
        (map_set k ?s nxt, used @ [chooseLayerPalette used], True) ls)) k = Some s"
      by (simp add: add_style_apply)
    with add_style_keeps [of "map_set k ?s nxt" k ?s] have "s = ?s" by simp
    then show ?thesis using chosen_palette by blast
  qed
qed simp

lemma add_style_unchanged:
  "snd (snd (foldl add_style (nxt, used, ch) ls)) = (ch \<or> \<not> vl_id ` set ls \<subseteq> dom (map_of nxt))"
proof (induction ls arbitrary: nxt used ch)
  case (Cons l ls)
  then show ?case by (auto simp: add_style_apply)
qed simp

lemma initializeLayerStyles_cases:
  obtains (same) "initializeLayerStyles layers previous = previous"
    "length previous = length (kept_styles layers previous)"
    "vl_id ` set layers \<subseteq> dom (map_of (kept_styles layers previous))"
  | (new) used ch where "initializeLayerStyles layers previous
      = fst (foldl add_style (kept_styles layers previous, used, ch) layers)"
proof -
  let ?k = "kept_styles layers previous"
  let ?used = "map (st_colorScheme \<circ> snd) ?k" and ?ch = "length previous \<noteq> length ?k"
  let ?f = "foldl add_style (?k, ?used, ?ch) layers"
  have eq: "initializeLayerStyles layers previous = (if snd (snd ?f) then fst ?f else previous)"
    by (simp add: initializeLayerStyles_def Let_def split_beta)
  show ?thesis
  proof (cases "snd (snd ?f)")
    case True
    then show ?thesis using eq new by simp
  next
    case False
    then have "length previous = length ?k" "vl_id ` set layers \<subseteq> dom (map_of ?k)"
      unfolding add_style_unchanged by blast+
    with False show ?thesis using eq same by simp
  qed
qed

lemma kept_all:
  assumes "distinct (map fst previous)" and "length previous = length (kept_styles layers previous)"
    and "vl_id ` set layers \<subseteq> dom (map_of (kept_styles layers previous))"
  shows "fst ` set previous = vl_id ` set layers"
proof -
  have keys: "fst ` set (kept_styles layers previous) \<subseteq> fst ` set previous"
    "fst ` set (kept_styles layers previous) \<subseteq> vl_id ` set layers"
    using kept_styles_dom [of layers previous] by (simp_all add: dom_map_of_conv_image_fst)
  have "card (fst ` set (kept_styles layers previous)) = card (fst ` set previous)"
  proof -
    have "card (fst ` set xs) = length xs" if "distinct (map fst xs)" for xs :: layer_styles
      using distinct_card [OF that] by simp
    from this [OF assms(1)] this [OF kept_styles_distinct [of layers previous]] assms(2)
    show ?thesis by linarith
  qed
  then have "fst ` set (kept_styles layers previous) = fst ` set previous"
    using keys(1) by (intro card_subset_eq) auto
  moreover have "vl_id ` set layers \<subseteq> fst ` set (kept_styles layers previous)"
    using assms(3) by (simp add: dom_map_of_conv_image_fst)
  ultimately show ?thesis by (metis keys(2) subset_antisym)
qed

text \<open>
  After a change of the map's layers every layer has a style, the styles of layers that
  stay are untouched, a new layer has the default style in some palette, and no style of a
  removed layer remains.
\<close>

theorem layer_styles_follow_layers:
  assumes "distinct (map fst previous)"
  shows "(\<forall>layer \<in> set layers. style_ok previous layer (initializeLayerStyles layers previous)) \<and>
    fst ` set (initializeLayerStyles layers previous) = vl_id ` set layers"
proof (cases rule: initializeLayerStyles_cases [of layers previous])
  case same
  from kept_all [OF assms same(2,3)] have "fst ` set previous = vl_id ` set layers" .
  moreover have "style_ok previous layer previous" if "layer \<in> set layers" for layer
  proof -
    have "vl_id layer \<in> fst ` set previous" using that calculation by simp
    then obtain s where "map_of previous (vl_id layer) = Some s"
      by (metis map_of_eq_None_iff option.exhaust)
    then show ?thesis by (simp add: style_ok_def)
  qed
  ultimately show ?thesis using same(1) by simp
next
  case (new used ch)
  let ?k = "kept_styles layers previous"
  let ?r = "fst (foldl add_style (?k, used, ch) layers)"
  have dom: "dom (map_of ?r) = vl_id ` set layers"
  proof -
    have "dom (map_of ?r) = dom (map_of ?k) \<union> vl_id ` set layers"
      by (rule set_eqI) (simp only: add_style_keys Un_iff)
    then show ?thesis by (simp only: kept_styles_dom Un_absorb1 Int_lower1)
  qed
  have "style_ok previous layer ?r" if "layer \<in> set layers" for layer
  proof (cases "map_of previous (vl_id layer)")
    case None
    then have k: "map_of ?k (vl_id layer) = None" by (simp add: kept_styles_lookup)
    have "vl_id layer \<in> dom (map_of ?r)" unfolding dom using that by (rule imageI)
    then obtain s where s: "map_of ?r (vl_id layer) = Some s" by (auto simp: domIff)
    from add_style_new [OF k s] s None show ?thesis by (auto simp: style_ok_def)
  next
    case (Some s)
    with that have "map_of ?k (vl_id layer) = Some s" by (simp add: kept_styles_lookup)
    from add_style_keeps [OF this] Some show ?thesis by (simp add: style_ok_def)
  qed
  with dom show ?thesis using new by (simp add: dom_map_of_conv_image_fst)
qed

definition sample_layer :: "string \<Rightarrow> vector_layer" where
  "sample_layer i = \<lparr>vl_id = i, vl_sourceLayerId = None, vl_loadedLayerId = Some i, vl_mapSourceId = None,
     vl_mapLayerBaseId = None, vl_fields = [''f''], vl_numericFields = [\<lparr>nf_name = ''f'', nf_min = Some (JsFin 0), nf_max = Some (JsFin 9)\<rparr>],
     vl_scalarFields = None, vl_geometryType = None\<rparr>"

theorem layer_styles_follow_layers_witness:
  "let previous = [(''a'', DEFAULT_STYLE\<lparr>st_opacity := JsFin 1\<rparr>), (''b'', DEFAULT_STYLE)];
       styles = initializeLayerStyles [sample_layer ''a'', sample_layer ''c''] previous
   in map fst styles = [''a'', ''c''] \<and> map_of styles ''a'' = Some (DEFAULT_STYLE\<lparr>st_opacity := JsFin 1\<rparr>)"
proof -
  let ?p = "[(''a'', DEFAULT_STYLE\<lparr>st_opacity := JsFin 1\<rparr>), (''b'', DEFAULT_STYLE)]"
  let ?ls = "[sample_layer ''a'', sample_layer ''c'']"
  have "distinct (map fst ?p)" by simp
  note follow = layer_styles_follow_layers [OF this, of ?ls]
  moreover have "map fst (initializeLayerStyles ?ls ?p) = [''a'', ''c'']" by code_simp
  moreover have "style_ok ?p (sample_layer ''a'') (initializeLayerStyles ?ls ?p)"
    using follow by simp
  ultimately show ?thesis by (simp add: style_ok_def sample_layer_def Let_def)
qed

section \<open>Registries settle\<close>

definition registry_ok :: "category_registry \<Rightarrow> bool" where
  "registry_ok r \<longleftrightarrow> length (cr_values r) \<le> CATEGORY_CAP \<and> distinct (map categoryKey (cr_values r)) \<and>
     (cr_overflow r \<longrightarrow> length (cr_values r) = CATEGORY_CAP)"

definition seen_in :: "category_registry \<Rightarrow> category_type \<Rightarrow> category_value list \<Rightarrow> bool" where
  "seen_in r t vs \<longleftrightarrow> cr_overflow r \<or>
     (\<forall>v \<in> set vs. \<forall>w. normalizeCategory v t = Some w \<longrightarrow> categoryKey w \<in> categoryKey ` set (cr_values r))"

lemma registry_ok_extend:
  assumes "registry_ok r"
  shows "registry_ok (extendCategoryRegistry r vs t)" "seen_in (extendCategoryRegistry r vs t) t vs"
    "seen_in r t ws \<Longrightarrow> seen_in (extendCategoryRegistry r vs t) t ws"
proof -
  let ?r = "extendCategoryRegistry r vs t"
  have ok: "length (cr_values r) \<le> CATEGORY_CAP" "distinct (map categoryKey (cr_values r))"
    using assms by (auto simp: registry_ok_def)
  note grown = category_registry_extended [OF ok, of vs t, unfolded Let_def]
  have "length (cr_values ?r) = CATEGORY_CAP" if "cr_overflow ?r"
  proof (cases "cr_overflow r")
    case True
    with assms have "CATEGORY_CAP \<le> length (cr_values ?r)" using grown by (auto simp: registry_ok_def)
    with grown show ?thesis by simp
  next
    case False
    with that assms show ?thesis
      by (auto simp: extendCategoryRegistry_def Let_def registry_ok_def split: if_splits)
  qed
  with grown show "registry_ok ?r" by (auto simp: registry_ok_def)
  show "seen_in ?r t vs" using grown by (auto simp: seen_in_def)
  show "seen_in ?r t ws" if "seen_in r t ws"
  proof -
    have "categoryKey ` set (cr_values r) \<subseteq> categoryKey ` set (cr_values ?r)" using grown by auto
    with that grown show ?thesis unfolding seen_in_def by blast
  qed
qed

lemma extend_settled:
  assumes "registry_ok r" "seen_in r t vs"
  shows "extendCategoryRegistry r vs t = r"
proof (cases "unseen_categories r vs t = []")
  case True
  then show ?thesis by (simp add: extendCategoryRegistry_def)
next
  case False
  then obtain k where "k \<in> fst ` set (unseen_categories r vs t)" by (cases "unseen_categories r vs t") auto
  then have "cr_overflow r" using assms(2) unfolding unseen_categories_keys seen_in_def by blast
  with assms(1) show ?thesis by (simp add: extendCategoryRegistry_def registry_ok_def Let_def)
qed

text \<open>
  Refreshing the registry of a field again with the values it was refreshed with changes
  nothing, so the viewer settles instead of rendering again and again; the registry keeps its
  invariant: at most 32 distinct categories, and full once it has overflowed.
\<close>

theorem registry_refresh_settles:
  assumes "before = None \<or> (\<exists>r. before = Some r \<and> registry_ok r)"
  shows "registry_ok (refreshed_registry before field sampled) \<and>
    refreshed_registry (Some (refreshed_registry before field sampled)) field sampled
      = refreshed_registry before field sampled"
proof -
  have empty: "registry_ok EMPTY_REGISTRY" by (simp add: registry_ok_def EMPTY_REGISTRY_def)
  define b where "b = (case before of None \<Rightarrow> EMPTY_REGISTRY | Some r \<Rightarrow> r)"
  define a where "a = extendCategoryRegistry b (sf_values field) (sf_type field)"
  define c where "c = extendCategoryRegistry a sampled (sf_type field)"
  have b: "registry_ok b" using assms empty by (auto simp: b_def)
  have a: "registry_ok a" "seen_in a (sf_type field) (sf_values field)"
    unfolding a_def using registry_ok_extend [OF b] by blast+
  have c: "registry_ok c" "seen_in c (sf_type field) sampled" "seen_in c (sf_type field) (sf_values field)"
    unfolding c_def using registry_ok_extend [OF a(1)] a(2) by blast+
  have "refreshed_registry before field sampled = c"
    by (simp add: refreshed_registry_def a_def b_def c_def)
  moreover have "refreshed_registry (Some c) field sampled = c"
    by (simp add: refreshed_registry_def extend_settled c)
  ultimately show ?thesis using c(1) by simp
qed

theorem registry_refresh_settles_witness:
  "let field = \<lparr>sf_name = ''f'', sf_type = StringField, sf_values = [CatString ''b'']\<rparr>;
       r = refreshed_registry None field [CatString ''a'', CatString ''b'']
   in cr_values r = [CatString ''b'', CatString ''a''] \<and>
      refreshed_registry (Some r) field [CatString ''a'', CatString ''b''] = r"
proof -
  let ?f = "\<lparr>sf_name = ''f'', sf_type = StringField, sf_values = [CatString ''b'']\<rparr>"
  have "cr_values (refreshed_registry None ?f [CatString ''a'', CatString ''b'']) = [CatString ''b'', CatString ''a'']"
    by code_simp
  then show ?thesis
    using registry_refresh_settles [of None ?f "[CatString ''a'', CatString ''b'']"] by (simp add: Let_def)
qed

section \<open>Break lists\<close>

text \<open>A stray comma is read as a break at 0, as \<open>Number("")\<close> is 0 and not NaN.\<close>

theorem stray_comma_is_zero: "parseBreaks ''10, 20,'' = [JsFin 0, JsFin 10, JsFin 20]"
  by code_simp

end
