(* ===== verification/MapLayers.thy ===== *)
theory MapLayers
  imports DatasetSources MapCore
begin

text \<open>
  The layers of the map workspace, \<open>webapp/src/components/map/\<close>: the source descriptors that
  travel in URLs (\<open>sourceDescriptors.ts\<close>), loaded layers (\<open>multiLayerSources.ts\<close>), the layer
  picker (\<open>mapWorkspaceState.ts\<close>) and the data panel (\<open>mapDataPanelState.ts\<close>).
\<close>

section \<open>Source descriptors\<close>

record source_descriptor =
  sd_collectionSlug :: string
  sd_datasetSlug :: string
  sd_fileSlug :: string
  sd_version :: string
  sd_assetKey :: string
  sd_storageLocationSlug :: "string option"

text \<open>The object as it is built: an absent location is left out.\<close>

definition descriptor_json :: "source_descriptor \<Rightarrow> json" where
  "descriptor_json d =
     JObj ([(''collectionSlug'', JStr (sd_collectionSlug d)), (''datasetSlug'', JStr (sd_datasetSlug d)),
            (''fileSlug'', JStr (sd_fileSlug d)), (''version'', JStr (sd_version d)),
            (''assetKey'', JStr (sd_assetKey d))]
           @ (case sd_storageLocationSlug d of None \<Rightarrow> [] | Some s \<Rightarrow> [(''storageLocationSlug'', JStr s)]))"

text \<open>A member of the schema: \<open>z.string().min(1)\<close>.\<close>

definition string_member :: "(string \<times> json) list \<Rightarrow> string \<Rightarrow> string option" where
  "string_member ms k = (case map_of ms k of Some (JStr s) \<Rightarrow> if s = [] then None else Some s | _ \<Rightarrow> None)"

definition descriptor_keys :: "string list" where
  "descriptor_keys = [''collectionSlug'', ''datasetSlug'', ''fileSlug'', ''version'', ''assetKey'',
     ''storageLocationSlug'']"

definition parse_descriptor :: "json \<Rightarrow> source_descriptor option" where
  "parse_descriptor v =
     (case v of JObj ms \<Rightarrow>
        (if \<not> set (map fst ms) \<subseteq> set descriptor_keys then None
         else (case (string_member ms ''collectionSlug'', string_member ms ''datasetSlug'',
                     string_member ms ''fileSlug'', string_member ms ''version'', string_member ms ''assetKey'') of
             (Some c, Some d, Some f, Some ver, Some a) \<Rightarrow>
               if map_of ms ''storageLocationSlug'' = None
               then Some \<lparr>sd_collectionSlug = c, sd_datasetSlug = d, sd_fileSlug = f, sd_version = ver,
                          sd_assetKey = a, sd_storageLocationSlug = None\<rparr>
               else map_option (\<lambda>s. \<lparr>sd_collectionSlug = c, sd_datasetSlug = d, sd_fileSlug = f,
                   sd_version = ver, sd_assetKey = a, sd_storageLocationSlug = Some s\<rparr>)
                 (string_member ms ''storageLocationSlug'')
           | _ \<Rightarrow> None))
      | _ \<Rightarrow> None)"

definition encodeSourceDescriptor :: "source_descriptor \<Rightarrow> string" where
  "encodeSourceDescriptor d = encodeURIComponent (json_stringify (descriptor_json d))"

definition decodeSourceDescriptor :: "string option \<Rightarrow> source_descriptor option" where
  "decodeSourceDescriptor value =
     (if \<not> truthy value then None
      else Option.bind (Option.bind (decodeURIComponent (the value)) json_parse) parse_descriptor)"

definition encodeSourceDescriptorList :: "source_descriptor list \<Rightarrow> string option" where
  "encodeSourceDescriptorList ds =
     (if ds = [] then None else Some (join ''|'' (map encodeSourceDescriptor ds)))"

definition decodeSourceDescriptorList :: "string option \<Rightarrow> source_descriptor list" where
  "decodeSourceDescriptorList value =
     (if \<not> truthy value then []
      else List.map_filter (\<lambda>entry. decodeSourceDescriptor (Some entry)) (split_on (CHR ''|'') (the value)))"

definition sourceDescriptorId :: "source_descriptor \<Rightarrow> string" where
  "sourceDescriptorId d =
     join '':'' [sd_collectionSlug d, sd_datasetSlug d, sd_fileSlug d, sd_version d, sd_assetKey d,
       (case sd_storageLocationSlug d of None \<Rightarrow> ''default'' | Some s \<Rightarrow> s)]"

definition location_slug :: "dataset_source \<Rightarrow> string option" where
  "location_slug source = Option.bind (ds_storage_location source) sl_slug"

definition sourceMatchesDescriptor :: "dataset_source \<Rightarrow> source_descriptor \<Rightarrow> bool" where
  "sourceMatchesDescriptor source d \<longleftrightarrow>
     ds_asset_key source = Some (sd_assetKey d) \<and>
     (sd_storageLocationSlug d = None \<or> location_slug source = sd_storageLocationSlug d) \<and>
     version_key source = sd_version d"

record dataset_file =
  dfl_slug :: string
  dfl_name :: string
  dfl_formats :: "dataset_format list option"

definition file_formats :: "dataset_file \<Rightarrow> dataset_format list" where
  "file_formats file = (case dfl_formats file of None \<Rightarrow> [] | Some fs \<Rightarrow> fs)"

definition findSourceForDescriptor :: "dataset_file \<Rightarrow> source_descriptor \<Rightarrow> dataset_source option" where
  "findSourceForDescriptor file d =
     List.find (\<lambda>s. sourceMatchesDescriptor s d) (concat (map df_sources (file_formats file)))"

definition findPmtilesSourceForCatalogSource ::
  "dataset_file \<Rightarrow> dataset_source \<Rightarrow> dataset_source option" where
  "findPmtilesSourceForCatalogSource file requestedSource =
     (case List.find (\<lambda>f. ff_format_type (df_format f) = ''pmtiles'') (file_formats file) of
        None \<Rightarrow> None
      | Some pmtiles \<Rightarrow>
          List.find (\<lambda>s. location_slug s = location_slug requestedSource \<and>
                         ds_version s = ds_version requestedSource) (df_sources pmtiles))"

definition descriptorForSource ::
  "string \<Rightarrow> string \<Rightarrow> string \<Rightarrow> dataset_source \<Rightarrow> source_descriptor option" where
  "descriptorForSource collectionSlug datasetSlug fileSlug source =
     (if \<not> truthy (ds_asset_key source) then None
      else Some \<lparr>sd_collectionSlug = collectionSlug, sd_datasetSlug = datasetSlug,
        sd_fileSlug = fileSlug, sd_version = version_key source,
        sd_assetKey = the (ds_asset_key source), sd_storageLocationSlug = location_slug source\<rparr>)"

definition firstSourceDescriptorForFormat ::
  "(string \<Rightarrow> string \<Rightarrow> int) \<Rightarrow> string \<Rightarrow> string \<Rightarrow> string \<Rightarrow> dataset_format option \<Rightarrow> source_descriptor option" where
  "firstSourceDescriptorForFormat lc collectionSlug datasetSlug fileSlug formatEntry =
     (case formatEntry of None \<Rightarrow> None
      | Some f \<Rightarrow>
          (case sort_versions lc (df_sources f) of
             [] \<Rightarrow> None
           | source # _ \<Rightarrow> descriptorForSource collectionSlug datasetSlug fileSlug source))"

section \<open>Loaded layers\<close>

type_synonym map_bounds = "rat \<times> rat \<times> rat \<times> rat"

record query_field =
  qf_name :: string
  qf_logicalType :: string
  qf_nullable :: bool
  qf_min :: "js_number option"
  qf_max :: "js_number option"

datatype query_status = QueryLoading | QueryReady | QueryError

record query_part =
  qp_queryId :: string
  qp_sourceAliases :: "string list"
  qp_geometryColumn :: string
  qp_tileTemplate :: string
  qp_sourceLayerId :: string
  qp_scalarFields :: "query_field list"
  qp_status :: query_status

datatype layer_kind =
    CatalogPmtiles source_descriptor "file_metadata option" string
  | QueryMvt query_part

record loaded_layer =
  ll_id :: string
  ll_name :: string
  ll_label :: string
  ll_datasetName :: "string option"
  ll_storageLocationName :: "string option"
  ll_mapSourceId :: string
  ll_visible :: bool
  ll_opacity :: rat
  ll_bounds :: "map_bounds option"
  ll_loadError :: "string option"
  ll_kind :: layer_kind

definition boundsFromMetadata :: "file_metadata option \<Rightarrow> map_bounds option" where
  "boundsFromMetadata metadata =
     (case Option.bind metadata fm_bounds of
        Some [JsFin minX, JsFin minY, JsFin maxX, JsFin maxY] \<Rightarrow>
          if minX > maxX \<or> minY > maxY then None else Some (minX, minY, maxX, maxY)
      | _ \<Rightarrow> None)"

definition buildLoadedMapLayer ::
  "source_descriptor \<Rightarrow> string \<Rightarrow> string option \<Rightarrow> string option \<Rightarrow> string \<Rightarrow> file_metadata option \<Rightarrow> loaded_layer"
where
  "buildLoadedMapLayer descriptor name datasetName storageLocationName pmtilesUrl sourceMetadata =
     (let i = sourceDescriptorId descriptor in
      \<lparr>ll_id = i, ll_name = name, ll_label = name, ll_datasetName = datasetName,
       ll_storageLocationName = storageLocationName, ll_mapSourceId = ''source-'' @ i,
       ll_visible = True, ll_opacity = 82/100, ll_bounds = boundsFromMetadata sourceMetadata, ll_loadError = None,
       ll_kind = CatalogPmtiles descriptor sourceMetadata pmtilesUrl\<rparr>)"

record query_layer_input =
  qi_queryId :: string
  qi_label :: string
  qi_sourceAliases :: "string list"
  qi_geometryColumn :: string
  qi_tileTemplate :: string
  qi_sourceLayerId :: "string option"
  qi_scalarFields :: "query_field list option"
  qi_bounds :: "map_bounds option"
  qi_status :: "query_status option"

definition buildQueryMvtLayer :: "query_layer_input \<Rightarrow> string + loaded_layer" where
  "buildQueryMvtLayer input =
     (let queryId = trim (qi_queryId input); label = trim (qi_label input);
          sourceLayerId = (case qi_sourceLayerId input of None \<Rightarrow> [] | Some s \<Rightarrow> trim s) in
      if queryId = [] then Inl ''queryId must not be empty''
      else if label = [] then Inl ''query layer label must not be empty''
      else if trim (qi_geometryColumn input) = [] then Inl ''query geometry column must not be empty''
      else if trim (qi_tileTemplate input) = [] then Inl ''query tile template must not be empty''
      else Inr \<lparr>ll_id = ''query:'' @ queryId, ll_name = label, ll_label = label, ll_datasetName = None,
        ll_storageLocationName = None, ll_mapSourceId = ''source-query-'' @ queryId,
        ll_visible = True, ll_opacity = 82/100, ll_bounds = qi_bounds input, ll_loadError = None,
        ll_kind = QueryMvt \<lparr>qp_queryId = queryId, qp_sourceAliases = qi_sourceAliases input,
          qp_geometryColumn = qi_geometryColumn input, qp_tileTemplate = qi_tileTemplate input,
          qp_sourceLayerId = (if sourceLayerId = [] then ''hifld'' else sourceLayerId),
          qp_scalarFields = (case qi_scalarFields input of None \<Rightarrow> [] | Some fs \<Rightarrow> fs),
          qp_status = (case qi_status input of None \<Rightarrow> QueryLoading | Some s \<Rightarrow> s)\<rparr>\<rparr>)"

record table_source =
  ts_id :: string
  ts_label :: string
  ts_url :: string
  ts_fileName :: string

definition tableSourceFromDatasetSource ::
  "string \<Rightarrow> dataset_file \<Rightarrow> dataset_source \<Rightarrow> table_source option" where
  "tableSourceFromDatasetSource datasetName file source =
     (case buildSourceFileUrl source of
        None \<Rightarrow> None
      | Some url \<Rightarrow>
          if url = [] \<or> str_includes url ''*'' then None
          else Some \<lparr>ts_id = ds_id source,
            ts_label = datasetName @ '' / '' @ dfl_name file @ '' / '' @ version_key source,
            ts_url = url,
            ts_fileName = dfl_slug file @ ''-'' @
              (case ds_version source of None \<Rightarrow> ds_id source | Some v \<Rightarrow> version_string v) @ ''.parquet''\<rparr>)"

section \<open>Layer picker and data panel\<close>

record picker_selection =
  lp_selectedDataset :: "string option"
  lp_selectedFileSlug :: "string option"
  lp_selectedVersion :: "string option"
  lp_selectedSourceId :: "string option"

definition clearedLayerPickerSelection :: picker_selection where
  "clearedLayerPickerSelection = \<lparr>lp_selectedDataset = None, lp_selectedFileSlug = None,
     lp_selectedVersion = None, lp_selectedSourceId = None\<rparr>"

text \<open>The selected dataset is its slug.\<close>

definition layerPickerSelectionAfterLayerRemoval ::
  "picker_selection \<Rightarrow> source_descriptor \<Rightarrow> picker_selection" where
  "layerPickerSelectionAfterLayerRemoval selection removed =
     (if lp_selectedDataset selection \<noteq> Some (sd_datasetSlug removed) then selection
      else clearedLayerPickerSelection)"

datatype panel_mode = PanelQuery | PanelSelected

record panel_state =
  panel_isOpen :: bool
  panel_mode :: panel_mode

datatype panel_event =
    ToggleQueryResults
  | FeaturesSelected
  | FeaturesCleared bool
  | ShowQuery
  | ShowSelected
  | Collapse

definition initialMapDataPanelState :: panel_state where
  "initialMapDataPanelState = \<lparr>panel_isOpen = False, panel_mode = PanelQuery\<rparr>"

fun reduceMapDataPanelState :: "panel_state \<Rightarrow> panel_event \<Rightarrow> panel_state" where
  "reduceMapDataPanelState s ToggleQueryResults =
     (if panel_isOpen s \<and> panel_mode s = PanelQuery then s\<lparr>panel_isOpen := False\<rparr>
      else \<lparr>panel_isOpen = True, panel_mode = PanelQuery\<rparr>)"
| "reduceMapDataPanelState s FeaturesSelected = \<lparr>panel_isOpen = True, panel_mode = PanelSelected\<rparr>"
| "reduceMapDataPanelState s ShowSelected = \<lparr>panel_isOpen = True, panel_mode = PanelSelected\<rparr>"
| "reduceMapDataPanelState s (FeaturesCleared hasQueryResults) =
     (if hasQueryResults then \<lparr>panel_isOpen = True, panel_mode = PanelQuery\<rparr>
      else \<lparr>panel_isOpen = False, panel_mode = PanelSelected\<rparr>)"
| "reduceMapDataPanelState s ShowQuery = \<lparr>panel_isOpen = True, panel_mode = PanelQuery\<rparr>"
| "reduceMapDataPanelState s Collapse = s\<lparr>panel_isOpen := False\<rparr>"

section \<open>Round trip of descriptors\<close>

definition full_descriptor :: "source_descriptor \<Rightarrow> bool" where
  "full_descriptor d \<longleftrightarrow> sd_collectionSlug d \<noteq> [] \<and> sd_datasetSlug d \<noteq> [] \<and> sd_fileSlug d \<noteq> [] \<and>
     sd_version d \<noteq> [] \<and> sd_assetKey d \<noteq> [] \<and> sd_storageLocationSlug d \<noteq> Some []"

lemma parse_descriptor_json: "full_descriptor d \<Longrightarrow> parse_descriptor (descriptor_json d) = Some d"
  by (cases d; cases "sd_storageLocationSlug d")
     (auto simp: full_descriptor_def parse_descriptor_def descriptor_json_def string_member_def
        descriptor_keys_def)

lemma json_clean_descriptor: "json_clean (descriptor_json d)"
  by (simp add: descriptor_json_def split: option.split)

lemma encodeURIComponent_not_Nil: "s \<noteq> [] \<Longrightarrow> encodeURIComponent s \<noteq> []"
  using decode_encodeURIComponent [of s] by (metis decodeURIComponent.simps(1) option.inject)

lemma encodeSourceDescriptor_not_Nil: "encodeSourceDescriptor d \<noteq> []"
  unfolding encodeSourceDescriptor_def
  by (rule encodeURIComponent_not_Nil) (simp add: descriptor_json_def)

lemma decode_encode_descriptor:
  "full_descriptor d \<Longrightarrow> decodeSourceDescriptor (Some (encodeSourceDescriptor d)) = Some d"
  using encodeSourceDescriptor_not_Nil [of d]
  by (simp add: decodeSourceDescriptor_def truthy_def encodeSourceDescriptor_def
      json_parse_stringify json_clean_descriptor parse_descriptor_json)

lemma no_bar: "CHR ''|'' \<notin> set (encodeSourceDescriptor d)"
  using encodeURIComponent_chars [of "CHR ''|''"]
  by (auto simp: encodeSourceDescriptor_def uri_unreserved_def is_digit_def is_lower_alpha_def is_upper_alpha_def)

lemma map_filter_decode:
  "\<forall>d \<in> set ds. full_descriptor d \<Longrightarrow>
   List.map_filter (\<lambda>entry. decodeSourceDescriptor (Some entry)) (map encodeSourceDescriptor ds) = ds"
  by (induction ds) (simp_all add: map_filter_simps decode_encode_descriptor)

text \<open>
  The layers of a shared map survive the URL: decoding an encoded list of source
  descriptors gives back the same list, whatever characters the slugs, versions and asset keys
  contain, separators included.
\<close>

theorem descriptor_list_roundtrip:
  assumes "\<forall>d \<in> set ds. full_descriptor d"
  shows "decodeSourceDescriptorList (encodeSourceDescriptorList ds) = ds"
proof (cases "ds = []")
  case True
  then show ?thesis by (simp add: encodeSourceDescriptorList_def decodeSourceDescriptorList_def truthy_def)
next
  case False
  let ?ws = "map encodeSourceDescriptor ds"
  have "join ''|'' ?ws \<noteq> []"
    using False encodeSourceDescriptor_not_Nil by (intro join_not_Nil) auto
  moreover have "split_on (CHR ''|'') (join ''|'' ?ws) = ?ws"
    using False no_bar by (intro split_on_join) auto
  ultimately show ?thesis
    using False assms
    by (simp add: encodeSourceDescriptorList_def decodeSourceDescriptorList_def truthy_def map_filter_decode)
qed

definition sample_descriptor :: source_descriptor where
  "sample_descriptor = \<lparr>sd_collectionSlug = ''a|b'', sd_datasetSlug = ''d'', sd_fileSlug = ''f'',
     sd_version = ''1'', sd_assetKey = ''%'', sd_storageLocationSlug = None\<rparr>"

theorem descriptor_list_roundtrip_witness:
  "decodeSourceDescriptorList (encodeSourceDescriptorList [sample_descriptor, sample_descriptor])
     = [sample_descriptor, sample_descriptor]"
  by (rule descriptor_list_roundtrip) (simp add: sample_descriptor_def full_descriptor_def)

end
