(* ===== verification/FeatureSelection.thy ===== *)
theory FeatureSelection
  imports MapLayers "HOL-Library.Word"
begin

text \<open>
  Feature selections on a map, in the web application
  (\<open>webapp/src/components/map/featureSelection.ts\<close>) and in the MCP widget
  (\<open>dataset-mcp/ui/src/components/mapSelection.ts\<close>). Both keep each feature once and at most
  \<open>MAX_SELECTED_FEATURES\<close> per layer and tell when they dropped one; the locale
  \<open>capped_selection\<close> states that contract and both are interpreted in it.

  A feature is what MapLibre hands to the code; its coordinates are finite numbers, its
  properties JSON values.
\<close>

section \<open>Capped selections\<close>

text \<open>
  The loop of both modules: \<open>rows\<close>, \<open>seen\<close>, the counts by layer and \<open>wasCapped\<close>.
\<close>

type_synonym ('c, 'k, 'g) cap_state = "'c list \<times> 'k list \<times> ('g \<times> nat) list \<times> bool"

definition capped_step ::
  "('c \<Rightarrow> 'k) \<Rightarrow> ('c \<Rightarrow> 'g) \<Rightarrow> nat \<Rightarrow> ('c, 'k, 'g) cap_state \<Rightarrow> 'c \<Rightarrow> ('c, 'k, 'g) cap_state" where
  "capped_step ident grp cap state candidate =
     (case state of (rows, seen, counts, wasCapped) \<Rightarrow>
        if ident candidate \<in> set seen then state
        else let seen' = set_add (ident candidate) seen;
                 n = (case map_of counts (grp candidate) of None \<Rightarrow> 0 | Some m \<Rightarrow> m) in
          if cap \<le> n then (rows, seen', counts, True)
          else (rows @ [candidate], seen', map_set (grp candidate) (n + 1) counts, wasCapped))"

definition capped_select :: "('c \<Rightarrow> 'k) \<Rightarrow> ('c \<Rightarrow> 'g) \<Rightarrow> nat \<Rightarrow> 'c list \<Rightarrow> 'c list \<times> bool" where
  "capped_select ident grp cap candidates =
     (case foldl (capped_step ident grp cap) ([], [], [], False) candidates of
        (rows, seen, counts, wasCapped) \<Rightarrow> (rows, wasCapped))"

lemma subseq_subset: "subseq xs ys \<Longrightarrow> set xs \<subseteq> set ys"
  by (induction rule: list_emb.induct) auto

text \<open>
  What a client may rely on: the rows are candidates in their order, each once, at most \<open>cap\<close>
  in a group, and the flag tells exactly whether a candidate is missing.
\<close>

locale capped_selection =
  fixes ident :: "'c \<Rightarrow> 'k" and grp :: "'c \<Rightarrow> 'g" and cap :: nat
    and select :: "'c list \<Rightarrow> 'c list \<times> bool"
  assumes in_order: "subseq (fst (select cs)) cs"
    and once: "distinct (map ident (fst (select cs)))"
    and bounded: "length (filter (\<lambda>c. grp c = g) (fst (select cs))) \<le> cap"
    and flag: "snd (select cs) \<longleftrightarrow> \<not> ident ` set cs \<subseteq> ident ` set (fst (select cs))"
begin

lemma complete_unless_capped:
  "\<not> snd (select cs) \<Longrightarrow> ident ` set (fst (select cs)) = ident ` set cs"
  using flag [of cs] subseq_subset [OF in_order [of cs]] by blast

end

definition cap_inv where
  "cap_inv ident grp cap done state \<longleftrightarrow>
     (case state of (rows, seen, counts, wasCapped) \<Rightarrow>
        set seen = ident ` set done \<and> distinct (map ident rows) \<and> subseq rows done \<and>
        (\<forall>g. (case map_of counts g of None \<Rightarrow> 0 | Some n \<Rightarrow> n) = length (filter (\<lambda>c. grp c = g) rows)) \<and>
        (\<forall>g. length (filter (\<lambda>c. grp c = g) rows) \<le> cap) \<and>
        (wasCapped \<longleftrightarrow> \<not> ident ` set done \<subseteq> ident ` set rows))"

lemma cap_inv_step:
  assumes "cap_inv ident grp cap cs st"
  shows "cap_inv ident grp cap (cs @ [c]) (capped_step ident grp cap st c)"
proof -
  obtain rows seen counts w where st: "st = (rows, seen, counts, w)" by (metis surj_pair)
  have inv: "set seen = ident ` set cs" "distinct (map ident rows)" "subseq rows cs"
    "(case map_of counts g of None \<Rightarrow> 0 | Some n \<Rightarrow> n) = length (filter (\<lambda>c. grp c = g) rows)"
    "length (filter (\<lambda>c. grp c = g) rows) \<le> cap" "w \<longleftrightarrow> \<not> ident ` set cs \<subseteq> ident ` set rows" for g
    using assms by (auto simp: cap_inv_def st)
  have rows: "ident ` set rows \<subseteq> ident ` set cs" using subseq_subset [OF inv(3)] by (rule image_mono)
  have drop: "subseq rows (cs @ [c])" using inv(3) by (rule subseq_rev_drop_many)
  show ?thesis
  proof (cases "ident c \<in> set seen")
    case True
    then have "ident ` set (cs @ [c]) = ident ` set cs" using inv(1) by auto
    with True show ?thesis
      unfolding cap_inv_def st capped_step_def using inv drop by simp
  next
    case new: False
    then have fresh: "ident c \<notin> ident ` set rows" using rows inv(1) by blast
    define n where "n = (case map_of counts (grp c) of None \<Rightarrow> 0 | Some m \<Rightarrow> m)"
    have n: "n = length (filter (\<lambda>d. grp d = grp c) rows)" using inv(4) by (simp add: n_def)
    show ?thesis
    proof (cases "cap \<le> n")
      case True
      then have "capped_step ident grp cap st c = (rows, set_add (ident c) seen, counts, True)"
        using new by (simp add: capped_step_def st n_def)
      then show ?thesis using inv drop fresh by (simp add: cap_inv_def)
    next
      case False
      then have "capped_step ident grp cap st c
          = (rows @ [c], set_add (ident c) seen, map_set (grp c) (n + 1) counts, w)"
        using new by (simp add: capped_step_def st n_def)
      moreover have "subseq (rows @ [c]) (cs @ [c])" using inv(3) by (simp add: list_emb_append_mono)
      moreover have "(\<not> ident ` set (cs @ [c]) \<subseteq> ident ` set (rows @ [c])) = w"
      proof -
        have "ident c \<notin> ident ` set cs" using inv(1) new by simp
        then have "(ident ` set cs \<subseteq> insert (ident c) (ident ` set rows))
            = (ident ` set cs \<subseteq> ident ` set rows)" by (rule subset_insert)
        then show ?thesis using inv(6) by simp
      qed
      ultimately show ?thesis using inv(1,2,4,5) fresh False n by (simp add: cap_inv_def)
    qed
  qed
qed

lemma cap_inv_foldl: "cap_inv ident grp cap cs (foldl (capped_step ident grp cap) ([], [], [], False) cs)"
proof (induction cs rule: rev_induct)
  case (snoc c cs)
  then show ?case using cap_inv_step by simp
qed (simp add: cap_inv_def)

lemma capped_select_meets: "capped_selection ident grp cap (capped_select ident grp cap)"
proof unfold_locales
  fix cs :: "'a list" and g
  let ?st = "foldl (capped_step ident grp cap) ([], [], [], False) cs"
  have inv: "cap_inv ident grp cap cs ?st" by (rule cap_inv_foldl)
  then show "subseq (fst (capped_select ident grp cap cs)) cs"
    "distinct (map ident (fst (capped_select ident grp cap cs)))"
    "length (filter (\<lambda>c. grp c = g) (fst (capped_select ident grp cap cs))) \<le> cap"
    "snd (capped_select ident grp cap cs)
     \<longleftrightarrow> \<not> ident ` set cs \<subseteq> ident ` set (fst (capped_select ident grp cap cs))"
    by (auto simp: cap_inv_def capped_select_def split: prod.splits)
qed

section \<open>Map features\<close>

datatype coords = CNum rat | CArr "coords list"

datatype geometry = Geometry string coords | GeometryCollection "geometry list"

datatype feature_id = IdNumber js_number | IdString string

record map_feature =
  mf_id :: "feature_id option"
  mf_source :: string
  mf_sourceLayer :: "string option"
  mf_layer_id :: string
  mf_layer_source_layer :: "string option"
  mf_properties :: "(string \<times> json) list"
  mf_geometry :: geometry

fun coords_json :: "coords \<Rightarrow> json" where
  "coords_json (CNum r) = JNum (JsFin r)"
| "coords_json (CArr cs) = JArr (map coords_json cs)"

fun geometry_json :: "geometry \<Rightarrow> json" where
  "geometry_json (Geometry t c) = JObj [(''type'', JStr t), (''coordinates'', coords_json c)]"
| "geometry_json (GeometryCollection gs) =
     JObj [(''type'', JStr ''GeometryCollection''), (''geometries'', JArr (map geometry_json gs))]"

fun id_string :: "feature_id \<Rightarrow> string" where
  "id_string (IdNumber n) = js_String_number n"
| "id_string (IdString s) = s"

text \<open>A property as text; objects and arrays as JSON.\<close>

fun stringifyPropertyValue :: "json \<Rightarrow> string" where
  "stringifyPropertyValue JNull = []"
| "stringifyPropertyValue (JStr s) = s"
| "stringifyPropertyValue (JNum n) = js_String_number n"
| "stringifyPropertyValue (JBool b) = show_bool b"
| "stringifyPropertyValue v = json_stringify v"

fun pointFromCoordinates :: "coords list \<Rightarrow> (rat \<times> rat) option" where
  "pointFromCoordinates (CNum lng # CNum lat # rest) = Some (lng, lat)"
| "pointFromCoordinates cs = None"

fun collectCoordinates :: "coords \<Rightarrow> coords list list" where
  "collectCoordinates (CNum r) = []"
| "collectCoordinates (CArr cs) =
     (if pointFromCoordinates cs \<noteq> None then [cs] else concat (map collectCoordinates cs))"

fun collectGeometryPositions :: "geometry \<Rightarrow> coords list list" where
  "collectGeometryPositions (Geometry t c) = collectCoordinates c"
| "collectGeometryPositions (GeometryCollection gs) = concat (map collectGeometryPositions gs)"

definition mean_point :: "(rat \<times> rat) list \<Rightarrow> (rat \<times> rat) option" where
  "mean_point ps =
     (if ps = [] then None
      else Some (sum_list (map fst ps) / of_nat (length ps), sum_list (map snd ps) / of_nat (length ps)))"

definition point_of :: "coords \<Rightarrow> (rat \<times> rat) option" where
  "point_of c = (case c of CArr cs \<Rightarrow> pointFromCoordinates cs | CNum r \<Rightarrow> None)"

definition centroidForGeometry :: "geometry \<Rightarrow> (rat \<times> rat) option" where
  "centroidForGeometry g =
     (case g of
        Geometry t c \<Rightarrow>
          if t = ''Point'' then point_of c
          else mean_point (List.map_filter pointFromCoordinates (collectGeometryPositions g))
      | GeometryCollection gs \<Rightarrow>
          mean_point (List.map_filter pointFromCoordinates (collectGeometryPositions g)))"

text \<open>The centroid that the query tiles carry, if it is a valid longitude and latitude.\<close>

definition tile_centroid :: "(string \<times> json) list \<Rightarrow> (rat \<times> rat) option" where
  "tile_centroid ps =
     (case (map_of ps QUERY_MVT_CENTROID_LNG_PROPERTY, map_of ps QUERY_MVT_CENTROID_LAT_PROPERTY) of
        (Some (JNum (JsFin lng)), Some (JNum (JsFin lat))) \<Rightarrow>
          if - 180 \<le> lng \<and> lng \<le> 180 \<and> - 90 \<le> lat \<and> lat \<le> 90 then Some (lng, lat) else None
      | _ \<Rightarrow> None)"

definition geometry_point :: "geometry \<Rightarrow> (rat \<times> rat) option" where
  "geometry_point g = (case g of Geometry t c \<Rightarrow> if t = ''Point'' then point_of c else None
                       | GeometryCollection gs \<Rightarrow> None)"

section \<open>Selected features of the web application\<close>

datatype selected_kind = CatalogSelected source_descriptor | QuerySelected string

record selected_feature =
  sm_id :: string
  sm_loadedLayerId :: string
  sm_layerName :: string
  sm_sourceLayerId :: string
  sm_featureId :: string
  sm_centroid :: "(rat \<times> rat) option"
  sm_properties :: "(string \<times> string) list"
  sm_kind :: selected_kind

datatype selection_mode = ReplaceSelection | AppendSelection

definition isCatalogSelectedMapFeature :: "selected_feature \<Rightarrow> bool" where
  "isCatalogSelectedMapFeature f = (case sm_kind f of CatalogSelected d \<Rightarrow> True | QuerySelected q \<Rightarrow> False)"

definition isComparableFeatureDiffSelection :: "selected_feature list \<Rightarrow> bool" where
  "isComparableFeatureDiffSelection fs =
     (if fs = [] \<or> (\<exists>f \<in> set fs. \<not> isCatalogSelectedMapFeature f) then False
      else let ds = List.map_filter (\<lambda>f. case sm_kind f of CatalogSelected d \<Rightarrow> Some d | QuerySelected q \<Rightarrow> None) fs;
               scopes = set_from_list (map (\<lambda>d. join '':'' [sd_collectionSlug d, sd_datasetSlug d, sd_fileSlug d]) ds);
               versions = set_from_list (map sd_version ds) in
        length scopes = 1 \<and> length versions = 2)"

definition sourceLayerForFeature :: "map_feature \<Rightarrow> string" where
  "sourceLayerForFeature f =
     (if truthy (mf_sourceLayer f) then the (mf_sourceLayer f)
      else case mf_layer_source_layer f of Some s \<Rightarrow> s | None \<Rightarrow> mf_layer_id f)"

definition featureKey :: "map_feature \<Rightarrow> string \<Rightarrow> string" where
  "featureKey f sourceLayerId =
     (case mf_id f of Some i \<Rightarrow> id_string i
      | None \<Rightarrow> json_stringify (JObj [(''sourceLayerId'', JStr sourceLayerId),
          (''properties'', JObj (mf_properties f)), (''geometry'', geometry_json (mf_geometry f))]))"

definition queryFeatureKey :: "map_feature \<Rightarrow> string option" where
  "queryFeatureKey f =
     (case map_of (mf_properties f) QUERY_MVT_FEATURE_KEY_PROPERTY of
        Some (JStr v) \<Rightarrow> if trim v = [] then None else Some (trim v)
      | _ \<Rightarrow> None)"

definition normalizeProperties :: "(string \<times> json) list \<Rightarrow> bool \<Rightarrow> (string \<times> string) list" where
  "normalizeProperties ps stripReserved =
     map (apsnd stringifyPropertyValue)
       (filter (\<lambda>p. \<not> (stripReserved \<and> isQueryMvtReservedProperty (fst p))) ps)"

definition queryCentroidForFeature :: "map_feature \<Rightarrow> (rat \<times> rat) option" where
  "queryCentroidForFeature f =
     (case tile_centroid (mf_properties f) of Some c \<Rightarrow> Some c | None \<Rightarrow> geometry_point (mf_geometry f))"

definition normalizeSelectedFeature ::
  "map_feature \<Rightarrow> (string \<times> loaded_layer) list \<Rightarrow> selected_feature option" where
  "normalizeSelectedFeature f layersByMapSourceId =
     (case map_of layersByMapSourceId (mf_source f) of
        None \<Rightarrow> None
      | Some layer \<Rightarrow>
          (let sourceLayerId = sourceLayerForFeature f in
           case ll_kind layer of
             QueryMvt q \<Rightarrow>
               map_option (\<lambda>featureId.
                 \<lparr>sm_id = ''query:'' @ qp_queryId q @ '':'' @ sourceLayerId @ '':'' @ featureId,
                  sm_loadedLayerId = ll_id layer, sm_layerName = ll_name layer,
                  sm_sourceLayerId = sourceLayerId, sm_featureId = featureId,
                  sm_centroid = queryCentroidForFeature f,
                  sm_properties = normalizeProperties (mf_properties f) True,
                  sm_kind = QuerySelected (qp_queryId q)\<rparr>) (queryFeatureKey f)
           | CatalogPmtiles d metadata url \<Rightarrow>
               (let featureId = featureKey f sourceLayerId in
                Some \<lparr>sm_id = ll_id layer @ '':'' @ sourceLayerId @ '':'' @ featureId,
                  sm_loadedLayerId = ll_id layer, sm_layerName = ll_name layer,
                  sm_sourceLayerId = sourceLayerId, sm_featureId = featureId,
                  sm_centroid = centroidForGeometry (mf_geometry f),
                  sm_properties = normalizeProperties (mf_properties f) False,
                  sm_kind = CatalogSelected d\<rparr>)))"

definition normalizeSelectedFeatures :: "map_feature list \<Rightarrow> loaded_layer list \<Rightarrow> selected_feature list" where
  "normalizeSelectedFeatures fs layers =
     List.map_filter (\<lambda>f. normalizeSelectedFeature f
       (map_from_entries (map (\<lambda>l. (ll_mapSourceId l, l)) layers))) fs"

definition updateSelectedFeatures ::
  "selected_feature list \<Rightarrow> selected_feature list \<Rightarrow> selection_mode \<Rightarrow> selected_feature list \<times> bool" where
  "updateSelectedFeatures current incoming m =
     (let candidates = (if m = ReplaceSelection then incoming else current @ incoming) in
      capped_select sm_id sm_loadedLayerId MAX_SELECTED_FEATURES candidates)"

interpretation web: capped_selection sm_id sm_loadedLayerId MAX_SELECTED_FEATURES
  "\<lambda>incoming. updateSelectedFeatures [] incoming ReplaceSelection"
  unfolding updateSelectedFeatures_def by (simp add: capped_select_meets)

text \<open>
  C31: a selection holds each feature once and at most 100 features of a layer, in the order they
  were picked; it says that it was capped exactly when a picked feature is missing from it.
\<close>

theorem selection_capped_exactly:
  "let picked = (if m = ReplaceSelection then incoming else current @ incoming);
       (rows, wasCapped) = updateSelectedFeatures current incoming m in
   subseq rows picked \<and> distinct (map sm_id rows) \<and>
   (\<forall>l. length (filter (\<lambda>f. sm_loadedLayerId f = l) rows) \<le> 100) \<and>
   (wasCapped = (\<not> sm_id ` set picked \<subseteq> sm_id ` set rows))"
proof -
  let ?picked = "if m = ReplaceSelection then incoming else current @ incoming"
  have "updateSelectedFeatures current incoming m = updateSelectedFeatures [] ?picked ReplaceSelection"
    by (simp add: updateSelectedFeatures_def)
  then show ?thesis
    using web.in_order [of ?picked] web.once [of ?picked] web.bounded [of _ ?picked] web.flag [of ?picked]
    by (simp add: Let_def split_beta MAX_SELECTED_FEATURES_def)
qed

section \<open>Highlights of the MCP widget\<close>

text \<open>
  The widget sends what the user highlights to the agent, so it drops properties that look like
  tokens, tile URLs, SQL or geometry. The patterns ignore case, so they are read on lower case.
\<close>

definition word_char :: "char \<Rightarrow> bool" where
  "word_char c \<longleftrightarrow> is_digit c \<or> is_lower_alpha c \<or> is_upper_alpha c \<or> c = CHR ''_''"

text \<open>\<open>\b\<close> after a word.\<close>

definition word_end :: "string \<Rightarrow> bool" where
  "word_end s = (case s of [] \<Rightarrow> True | c # _ \<Rightarrow> \<not> word_char c)"

definition private_name :: "string \<Rightarrow> bool" where
  "private_name key \<longleftrightarrow>
     (\<exists>p \<in> set [''token'', ''tileurl'', ''tile_url'', ''tile-url'', ''sql'', ''geometry'']. str_includes (toLowerCase key) p)"

definition wkt_names :: "string list" where
  "wkt_names = [''point'', ''linestring'', ''polygon'', ''multipoint'', ''multilinestring'', ''multipolygon'',
     ''geometrycollection'']"

definition wkt_body :: "string \<Rightarrow> bool" where
  "wkt_body s = (let t = trimStart s in
     startsWith t ''('' \<or> startsWith t ''empty'' \<and> word_end (drop 5 t))"

definition wkt_tail :: "string \<Rightarrow> bool" where
  "wkt_tail s \<longleftrightarrow> wkt_body s \<or>
     (s \<noteq> [] \<and> is_space (hd s) \<and>
      (\<exists>m \<in> set [''zm'', ''z'', ''m'']. startsWith (trimStart s) m \<and> wkt_body (drop (length m) (trimStart s))))"

text \<open>\<open>SRID=\d+;\<close> is optional.\<close>

definition skip_srid :: "string \<Rightarrow> string" where
  "skip_srid s =
     (if startsWith s ''srid='' then
        (let r = drop 5 s; ds = takeWhile is_digit r; t = dropWhile is_digit r in
         if ds \<noteq> [] \<and> startsWith t '';'' then tl t else s)
      else s)"

definition is_wkt :: "string \<Rightarrow> bool" where
  "is_wkt value = (let s = skip_srid (trimStart (toLowerCase value)) in
     \<exists>n \<in> set wkt_names. startsWith s n \<and> wkt_tail (drop (length n) s))"

definition geojson_types :: "string list" where
  "geojson_types = [''point'', ''linestring'', ''polygon'', ''multipoint'', ''multilinestring'',
     ''multipolygon'', ''geometrycollection'']"

text \<open>Lookaheads: a property at some place of the rest of the text.\<close>

definition after_key :: "string \<Rightarrow> string \<Rightarrow> string option" where
  "after_key key s =
     (let q = [CHR 34] @ key @ [CHR 34] in
      if startsWith s q then
        (let t = trimStart (drop (length q) s) in
         if startsWith t '':'' then Some (trimStart (tl t)) else None)
      else None)"

fun has_type_member :: "string \<Rightarrow> bool" where
  "has_type_member [] = False"
| "has_type_member (c # s) =
     ((case after_key ''type'' (c # s) of None \<Rightarrow> False
       | Some t \<Rightarrow> \<exists>n \<in> set geojson_types. startsWith t ([CHR 34] @ n @ [CHR 34]))
      \<or> has_type_member s)"

fun has_coordinates_member :: "string \<Rightarrow> bool" where
  "has_coordinates_member [] = False"
| "has_coordinates_member (c # s) =
     (after_key ''coordinates'' (c # s) \<noteq> None \<or> after_key ''geometries'' (c # s) \<noteq> None
      \<or> has_coordinates_member s)"

definition is_geojson :: "string \<Rightarrow> bool" where
  "is_geojson value = (let s = trim (toLowerCase value) in
     2 \<le> length s \<and> hd s = CHR ''{'' \<and> last s = CHR ''}'' \<and>
     has_type_member (tl s) \<and> has_coordinates_member (tl s))"

definition sql_keywords :: "string list" where
  "sql_keywords = [''select'', ''with'', ''insert'', ''update'', ''delete'', ''merge'', ''create'', ''alter'',
     ''drop'', ''truncate'', ''grant'', ''revoke'', ''copy'', ''explain'']"

definition is_sql :: "string \<Rightarrow> bool" where
  "is_sql value = (let s = trimStart (toLowerCase value) in
     \<exists>k \<in> set sql_keywords. startsWith s k \<and> word_end (drop (length k) s))"

text \<open>
  \<open>\.(?:mvt|pbf)(?:[?#]|$)\<close> at some place of \<open>run\<close>, the longest text without white space;
  \<open>whole\<close> tells that the run ends the value.
\<close>

fun has_tile_extension :: "bool \<Rightarrow> string \<Rightarrow> bool" where
  "has_tile_extension whole [] = False"
| "has_tile_extension whole (c # s) =
     ((\<exists>x \<in> set [''.mvt'', ''.pbf'']. startsWith (c # s) x \<and>
        (case drop 4 (c # s) of [] \<Rightarrow> whole | d # _ \<Rightarrow> d = CHR ''?'' \<or> d = CHR ''#''))
      \<or> has_tile_extension whole s)"

definition is_tile_url :: "string \<Rightarrow> bool" where
  "is_tile_url value =
     (let s = toLowerCase value;
          run = (\<lambda>t. takeWhile (\<lambda>c. \<not> is_space c) t); whole = (\<lambda>t. dropWhile (\<lambda>c. \<not> is_space c) t = []) in
      (\<exists>p \<in> set [''http://'', ''https://'']. startsWith s p \<and>
         (let t = drop (length p) s in
          str_includes (run t) ''/tile/'' \<or> str_includes (run t) ''/tiles/'' \<or> has_tile_extension (whole t) (run t)))
      \<or> (\<exists>p \<in> set [''/tile/'', ''/tiles/'']. startsWith s p \<and>
         (let t = drop (length p) s in has_tile_extension (whole t) (run t))))"

fun containsSensitiveFeatureData :: "json \<Rightarrow> bool" where
  "containsSensitiveFeatureData (JStr v) \<longleftrightarrow> is_wkt v \<or> is_geojson v \<or> is_sql v \<or> is_tile_url v"
| "containsSensitiveFeatureData v \<longleftrightarrow> False"

definition highlight_properties :: "(string \<times> json) list \<Rightarrow> (string \<times> string) list" where
  "highlight_properties ps =
     map (apsnd stringifyPropertyValue)
       (filter (\<lambda>(k, v). \<not> isQueryMvtReservedProperty k \<and> \<not> private_name k
                         \<and> \<not> containsSensitiveFeatureData v) ps)"

record highlight_layer =
  hl_mapSourceId :: string
  hl_queryId :: "string option"
  hl_layerId :: string
  hl_layerName :: string
  hl_sourceLayerId :: string

record highlighted_feature =
  hf_id :: string
  hf_queryId :: "string option"
  hf_layerId :: "string option"
  hf_layerName :: string
  hf_sourceLayerId :: string
  hf_featureId :: string
  hf_centroid :: "(rat \<times> rat) option"
  hf_properties :: "(string \<times> string) list"

definition internalFeatureKey :: "map_feature \<Rightarrow> string option" where
  "internalFeatureKey f =
     (case map_of (mf_properties f) QUERY_MVT_FEATURE_KEY_PROPERTY of
        Some (JStr v) \<Rightarrow> if v = [] then None else Some v
      | _ \<Rightarrow> None)"

definition centroidForFeature :: "map_feature \<Rightarrow> (rat \<times> rat) option" where
  "centroidForFeature f =
     (case tile_centroid (mf_properties f) of Some c \<Rightarrow> Some c | None \<Rightarrow> geometry_point (mf_geometry f))"

text \<open>The 32-bit FNV-1a hash; \<open>Math.imul\<close> is the product of words.\<close>

definition fnv_step :: "32 word \<Rightarrow> char \<Rightarrow> 32 word" where
  "fnv_step h c = Bit_Operations.xor h (of_nat (code_unit c)) * 0x01000193"

definition fnv_hash :: "string \<Rightarrow> 32 word" where
  "fnv_hash s = foldl fnv_step 0x811c9dc5 s"

definition stableExternalFeatureId :: "(string \<Rightarrow> string \<Rightarrow> int) \<Rightarrow> map_feature \<Rightarrow> string" where
  "stableExternalFeatureId lc f =
     (case mf_id f of
        Some i \<Rightarrow> ''id:'' @ id_string i
      | None \<Rightarrow>
          (let identity = json_stringify (JArr [geometry_json (mf_geometry f),
                 JArr (map (\<lambda>(k, v). JArr [JStr k, JStr v])
                   (sort_by (\<lambda>l r. lc (fst l) (fst r)) (highlight_properties (mf_properties f))))]) in
           ''tile-fragment:'' @ padStart 8 (CHR ''0'') (show_hex (unat (fnv_hash identity)))))"

text \<open>One feature up to the check for duplicates: the group it counts in, and its highlight.\<close>

definition highlight_candidate ::
  "(string \<Rightarrow> string \<Rightarrow> int) \<Rightarrow> (string \<times> highlight_layer) list \<Rightarrow> map_feature
   \<Rightarrow> (string \<times> highlighted_feature) option" where
  "highlight_candidate lc layers f =
     (case map_of layers (mf_source f) of
        None \<Rightarrow> None
      | Some layer \<Rightarrow>
          (let sourceLayerId = (case mf_sourceLayer f of Some s \<Rightarrow> s | None \<Rightarrow> hl_sourceLayerId layer);
               make = (\<lambda>featureId i.
                 \<lparr>hf_id = i, hf_queryId = hl_queryId layer,
                  hf_layerId = (if hl_queryId layer = None then Some (hl_layerId layer) else None),
                  hf_layerName = hl_layerName layer, hf_sourceLayerId = sourceLayerId,
                  hf_featureId = featureId, hf_centroid = centroidForFeature f,
                  hf_properties = highlight_properties (mf_properties f)\<rparr>) in
           case hl_queryId layer of
             Some q \<Rightarrow>
               if mf_id f = None then None
               else map_option (\<lambda>k. (q, make k (''query:'' @ q @ '':'' @ sourceLayerId @ '':'' @ k)))
                      (internalFeatureKey f)
           | None \<Rightarrow>
               (let k = stableExternalFeatureId lc f in
                Some (hl_layerId layer, make k (''external:'' @ hl_layerId layer @ '':'' @ sourceLayerId @ '':'' @ k)))))"

definition normalizeHighlightedFeatures ::
  "(string \<Rightarrow> string \<Rightarrow> int) \<Rightarrow> map_feature list \<Rightarrow> highlight_layer list \<Rightarrow> highlighted_feature list \<times> bool" where
  "normalizeHighlightedFeatures lc fs layers =
     (let layersByMapSourceId = map_from_entries (map (\<lambda>l. (hl_mapSourceId l, l)) layers);
          (rows, wasCapped) = capped_select (hf_id \<circ> snd) fst MAX_SELECTED_FEATURES
            (List.map_filter (highlight_candidate lc layersByMapSourceId) fs) in
      (map snd rows, wasCapped))"

interpretation highlights: capped_selection "hf_id \<circ> snd" fst MAX_SELECTED_FEATURES
  "capped_select (hf_id \<circ> snd) (fst :: string \<times> highlighted_feature \<Rightarrow> string) MAX_SELECTED_FEATURES"
  by (rule capped_select_meets)

text \<open>The snapshot for the agent, with the names of its JSON members.\<close>

definition highlight_json :: "highlighted_feature \<Rightarrow> json" where
  "highlight_json f =
     JObj ([(''id'', JStr (hf_id f))]
       @ (case hf_queryId f of
            None \<Rightarrow> (case hf_layerId f of None \<Rightarrow> [] | Some l \<Rightarrow> [(''layer_id'', JStr l)])
          | Some q \<Rightarrow> [(''query_id'', JStr q)])
       @ [(''layer_name'', JStr (hf_layerName f)), (''source_layer_id'', JStr (hf_sourceLayerId f)),
          (''feature_id'', JStr (hf_featureId f)),
          (''centroid'', case hf_centroid f of None \<Rightarrow> JNull
             | Some (a, b) \<Rightarrow> JArr [JNum (JsFin a), JNum (JsFin b)]),
          (''properties'', JObj (map (apsnd JStr) (hf_properties f)))])"

definition snapshotMapHighlights ::
  "string \<Rightarrow> highlighted_feature list \<Rightarrow> bool \<Rightarrow> map_bounds option \<Rightarrow> json" where
  "snapshotMapHighlights mapTitle fs wasCapped selectionBounds =
     JObj [(''map_title'', JStr mapTitle), (''selected_feature_count'', JNum (JsFin (of_nat (length fs)))),
       (''was_capped'', JBool wasCapped),
       (''selection_bounds'', case selectionBounds of None \<Rightarrow> JNull
          | Some (a, b, c, d) \<Rightarrow> JArr (map (\<lambda>r. JNum (JsFin r)) [a, b, c, d])),
       (''selected_features'', JArr (map highlight_json fs))]"

lemma highlight_candidate_properties:
  "highlight_candidate lc layers f = Some c \<Longrightarrow> hf_properties (snd c) = highlight_properties (mf_properties f)"
  by (auto simp: highlight_candidate_def Let_def split: option.splits if_splits)

lemma highlight_candidate_group:
  "highlight_candidate lc layers f = Some (g, row) \<Longrightarrow>
   (hf_queryId row = Some q \<or> hf_layerId row = Some q) = (g = q)"
  by (auto simp: highlight_candidate_def Let_def split: option.splits if_splits)

lemma map_filter_memD: "c \<in> set (List.map_filter h fs) \<Longrightarrow> \<exists>f \<in> set fs. h f = Some c"
  by (auto simp: List.map_filter_def)

lemma filter_map_group:
  "(\<And>c. c \<in> set cs \<Longrightarrow> P (snd c) = (fst c = q)) \<Longrightarrow>
   length (filter P (map snd cs)) = length (filter (\<lambda>c. fst c = q) cs)"
  by (induction cs) auto


definition sample_highlights :: "map_feature list" where
  "sample_highlights =
     [\<lparr>mf_id = Some (IdNumber (JsFin 7)), mf_source = ''q1'', mf_sourceLayer = None, mf_layer_id = ''l'',
       mf_layer_source_layer = None,
       mf_properties = [(''name'', JStr ''Dam''), (''api_token'', JStr ''t''), (''note'', JStr ''select 1'')],
       mf_geometry = Geometry ''Point'' (CArr [CNum 1, CNum 2])\<rparr>]"

definition sample_highlight_layers :: "highlight_layer list" where
  "sample_highlight_layers = [\<lparr>hl_mapSourceId = ''q1'', hl_queryId = None, hl_layerId = ''dams'',
     hl_layerName = ''Dams'', hl_sourceLayerId = ''default''\<rparr>]"


end
