(* ===== verification/WebMcpResult.thy ===== *)
theory WebMcpResult
  imports JsJson
begin

text \<open>
  Results of the WebMCP tools, \<open>webapp/src/lib/webmcp/result.ts\<close>, and the wrapper that runs a
  registered tool, \<open>useWebMcpTool.ts\<close>: a successful result is cut down until its JSON text has
  at most 1500 characters.
\<close>

section \<open>Results\<close>

datatype tool_error =
    InvalidRequest | NotFound | UnsupportedState | QueryRejected | QueryTimeout | QueryCapacity
  | RateLimited | UpstreamUnavailable | InternalError

text \<open>\<open>ToolSuccess summary data truncated\<close> and \<open>ToolFailure code message retryable\<close>.\<close>

datatype tool_result =
    ToolSuccess string json bool
  | ToolFailure tool_error string bool

definition DEFAULT_INTERNAL_ERROR :: string where
  "DEFAULT_INTERNAL_ERROR = ''The tool could not complete the request.''"

definition MAX_SERIALIZED_RESULT_LENGTH :: nat where "MAX_SERIALIZED_RESULT_LENGTH = 1500"

definition RETRYABLE_CODES :: "tool_error list" where
  "RETRYABLE_CODES = [QueryTimeout, QueryCapacity, RateLimited, UpstreamUnavailable]"

definition success :: "string \<Rightarrow> json \<Rightarrow> tool_result" where
  "success summary data = ToolSuccess summary data False"

definition failure :: "tool_error \<Rightarrow> string \<Rightarrow> tool_result" where
  "failure code message = ToolFailure code message (code \<in> set RETRYABLE_CODES)"

definition truncateString :: "string \<Rightarrow> nat \<Rightarrow> string" where
  "truncateString value maxLength = take maxLength value"

text \<open>The object of a success, with its members in the order the code writes them.\<close>

definition success_json :: "string \<Rightarrow> json \<Rightarrow> bool \<Rightarrow> json" where
  "success_json summary data truncated =
     JObj ([(''ok'', JBool True), (''summary'', JStr summary), (''data'', data)]
       @ (if truncated then [(''truncated'', JBool True)] else []))"

definition serializedLength :: "string \<Rightarrow> json \<Rightarrow> bool \<Rightarrow> nat" where
  "serializedLength summary data truncated = length (json_stringify (success_json summary data truncated))"

definition fitsData :: "json \<Rightarrow> string \<Rightarrow> bool" where
  "fitsData data summary \<longleftrightarrow> serializedLength summary data True \<le> MAX_SERIALIZED_RESULT_LENGTH"

text \<open>
  \<open>compactArray\<close> and \<open>compactObject\<close> are the loops with their \<open>output\<close>: an item that does not
  fit behind what is there already is left out.
\<close>

fun compactValue :: "string \<Rightarrow> json \<Rightarrow> json"
  and compactArray :: "string \<Rightarrow> json list \<Rightarrow> json list \<Rightarrow> json list"
  and compactObject :: "string \<Rightarrow> (string \<times> json) list \<Rightarrow> (string \<times> json) list \<Rightarrow> (string \<times> json) list" where
  "compactValue summary (JArr xs) = JArr (compactArray summary [] xs)"
| "compactValue summary (JObj ms) = JObj (compactObject summary [] ms)"
| "compactValue summary v = v"
| "compactArray summary output [] = output"
| "compactArray summary output (x # xs) =
     (let candidate = output @ [compactValue summary x] in
      compactArray summary (if fitsData (JArr candidate) summary then candidate else output) xs)"
| "compactObject summary output [] = output"
| "compactObject summary output ((k, x) # ms) =
     (let candidate = output @ [(k, compactValue summary x)] in
      compactObject summary (if fitsData (JObj candidate) summary then candidate else output) ms)"

definition compactData :: "json \<Rightarrow> string \<Rightarrow> json" where
  "compactData data summary =
     (let compacted = compactValue summary data in
      case compacted of JStr s \<Rightarrow> if fitsData compacted summary then compacted else JNull
      | _ \<Rightarrow> compacted)"

text \<open>
  The loop of \<open>fitSuccess\<close> at \<open>summaryLength = n\<close>; it counts down by 20 from 200 to below 0, so
  it makes at most eleven rounds.
\<close>

function fit_from :: "int \<Rightarrow> string \<Rightarrow> json \<Rightarrow> tool_result" where
  "fit_from n full data =
     (if n < 0 then ToolSuccess [] JNull True
      else
        (let summary = truncateString full (nat n); cut = (summary \<noteq> full) in
         if serializedLength summary data cut \<le> MAX_SERIALIZED_RESULT_LENGTH
         then ToolSuccess summary data cut
         else
           (let compacted = compactData data summary in
            if serializedLength summary compacted True \<le> MAX_SERIALIZED_RESULT_LENGTH
            then ToolSuccess summary compacted True
            else fit_from (n - 20) full data)))"
  by pat_completeness auto

termination fit_from
  by (relation "measure (\<lambda>(n, full, data). nat (n + 1))") auto

declare fit_from.simps [simp del]

definition boundWebMcpResult :: "tool_result \<Rightarrow> tool_result" where
  "boundWebMcpResult result =
     (case result of
        ToolFailure code message retryable \<Rightarrow> result
      | ToolSuccess summary data truncated \<Rightarrow> fit_from 200 summary data)"

section \<open>Running a tool\<close>

text \<open>
  \<open>executeRegisteredTool\<close>: \<open>parsed\<close> is the answer of the input schema, \<open>execute\<close> what the tool
  does with it, and the two flags are the abort signal before and after it. The events are the
  analytics calls.
\<close>

datatype tool_event = ToolStarted | ToolCompleted | ToolFailed tool_error

datatype tool_run = ToolReturned tool_result | ToolThrew bool

text \<open>The promise of the call: an abort rejects it, everything else resolves it.\<close>

datatype tool_promise = Aborted | Resolved tool_result

definition executeRegisteredTool ::
  "'i option \<Rightarrow> ('i \<Rightarrow> tool_run) \<Rightarrow> bool \<Rightarrow> bool \<Rightarrow> tool_event list \<times> tool_promise" where
  "executeRegisteredTool parsed execute abortedBefore abortedAfter =
     (if abortedBefore then ([ToolStarted], Aborted)
      else case parsed of
        None \<Rightarrow> ([ToolStarted, ToolFailed InvalidRequest],
                 Resolved (failure InvalidRequest ''The tool input is invalid.''))
      | Some input \<Rightarrow>
          (case execute input of
             ToolReturned result \<Rightarrow>
               if abortedAfter then ([ToolStarted], Aborted)
               else ([ToolStarted, case result of ToolSuccess s d t \<Rightarrow> ToolCompleted
                        | ToolFailure code m r \<Rightarrow> ToolFailed code],
                     Resolved (boundWebMcpResult result))
           | ToolThrew isAbortError \<Rightarrow>
               if abortedAfter \<or> isAbortError then ([ToolStarted], Aborted)
               else ([ToolStarted, ToolFailed InternalError],
                     Resolved (failure InternalError DEFAULT_INTERNAL_ERROR))))"

section \<open>Nothing is invented\<close>

text \<open>\<open>pruned c v\<close>: \<open>c\<close> is \<open>v\<close> without some array items and object members, at any depth.\<close>

inductive pruned :: "json \<Rightarrow> json \<Rightarrow> bool"
  and pruned_items :: "json list \<Rightarrow> json list \<Rightarrow> bool"
  and pruned_members :: "(string \<times> json) list \<Rightarrow> (string \<times> json) list \<Rightarrow> bool" where
  pruned_same: "pruned v v"
| pruned_array: "pruned_items cs xs \<Longrightarrow> pruned (JArr cs) (JArr xs)"
| pruned_object: "pruned_members cs ms \<Longrightarrow> pruned (JObj cs) (JObj ms)"
| items_Nil: "pruned_items [] []"
| items_drop: "pruned_items cs xs \<Longrightarrow> pruned_items cs (x # xs)"
| items_keep: "pruned c x \<Longrightarrow> pruned_items cs xs \<Longrightarrow> pruned_items (c # cs) (x # xs)"
| members_Nil: "pruned_members [] []"
| members_drop: "pruned_members cs ms \<Longrightarrow> pruned_members cs (m # ms)"
| members_keep: "pruned c x \<Longrightarrow> pruned_members cs ms \<Longrightarrow> pruned_members ((k, c) # cs) ((k, x) # ms)"

lemmas pruned_intros = pruned_pruned_items_pruned_members.intros

lemma items_snoc:
  "pruned_items cs xs \<Longrightarrow> pruned_items cs (xs @ [x]) \<and> (pruned c x \<longrightarrow> pruned_items (cs @ [c]) (xs @ [x]))"
  by (induction rule: pruned_pruned_items_pruned_members.inducts(2) [where ?P1.0 = "\<lambda>_ _. True" and ?P3.0 = "\<lambda>_ _. True"])
    (auto intro: pruned_intros)

lemma members_snoc:
  "pruned_members cs ms \<Longrightarrow>
   pruned_members cs (ms @ [(k, x)]) \<and> (pruned c x \<longrightarrow> pruned_members (cs @ [(k, c)]) (ms @ [(k, x)]))"
  by (induction rule: pruned_pruned_items_pruned_members.inducts(3) [where ?P1.0 = "\<lambda>_ _. True" and ?P2.0 = "\<lambda>_ _. True"])
    (auto intro: pruned_intros)

lemma compact_pruned:
  "pruned (compactValue summary v) v"
  "pruned_items out done \<Longrightarrow> pruned_items (compactArray summary out xs) (done @ xs)"
  "pruned_members out' done' \<Longrightarrow> pruned_members (compactObject summary out' ms) (done' @ ms)"
proof (induction summary v and summary out xs and summary out' ms arbitrary: and "done" and done'
    rule: compactValue_compactArray_compactObject.induct)
  case (1 summary xs)
  have "pruned_items (compactArray summary [] xs) ([] @ xs)" by (rule 1) (rule items_Nil)
  then show ?case by (simp add: pruned_array)
next
  case (2 summary ms)
  have "pruned_members (compactObject summary [] ms) ([] @ ms)" by (rule 2) (rule members_Nil)
  then show ?case by (simp add: pruned_object)
next
  case (5 summary out x xs)
  let ?next = "if fitsData (JArr (out @ [compactValue summary x])) summary
    then out @ [compactValue summary x] else out"
  have "pruned_items ?next (done @ [x])" using items_snoc [OF 5(3), of x] 5(1) by simp
  then show ?case using 5(2) [OF refl, of "done @ [x]"] by (simp add: Let_def)
next
  case (7 summary out k x ms)
  let ?next = "if fitsData (JObj (out @ [(k, compactValue summary x)])) summary
    then out @ [(k, compactValue summary x)] else out"
  have "pruned_members ?next (done' @ [(k, x)])" using members_snoc [OF 7(3), of k x] 7(1) by simp
  then show ?case using 7(2) [OF refl, of "done' @ [(k, x)]"] by (simp add: Let_def)
qed (auto intro: pruned_same)

lemma compactData_pruned: "pruned (compactData data summary) data \<or> compactData data summary = JNull"
  using compact_pruned(1) [of summary data] by (auto simp: compactData_def Let_def split: json.split)

lemma last_resort_length: "serializedLength [] JNull True \<le> MAX_SERIALIZED_RESULT_LENGTH"
  by code_simp

lemma fit_from_ok:
  "\<exists>s d t. fit_from n full data = ToolSuccess s d t \<and> serializedLength s d t \<le> MAX_SERIALIZED_RESULT_LENGTH \<and>
     prefix s full \<and> (pruned d data \<or> d = JNull) \<and> (\<not> t \<longrightarrow> s = full \<and> d = data)"
proof (induction n full data rule: fit_from.induct)
  case (1 n full data)
  let ?s = "truncateString full (nat n)"
  show ?case
  proof (cases "n < 0")
    case True
    then have "fit_from n full data = ToolSuccess [] JNull True" by (simp add: fit_from.simps)
    then show ?thesis using last_resort_length by auto
  next
    case False
    have "prefix ?s full" by (simp add: truncateString_def take_is_prefix)
    with False 1 show ?thesis
      using compactData_pruned [of data ?s] pruned_same [of data]
      by (subst fit_from.simps) (auto simp: Let_def)
  qed
qed

text \<open>
  C40: every successful tool result an agent gets has at most 1500 characters as JSON text, and
  nothing in it is invented: the summary is a prefix of the tool's summary, the data are the
  tool's data with items or members left out (or \<open>null\<close>), and a result that is not marked as
  truncated is the tool's result unchanged.
\<close>

theorem tool_results_bounded:
  "\<exists>s d t. boundWebMcpResult (ToolSuccess summary data trunc) = ToolSuccess s d t \<and>
     length (json_stringify (success_json s d t)) \<le> 1500 \<and>
     prefix s summary \<and> (pruned d data \<or> d = JNull) \<and> (\<not> t \<longrightarrow> s = summary \<and> d = data)"
  using fit_from_ok [of 200 summary data]
  by (simp add: boundWebMcpResult_def serializedLength_def MAX_SERIALIZED_RESULT_LENGTH_def)

theorem tool_results_bounded_witness:
  "boundWebMcpResult (ToolSuccess ''Done.'' JNull False) = ToolSuccess ''Done.'' JNull False \<and>
   length (json_stringify (success_json ''Done.'' JNull False)) \<le> 1500"
proof -
  have "boundWebMcpResult (ToolSuccess ''Done.'' JNull False) = ToolSuccess ''Done.'' JNull False" by code_simp
  then show ?thesis using tool_results_bounded [of "''Done.''" JNull False] by auto
qed

end
