(* ===== verification/MapWorkspace.thy ===== *)
theory MapWorkspace
  imports FeatureSelection LayerStyles
begin

text \<open>
  Commands on the map workspace, for the map page and its WebMCP tools:
  \<open>webapp/src/components/map/mapWorkspaceCommands.ts\<close> (validation) and
  \<open>useMapWorkspaceCommands.ts\<close> (the commands).

  A validation is the message of the \<open>MapWorkspaceCommandError\<close> it throws, or \<open>None\<close>. The hook
  reads layers through refs that are written when React renders, and writes through
  \<open>setState\<close>: the state of the model has both, \<open>ws_layers\<close> after all queued updates and
  \<open>ws_layersRef\<close> as of the last render, and a render is a step of its own.
\<close>

section \<open>Validation\<close>

text \<open>The first check that fails, in the order of the code.\<close>

definition first_failure :: "(bool \<times> string) list \<Rightarrow> string option" where
  "first_failure checks = map_option snd (List.find fst checks)"

definition and_then :: "string option \<Rightarrow> string option \<Rightarrow> string option" where
  "and_then a b = (case a of None \<Rightarrow> b | Some m \<Rightarrow> Some m)"

lemma first_failure_simps [simp]:
  "first_failure [] = None"
  "first_failure ((b, m) # cs) = (if b then Some m else first_failure cs)"
  by (simp_all add: first_failure_def)

lemma and_then_None [simp]: "and_then a b = None \<longleftrightarrow> a = None \<and> b = None"
  by (simp add: and_then_def split: option.split)

datatype layer_kind_tag = CatalogKind | QueryKind

definition kind_of :: "loaded_layer \<Rightarrow> layer_kind_tag" where
  "kind_of l = (case ll_kind l of CatalogPmtiles d m u \<Rightarrow> CatalogKind | QueryMvt q \<Rightarrow> QueryKind)"

record layer_summary =
  ls_id :: string
  ls_label :: string
  ls_kind :: layer_kind_tag
  ls_visible :: bool

record layer_input =
  li_layerId :: string
  li_label :: string
  li_kind :: "layer_kind_tag option"

definition layerById :: "string \<Rightarrow> layer_summary list \<Rightarrow> string + layer_summary" where
  "layerById layerId layers =
     (if trim layerId = [] then Inl ''layer ID must not be empty''
      else case List.find (\<lambda>l. ls_id l = layerId) layers of
             Some l \<Rightarrow> Inr l
           | None \<Rightarrow> Inl (''layer '' @ layerId @ '' does not exist''))"

definition message_of :: "string + 'a \<Rightarrow> string option" where
  "message_of r = (case r of Inl m \<Rightarrow> Some m | Inr x \<Rightarrow> None)"

definition assertValidAddDatasetLayer :: "layer_input \<Rightarrow> layer_summary list \<Rightarrow> string option" where
  "assertValidAddDatasetLayer input layers =
     first_failure
       [(trim (li_layerId input) = [], ''layer ID must not be empty''),
        (trim (li_label input) = [], ''layer label must not be empty''),
        (\<exists>l \<in> set layers. ls_id l = li_layerId input, ''layer '' @ li_layerId input @ '' is already loaded'')]"

definition assertValidLayerRemoval :: "string \<Rightarrow> layer_summary list \<Rightarrow> string option" where
  "assertValidLayerRemoval layerId layers = message_of (layerById layerId layers)"

definition assertValidLayerVisibility :: "string \<Rightarrow> layer_summary list \<Rightarrow> string option" where
  "assertValidLayerVisibility layerId layers = message_of (layerById layerId layers)"

definition assertValidLayerOrder :: "string list \<Rightarrow> layer_summary list \<Rightarrow> string option" where
  "assertValidLayerOrder layerIds layers =
     (let expected = set_from_list (map ls_id layers); actual = set_from_list layerIds in
      first_failure
       [(length layerIds \<noteq> length layers, ''layer order must contain every loaded layer exactly once''),
        (length actual \<noteq> length layerIds \<or> length actual \<noteq> length expected
           \<or> (\<exists>i \<in> set expected. i \<notin> set actual),
         ''layer order must contain every loaded layer exactly once'')])"

text \<open>
  A style update of an agent: \<open>lu_keys\<close> are the keys of the object, an absent field is
  \<open>None\<close>, and a property may also be null (\<open>Some None\<close>).
\<close>

record style_update =
  lu_keys :: "string list"
  lu_colorMode :: "string option"
  lu_colorProperty :: "string option option"
  lu_colorScheme :: "string option"
  lu_breaks :: "js_number list option"
  lu_breakMode :: "string option"
  lu_opacity :: "js_number option"
  lu_radius :: "js_number option"
  lu_lineWidth :: "js_number option"
  lu_radiusProperty :: "string option option"
  lu_lineWidthProperty :: "string option option"
  lu_radiusScale :: "string option"
  lu_lineWidthScale :: "string option"

definition numericField :: "vector_layer \<Rightarrow> string option option \<Rightarrow> string + numeric_field option" where
  "numericField target property =
     (case property of
        Some (Some p) \<Rightarrow>
          if p \<notin> set (vl_fields target) then Inl (''unknown field '' @ p)
          else Inr (List.find (\<lambda>f. nf_name f = p) (vl_numericFields target))
      | _ \<Rightarrow> Inr None)"

definition not_increasing :: "js_number list \<Rightarrow> bool" where
  "not_increasing breaks \<longleftrightarrow>
     (\<exists>i \<in> set [1..<length breaks]. js_leq (breaks ! i) (breaks ! (i - 1)))"

definition validateBreaks :: "js_number list \<Rightarrow> numeric_field option \<Rightarrow> string option" where
  "validateBreaks breaks field =
     first_failure
       [(\<exists>b \<in> set breaks. \<not> isFinite b, ''breaks must contain finite numbers''),
        (not_increasing breaks, ''breaks must be strictly increasing''),
        (case Option.bind field nf_min of None \<Rightarrow> False | Some m \<Rightarrow> \<exists>b \<in> set breaks. js_less b m,
         ''breaks must be within the field range''),
        (case Option.bind field nf_max of None \<Rightarrow> False | Some m \<Rightarrow> \<exists>b \<in> set breaks. js_less m b,
         ''breaks must be within the field range'')]"

definition validateScale :: "string option \<Rightarrow> string \<Rightarrow> string option" where
  "validateScale scale name =
     first_failure [(case scale of None \<Rightarrow> False | Some s \<Rightarrow> s \<notin> set [''linear'', ''sqrt'', ''log''],
       name @ '' scale is invalid'')]"

definition known_style_keys :: "string list" where
  "known_style_keys = [''colorProperty'', ''colorScheme'', ''colorMode'', ''breaks'', ''breakMode'',
     ''opacity'', ''radius'', ''lineWidth'', ''radiusProperty'', ''lineWidthProperty'', ''radiusScale'',
     ''lineWidthScale'']"

definition validateStyleKeys :: "style_update \<Rightarrow> string option" where
  "validateStyleKeys update =
     map_option (\<lambda>key. ''unsupported style field '' @ key)
       (List.find (\<lambda>key. key \<notin> set known_style_keys) (lu_keys update))"

text \<open>A property that names no numeric field.\<close>

definition not_numeric :: "string option option \<Rightarrow> numeric_field option \<Rightarrow> (bool \<times> string)" where
  "not_numeric property field =
     (case property of
        Some (Some p) \<Rightarrow> (field = None, ''field '' @ p @ '' is not numeric'')
      | _ \<Rightarrow> (False, []))"

definition validateStyleFields :: "vector_layer \<Rightarrow> style_update \<Rightarrow> string + numeric_field option" where
  "validateStyleFields target update =
     (case numericField target (lu_colorProperty update) of Inl m \<Rightarrow> Inl m | Inr colorField \<Rightarrow>
      (case numericField target (lu_radiusProperty update) of Inl m \<Rightarrow> Inl m | Inr radiusField \<Rightarrow>
       (case numericField target (lu_lineWidthProperty update) of Inl m \<Rightarrow> Inl m | Inr lineWidthField \<Rightarrow>
        (case and_then
            (case lu_colorProperty update of
               Some (Some p) \<Rightarrow>
                 if colorField \<noteq> None then None
                 else first_failure
                   [(lu_colorMode update = Some ''numeric'', ''field '' @ p @ '' is not numeric''),
                    (case vl_scalarFields target of None \<Rightarrow> True
                     | Some fs \<Rightarrow> \<not> (\<exists>f \<in> set fs. sf_name f = p), ''field '' @ p @ '' is not scalar'')]
             | _ \<Rightarrow> None)
            (first_failure
              [not_numeric (lu_radiusProperty update) radiusField,
               not_numeric (lu_lineWidthProperty update) lineWidthField]) of
           Some m \<Rightarrow> Inl m | None \<Rightarrow> Inr colorField))))"

definition known_palettes :: "string list" where
  "known_palettes = [''blues'', ''greens'', ''oranges'', ''purples'', ''viridis'', ''plasma'', ''rdyblu'',
     ''rdyg'', ''tableau10'', ''set3'']"

definition validateStyleBreaksAndPalette :: "style_update \<Rightarrow> numeric_field option \<Rightarrow> string option" where
  "validateStyleBreaksAndPalette update colorField =
     and_then (first_failure
       [(case lu_colorScheme update of None \<Rightarrow> False | Some s \<Rightarrow> s \<notin> set known_palettes,
         ''palette '' @ the (lu_colorScheme update) @ '' is invalid''),
        (case lu_breakMode update of None \<Rightarrow> False | Some m \<Rightarrow> m \<noteq> ''auto'' \<and> m \<noteq> ''manual'',
         ''break mode is invalid''),
        (case lu_colorMode update of None \<Rightarrow> False | Some m \<Rightarrow> m \<noteq> ''numeric'' \<and> m \<noteq> ''categorical'',
         ''color mode is invalid''),
        (lu_colorMode update = Some ''categorical'' \<and> lu_breaks update \<noteq> None,
         ''categorical colors do not use numeric breaks'')])
     (case lu_breaks update of None \<Rightarrow> None | Some bs \<Rightarrow> validateBreaks bs colorField)"

definition out_of_range :: "js_number option \<Rightarrow> rat \<Rightarrow> rat \<Rightarrow> bool" where
  "out_of_range value minimum maximum =
     (case value of None \<Rightarrow> False | Some v \<Rightarrow> \<not> isFinite v \<or> js_less v (JsFin minimum) \<or> js_less (JsFin maximum) v)"

definition validateStyleRanges :: "style_update \<Rightarrow> string option" where
  "validateStyleRanges update =
     and_then (first_failure
       [(out_of_range (lu_opacity update) 0 1, ''opacity must be within its valid range''),
        (out_of_range (lu_radius update) 1 12, ''radius must be within its valid range''),
        (out_of_range (lu_lineWidth update) 1 8, ''line width must be within its valid range'')])
     (and_then (validateScale (lu_radiusScale update) ''radius'')
        (validateScale (lu_lineWidthScale update) ''line width''))"

definition supports_geometry :: "vector_layer \<Rightarrow> string \<Rightarrow> bool" where
  "supports_geometry target part =
     (case map_option toLowerCase (vl_geometryType target) of
        None \<Rightarrow> True
      | Some g \<Rightarrow> g = [] \<or> g = ''mixed'' \<or> g = ''geometry'' \<or> str_includes g part)"

definition validateStyleGeometry :: "vector_layer \<Rightarrow> style_update \<Rightarrow> string option" where
  "validateStyleGeometry target update =
     first_failure
       [(lu_radiusScale update \<noteq> None \<and> \<not> supports_geometry target ''point'',
         ''radius scale is only valid for point geometry''),
        (lu_lineWidthScale update \<noteq> None \<and> \<not> supports_geometry target ''line'',
         ''line width scale is only valid for line geometry'')]"

definition assertValidLayerStyleUpdate :: "vector_layer \<Rightarrow> style_update \<Rightarrow> string option" where
  "assertValidLayerStyleUpdate target update =
     and_then (validateStyleKeys update)
       (case validateStyleFields target update of Inl m \<Rightarrow> Some m
        | Inr colorField \<Rightarrow>
            and_then (validateStyleBreaksAndPalette update colorField)
              (and_then (validateStyleRanges update) (validateStyleGeometry target update)))"

section \<open>Camera\<close>

type_synonym js_bounds = "js_number \<times> js_number \<times> js_number \<times> js_number"
type_synonym js_point = "js_number \<times> js_number"

record camera_target =
  ct_bounds :: "js_bounds option"
  ct_center :: "js_point option"
  ct_layerIds :: "string list option"
  ct_featureId :: "string option"
  ct_zoom :: "js_number option"

record camera_input =
  ci_target :: "camera_target option"
  ci_bounds :: "js_bounds option"
  ci_center :: "js_point option"
  ci_layerIds :: "string list option"
  ci_featureId :: "string option"
  ci_zoom :: "js_number option"
  ci_bearing :: "js_number option"
  ci_pitch :: "js_number option"
  ci_padding :: "js_number option"

definition count_true :: "bool list \<Rightarrow> nat" where
  "count_true bs = length (filter (\<lambda>b. b) bs)"

definition cameraTarget :: "camera_input \<Rightarrow> string + camera_target" where
  "cameraTarget input =
     (let directTargetKeys = count_true [ci_bounds input \<noteq> None, ci_center input \<noteq> None,
            ci_layerIds input \<noteq> None, ci_featureId input \<noteq> None] in
      case ci_target input of
        Some t \<Rightarrow> if directTargetKeys > 0 then Inl ''camera must use exactly one target form'' else Inr t
      | None \<Rightarrow> Inr \<lparr>ct_bounds = ci_bounds input, ct_center = ci_center input,
          ct_layerIds = ci_layerIds input, ct_featureId = ci_featureId input, ct_zoom = None\<rparr>)"

definition target_count :: "camera_target \<Rightarrow> nat" where
  "target_count t = count_true [ct_bounds t \<noteq> None, ct_center t \<noteq> None, ct_layerIds t \<noteq> None,
     ct_featureId t \<noteq> None]"

definition bad_bounds :: "js_bounds \<Rightarrow> bool" where
  "bad_bounds b = (case b of (x0, y0, x1, y1) \<Rightarrow>
     \<not> isFinite x0 \<or> \<not> isFinite y0 \<or> \<not> isFinite x1 \<or> \<not> isFinite y1 \<or> js_less x1 x0 \<or> js_less y1 y0)"

definition bad_center :: "js_point \<Rightarrow> bool" where
  "bad_center c = (case c of (lng, lat) \<Rightarrow>
     \<not> isFinite lng \<or> \<not> isFinite lat \<or> js_less lng (JsFin (- 180)) \<or> js_less (JsFin 180) lng
     \<or> js_less lat (JsFin (- 90)) \<or> js_less (JsFin 90) lat)"

definition validateCameraTarget :: "camera_target \<Rightarrow> string option" where
  "validateCameraTarget t =
     first_failure
       [(case ct_bounds t of None \<Rightarrow> False | Some b \<Rightarrow> bad_bounds b, ''camera bounds are invalid''),
        (case ct_center t of None \<Rightarrow> False | Some c \<Rightarrow> bad_center c, ''camera center is invalid''),
        (case ct_layerIds t of None \<Rightarrow> False | Some ids \<Rightarrow> ids = [] \<or> (\<exists>i \<in> set ids. trim i = []),
         ''camera layer IDs are invalid''),
        (case ct_featureId t of None \<Rightarrow> False | Some f \<Rightarrow> trim f = [], ''camera feature ID must not be empty''),
        (out_of_range (ct_zoom t) 0 24, ''camera zoom is invalid'')]"

definition not_finite :: "js_number option \<Rightarrow> bool" where
  "not_finite v = (case v of None \<Rightarrow> False | Some n \<Rightarrow> \<not> isFinite n)"

definition validateCameraOptions :: "camera_input \<Rightarrow> string option" where
  "validateCameraOptions input =
     first_failure
       [(not_finite (ci_zoom input), ''camera zoom is invalid''),
        (not_finite (ci_bearing input), ''camera bearing is invalid''),
        (not_finite (ci_pitch input), ''camera pitch is invalid''),
        (not_finite (ci_padding input), ''camera padding is invalid''),
        (out_of_range (ci_pitch input) 0 85, ''camera pitch is invalid''),
        (case ci_padding input of None \<Rightarrow> False | Some p \<Rightarrow> js_less p (JsFin 0), ''camera padding is invalid'')]"

definition assertValidCameraInput :: "camera_input \<Rightarrow> string option" where
  "assertValidCameraInput input =
     (case cameraTarget input of Inl m \<Rightarrow> Some m
      | Inr target \<Rightarrow>
          and_then (first_failure [(target_count target \<noteq> 1, ''camera must contain exactly one target form'')])
            (and_then (validateCameraTarget target) (validateCameraOptions input)))"

definition assertValidBasemap :: "string \<Rightarrow> string option" where
  "assertValidBasemap m = first_failure [(m \<noteq> ''street'' \<and> m \<noteq> ''satellite'', ''basemap mode is invalid'')]"

text \<open>What the hook asks of the MapLibre map.\<close>

datatype camera_action =
    FitBounds js_bounds js_number "js_number option" "js_number option"
  | EaseTo "js_point option" "js_number option" "js_number option" "js_number option"

definition applyCameraBoundsTarget :: "camera_input \<Rightarrow> js_bounds \<Rightarrow> camera_action" where
  "applyCameraBoundsTarget input bounds =
     FitBounds bounds (case ci_padding input of None \<Rightarrow> JsFin 48 | Some p \<Rightarrow> p)
       (ci_bearing input) (ci_pitch input)"

definition applyCameraCenterTarget :: "camera_input \<Rightarrow> js_point \<Rightarrow> js_number option \<Rightarrow> camera_action" where
  "applyCameraCenterTarget input center targetZoom =
     EaseTo (Some center) (case ci_zoom input of None \<Rightarrow> targetZoom | Some z \<Rightarrow> Some z)
       (ci_bearing input) (ci_pitch input)"

definition math_min :: "rat list \<Rightarrow> rat" where
  "math_min xs = foldl min (hd xs) (tl xs)"

definition math_max :: "rat list \<Rightarrow> rat" where
  "math_max xs = foldl max (hd xs) (tl xs)"

definition unionBounds :: "map_bounds option list \<Rightarrow> map_bounds option" where
  "unionBounds bounds =
     (let known = List.map_filter (\<lambda>b. b) bounds in
      if known = [] then None
      else Some (math_min (map fst known), math_min (map (fst \<circ> snd) known),
                 math_max (map (fst \<circ> snd \<circ> snd) known), math_max (map (snd \<circ> snd \<circ> snd) known)))"

text \<open>What the commands throw: a \<open>MapWorkspaceCommandError\<close> or another \<open>Error\<close>.\<close>

datatype map_error = CommandError string | PlainError string

text \<open>
  \<open>resolve\<close> is the optional callback; its promise is an answer or an error. The model reports
  the error of the first layer in the list where the code reports the first in time.
\<close>

definition layer_bounds ::
  "(loaded_layer \<Rightarrow> map_error + map_bounds option) option \<Rightarrow> loaded_layer \<Rightarrow> map_error + map_bounds option" where
  "layer_bounds resolve layer =
     (case resolve of None \<Rightarrow> Inr (ll_bounds layer)
      | Some f \<Rightarrow> if ll_bounds layer \<noteq> None then Inr (ll_bounds layer) else f layer)"

fun promise_all :: "(map_error + 'a) list \<Rightarrow> map_error + 'a list" where
  "promise_all [] = Inr []"
| "promise_all (Inl m # ps) = Inl m"
| "promise_all (Inr x # ps) = (case promise_all ps of Inl m \<Rightarrow> Inl m | Inr xs \<Rightarrow> Inr (x # xs))"

definition resolveCameraLayerBounds ::
  "loaded_layer list \<Rightarrow> string list \<Rightarrow> (loaded_layer \<Rightarrow> map_error + map_bounds option) option
   \<Rightarrow> map_error + map_bounds option" where
  "resolveCameraLayerBounds layers layerIds resolve =
     (let targets = filter (\<lambda>l. ll_id l \<in> set layerIds) layers in
      case promise_all (map (layer_bounds resolve) targets) of
        Inl m \<Rightarrow> Inl m
      | Inr resolved \<Rightarrow> Inr (unionBounds resolved))"

definition js_bounds_of :: "map_bounds \<Rightarrow> js_bounds" where
  "js_bounds_of b = (case b of (x0, y0, x1, y1) \<Rightarrow> (JsFin x0, JsFin y0, JsFin x1, JsFin y1))"

definition applyCameraLayerTarget ::
  "camera_input \<Rightarrow> string list \<Rightarrow> loaded_layer list \<Rightarrow> (loaded_layer \<Rightarrow> map_error + map_bounds option) option
   \<Rightarrow> map_error + camera_action" where
  "applyCameraLayerTarget input layerIds layers resolve =
     (case resolveCameraLayerBounds layers layerIds resolve of
        Inl m \<Rightarrow> Inl m
      | Inr None \<Rightarrow> Inl (CommandError ''Requested layers have no known bounds.'')
      | Inr (Some b) \<Rightarrow> Inr (applyCameraBoundsTarget input (js_bounds_of b)))"

definition applyCameraFeatureTarget ::
  "camera_input \<Rightarrow> string \<Rightarrow> selected_feature list \<Rightarrow> rat \<Rightarrow> map_error + camera_action" where
  "applyCameraFeatureTarget input featureId selected mapZoom =
     (case Option.bind (List.find (\<lambda>f. sm_id f = featureId) selected) sm_centroid of
        None \<Rightarrow> Inl (PlainError ''Requested feature has no known location.'')
      | Some (lng, lat) \<Rightarrow>
          Inr (applyCameraCenterTarget input (JsFin lng, JsFin lat) (Some (JsFin (max mapZoom 14)))))"

text \<open>The target that is applied: \<open>input.target ?? input\<close>, with the zoom of the input.\<close>

definition applied_target :: "camera_input \<Rightarrow> camera_target" where
  "applied_target input =
     (case ci_target input of Some t \<Rightarrow> t
      | None \<Rightarrow> \<lparr>ct_bounds = ci_bounds input, ct_center = ci_center input,
          ct_layerIds = ci_layerIds input, ct_featureId = ci_featureId input, ct_zoom = ci_zoom input\<rparr>)"

definition applyCameraTarget ::
  "camera_input \<Rightarrow> loaded_layer list \<Rightarrow> selected_feature list
   \<Rightarrow> (loaded_layer \<Rightarrow> map_error + map_bounds option) option \<Rightarrow> rat \<Rightarrow> map_error + camera_action list" where
  "applyCameraTarget input layers selected resolve mapZoom =
     (let t = applied_target input in
      case ct_bounds t of Some b \<Rightarrow> Inr [applyCameraBoundsTarget input b]
      | None \<Rightarrow>
        (case ct_center t of Some c \<Rightarrow> Inr [applyCameraCenterTarget input c (ct_zoom t)]
         | None \<Rightarrow>
           (case ct_layerIds t of
              Some ids \<Rightarrow> map_sum id (\<lambda>a. [a]) (applyCameraLayerTarget input ids layers resolve)
            | None \<Rightarrow>
              if truthy (ct_featureId t)
              then map_sum id (\<lambda>a. [a]) (applyCameraFeatureTarget input (the (ct_featureId t)) selected mapZoom)
              else Inr [])))"

definition applyCameraOrientation :: "camera_input \<Rightarrow> camera_action list" where
  "applyCameraOrientation input =
     (if ci_bearing input = None \<and> ci_pitch input = None then []
      else [EaseTo None None (ci_bearing input) (ci_pitch input)])"

text \<open>\<open>map\<close> is the zoom of the map, or \<open>None\<close> before it is ready.\<close>

definition setCamera ::
  "camera_input \<Rightarrow> rat option \<Rightarrow> loaded_layer list \<Rightarrow> selected_feature list
   \<Rightarrow> (loaded_layer \<Rightarrow> map_error + map_bounds option) option \<Rightarrow> map_error + camera_action list" where
  "setCamera input mapZoom layers selected resolve =
     (case assertValidCameraInput input of Some m \<Rightarrow> Inl (CommandError m)
      | None \<Rightarrow>
        (case mapZoom of None \<Rightarrow> Inl (PlainError ''Map is not ready.'')
         | Some z \<Rightarrow>
           (case applyCameraTarget input layers selected resolve z of Inl m \<Rightarrow> Inl m
            | Inr actions \<Rightarrow>
                (let t = applied_target input in
                 Inr (actions @ (if ct_center t = None \<and> \<not> truthy (ct_featureId t) \<and> ct_bounds t = None
                                    \<and> ct_layerIds t = None
                                 then applyCameraOrientation input else []))))))"

text \<open>
  \<open>waitForMapMovement\<close>: \<open>events\<close> are the map's later events with its camera at that time;
  \<open>None\<close> while no event has settled the promise.
\<close>

datatype move_event = MoveEnd | MoveError | OtherEvent

fun settle_movement :: "(move_event \<times> 'c) list \<Rightarrow> (map_error + 'c) option" where
  "settle_movement [] = None"
| "settle_movement ((MoveEnd, c) # es) = Some (Inr c)"
| "settle_movement ((MoveError, c) # es) = Some (Inl (PlainError ''Map movement failed.''))"
| "settle_movement ((OtherEvent, c) # es) = settle_movement es"

definition waitForMapMovement :: "bool \<Rightarrow> 'c \<Rightarrow> (move_event \<times> 'c) list \<Rightarrow> (map_error + 'c) option" where
  "waitForMapMovement isMoving now events = (if \<not> isMoving then Some (Inr now) else settle_movement events)"

section \<open>The workspace\<close>

record workspace =
  ws_layers :: "loaded_layer list"
  ws_styles :: layer_styles
  ws_basemap :: string
  ws_layersRef :: "loaded_layer list"
  ws_stylesRef :: layer_styles
  ws_vectorRef :: "vector_layer list"
  ws_pending :: "string list"

definition summaries :: "loaded_layer list \<Rightarrow> layer_summary list" where
  "summaries layers = map (\<lambda>l. \<lparr>ls_id = ll_id l, ls_label = ll_label l, ls_kind = kind_of l,
     ls_visible = ll_visible l\<rparr>) layers"

text \<open>A render writes the refs; \<open>vectorLayers\<close> is what the map reported by then.\<close>

definition render :: "vector_layer list \<Rightarrow> workspace \<Rightarrow> workspace" where
  "render vectorLayers ws = ws\<lparr>ws_layersRef := ws_layers ws, ws_stylesRef := ws_styles ws,
     ws_vectorRef := vectorLayers\<rparr>"

text \<open>\<open>addDatasetLayer\<close> up to its \<open>await\<close>, and the rest with the answer of \<open>resolveDatasetLayer\<close>.\<close>

definition addDatasetLayer_begin :: "layer_input \<Rightarrow> workspace \<Rightarrow> map_error + workspace" where
  "addDatasetLayer_begin input ws =
     (case assertValidAddDatasetLayer input (summaries (ws_layersRef ws)) of Some m \<Rightarrow> Inl (CommandError m)
      | None \<Rightarrow>
          if li_layerId input \<in> set (ws_pending ws)
          then Inl (PlainError (''layer '' @ li_layerId input @ '' is already being added''))
          else Inr (ws\<lparr>ws_pending := set_add (li_layerId input) (ws_pending ws)\<rparr>))"

definition add_resolved :: "loaded_layer \<Rightarrow> loaded_layer list \<Rightarrow> loaded_layer list" where
  "add_resolved layer previous =
     (if \<exists>l \<in> set previous. ll_id l = ll_id layer then previous else previous @ [layer])"

definition addDatasetLayer_end ::
  "layer_input \<Rightarrow> map_error + loaded_layer option \<Rightarrow> workspace \<Rightarrow> (map_error + layer_summary) \<times> workspace" where
  "addDatasetLayer_end input resolved ws =
     (let done = ws\<lparr>ws_pending := removeAll (li_layerId input) (ws_pending ws)\<rparr> in
      case resolved of Inl m \<Rightarrow> (Inl m, done)
      | Inr None \<Rightarrow> (Inl (PlainError ''The requested map layer could not be resolved.''), done)
      | Inr (Some layer) \<Rightarrow>
          if ll_id layer \<noteq> li_layerId input then (Inl (PlainError ''The requested map layer could not be resolved.''), done)
          else (case assertValidAddDatasetLayer
                  \<lparr>li_layerId = ll_id layer, li_label = ll_label layer, li_kind = Some (kind_of layer)\<rparr>
                  (summaries (ws_layersRef ws)) of
             Some m \<Rightarrow> (Inl (CommandError m), done)
           | None \<Rightarrow> (Inr \<lparr>ls_id = ll_id layer, ls_label = ll_label layer, ls_kind = kind_of layer,
                          ls_visible = ll_visible layer\<rparr>,
                      done\<lparr>ws_layers := add_resolved layer (ws_layers ws)\<rparr>)))"

definition removeLayer :: "string \<Rightarrow> workspace \<Rightarrow> map_error + workspace" where
  "removeLayer layerId ws =
     (case assertValidLayerRemoval layerId (summaries (ws_layersRef ws)) of Some m \<Rightarrow> Inl (CommandError m)
      | None \<Rightarrow> Inr (ws\<lparr>ws_layers := filter (\<lambda>l. ll_id l \<noteq> layerId) (ws_layers ws),
          ws_styles := foldl (\<lambda>nxt v. if vl_loadedLayerId v = Some layerId then map_delete (vl_id v) nxt else nxt)
            (ws_styles ws) (ws_vectorRef ws)\<rparr>))"

definition setLayerVisibility :: "string \<Rightarrow> bool \<Rightarrow> workspace \<Rightarrow> map_error + workspace" where
  "setLayerVisibility layerId visible ws =
     (case assertValidLayerVisibility layerId (summaries (ws_layersRef ws)) of Some m \<Rightarrow> Inl (CommandError m)
      | None \<Rightarrow> Inr (ws\<lparr>ws_layers :=
          map (\<lambda>l. if ll_id l = layerId then l\<lparr>ll_visible := visible\<rparr> else l) (ws_layers ws)\<rparr>))"

fun color_mode_name :: "color_mode \<Rightarrow> string" where
  "color_mode_name NumericColor = ''numeric''"
| "color_mode_name CategoricalColor = ''categorical''"

text \<open>The values of a validated update.\<close>

definition color_mode_of :: "string \<Rightarrow> color_mode" where
  "color_mode_of s = (if s = ''categorical'' then CategoricalColor else NumericColor)"

definition break_mode_of :: "string \<Rightarrow> break_mode" where
  "break_mode_of s = (if s = ''manual'' then ManualBreaks else AutoBreaks)"

definition scale_of :: "string \<Rightarrow> numeric_scale" where
  "scale_of s = (if s = ''sqrt'' then SqrtScale else if s = ''log'' then LogScale else LinearScale)"

definition updated :: "'a option \<Rightarrow> 'a \<Rightarrow> 'a" where
  "updated new old = (case new of None \<Rightarrow> old | Some v \<Rightarrow> v)"

definition applyStyleUpdate :: "layer_style \<Rightarrow> style_update \<Rightarrow> layer_style" where
  "applyStyleUpdate style update =
     \<lparr>st_colorMode = updated (map_option (Some \<circ> color_mode_of) (lu_colorMode update)) (st_colorMode style),
      st_colorProperty = updated (lu_colorProperty update) (st_colorProperty style),
      st_colorScheme = updated (lu_colorScheme update) (st_colorScheme style),
      st_breaksText = updated (map_option (\<lambda>bs. join '', '' (map js_String_number bs)) (lu_breaks update))
        (st_breaksText style),
      st_breakMode = updated (map_option break_mode_of (lu_breakMode update)) (st_breakMode style),
      st_opacity = updated (lu_opacity update) (st_opacity style),
      st_radius = updated (lu_radius update) (st_radius style),
      st_lineWidth = updated (lu_lineWidth update) (st_lineWidth style),
      st_radiusProperty = updated (lu_radiusProperty update) (st_radiusProperty style),
      st_lineWidthProperty = updated (lu_lineWidthProperty update) (st_lineWidthProperty style),
      st_radiusScale = updated (map_option scale_of (lu_radiusScale update)) (st_radiusScale style),
      st_lineWidthScale = updated (map_option scale_of (lu_lineWidthScale update)) (st_lineWidthScale style)\<rparr>"

text \<open>\<open>previous[id] ?? DEFAULT_STYLE\<close>.\<close>

definition style_for :: "layer_styles \<Rightarrow> string \<Rightarrow> layer_style" where
  "style_for styles i = (case map_of styles i of None \<Rightarrow> DEFAULT_STYLE | Some s \<Rightarrow> s)"

definition effective_mode :: "vector_layer \<Rightarrow> layer_style \<Rightarrow> style_update \<Rightarrow> string option \<Rightarrow> string" where
  "effective_mode target current update property =
     (case lu_colorMode update of Some m \<Rightarrow> m
      | None \<Rightarrow>
        (case (if lu_colorProperty update = None then st_colorMode current else None) of
           Some m \<Rightarrow> color_mode_name m
         | None \<Rightarrow> if \<exists>f \<in> set (vl_numericFields target). property = Some (nf_name f)
                   then ''numeric'' else ''categorical''))"

definition effective_update :: "vector_layer \<Rightarrow> layer_style \<Rightarrow> style_update \<Rightarrow> style_update" where
  "effective_update target current update =
     (let property = updated (lu_colorProperty update) (st_colorProperty current) in
      update\<lparr>lu_keys := set_add ''colorMode'' (set_add ''colorProperty'' (lu_keys update)),
        lu_colorProperty := Some property,
        lu_colorMode := Some (effective_mode target current update property)\<rparr>)"

definition restyle :: "vector_layer \<Rightarrow> style_update \<Rightarrow> layer_style \<Rightarrow> layer_style" where
  "restyle target effective style =
     (let resetBreaks = (the (lu_colorProperty effective) \<noteq> st_colorProperty style
            \<or> the (lu_colorMode effective) \<noteq> color_mode_name (colorMode target style)) in
      applyStyleUpdate
        (if resetBreaks then style\<lparr>st_breaksText := [], st_breakMode := AutoBreaks\<rparr> else style) effective)"

definition setLayerStyle :: "string \<Rightarrow> style_update \<Rightarrow> workspace \<Rightarrow> map_error + workspace" where
  "setLayerStyle styleLayerId update ws =
     (case List.find (\<lambda>v. vl_id v = styleLayerId) (ws_vectorRef ws) of
        None \<Rightarrow> Inl (PlainError (''style layer '' @ styleLayerId @ '' does not exist''))
      | Some target \<Rightarrow>
          (let effective = effective_update target (style_for (ws_stylesRef ws) styleLayerId) update in
           case assertValidLayerStyleUpdate target effective of Some m \<Rightarrow> Inl (CommandError m)
           | None \<Rightarrow> Inr (ws\<lparr>ws_styles := map_set styleLayerId
               (restyle target effective (style_for (ws_styles ws) styleLayerId)) (ws_styles ws)\<rparr>)))"

definition reorderLayers :: "string list \<Rightarrow> workspace \<Rightarrow> map_error + workspace" where
  "reorderLayers layerIds ws =
     (case assertValidLayerOrder layerIds (summaries (ws_layersRef ws)) of Some m \<Rightarrow> Inl (CommandError m)
      | None \<Rightarrow>
          (let byId = map_from_entries (map (\<lambda>l. (ll_id l, l)) (ws_layersRef ws)) in
           Inr (ws\<lparr>ws_layers := concat (map (\<lambda>i. case map_of byId i of None \<Rightarrow> [] | Some l \<Rightarrow> [l]) layerIds)\<rparr>)))"

definition setBasemap :: "string \<Rightarrow> workspace \<Rightarrow> map_error + workspace" where
  "setBasemap m ws =
     (case assertValidBasemap m of Some e \<Rightarrow> Inl (CommandError e) | None \<Rightarrow> Inr (ws\<lparr>ws_basemap := m\<rparr>))"

section \<open>Updates from the map page\<close>

text \<open>
  \<open>webapp/src/routes/collections.$collectionSlug.map.tsx\<close>: source errors and recoveries, the
  layer of a query result, bounds that were looked up, and a new set of initial layers.
\<close>

definition with_status :: "query_status \<Rightarrow> loaded_layer \<Rightarrow> loaded_layer" where
  "with_status status l =
     (case ll_kind l of QueryMvt q \<Rightarrow> l\<lparr>ll_kind := QueryMvt (q\<lparr>qp_status := status\<rparr>)\<rparr> | _ \<Rightarrow> l)"

definition handleMapSourceError :: "string \<Rightarrow> string \<Rightarrow> loaded_layer list \<Rightarrow> loaded_layer list" where
  "handleMapSourceError sourceId message current =
     map (\<lambda>l. if ll_id l = sourceId then with_status QueryError (l\<lparr>ll_loadError := Some message\<rparr>) else l) current"

definition handleMapSourceRecovered :: "string \<Rightarrow> loaded_layer list \<Rightarrow> loaded_layer list" where
  "handleMapSourceRecovered sourceId current =
     map (\<lambda>l. if ll_id l = sourceId \<and> truthy (ll_loadError l)
              then with_status QueryReady (l\<lparr>ll_loadError := None\<rparr>) else l) current"

definition query_layer_shown :: "loaded_layer \<Rightarrow> loaded_layer list \<Rightarrow> loaded_layer list" where
  "query_layer_shown layer current = filter (\<lambda>l. ll_id l \<noteq> ll_id layer) current @ [layer]"

definition bounds_found :: "string \<Rightarrow> map_bounds option \<Rightarrow> loaded_layer list \<Rightarrow> loaded_layer list" where
  "bounds_found layerId bounds current =
     map (\<lambda>l. if ll_id l = layerId then l\<lparr>ll_bounds := bounds\<rparr> else l) current"

section \<open>Steps\<close>

datatype command =
    RemoveLayer string
  | SetVisibility string bool
  | SetStyle string style_update
  | Reorder "string list"
  | SetBasemap string

fun run_command :: "command \<Rightarrow> workspace \<Rightarrow> map_error + workspace" where
  "run_command (RemoveLayer i) = removeLayer i"
| "run_command (SetVisibility i b) = setLayerVisibility i b"
| "run_command (SetStyle i u) = setLayerStyle i u"
| "run_command (Reorder ids) = reorderLayers ids"
| "run_command (SetBasemap m) = setBasemap m"

text \<open>A command that throws leaves the workspace as it is.\<close>

definition after :: "map_error + workspace \<Rightarrow> workspace \<Rightarrow> workspace" where
  "after r ws = (case r of Inl m \<Rightarrow> ws | Inr ws' \<Rightarrow> ws')"

datatype workspace_event =
    Render "vector_layer list"
  | AddBegin layer_input
  | AddEnd layer_input "map_error + loaded_layer option"
  | Command command
  | SourceError string string
  | SourceRecovered string
  | QueryShown loaded_layer
  | BoundsFound string "map_bounds option"
  | StylesInitialized "vector_layer list"

fun workspace_step :: "workspace_event \<Rightarrow> workspace \<Rightarrow> workspace" where
  "workspace_step (Render vs) ws = render vs ws"
| "workspace_step (AddBegin input) ws = after (addDatasetLayer_begin input ws) ws"
| "workspace_step (AddEnd input answer) ws = snd (addDatasetLayer_end input answer ws)"
| "workspace_step (Command c) ws = after (run_command c ws) ws"
| "workspace_step (SourceError i m) ws = ws\<lparr>ws_layers := handleMapSourceError i m (ws_layers ws)\<rparr>"
| "workspace_step (SourceRecovered i) ws = ws\<lparr>ws_layers := handleMapSourceRecovered i (ws_layers ws)\<rparr>"
| "workspace_step (QueryShown l) ws = ws\<lparr>ws_layers := query_layer_shown l (ws_layers ws)\<rparr>"
| "workspace_step (BoundsFound i b) ws = ws\<lparr>ws_layers := bounds_found i b (ws_layers ws)\<rparr>"
| "workspace_step (StylesInitialized vs) ws = ws\<lparr>ws_styles := initializeLayerStyles vs (ws_styles ws)\<rparr>"

definition ids :: "loaded_layer list \<Rightarrow> string list" where
  "ids layers = map ll_id layers"

definition workspace_inv :: "workspace \<Rightarrow> bool" where
  "workspace_inv ws \<longleftrightarrow> distinct (ids (ws_layers ws)) \<and> distinct (ids (ws_layersRef ws)) \<and> distinct (ws_pending ws)"

lemma ids_summaries [simp]: "map ls_id (summaries layers) = ids layers"
  by (simp add: summaries_def ids_def)

lemma ids_append [simp]: "ids (xs @ ys) = ids xs @ ids ys" "ids [] = []" "ids (l # xs) = ll_id l # ids xs"
  by (simp_all add: ids_def)

lemma ids_map [simp]: "(\<And>l. ll_id (f l) = ll_id l) \<Longrightarrow> ids (map f layers) = ids layers"
  by (simp add: ids_def)

lemma ids_filter [simp]: "ids (filter (\<lambda>l. ll_id l \<noteq> i) layers) = filter (\<lambda>j. j \<noteq> i) (ids layers)"
  by (induction layers) (simp_all add: ids_def)

lemma set_ids: "set (ids layers) = ll_id ` set layers"
  by (simp add: ids_def)

lemma with_status_id [simp]: "ll_id (with_status s l) = ll_id l"
  by (simp add: with_status_def split: layer_kind.split)

lemma map_from_entries_lookup:
  "distinct (map fst es) \<Longrightarrow> map_of (map_from_entries es) = map_of es"
  by (simp add: map_from_entries_id)

lemma map_of_ids: "map_of (map (\<lambda>l. (ll_id l, l)) layers) i = List.find (\<lambda>l. ll_id l = i) layers"
  by (induction layers) auto

lemma find_id: "List.find (\<lambda>l. ll_id l = i) layers = Some l \<Longrightarrow> l \<in> set layers \<and> ll_id l = i"
  by (auto simp: find_Some_iff)

lemma find_none: "List.find (\<lambda>l. ll_id l = i) layers = None \<longleftrightarrow> i \<notin> set (ids layers)"
  by (auto simp: find_None_iff set_ids)

text \<open>A valid order is a permutation of the ids.\<close>

lemma valid_order:
  assumes "distinct (ids layers)"
  shows "assertValidLayerOrder order (summaries layers) = None \<longleftrightarrow> mset order = mset (ids layers)"
proof -
  have "assertValidLayerOrder order (summaries layers) = None
      \<longleftrightarrow> length order = length (ids layers) \<and> distinct order \<and> set (ids layers) \<subseteq> set order"
  proof -
    have l: "length (set_from_list order) = length order \<longleftrightarrow> distinct order"
      by (metis card_distinct distinct_card length_set_from_list)
    have "length (summaries layers) = length (ids layers)" by (simp add: summaries_def ids_def)
    then show ?thesis
      using assms l by (auto simp: assertValidLayerOrder_def Let_def)
  qed
  also have "\<dots> \<longleftrightarrow> mset order = mset (ids layers)"
  proof
    assume a: "length order = length (ids layers) \<and> distinct order \<and> set (ids layers) \<subseteq> set order"
    then have "set order = set (ids layers)"
      using assms by (metis List.finite_set card_subset_eq distinct_card)
    then show "mset order = mset (ids layers)" using a assms set_eq_iff_mset_eq_distinct by blast
  next
    assume m: "mset order = mset (ids layers)"
    then show "length order = length (ids layers) \<and> distinct order \<and> set (ids layers) \<subseteq> set order"
      using assms mset_eq_length mset_eq_setD mset_eq_imp_distinct_iff by (metis order_refl)
  qed
  finally show ?thesis .
qed

definition picked_layers :: "string list \<Rightarrow> loaded_layer list \<Rightarrow> loaded_layer list" where
  "picked_layers order layers =
     concat (map (\<lambda>i. case List.find (\<lambda>l. ll_id l = i) layers of None \<Rightarrow> [] | Some l \<Rightarrow> [l]) order)"

lemma ids_picked: "set order \<subseteq> set (ids layers) \<Longrightarrow> ids (picked_layers order layers) = order"
proof (induction order)
  case (Cons i order)
  then obtain l where "List.find (\<lambda>l. ll_id l = i) layers = Some l"
    using find_none [of i layers] by fastforce
  with Cons find_id show ?case by (fastforce simp: picked_layers_def)
qed (simp add: picked_layers_def)

lemma reorder_cases:
  assumes "distinct (ids (ws_layersRef ws))"
  shows "reorderLayers order ws =
    (if mset order = mset (ids (ws_layersRef ws))
     then Inr (ws\<lparr>ws_layers := picked_layers order (ws_layersRef ws)\<rparr>)
     else Inl (CommandError ''layer order must contain every loaded layer exactly once''))"
proof -
  have "map_of (map_from_entries (map (\<lambda>l. (ll_id l, l)) (ws_layersRef ws)))
      = (\<lambda>i. List.find (\<lambda>l. ll_id l = i) (ws_layersRef ws))"
    using assms by (subst map_from_entries_lookup) (auto simp: ids_def comp_def map_of_ids)
  moreover have "assertValidLayerOrder order (summaries (ws_layersRef ws))
      \<in> {None, Some ''layer order must contain every loaded layer exactly once''}"
    by (simp add: assertValidLayerOrder_def Let_def)
  ultimately show ?thesis
    using valid_order [OF assms, of order]
    by (auto simp: reorderLayers_def Let_def picked_layers_def)
qed

lemma ids_add_resolved: "distinct (ids xs) \<Longrightarrow> distinct (ids (add_resolved l xs))"
  by (auto simp: add_resolved_def set_ids)

lemma workspace_inv_end:
  "workspace_inv ws \<Longrightarrow> workspace_inv (snd (addDatasetLayer_end input answer ws))"
  using ids_add_resolved
  by (auto simp: workspace_inv_def addDatasetLayer_end_def Let_def distinct_removeAll
      split: sum.split option.split)

lemma workspace_inv_command: "workspace_inv ws \<Longrightarrow> workspace_inv (after (run_command c ws) ws)"
proof (cases c)
  case (Reorder order)
  assume inv: "workspace_inv ws"
  then have d: "distinct (ids (ws_layersRef ws))" by (simp add: workspace_inv_def)
  have "distinct (ids (picked_layers order (ws_layersRef ws)))" if "mset order = mset (ids (ws_layersRef ws))"
    using that d ids_picked [of order "ws_layersRef ws"] mset_eq_setD [OF that] mset_eq_imp_distinct_iff [OF that]
    by simp
  then show ?thesis using inv by (simp add: Reorder reorder_cases [OF d] after_def workspace_inv_def)
qed (auto simp: after_def workspace_inv_def removeLayer_def setLayerVisibility_def setLayerStyle_def setBasemap_def
       Let_def split: option.split sum.split)

lemma workspace_inv_step: "workspace_inv ws \<Longrightarrow> workspace_inv (workspace_step e ws)"
proof (cases e)
  case (AddBegin input)
  assume "workspace_inv ws"
  then show ?thesis
    by (auto simp: AddBegin after_def addDatasetLayer_begin_def workspace_inv_def split: option.split sum.split)
next
  case (QueryShown l)
  assume inv: "workspace_inv ws"
  then show ?thesis
    by (simp add: QueryShown workspace_inv_def query_layer_shown_def)
next
  case (AddEnd input answer)
  assume "workspace_inv ws"
  then show ?thesis by (simp add: AddEnd workspace_inv_end)
next
  case (Command c)
  assume "workspace_inv ws"
  then show ?thesis by (simp add: Command workspace_inv_command)
qed (auto simp: workspace_inv_def render_def handleMapSourceError_def handleMapSourceRecovered_def bounds_found_def)

definition new_workspace :: "loaded_layer list \<Rightarrow> workspace" where
  "new_workspace layers = \<lparr>ws_layers = layers, ws_styles = [], ws_basemap = ''street'', ws_layersRef = layers,
     ws_stylesRef = [], ws_vectorRef = [], ws_pending = []\<rparr>"

inductive workspace_reachable :: "workspace \<Rightarrow> bool" where
  workspace_start: "distinct (ids layers) \<Longrightarrow> workspace_reachable (new_workspace layers)"
| workspace_next: "workspace_reachable ws \<Longrightarrow> workspace_reachable (workspace_step e ws)"

lemma workspace_reachable_inv: "workspace_reachable ws \<Longrightarrow> workspace_inv ws"
  by (induction rule: workspace_reachable.induct) (simp_all add: workspace_inv_step, simp add: workspace_inv_def new_workspace_def)

section \<open>Valid styles\<close>

definition in_range :: "js_number \<Rightarrow> rat \<Rightarrow> rat \<Rightarrow> bool" where
  "in_range v lo hi \<longleftrightarrow> (\<exists>r. v = JsFin r \<and> lo \<le> r \<and> r \<le> hi)"

definition style_valid :: "layer_style \<Rightarrow> bool" where
  "style_valid s \<longleftrightarrow> in_range (st_opacity s) 0 1 \<and> in_range (st_radius s) 1 12 \<and> in_range (st_lineWidth s) 1 8
     \<and> st_colorScheme s \<in> set known_palettes"

definition styles_valid :: "layer_styles \<Rightarrow> bool" where
  "styles_valid styles \<longleftrightarrow> (\<forall>i s. map_of styles i = Some s \<longrightarrow> style_valid s)"

lemma in_range_Fin [simp]: "in_range (JsFin r) lo hi \<longleftrightarrow> lo \<le> r \<and> r \<le> hi"
  by (simp add: in_range_def)

lemma not_out_of_range: "\<not> out_of_range (Some v) lo hi \<longleftrightarrow> in_range v lo hi"
  by (cases v) (auto simp: out_of_range_def in_range_def)

lemma in_range_updated:
  "\<not> out_of_range new lo hi \<Longrightarrow> in_range old lo hi \<Longrightarrow> in_range (updated new old) lo hi"
  using not_out_of_range by (cases new) (auto simp: updated_def)

lemma style_valid_default: "p \<in> set known_palettes \<Longrightarrow> style_valid (DEFAULT_STYLE\<lparr>st_colorScheme := p\<rparr>)"
  by (simp add: style_valid_def DEFAULT_STYLE_def)

lemma style_valid_DEFAULT: "style_valid DEFAULT_STYLE"
  by (simp add: style_valid_def DEFAULT_STYLE_def known_palettes_def)

lemma valid_update_ranges:
  assumes "assertValidLayerStyleUpdate target u = None"
  shows "\<not> out_of_range (lu_opacity u) 0 1" "\<not> out_of_range (lu_radius u) 1 12"
    "\<not> out_of_range (lu_lineWidth u) 1 8" "\<And>s. lu_colorScheme u = Some s \<Longrightarrow> s \<in> set known_palettes"
proof -
  obtain f where "validateStyleRanges u = None" "validateStyleBreaksAndPalette u f = None"
    using assms by (auto simp: assertValidLayerStyleUpdate_def split: sum.splits)
  then show "\<not> out_of_range (lu_opacity u) 0 1" "\<not> out_of_range (lu_radius u) 1 12"
    "\<not> out_of_range (lu_lineWidth u) 1 8" "\<And>s. lu_colorScheme u = Some s \<Longrightarrow> s \<in> set known_palettes"
    by (auto simp: validateStyleRanges_def validateStyleBreaksAndPalette_def split: if_splits option.splits)
qed

lemma style_valid_apply:
  assumes "assertValidLayerStyleUpdate target u = None" "style_valid s"
  shows "style_valid (applyStyleUpdate s u)"
proof -
  note r = valid_update_ranges [OF assms(1)]
  have "updated (lu_colorScheme u) (st_colorScheme s) \<in> set known_palettes"
    using r(4) assms(2) by (cases "lu_colorScheme u") (auto simp: updated_def style_valid_def)
  then show ?thesis
    using assms(2) r(1-3) by (simp add: style_valid_def applyStyleUpdate_def in_range_updated)
qed

lemma style_valid_restyle:
  assumes "assertValidLayerStyleUpdate target u = None" "style_valid s"
  shows "style_valid (restyle target u s)"
proof -
  have "style_valid (s\<lparr>st_breaksText := [], st_breakMode := AutoBreaks\<rparr>)"
    using assms(2) by (simp add: style_valid_def)
  then show ?thesis using assms by (simp add: restyle_def Let_def style_valid_apply)
qed

lemma styles_valid_set: "styles_valid m \<Longrightarrow> style_valid s \<Longrightarrow> styles_valid (map_set i s m)"
  by (simp add: styles_valid_def)

lemma styles_valid_for: "styles_valid m \<Longrightarrow> style_valid (style_for m i)"
  using style_valid_DEFAULT by (cases "map_of m i") (simp_all add: style_for_def styles_valid_def)

lemma styles_valid_removed:
  "styles_valid m \<Longrightarrow>
   styles_valid (foldl (\<lambda>nxt v. if vl_loadedLayerId v = Some i then map_delete (vl_id v) nxt else nxt) m vs)"
  by (rule foldl_invariant [where P = styles_valid]) (auto simp: styles_valid_def)

lemma styles_valid_initialized:
  assumes "styles_valid previous"
  shows "styles_valid (initializeLayerStyles layers previous)"
proof (cases rule: initializeLayerStyles_cases [of layers previous])
  case same
  then show ?thesis using assms by simp
next
  case (new used ch)
  let ?k = "kept_styles layers previous"
  have "style_valid s" if s: "map_of (fst (foldl add_style (?k, used, ch) layers)) i = Some s" for i s
  proof (cases "map_of ?k i")
    case None
    have "set PALETTE_PREFERENCE \<subseteq> set known_palettes" by (simp add: PALETTE_PREFERENCE_def known_palettes_def)
    then show ?thesis using add_style_new [OF None s] style_valid_default by blast
  next
    case (Some t)
    then have "map_of previous i = Some t" by (simp add: kept_styles_lookup split: if_splits)
    then show ?thesis using add_style_keeps [OF Some, of used ch layers] s assms by (simp add: styles_valid_def)
  qed
  then show ?thesis by (simp add: new styles_valid_def)
qed

lemma styles_valid_command: "styles_valid (ws_styles ws) \<Longrightarrow> styles_valid (ws_styles (after (run_command c ws) ws))"
proof (cases c)
  case (SetStyle i u)
  assume v: "styles_valid (ws_styles ws)"
  show ?thesis
  proof (cases "run_command c ws")
    case (Inr ws')
    then obtain target where
      "assertValidLayerStyleUpdate target (effective_update target (style_for (ws_stylesRef ws) i) u) = None"
      "ws_styles ws' = map_set i (restyle target (effective_update target (style_for (ws_stylesRef ws) i) u)
         (style_for (ws_styles ws) i)) (ws_styles ws)"
      by (auto simp: SetStyle setLayerStyle_def Let_def split: option.splits)
    then have "styles_valid (ws_styles ws')"
      using v by (simp only:) (intro styles_valid_set style_valid_restyle styles_valid_for)
    then show ?thesis by (simp add: Inr after_def)
  qed (simp add: v after_def)
qed (auto simp: after_def removeLayer_def setLayerVisibility_def reorderLayers_def setBasemap_def Let_def
       intro: styles_valid_removed split: option.split sum.split)

lemma styles_valid_step: "styles_valid (ws_styles ws) \<Longrightarrow> styles_valid (ws_styles (workspace_step e ws))"
proof (cases e)
  case (Command c)
  assume "styles_valid (ws_styles ws)"
  then show ?thesis by (simp add: Command styles_valid_command)
qed (auto simp: render_def after_def addDatasetLayer_begin_def addDatasetLayer_end_def Let_def
       styles_valid_initialized split: option.split sum.split)

section \<open>Properties of the workspace\<close>


definition sample_map_layer :: "string \<Rightarrow> loaded_layer" where
  "sample_map_layer i = \<lparr>ll_id = i, ll_name = i, ll_label = i, ll_datasetName = None, ll_storageLocationName = None,
     ll_mapSourceId = ''source-'' @ i, ll_visible = True, ll_opacity = 82/100, ll_bounds = None, ll_loadError = None,
     ll_kind = QueryMvt \<lparr>qp_queryId = i, qp_sourceAliases = [], qp_geometryColumn = ''g'', qp_tileTemplate = ''t'',
       qp_sourceLayerId = ''hifld'', qp_scalarFields = [], qp_status = QueryReady\<rparr>\<rparr>"

definition sample_input :: "string \<Rightarrow> layer_input" where
  "sample_input i = \<lparr>li_layerId = i, li_label = i, li_kind = None\<rparr>"

definition sample_workspace :: workspace where
  "sample_workspace =
     workspace_step (AddEnd (sample_input ''b'') (Inr (Some (sample_map_layer ''b''))))
       (workspace_step (AddBegin (sample_input ''b'')) (new_workspace [sample_map_layer ''a'']))"

lemma sample_workspace_reachable: "workspace_reachable sample_workspace"
  unfolding sample_workspace_def by (intro workspace_reachable.intros) (simp add: sample_map_layer_def)


text \<open>
  C29: the styles of the workspace stay well-formed: opacity, radius and line width are finite
  numbers in their ranges and the palette is a known one, after any sequence of commands with
  any style updates, valid or not.
\<close>

theorem styles_stay_valid:
  assumes "workspace_reachable ws" and "map_of (ws_styles ws) i = Some s"
  shows "in_range (st_opacity s) 0 1 \<and> in_range (st_radius s) 1 12 \<and> in_range (st_lineWidth s) 1 8
    \<and> st_colorScheme s \<in> set known_palettes"
proof -
  have "styles_valid (ws_styles ws)"
    using assms(1) by (induction rule: workspace_reachable.induct)
      (simp_all add: styles_valid_step, simp add: styles_valid_def new_workspace_def)
  then show ?thesis using assms(2) by (simp add: styles_valid_def style_valid_def)
qed

definition sample_vector_layer :: vector_layer where
  "sample_vector_layer = \<lparr>vl_id = ''v'', vl_sourceLayerId = None, vl_loadedLayerId = Some ''a'', vl_mapSourceId = None,
     vl_mapLayerBaseId = None, vl_fields = [''depth''],
     vl_numericFields = [\<lparr>nf_name = ''depth'', nf_min = Some (JsFin 0), nf_max = Some (JsFin 9)\<rparr>],
     vl_scalarFields = None, vl_geometryType = Some ''Point''\<rparr>"

definition sample_update :: style_update where
  "sample_update = \<lparr>lu_keys = [''colorProperty'', ''breaks'', ''radius''], lu_colorMode = None,
     lu_colorProperty = Some (Some ''depth''), lu_colorScheme = None, lu_breaks = Some [JsFin 1, JsFin (5/2)],
     lu_breakMode = None, lu_opacity = None, lu_radius = Some (JsFin 12), lu_lineWidth = None,
     lu_radiusProperty = None, lu_lineWidthProperty = None, lu_radiusScale = None, lu_lineWidthScale = None\<rparr>"

definition styled_workspace :: workspace where
  "styled_workspace = workspace_step (Command (SetStyle ''v'' sample_update))
     (workspace_step (Render [sample_vector_layer]) (new_workspace []))"

theorem styles_stay_valid_witness:
  "map_option st_radius (map_of (ws_styles styled_workspace) ''v'') = Some (JsFin 12) \<and>
   in_range (st_opacity (the (map_of (ws_styles styled_workspace) ''v''))) 0 1"
proof -
  have radius: "map_option st_radius (map_of (ws_styles styled_workspace) ''v'') = Some (JsFin 12)" by code_simp
  then obtain s where s: "map_of (ws_styles styled_workspace) ''v'' = Some s" by auto
  have "workspace_reachable styled_workspace"
    unfolding styled_workspace_def by (intro workspace_reachable.intros) simp
  from styles_stay_valid [OF this s] radius s show ?thesis by simp
qed

section \<open>Refinement\<close>

text \<open>
  The contract of the commands as a client sees it: an ordered list of layer ids with their
  visibility, and no refs. A command with an id or an order that is not valid changes nothing.
\<close>

type_synonym layer_list = "(string \<times> bool) list"

definition shown :: "workspace \<Rightarrow> layer_list" where
  "shown ws = map (\<lambda>l. (ll_id l, ll_visible l)) (ws_layers ws)"

fun spec_command :: "command \<Rightarrow> layer_list \<Rightarrow> layer_list" where
  "spec_command (RemoveLayer i) ls = (if trim i = [] then ls else filter (\<lambda>l. fst l \<noteq> i) ls)"
| "spec_command (SetVisibility i b) ls =
     (if trim i = [] then ls else map (\<lambda>l. if fst l = i then (i, b) else l) ls)"
| "spec_command (Reorder order) ls =
     (if mset order = mset (map fst ls) then map (\<lambda>i. (i, the (map_of ls i))) order else ls)"
| "spec_command (SetStyle i u) ls = ls"
| "spec_command (SetBasemap m) ls = ls"

lemma layerById_cases:
  "message_of (layerById i (summaries layers)) = None \<longleftrightarrow> trim i \<noteq> [] \<and> i \<in> set (ids layers)"
proof -
  have "List.find (\<lambda>l. ls_id l = i) (summaries layers) = None \<longleftrightarrow> i \<notin> set (ids layers)"
    by (auto simp: find_None_iff summaries_def set_ids)
  then show ?thesis by (auto simp: layerById_def message_of_def split: option.split)
qed

lemma map_of_shown: "map_of (map (\<lambda>l. (ll_id l, ll_visible l)) layers) i
    = map_option ll_visible (List.find (\<lambda>l. ll_id l = i) layers)"
  by (induction layers) auto

lemma shown_picked:
  "set order \<subseteq> set (ids layers) \<Longrightarrow>
   map (\<lambda>l. (ll_id l, ll_visible l)) (picked_layers order layers)
     = map (\<lambda>i. (i, the (map_of (map (\<lambda>l. (ll_id l, ll_visible l)) layers) i))) order"
proof (induction order)
  case (Cons i order)
  then obtain l where "List.find (\<lambda>l. ll_id l = i) layers = Some l"
    using find_none [of i layers] by fastforce
  with Cons find_id show ?case by (fastforce simp: picked_layers_def map_of_shown)
qed (simp add: picked_layers_def)

lemma spec_command_no_layer:
  "i \<notin> fst ` set ls \<Longrightarrow> filter (\<lambda>l. fst l \<noteq> i) ls = ls \<and> map (\<lambda>l. if fst l = i then (i, b) else l) ls = ls"
  by (induction ls) auto

lemma no_layer:
  "i \<notin> set (ids (ws_layers ws)) \<Longrightarrow> filter (\<lambda>l. fst l \<noteq> i) (shown ws) = shown ws"
  "i \<notin> set (ids (ws_layers ws)) \<Longrightarrow> map (\<lambda>l. if fst l = i then (i, b) else l) (shown ws) = shown ws"
  using spec_command_no_layer [of i "shown ws" b] by (simp_all add: shown_def set_ids image_image)

lemma rendered_command:
  assumes "distinct (ids (ws_layers ws))" "ws_layersRef ws = ws_layers ws"
  shows "shown (after (run_command c ws) ws) = spec_command c (shown ws)"
proof (cases c)
  case (RemoveLayer i)
  note known = layerById_cases [of i "ws_layers ws"]
  show ?thesis
  proof (cases "trim i \<noteq> [] \<and> i \<in> set (ids (ws_layers ws))")
    case True
    with known have "assertValidLayerRemoval i (summaries (ws_layersRef ws)) = None"
      using assms(2) by (simp add: assertValidLayerRemoval_def)
    then show ?thesis using True RemoveLayer by (simp add: after_def removeLayer_def shown_def filter_map comp_def)
  next
    case False
    with known obtain m where "assertValidLayerRemoval i (summaries (ws_layersRef ws)) = Some m"
      using assms(2) by (auto simp: assertValidLayerRemoval_def)
    then show ?thesis using False RemoveLayer no_layer [of i]
      by (auto simp: after_def removeLayer_def)
  qed
next
  case (SetVisibility i b)
  note known = layerById_cases [of i "ws_layers ws"]
  show ?thesis
  proof (cases "trim i \<noteq> [] \<and> i \<in> set (ids (ws_layers ws))")
    case True
    with known have "assertValidLayerVisibility i (summaries (ws_layersRef ws)) = None"
      using assms(2) by (simp add: assertValidLayerVisibility_def)
    then show ?thesis using True SetVisibility by (auto simp: after_def setLayerVisibility_def shown_def)
  next
    case False
    with known obtain m where "assertValidLayerVisibility i (summaries (ws_layersRef ws)) = Some m"
      using assms(2) by (auto simp: assertValidLayerVisibility_def)
    then show ?thesis using False SetVisibility no_layer [of i]
      by (auto simp: after_def setLayerVisibility_def)
  qed
next
  case (SetStyle i u)
  then show ?thesis by (simp add: after_def setLayerStyle_def shown_def Let_def split: option.split)
next
  case (Reorder order)
  have "map fst (shown ws) = ids (ws_layers ws)" by (simp add: shown_def ids_def)
  moreover have "set order \<subseteq> set (ids (ws_layers ws))" if "mset order = mset (ids (ws_layers ws))"
    using mset_eq_setD [OF that] by simp
  ultimately show ?thesis
    using Reorder assms shown_picked by (simp add: reorder_cases after_def shown_def)
next
  case (SetBasemap m)
  then show ?thesis by (simp add: after_def setBasemap_def shown_def split: option.split)
qed

text \<open>Each command followed by a render, as when the user waits for the page.\<close>

definition run_rendered :: "vector_layer list \<Rightarrow> command list \<Rightarrow> workspace \<Rightarrow> workspace" where
  "run_rendered vs cs ws = foldl (\<lambda>w c. render vs (after (run_command c w) w)) ws cs"

text \<open>
  C28: commands that are each rendered before the next refine the contract: the layers and their
  visibility are what the same commands give on a plain ordered list of layers, invalid commands
  included.
\<close>

theorem rendered_commands_refine_list:
  assumes "workspace_reachable ws"
  shows "shown (run_rendered vs cs (render vs ws)) = foldl (\<lambda>ls c. spec_command c ls) (shown ws) cs"
proof -
  have "workspace_inv ws" by (rule workspace_reachable_inv [OF assms])
  then have "workspace_inv (render vs ws)" by (simp add: workspace_inv_def render_def)
  moreover have "ws_layersRef (render vs ws) = ws_layers (render vs ws)" "shown (render vs ws) = shown ws"
    by (simp_all add: render_def shown_def)
  moreover have "shown (run_rendered vs cs w) = foldl (\<lambda>ls c. spec_command c ls) (shown w) cs"
    if "workspace_inv w" "ws_layersRef w = ws_layers w" for w
    using that
  proof (induction cs arbitrary: w)
    case (Cons c cs)
    let ?w = "render vs (after (run_command c w) w)"
    have "shown ?w = spec_command c (shown w)"
      using Cons.prems rendered_command [of w c] by (simp add: workspace_inv_def render_def shown_def)
    moreover have "workspace_inv ?w"
      using workspace_inv_command [OF Cons.prems(1), of c] by (simp add: workspace_inv_def render_def)
    moreover have "ws_layersRef ?w = ws_layers ?w" by (simp add: render_def)
    ultimately show ?case using Cons.IH [of ?w] by (simp add: run_rendered_def)
  qed (simp add: run_rendered_def)
  ultimately show ?thesis by metis
qed

theorem rendered_commands_refine_list_witness:
  "shown (run_rendered [] [Reorder [''b'', ''a''], SetVisibility ''a'' False] (render [] sample_workspace))
     = [(''b'', True), (''a'', False)]"
proof -
  have "foldl (\<lambda>ls c. spec_command c ls) (shown sample_workspace) [Reorder [''b'', ''a''], SetVisibility ''a'' False]
      = [(''b'', True), (''a'', False)]" by code_simp
  then show ?thesis
    using rendered_commands_refine_list [OF sample_workspace_reachable,
        of "[]" "[Reorder [''b'', ''a''], SetVisibility ''a'' False]"] by simp
qed

section \<open>Camera and style values\<close>

lemma one_target:
  "target_count t = 1 \<Longrightarrow> ct_bounds t \<noteq> None \<or> ct_center t \<noteq> None \<or> ct_layerIds t \<noteq> None \<or> ct_featureId t \<noteq> None"
  by (cases "ct_bounds t"; cases "ct_center t"; cases "ct_layerIds t"; cases "ct_featureId t")
    (simp_all add: target_count_def count_true_def)

lemma valid_camera_target:
  assumes "assertValidCameraInput input = None"
  obtains t where "cameraTarget input = Inr t" "target_count t = 1" "validateCameraTarget t = None"
    "validateCameraOptions input = None"
  using assms by (auto simp: assertValidCameraInput_def split: sum.splits if_splits)

lemma applied_camera_target:
  "cameraTarget input = Inr t \<Longrightarrow>
   ct_bounds (applied_target input) = ct_bounds t \<and> ct_center (applied_target input) = ct_center t \<and>
   ct_layerIds (applied_target input) = ct_layerIds t \<and> ct_featureId (applied_target input) = ct_featureId t"
  by (auto simp: cameraTarget_def applied_target_def Let_def split: option.splits if_splits)

lemma validated_target:
  assumes "assertValidCameraInput input = None"
  shows "ct_bounds (applied_target input) \<noteq> None \<or> ct_center (applied_target input) \<noteq> None
    \<or> ct_layerIds (applied_target input) \<noteq> None \<or> truthy (ct_featureId (applied_target input))"
proof -
  obtain t where t: "cameraTarget input = Inr t" "target_count t = 1" "validateCameraTarget t = None"
    using assms by (rule valid_camera_target)
  have "trim f \<noteq> []" if "ct_featureId t = Some f" for f
    using t(3) that by (auto simp: validateCameraTarget_def split: if_splits)
  then have "truthy (ct_featureId t)" if "ct_featureId t \<noteq> None"
    using that by (auto simp: truthy_def trim_def trimStart_def)
  then show ?thesis using one_target [OF t(2)] applied_camera_target [OF t(1)] by auto
qed

text \<open>
  A camera command that succeeds moves the map exactly once and always to a target: the
  branch that only turns the map (\<open>applyCameraOrientation\<close>) is never reached, since the
  validation rejects an input without a target.
\<close>

theorem camera_moves_once_to_target:
  assumes "setCamera input mapZoom layers selected resolve = Inr actions"
  shows "\<exists>a. actions = [a] \<and> (\<forall>z b p. a \<noteq> EaseTo None z b p)"
proof -
  obtain z where z: "assertValidCameraInput input = None" "mapZoom = Some z"
    using assms by (auto simp: setCamera_def split: option.splits)
  let ?t = "applied_target input"
  note target = validated_target [OF z(1)]
  from target have no_turn: "\<not> (ct_center ?t = None \<and> \<not> truthy (ct_featureId ?t) \<and> ct_bounds ?t = None
      \<and> ct_layerIds ?t = None)" by blast
  then have applied: "applyCameraTarget input layers selected resolve z = Inr actions"
    using assms z by (auto simp: setCamera_def Let_def split: sum.splits if_splits)
  show ?thesis
  proof (cases "ct_bounds ?t")
    case (Some b)
    with applied show ?thesis by (auto simp: applyCameraTarget_def Let_def applyCameraBoundsTarget_def)
  next
    case no_bounds: None
    show ?thesis
    proof (cases "ct_center ?t")
      case (Some c)
      with no_bounds applied show ?thesis by (auto simp: applyCameraTarget_def Let_def applyCameraCenterTarget_def)
    next
      case no_center: None
      show ?thesis
      proof (cases "ct_layerIds ?t")
        case (Some ids)
        with no_bounds no_center applied show ?thesis
          by (cases "applyCameraLayerTarget input ids layers resolve")
            (auto simp: applyCameraTarget_def Let_def applyCameraLayerTarget_def applyCameraBoundsTarget_def
              split: sum.splits option.splits)
      next
        case None
        with no_bounds no_center target have "truthy (ct_featureId ?t)" by simp
        with None no_bounds no_center applied show ?thesis
          by (cases "applyCameraFeatureTarget input (the (ct_featureId ?t)) selected z")
            (auto simp: applyCameraTarget_def Let_def applyCameraFeatureTarget_def applyCameraCenterTarget_def
              split: option.splits)
      qed
    qed
  qed
qed

definition no_camera_input :: camera_input where
  "no_camera_input = \<lparr>ci_target = None, ci_bounds = None, ci_center = None, ci_layerIds = None, ci_featureId = None,
     ci_zoom = None, ci_bearing = None, ci_pitch = None, ci_padding = None\<rparr>"

theorem camera_moves_once_to_target_witness:
  "\<exists>a. setCamera (no_camera_input\<lparr>ci_center := Some (JsFin (- 90), JsFin 40), ci_bearing := Some (JsFin 10)\<rparr>)
      (Some 3) [] [] None = Inr [a] \<and> (\<forall>z b p. a \<noteq> EaseTo None z b p)"
proof -
  let ?input = "no_camera_input\<lparr>ci_center := Some (JsFin (- 90), JsFin 40), ci_bearing := Some (JsFin 10)\<rparr>"
  have "setCamera ?input (Some 3) [] [] None
      = Inr [EaseTo (Some (JsFin (- 90), JsFin 40)) None (Some (JsFin 10)) None]" by code_simp
  then show ?thesis using camera_moves_once_to_target [of ?input "Some 3" "[]" "[]" None] by auto
qed

lemma math_min_least: "xs \<noteq> [] \<Longrightarrow> math_min xs \<in> set xs \<and> (\<forall>x \<in> set xs. math_min xs \<le> x)"
proof -
  have "foldl min a ys \<in> insert a (set ys) \<and> foldl min a ys \<le> a \<and> (\<forall>y \<in> set ys. foldl min a ys \<le> y)"
    for a :: rat and ys
  proof (induction ys arbitrary: a)
    case (Cons y ys)
    from Cons [of "min a y"] show ?case by (auto simp: min_def split: if_splits)
  qed simp
  moreover assume "xs \<noteq> []"
  ultimately show ?thesis by (cases xs) (auto simp: math_min_def)
qed

lemma math_max_greatest: "xs \<noteq> [] \<Longrightarrow> math_max xs \<in> set xs \<and> (\<forall>x \<in> set xs. x \<le> math_max xs)"
proof -
  have "foldl max a ys \<in> insert a (set ys) \<and> a \<le> foldl max a ys \<and> (\<forall>y \<in> set ys. y \<le> foldl max a ys)"
    for a :: rat and ys
  proof (induction ys arbitrary: a)
    case (Cons y ys)
    from Cons [of "max a y"] show ?case by (auto simp: max_def split: if_splits)
  qed simp
  moreover assume "xs \<noteq> []"
  ultimately show ?thesis by (cases xs) (auto simp: math_max_def)
qed

lemma set_map_filter_id: "b \<in> set (List.map_filter (\<lambda>b. b) bs) \<longleftrightarrow> Some b \<in> set bs"
  by (induction bs) (auto simp: map_filter_simps split: option.split)

lemma promise_all_Inr: "promise_all ps = Inr xs \<Longrightarrow> ps = map Inr xs"
  by (induction ps arbitrary: xs rule: promise_all.induct) (auto split: sum.splits)

text \<open>Box \<open>b\<close> lies in box \<open>c\<close>.\<close>

definition inside :: "map_bounds \<Rightarrow> map_bounds \<Rightarrow> bool" where
  "inside b c \<longleftrightarrow> (case (b, c) of ((x0, y0, x1, y1), (u0, v0, u1, v1)) \<Rightarrow> u0 \<le> x0 \<and> v0 \<le> y0 \<and> x1 \<le> u1 \<and> y1 \<le> v1)"

lemma unionBounds_least:
  assumes "unionBounds bs = Some box" and "Some b \<in> set bs"
  shows "inside b box" and "(\<And>b'. Some b' \<in> set bs \<Longrightarrow> inside b' c) \<Longrightarrow> inside box c"
proof -
  define known where "known = List.map_filter (\<lambda>b. b) bs"
  have mem: "b' \<in> set known \<longleftrightarrow> Some b' \<in> set bs" for b' unfolding known_def by (rule set_map_filter_id)
  have "known \<noteq> []" using mem [of b] assms(2) by auto
  then have ne: "map fst known \<noteq> []" "map (fst \<circ> snd) known \<noteq> []" "map (fst \<circ> snd \<circ> snd) known \<noteq> []"
    "map (snd \<circ> snd \<circ> snd) known \<noteq> []" by simp_all
  have box: "box = (math_min (map fst known), math_min (map (fst \<circ> snd) known),
      math_max (map (fst \<circ> snd \<circ> snd) known), math_max (map (snd \<circ> snd \<circ> snd) known))"
    using assms(1) by (simp add: unionBounds_def known_def [symmetric] Let_def split: if_splits)
  note lo = math_min_least [OF ne(1)] math_min_least [OF ne(2)]
  note hi = math_max_greatest [OF ne(3)] math_max_greatest [OF ne(4)]
  have "b \<in> set known" using mem [of b] assms(2) by simp
  then show "inside b box" using lo hi by (auto simp: inside_def box split: prod.splits)
  assume least: "\<And>b'. Some b' \<in> set bs \<Longrightarrow> inside b' c"
  obtain u0 v0 u1 v1 where c: "c = (u0, v0, u1, v1)" by (metis surj_pair)
  have "u0 \<le> fst b' \<and> v0 \<le> fst (snd b') \<and> fst (snd (snd b')) \<le> u1 \<and> snd (snd (snd b')) \<le> v1"
    if "b' \<in> set known" for b'
    using least [of b'] that mem [of b'] by (auto simp: inside_def c split: prod.splits)
  then show "inside box c" using lo hi unfolding box inside_def c by auto
qed

text \<open>
  The box a camera command on layers fits is the least one: it contains the box of every
  requested layer, the ones looked up included, and lies in every other box that does.
\<close>

theorem camera_bounds_are_least:
  assumes "resolveCameraLayerBounds layers layerIds resolve = Inr (Some box)"
    and "l \<in> set layers" "ll_id l \<in> set layerIds" "layer_bounds resolve l = Inr (Some b)"
  shows "inside b box \<and>
    (\<forall>c. (\<forall>k b'. k \<in> set layers \<and> ll_id k \<in> set layerIds \<and> layer_bounds resolve k = Inr (Some b') \<longrightarrow> inside b' c)
       \<longrightarrow> inside box c)"
proof -
  let ?targets = "filter (\<lambda>l. ll_id l \<in> set layerIds) layers"
  obtain bs where bs: "map (layer_bounds resolve) ?targets = map Inr bs" "unionBounds bs = Some box"
    using assms(1) by (auto simp: resolveCameraLayerBounds_def Let_def dest: promise_all_Inr split: sum.splits)
  have mem: "Some b' \<in> set bs \<longleftrightarrow> (\<exists>k \<in> set ?targets. layer_bounds resolve k = Inr (Some b'))" for b'
  proof -
    have "Some b' \<in> set bs \<longleftrightarrow> Inr (Some b') \<in> set (map (layer_bounds resolve) ?targets)" unfolding bs by auto
    also have "\<dots> \<longleftrightarrow> (\<exists>k \<in> set ?targets. layer_bounds resolve k = Inr (Some b'))" unfolding set_map image_iff by metis
    finally show ?thesis .
  qed
  have b: "Some b \<in> set bs" using mem [of b] assms(2-4) by auto
  show ?thesis
  proof (intro conjI allI impI)
    show "inside b box" by (rule unionBounds_least(1) [OF bs(2) b])
    fix c
    assume a: "\<forall>k b'. k \<in> set layers \<and> ll_id k \<in> set layerIds \<and> layer_bounds resolve k = Inr (Some b') \<longrightarrow> inside b' c"
    show "inside box c"
    proof (rule unionBounds_least(2) [OF bs(2) b])
      fix b'
      assume "Some b' \<in> set bs"
      then obtain k where k: "k \<in> set ?targets" "layer_bounds resolve k = Inr (Some b')" using mem [of b'] by metis
      from k(1) have "k \<in> set layers" "ll_id k \<in> set layerIds" by simp_all
      with k(2) show "inside b' c" using a [rule_format, of k b'] by blast
    qed
  qed
qed

theorem camera_bounds_are_least_witness:
  "resolveCameraLayerBounds [sample_map_layer ''a'', sample_map_layer ''b'']
     [''a'', ''b''] (Some (\<lambda>l. Inr (Some (if ll_id l = ''a'' then (0, 0, 2, 2) else (1, -1, 3, 1)))))
     = Inr (Some (0, -1, 3, 2)) \<and> inside (0, 0, 2, 2) (0, -1, 3, 2)"
proof -
  let ?resolve = "Some (\<lambda>l. Inr (Some (if ll_id l = ''a'' then (0, 0, 2, 2) else (1, -1, 3, 1))))
    :: (loaded_layer \<Rightarrow> map_error + map_bounds option) option"
  let ?ls = "[sample_map_layer ''a'', sample_map_layer ''b'']"
  have r: "resolveCameraLayerBounds ?ls [''a'', ''b''] ?resolve = Inr (Some (0, -1, 3, 2))" by code_simp
  have "layer_bounds ?resolve (sample_map_layer ''a'') = Inr (Some (0, 0, 2, 2))" by code_simp
  from camera_bounds_are_least [OF r _ _ this] r show ?thesis by (simp add: sample_map_layer_def)
qed

text \<open>Reading a list of numbers that was joined with commas.\<close>

lemma split_on_comma_space:
  "ws \<noteq> [] \<Longrightarrow> \<forall>w \<in> set ws. CHR '','' \<notin> set w \<Longrightarrow>
   split_on (CHR '','') (join '', '' ws) = hd ws # map (\<lambda>w. CHR '' '' # w) (tl ws)"
proof (induction ws rule: induct_list012)
  case (3 x y zs)
  then have "split_on (CHR '','') (join '', '' (x # y # zs))
      = x # split_on (CHR '','') (CHR '' '' # join '', '' (y # zs))"
    by (simp add: split_on_append)
  also have "split_on (CHR '','') (CHR '' '' # join '', '' (y # zs)) = (CHR '' '' # y) # map (\<lambda>w. CHR '' '' # w) zs"
    using 3 by (auto split: list.split)
  finally show ?case by simp
qed (auto simp: split_on_no_sep)

lemma sort_by_increasing: "sorted_wrt (\<lambda>a b. cmp a b \<le> 0) xs \<Longrightarrow> sort_by cmp xs = xs"
proof (induction xs)
  case (Cons x xs)
  then have "sort_by cmp (x # xs) = insert_by cmp x xs" by (simp add: sort_by_def)
  then show ?case using Cons.prems by (cases xs) auto
qed simp

lemma number_cmp_le: "number_cmp (JsFin a) (JsFin b) \<le> 0 \<longleftrightarrow> a \<le> b"
  by (simp add: number_cmp_def)

lemma parseBreaks_join:
  assumes "\<forall>b \<in> set bs. short_decimal b" "sorted_wrt (<) bs"
  shows "bs \<noteq> [] \<Longrightarrow> parseBreaks (join '', '' (map (js_String_number \<circ> JsFin) bs)) = map JsFin bs"
proof -
  let ?ws = "map show_rat bs"
  assume ne: "bs \<noteq> []"
  have comma: "\<forall>w \<in> set ?ws. CHR '','' \<notin> set w" using show_rat_chars [of "CHR '',''"] by (auto simp: is_digit_def)
  have read: "js_Number_string (trim (show_rat b)) = JsFin b" "js_Number_string (trim (CHR '' '' # show_rat b)) = JsFin b"
    if "b \<in> set bs" for b
    using assms(1) that js_Number_show_rat by simp_all
  have "map (\<lambda>value. js_Number_string (trim value)) (split_on (CHR '','') (join '', '' ?ws)) = map JsFin bs"
    using ne read by (subst split_on_comma_space [OF _ comma]) (cases bs; simp)+
  moreover have "sorted_wrt (\<lambda>a b. number_cmp a b \<le> 0) (map JsFin bs)"
    using assms(2) by (auto simp: sorted_wrt_map number_cmp_le intro: sorted_wrt_mono_rel [of _ "(<)"])
  moreover have "filter (\<lambda>v. \<not> isNaN v) (map JsFin bs) = map JsFin bs" by (simp add: isNaN_def)
  ultimately show ?thesis by (simp add: parseBreaks_def sort_by_increasing comp_def)
qed

lemma validateBreaks_finite:
  assumes "validateBreaks breaks field = None"
  shows "\<exists>bs. breaks = map JsFin bs \<and> sorted_wrt (<) bs"
proof -
  have fin: "\<forall>b \<in> set breaks. isFinite b" and inc: "\<not> not_increasing breaks"
    using assms by (auto simp: validateBreaks_def split: if_splits)
  define bs where "bs = map (\<lambda>b. case b of JsFin r \<Rightarrow> r | _ \<Rightarrow> 0) breaks"
  have breaks: "breaks = map JsFin bs"
    using fin by (auto simp: bs_def isFinite_iff intro!: map_idI [symmetric])
  have "bs ! i < bs ! Suc i" if "Suc i < length bs" for i
  proof -
    have "Suc i \<in> set [1..<length breaks]" using that by (simp add: bs_def)
    then have "\<not> js_leq (breaks ! Suc i) (breaks ! (Suc i - 1))" using inc unfolding not_increasing_def by blast
    then show ?thesis using that by (simp add: breaks)
  qed
  then have "sorted_wrt (<) bs" by (simp add: sorted_wrt_iff_nth_Suc_transp)
  with breaks show ?thesis by blast
qed

text \<open>
  Breaks an agent sets are the breaks the map draws: after a style command that sets breaks
  and is accepted, the style's text reads back as exactly these breaks, whatever style and mode
  the layer had before.
\<close>

theorem style_breaks_roundtrip:
  assumes "setLayerStyle i update ws = Inr ws'" "lu_breaks update = Some breaks" "breaks \<noteq> []"
    and "\<forall>r. JsFin r \<in> set breaks \<longrightarrow> short_decimal r"
  shows "\<exists>s. map_of (ws_styles ws') i = Some s \<and> parseBreaks (st_breaksText s) = breaks"
proof -
  obtain target u where u: "assertValidLayerStyleUpdate target u = None" "lu_breaks u = Some breaks"
    "ws_styles ws' = map_set i (restyle target u (style_for (ws_styles ws) i)) (ws_styles ws)"
    using assms(1,2) by (auto simp: setLayerStyle_def effective_update_def Let_def split: option.splits)
  obtain f where "validateBreaks breaks f = None"
    using u(1,2) by (auto simp: assertValidLayerStyleUpdate_def validateStyleBreaksAndPalette_def split: sum.splits)
  from validateBreaks_finite [OF this] obtain bs where bs: "breaks = map JsFin bs" "sorted_wrt (<) bs" by blast
  then have "parseBreaks (join '', '' (map js_String_number breaks)) = breaks"
    using parseBreaks_join [of bs] assms(3,4) by (auto simp: comp_def)
  moreover have "st_breaksText (restyle target u s) = join '', '' (map js_String_number breaks)" for s
    using u(2) by (simp add: restyle_def applyStyleUpdate_def updated_def Let_def)
  ultimately show ?thesis by (simp add: u(3))
qed

theorem style_breaks_roundtrip_witness:
  "\<exists>ws'. setLayerStyle ''v'' sample_update (render [sample_vector_layer] (new_workspace [])) = Inr ws' \<and>
     (\<exists>s. map_of (ws_styles ws') ''v'' = Some s \<and> parseBreaks (st_breaksText s) = [JsFin 1, JsFin (5/2)])"
proof -
  let ?r = "setLayerStyle ''v'' sample_update (render [sample_vector_layer] (new_workspace []))"
  have ok: "case ?r of Inl m \<Rightarrow> False | Inr w \<Rightarrow> True" by code_simp
  from ok obtain ws' where ws': "?r = Inr ws'" by (auto split: sum.splits)
  have short: "\<forall>r. JsFin r \<in> set [JsFin 1, JsFin (5/2)] \<longrightarrow> short_decimal r"
  proof (intro allI impI)
    fix r
    assume "JsFin r \<in> set [JsFin 1, JsFin (5/2)]"
    then have "r = 1 \<or> r = 5/2" by (simp only: set_simps insert_iff empty_iff js_number.inject) blast
    moreover have "short_decimal 1" by (rule short_decimalI [of _ "10 ^ 20"]) simp
    moreover have "short_decimal (5/2)" by (rule short_decimalI [of _ "25 * 10 ^ 19"]) simp
    ultimately show "short_decimal r" by blast
  qed
  have "lu_breaks sample_update = Some [JsFin 1, JsFin (5/2)]" by (simp add: sample_update_def)
  from style_breaks_roundtrip [OF ws' this _ short] ws' show ?thesis by blast
qed

section \<open>Commands before a render\<close>

text \<open>
  The refs are as of the last render, but \<open>setState\<close> with a list replaces what the queue holds:
  a layer that was added since the last render is lost when the layers are reordered.
\<close>

theorem reorder_loses_unrendered_layer:
  "map ll_id (ws_layers sample_workspace) = [''a'', ''b''] \<and>
   map ll_id (ws_layers (workspace_step (Command (Reorder [''a''])) sample_workspace)) = [''a'']"
proof (rule conjI)
  show "map ll_id (ws_layers sample_workspace) = [''a'', ''b'']" by code_simp
  show "map ll_id (ws_layers (workspace_step (Command (Reorder [''a''])) sample_workspace)) = [''a'']" by code_simp
qed

end
