(* ===== verification/WebMcpTools.thy ===== *)
theory WebMcpTools
  imports WebMcpResult MapWorkspace
begin

text \<open>
  The map tools and query tools of WebMCP, \<open>webapp/src/lib/webmcp/mapTools.ts\<close> and
  \<open>queryTools.ts\<close>: what an agent reads of the map and of query pages, and the tools that run
  commands of the workspace. Tool inputs have passed their schemas.
\<close>

section \<open>Reading the map\<close>

definition member :: "string \<Rightarrow> json option \<Rightarrow> (string \<times> json) list" where
  "member k v = (case v of None \<Rightarrow> [] | Some j \<Rightarrow> [(k, j)])"

definition jnull :: "('a \<Rightarrow> json) \<Rightarrow> 'a option \<Rightarrow> json" where
  "jnull f v = (case v of None \<Rightarrow> JNull | Some x \<Rightarrow> f x)"

definition jnat :: "nat \<Rightarrow> json" where "jnat n = JNum (JsFin (of_nat n))"
definition jint :: "int \<Rightarrow> json" where "jint n = JNum (JsFin (of_int n))"

text \<open>The fields of a style as the tools name them; a property may be null (\<open>Some None\<close>).\<close>

record tool_style =
  ts_color_property :: "string option option"
  ts_color_scheme :: "string option"
  ts_color_mode :: "string option"
  ts_breaks :: "js_number list option"
  ts_break_mode :: "string option"
  ts_opacity :: "js_number option"
  ts_radius :: "js_number option"
  ts_line_width :: "js_number option"
  ts_radius_property :: "string option option"
  ts_line_width_property :: "string option option"
  ts_radius_scale :: "string option"
  ts_line_width_scale :: "string option"

record tool_style_layer =
  tl_style_layer_id :: string
  tl_source_layer_id :: "string option"
  tl_fields :: "string list"
  tl_numeric_fields :: "numeric_field list"
  tl_style :: "tool_style option"

record tool_layer =
  tm_id :: "string option"
  tm_map_layer_id :: "string option"
  tm_label :: string
  tm_kind :: layer_kind_tag
  tm_visible :: bool
  tm_status :: "string option"
  tm_error :: "string option"
  tm_query_id :: "string option"
  tm_style_layers :: "tool_style_layer list option"

record tool_selection =
  tf_loadedLayerId :: string
  tf_sourceLayerId :: string
  tf_featureId :: string
  tf_properties :: "(string \<times> string) list"
  tf_sourceKind :: "string option"
  tf_queryId :: "string option"

record tool_camera =
  tc_center :: "js_number \<times> js_number"
  tc_zoom :: js_number
  tc_bearing :: js_number
  tc_pitch :: js_number

record current_result =
  cu_query_id :: string
  cu_offset :: nat
  cu_limit :: nat
  cu_returned_count :: nat
  cu_has_more :: bool
  cu_map_layer_id :: "string option option"

record tool_state =
  to_layers :: "tool_layer list"
  to_basemap :: string
  to_selected_feature_count :: nat
  to_camera :: "tool_camera option"
  to_selected_features :: "tool_selection list option"
  to_current_result :: "current_result option option"

definition mapLayerId :: "tool_layer \<Rightarrow> string" where
  "mapLayerId l = (case tm_map_layer_id l of Some i \<Rightarrow> i
     | None \<Rightarrow> (case tm_id l of Some i \<Rightarrow> i | None \<Rightarrow> []))"

definition styleData :: "tool_style option \<Rightarrow> json option" where
  "styleData style = map_option (\<lambda>s. JObj
     (member ''color_property'' (map_option (jnull JStr) (ts_color_property s))
      @ member ''color_scheme'' (map_option JStr (ts_color_scheme s))
      @ member ''color_mode'' (map_option JStr (ts_color_mode s))
      @ member ''breaks'' (map_option (\<lambda>bs. JArr (map JNum bs)) (ts_breaks s))
      @ member ''break_mode'' (map_option JStr (ts_break_mode s))
      @ member ''opacity'' (map_option JNum (ts_opacity s))
      @ member ''radius'' (map_option JNum (ts_radius s))
      @ member ''line_width'' (map_option JNum (ts_line_width s))
      @ member ''radius_property'' (map_option (jnull JStr) (ts_radius_property s))
      @ member ''line_width_property'' (map_option (jnull JStr) (ts_line_width_property s))
      @ member ''radius_scale'' (map_option JStr (ts_radius_scale s))
      @ member ''line_width_scale'' (map_option JStr (ts_line_width_scale s)))) style"

definition styleLayerData :: "tool_style_layer \<Rightarrow> json" where
  "styleLayerData sl = JObj
     ([(''style_layer_id'', JStr (tl_style_layer_id sl)),
       (''fields'', JArr (map JStr (tl_fields sl))),
       (''numeric_fields'', JArr (map (\<lambda>f. JObj ([(''name'', JStr (nf_name f))]
           @ member ''min'' (map_option JNum (nf_min f)) @ member ''max'' (map_option JNum (nf_max f))))
         (tl_numeric_fields sl)))]
      @ member ''source_layer_id'' (map_option JStr (tl_source_layer_id sl))
      @ member ''style'' (styleData (tl_style sl)))"

fun kind_name :: "layer_kind_tag \<Rightarrow> string" where
  "kind_name CatalogKind = ''catalog_pmtiles''"
| "kind_name QueryKind = ''query_mvt''"

definition mapLayerData :: "tool_layer \<Rightarrow> json" where
  "mapLayerData l = JObj
     ([(''map_layer_id'', JStr (mapLayerId l)), (''label'', JStr (tm_label l)),
       (''kind'', JStr (kind_name (tm_kind l))), (''visible'', JBool (tm_visible l))]
      @ member ''status'' (map_option JStr (tm_status l))
      @ member ''error'' (map_option (\<lambda>e. JStr (take 500 e)) (tm_error l))
      @ member ''query_id'' (map_option JStr (tm_query_id l))
      @ member ''style_layers'' (map_option (\<lambda>sls. JArr (map styleLayerData sls)) (tm_style_layers l)))"

definition camera_json :: "tool_camera \<Rightarrow> (string \<times> json) list" where
  "camera_json c = [(''center'', JArr [JNum (fst (tc_center c)), JNum (snd (tc_center c))]),
     (''zoom'', JNum (tc_zoom c)), (''bearing'', JNum (tc_bearing c)), (''pitch'', JNum (tc_pitch c))]"

definition stateData :: "tool_state \<Rightarrow> json" where
  "stateData st = JObj
     ([(''basemap'', JStr (to_basemap st)), (''layers'', JArr (map mapLayerData (to_layers st))),
       (''selected_feature_count'', jnat (to_selected_feature_count st)),
       (''camera'', jnull (\<lambda>c. JObj (camera_json c)) (to_camera st))]
      @ member ''current_result'' (map_option (jnull (\<lambda>r. JObj
          ([(''query_id'', JStr (cu_query_id r)), (''offset'', jnat (cu_offset r)), (''limit'', jnat (cu_limit r)),
            (''returned_count'', jnat (cu_returned_count r)), (''has_more'', JBool (cu_has_more r))]
           @ member ''map_layer_id'' (map_option (jnull JStr) (cu_map_layer_id r))))) (to_current_result st)))"

text \<open>\<open>pending\<close> holds the layers that were added but are not in the page's state yet.\<close>

definition withPendingLayers :: "tool_state \<Rightarrow> (string \<times> tool_layer) list \<Rightarrow> tool_state" where
  "withPendingLayers st pending =
     (let loaded = set_from_list (map mapLayerId (to_layers st));
          missing = filter (\<lambda>l. mapLayerId l \<notin> set loaded) (map snd pending) in
      if missing = [] then st else st\<lparr>to_layers := to_layers st @ missing\<rparr>)"

text \<open>The effect that drops pending layers once the page has them.\<close>

definition settle_pending :: "tool_layer list \<Rightarrow> (string \<times> tool_layer) list \<Rightarrow> (string \<times> tool_layer) list" where
  "settle_pending layers pending = foldl (\<lambda>p l. map_delete (mapLayerId l) p) pending layers"

definition getMapState :: "tool_state \<Rightarrow> (string \<times> tool_layer) list \<Rightarrow> tool_result" where
  "getMapState st pending = success ''Map state loaded.'' (stateData (withPendingLayers st pending))"

definition selectionData :: "tool_state \<Rightarrow> nat \<Rightarrow> nat \<Rightarrow> json" where
  "selectionData st offset limit =
     (let features = (case to_selected_features st of None \<Rightarrow> [] | Some fs \<Rightarrow> fs);
          page = take limit (drop offset features) in
      JObj [(''offset'', jnat offset), (''limit'', jnat limit), (''returned_count'', jnat (length page)),
        (''total_count'', jnat (to_selected_feature_count st)),
        (''has_more'', JBool (offset + length page < to_selected_feature_count st)),
        (''features'', JArr (map (\<lambda>f. JObj
           ([(''feature_id'', JStr (tf_featureId f)), (''map_layer_id'', JStr (tf_loadedLayerId f)),
             (''source_layer_id'', JStr (tf_sourceLayerId f)),
             (''properties'', JObj (map (apsnd JStr) (tf_properties f)))]
            @ member ''source_kind'' (map_option JStr (tf_sourceKind f))
            @ member ''query_id'' (map_option JStr (tf_queryId f)))) page))])"

section \<open>Changing the map\<close>

definition mapFailure :: "map_error \<Rightarrow> tool_result" where
  "mapFailure e = (case e of
     CommandError m \<Rightarrow> failure InvalidRequest ''The requested map change is invalid.''
   | PlainError m \<Rightarrow> failure InternalError DEFAULT_INTERNAL_ERROR)"

text \<open>The keys of the object are those of its fields that are present.\<close>

definition present :: "string \<Rightarrow> 'a option \<Rightarrow> string list" where
  "present k v = (if v = None then [] else [k])"

definition styleUpdate :: "tool_style \<Rightarrow> style_update" where
  "styleUpdate s =
     \<lparr>lu_keys = present ''colorProperty'' (ts_color_property s) @ present ''colorScheme'' (ts_color_scheme s)
        @ present ''colorMode'' (ts_color_mode s) @ present ''breaks'' (ts_breaks s)
        @ present ''breakMode'' (ts_break_mode s) @ present ''opacity'' (ts_opacity s)
        @ present ''radius'' (ts_radius s) @ present ''lineWidth'' (ts_line_width s)
        @ present ''radiusProperty'' (ts_radius_property s) @ present ''lineWidthProperty'' (ts_line_width_property s)
        @ present ''radiusScale'' (ts_radius_scale s) @ present ''lineWidthScale'' (ts_line_width_scale s),
      lu_colorMode = ts_color_mode s, lu_colorProperty = ts_color_property s, lu_colorScheme = ts_color_scheme s,
      lu_breaks = ts_breaks s, lu_breakMode = ts_break_mode s, lu_opacity = ts_opacity s, lu_radius = ts_radius s,
      lu_lineWidth = ts_line_width s, lu_radiusProperty = ts_radius_property s,
      lu_lineWidthProperty = ts_line_width_property s, lu_radiusScale = ts_radius_scale s,
      lu_lineWidthScale = ts_line_width_scale s\<rparr>"

record camera_request =
  cr_center :: "js_point option"
  cr_bounds :: "js_bounds option"
  cr_map_layer_ids :: "string list option"
  cr_feature_id :: "string option"
  cr_zoom :: "js_number option"
  cr_bearing :: "js_number option"
  cr_pitch :: "js_number option"
  cr_padding :: "js_number option"

definition cameraInput :: "camera_request \<Rightarrow> map_error + camera_input" where
  "cameraInput r =
     (if count_true [cr_center r \<noteq> None, cr_bounds r \<noteq> None, cr_map_layer_ids r \<noteq> None, cr_feature_id r \<noteq> None] \<noteq> 1
      then Inl (CommandError ''camera requires exactly one target'')
      else Inr \<lparr>ci_target = None, ci_bounds = cr_bounds r, ci_center = cr_center r, ci_layerIds = cr_map_layer_ids r,
        ci_featureId = cr_feature_id r, ci_zoom = cr_zoom r, ci_bearing = cr_bearing r, ci_pitch = cr_pitch r,
        ci_padding = cr_padding r\<rparr>)"

text \<open>A tool around a command that returns nothing: \<open>message\<close> and \<open>data\<close> on success.\<close>

definition command_tool :: "string \<Rightarrow> json \<Rightarrow> map_error + workspace \<Rightarrow> workspace \<Rightarrow> tool_result \<times> workspace" where
  "command_tool message data outcome ws =
     (case outcome of Inl e \<Rightarrow> (mapFailure e, ws) | Inr ws' \<Rightarrow> (success message data, ws'))"

definition removeLayer_tool :: "string \<Rightarrow> workspace \<Rightarrow> tool_result \<times> workspace" where
  "removeLayer_tool i ws =
     command_tool ''Map layer removed.'' (JObj [(''map_layer_id'', JStr i)]) (removeLayer i ws) ws"

definition setVisibility_tool :: "string \<Rightarrow> bool \<Rightarrow> workspace \<Rightarrow> tool_result \<times> workspace" where
  "setVisibility_tool i visible ws =
     command_tool ''Map layer visibility updated.'' (JObj [(''map_layer_id'', JStr i), (''visible'', JBool visible)])
       (setLayerVisibility i visible ws) ws"

definition setStyle_tool :: "string \<Rightarrow> tool_style \<Rightarrow> workspace \<Rightarrow> tool_result \<times> workspace" where
  "setStyle_tool i style ws =
     command_tool ''Map layer style updated.'' (JObj [(''style_layer_id'', JStr i)])
       (setLayerStyle i (styleUpdate style) ws) ws"

definition reorderLayers_tool :: "string list \<Rightarrow> workspace \<Rightarrow> tool_result \<times> workspace" where
  "reorderLayers_tool order ws =
     command_tool ''Map layer order updated.'' (JObj [(''map_layer_ids'', JArr (map JStr order))])
       (reorderLayers order ws) ws"

definition setBasemap_tool :: "string \<Rightarrow> workspace \<Rightarrow> tool_result \<times> workspace" where
  "setBasemap_tool m ws = command_tool ''Basemap updated.'' (JObj [(''mode'', JStr m)]) (setBasemap m ws) ws"

text \<open>\<open>moved\<close> is where the map ends, once \<open>waitForMapMovement\<close> has settled.\<close>

definition setCamera_tool ::
  "camera_request \<Rightarrow> (camera_input \<Rightarrow> map_error + tool_camera) \<Rightarrow> tool_result" where
  "setCamera_tool r moved =
     (case cameraInput r of Inl e \<Rightarrow> mapFailure e
      | Inr input \<Rightarrow>
          (case moved input of Inl e \<Rightarrow> mapFailure e
           | Inr camera \<Rightarrow> success ''Map camera updated.'' (JObj (camera_json camera))))"

text \<open>
  \<open>addCatalogLayer\<close> from the answer of \<open>resolveDatasetLayer\<close> on: the continuation of the
  \<open>await\<close> runs before React renders. The third component are the pending layers of the tool.
\<close>

definition added_layer :: "layer_summary \<Rightarrow> bool option \<Rightarrow> tool_layer" where
  "added_layer layer visible =
     \<lparr>tm_id = None, tm_map_layer_id = Some (ls_id layer), tm_label = ls_label layer, tm_kind = ls_kind layer,
      tm_visible = (case visible of None \<Rightarrow> ls_visible layer | Some v \<Rightarrow> v), tm_status = None, tm_error = None,
      tm_query_id = None, tm_style_layers = None\<rparr>"

definition addCatalogLayer_end ::
  "bool option \<Rightarrow> layer_input \<Rightarrow> map_error + loaded_layer option \<Rightarrow> workspace \<Rightarrow> (string \<times> tool_layer) list
   \<Rightarrow> tool_result \<times> workspace \<times> (string \<times> tool_layer) list" where
  "addCatalogLayer_end visible input answer ws pending =
     (case addDatasetLayer_end input answer ws of
        (Inl e, ws1) \<Rightarrow> (mapFailure e, ws1, pending)
      | (Inr layer, ws1) \<Rightarrow>
          (let shown_layer = added_layer layer visible;
               done = (\<lambda>w. (success ''Dataset layer added.'' (JObj [(''layer'', mapLayerData shown_layer)]), w,
                            map_set (mapLayerId shown_layer) shown_layer pending)) in
           case visible of
             Some v \<Rightarrow>
               if v \<noteq> ls_visible layer then
                 (case setLayerVisibility (ls_id layer) v ws1 of
                    Inl e \<Rightarrow> (mapFailure e, ws1, pending)
                  | Inr ws2 \<Rightarrow> done ws2)
               else done ws1
           | None \<Rightarrow> done ws1))"

text \<open>
  The tool: \<open>resolver\<close> is absent when the page has none; otherwise it answers with the input of the
  command or throws, before the command starts. \<open>load\<close> is what the command's own \<open>await\<close> gives.
\<close>

definition addLayer_tool ::
  "(map_error + layer_input) option \<Rightarrow> bool option \<Rightarrow> map_error + loaded_layer option \<Rightarrow> workspace
   \<Rightarrow> (string \<times> tool_layer) list \<Rightarrow> tool_result \<times> workspace \<times> (string \<times> tool_layer) list" where
  "addLayer_tool resolver visible answer ws pending =
     (case resolver of
        None \<Rightarrow> (failure UnsupportedState ''Catalog layer resolution is unavailable.'', ws, pending)
      | Some (Inl e) \<Rightarrow> (mapFailure e, ws, pending)
      | Some (Inr input) \<Rightarrow>
          (case addDatasetLayer_begin input ws of
             Inl e \<Rightarrow> (mapFailure e, ws, pending)
           | Inr ws1 \<Rightarrow> addCatalogLayer_end visible input answer ws1 pending))"

definition getSelection_tool :: "tool_state \<Rightarrow> nat \<Rightarrow> nat \<Rightarrow> tool_result" where
  "getSelection_tool st offset limit = success ''Map selection loaded.'' (selectionData st offset limit)"

text \<open>\<open>clear\<close> is the page's own reset of the selection, in a state of any type.\<close>

definition clearSelection_tool :: "('s \<Rightarrow> 's) \<Rightarrow> 's \<Rightarrow> tool_result \<times> 's" where
  "clearSelection_tool clear st =
     (success ''Map selection cleared.'' (JObj [(''selected_feature_count'', jnat 0)]), clear st)"

section \<open>Query tools\<close>

record query_column =
  qc_name :: string
  qc_type :: string
  qc_nullable :: bool

record query_page =
  pg_query_id :: string
  pg_columns :: "query_column list"
  pg_offset :: nat
  pg_limit :: nat
  pg_returned_count :: nat
  pg_has_more :: bool
  pg_next_offset :: "nat option"
  pg_warnings :: "string list"
  pg_elapsed_ms :: js_number
  pg_response_truncated :: bool
  pg_geometry_column :: "string option"
  pg_rows :: "(string \<times> json) list list"

definition MAX_WARNING_COUNT :: nat where "MAX_WARNING_COUNT = 10"
definition MAX_WARNING_LENGTH :: nat where "MAX_WARNING_LENGTH = 160"

text \<open>A value in a template string.\<close>

fun template_string :: "json \<Rightarrow> string" where
  "template_string JNull = ''null''"
| "template_string (JBool b) = show_bool b"
| "template_string (JNum n) = js_String_number n"
| "template_string (JStr s) = s"
| "template_string (JArr xs) = join '','' (map (\<lambda>x. if x = JNull then [] else template_string x) xs)"
| "template_string (JObj ms) = ''[object Object]''"

fun previewCell :: "json \<Rightarrow> json" where
  "previewCell (JArr xs) = JStr ''[array]''"
| "previewCell (JObj ms) =
     (case map_of ms ''$type'' of
        Some t \<Rightarrow> JStr (''['' @ template_string t @ '']'')
      | None \<Rightarrow> JStr ''[object]'')"
| "previewCell v = v"

definition previewRows :: "query_page \<Rightarrow> nat \<Rightarrow> json list" where
  "previewRows page maximum =
     map (\<lambda>row. JObj (foldl (\<lambda>preview column.
            map_set (qc_name column)
              (previewCell (case map_of row (qc_name column) of None \<Rightarrow> JNull | Some v \<Rightarrow> v)) preview)
          [] (pg_columns page)))
       (take maximum (pg_rows page))"

definition boundedWarnings :: "string list \<Rightarrow> string list" where
  "boundedWarnings warnings = map (take MAX_WARNING_LENGTH) (take MAX_WARNING_COUNT warnings)"

datatype result_status = RowsReturned | EmptyResult | EmptyPage | Indeterminate

definition resultStatus :: "query_page \<Rightarrow> result_status" where
  "resultStatus page =
     (if pg_returned_count page > 0 then RowsReturned
      else if pg_response_truncated page \<or> pg_has_more page then Indeterminate
      else if pg_offset page = 0 then EmptyResult else EmptyPage)"

fun status_name :: "result_status \<Rightarrow> string" where
  "status_name RowsReturned = ''rows_returned''"
| "status_name EmptyResult = ''empty_result''"
| "status_name EmptyPage = ''empty_page''"
| "status_name Indeterminate = ''indeterminate''"

definition runResult :: "query_page \<Rightarrow> bool \<Rightarrow> json" where
  "runResult page mapAdded = JObj
     ([(''query_id'', JStr (pg_query_id page)),
       (''columns'', JArr (map (\<lambda>c. JObj [(''name'', JStr (qc_name c)), (''type'', JStr (qc_type c)),
          (''nullable'', JBool (qc_nullable c))]) (pg_columns page))),
       (''offset'', jnat (pg_offset page)), (''limit'', jnat (pg_limit page)),
       (''returned_count'', jnat (pg_returned_count page)),
       (''result_status'', JStr (status_name (resultStatus page))), (''has_more'', JBool (pg_has_more page))]
      @ member ''next_offset'' (map_option jnat (pg_next_offset page))
      @ [(''warning_count'', jnat (length (pg_warnings page))),
       (''warnings'', JArr (map JStr (boundedWarnings (pg_warnings page)))),
       (''elapsed_ms'', JNum (pg_elapsed_ms page)),
       (''response_truncated'', JBool (pg_response_truncated page)),
       (''map_available'', JBool (pg_geometry_column page \<noteq> None)),
       (''map_added'', JBool (mapAdded \<and> pg_geometry_column page \<noteq> None)),
       (''preview_rows'', JArr (previewRows page 5))])"

definition pageResult :: "query_page \<Rightarrow> json" where
  "pageResult page = JObj
     [(''offset'', jnat (pg_offset page)), (''page_size'', jnat (pg_limit page)),
      (''returned_count'', jnat (pg_returned_count page)),
      (''result_status'', JStr (status_name (resultStatus page))), (''has_more'', JBool (pg_has_more page)),
      (''preview_rows'', JArr (previewRows page 2))]"

text \<open>What a query throws: a \<open>QueryApiError\<close> with status, code and message, or anything else.\<close>

datatype query_error = QueryApiError nat string string | OtherQueryError

definition unavailable :: tool_result where
  "unavailable = failure UpstreamUnavailable ''The query service is temporarily unavailable.''"

definition queryFailure :: "query_error \<Rightarrow> tool_result" where
  "queryFailure e = (case e of
     OtherQueryError \<Rightarrow> unavailable
   | QueryApiError status code message \<Rightarrow>
       if code = ''query_timeout'' then failure QueryTimeout (take 500 message)
       else if status = 400 \<or> status = 401 \<or> status = 403 then failure QueryRejected (take 500 message)
       else if status = 404 then failure NotFound ''The requested query was not found.''
       else if status = 429 then failure RateLimited ''The query service is rate limited.''
       else if status = 503 \<and> code = ''worker_unavailable''
       then failure QueryCapacity ''The query service is temporarily at capacity.''
       else unavailable)"

text \<open>
  The tools: \<open>answer\<close> is how the query ended and \<open>aborted\<close> whether the signal is aborted then;
  \<open>None\<close> is the rethrown error.
\<close>

definition executeQueryTool :: "bool option \<Rightarrow> query_error + query_page \<Rightarrow> bool \<Rightarrow> tool_result option" where
  "executeQueryTool requestedShowOnMap answer aborted =
     (let showOnMap = (case requestedShowOnMap of None \<Rightarrow> True | Some b \<Rightarrow> b) in
      case answer of
        Inr page \<Rightarrow> Some (success
          (if resultStatus page = EmptyResult
           then ''The query returned no rows. Inspect stored filter values before changing the query.''
           else ''Query completed. Adding a map layer does not confirm its tiles have loaded; check get_map_state.'')
          (runResult page showOnMap))
      | Inl e \<Rightarrow> if aborted then None else Some (queryFailure e))"

definition executeQueryPageTool :: "query_error + query_page \<Rightarrow> bool \<Rightarrow> tool_result option" where
  "executeQueryPageTool answer aborted =
     (case answer of
        Inr page \<Rightarrow> Some (success ''Query page loaded.'' (pageResult page))
      | Inl e \<Rightarrow> if aborted then None else Some (queryFailure e))"

section \<open>Adding a hidden layer\<close>

lemma find_summaries: "List.find (\<lambda>l. ls_id l = i) (summaries layers) = None \<longleftrightarrow> i \<notin> set (map ll_id layers)"
  by (auto simp: find_None_iff summaries_def)

lemma addDatasetLayer_end_Inr:
  assumes "addDatasetLayer_end input answer ws = (Inr layer, ws1)"
  shows "ls_id layer \<notin> set (map ll_id (ws_layersRef ws1))" "ws_layersRef ws1 = ws_layersRef ws"
    "\<exists>l \<in> set (ws_layers ws1). ll_id l = ls_id layer" "trim (ls_id layer) \<noteq> []"
proof -
  obtain l where l: "answer = Inr (Some l)" "assertValidAddDatasetLayer
      \<lparr>li_layerId = ll_id l, li_label = ll_label l, li_kind = Some (kind_of l)\<rparr> (summaries (ws_layersRef ws)) = None"
    "ls_id layer = ll_id l" "ws_layersRef ws1 = ws_layersRef ws" "ws_layers ws1 = add_resolved l (ws_layers ws)"
    using assms by (auto simp: addDatasetLayer_end_def Let_def split: sum.splits option.splits if_splits)
  then show "ls_id layer \<notin> set (map ll_id (ws_layersRef ws1))" "ws_layersRef ws1 = ws_layersRef ws"
    "\<exists>l \<in> set (ws_layers ws1). ll_id l = ls_id layer" "trim (ls_id layer) \<noteq> []"
    by (auto simp: assertValidAddDatasetLayer_def summaries_def add_resolved_def split: if_splits)
qed

text \<open>
  Adding a dataset layer with \<open>visible: false\<close> always ends in the failure
  \<open>invalid_request\<close>, although the layer has been added and is shown: the visibility is set
  before React has rendered the new layer, so the command does not find it.
\<close>

theorem hidden_layer_add_fails:
  assumes "addDatasetLayer_end input answer ws = (Inr layer, ws1)" and "visible \<noteq> ls_visible layer"
  shows "addCatalogLayer_end (Some visible) input answer ws pending
      = (failure InvalidRequest ''The requested map change is invalid.'', ws1, pending) \<and>
    ls_id layer \<in> ll_id ` set (ws_layers ws1)"
proof -
  note added = addDatasetLayer_end_Inr [OF assms(1)]
  have "setLayerVisibility (ls_id layer) visible ws1
      = Inl (CommandError (''layer '' @ ls_id layer @ '' does not exist''))"
    using added(1,4) find_summaries [of "ls_id layer" "ws_layersRef ws1"]
    by (simp add: setLayerVisibility_def assertValidLayerVisibility_def layerById_def message_of_def)
  moreover have "ls_id layer \<in> ll_id ` set (ws_layers ws1)" using added(3) by (metis imageI)
  ultimately show ?thesis using assms by (simp add: addCatalogLayer_end_def mapFailure_def)
qed

theorem hidden_layer_add_fails_witness:
  "fst (addCatalogLayer_end (Some False) (sample_input ''b'') (Inr (Some (sample_map_layer ''b'')))
      (new_workspace []) []) = failure InvalidRequest ''The requested map change is invalid.''"
proof -
  let ?added = "addDatasetLayer_end (sample_input ''b'') (Inr (Some (sample_map_layer ''b''))) (new_workspace [])"
  have ok: "case fst ?added of Inl e \<Rightarrow> False | Inr l \<Rightarrow> ls_visible l" by code_simp
  obtain r w where rw: "?added = (r, w)" by (metis surj_pair)
  with ok obtain l where l: "?added = (Inr l, w)" "ls_visible l" by (cases r) auto
  then show ?thesis using hidden_layer_add_fails [OF l(1), of False "[]"] by simp
qed

end
