(* ===== verification/JsUrl.thy ===== *)
theory JsUrl
  imports JsJson
begin

text \<open>
  What the code uses of \<open>URL\<close> and \<open>URLSearchParams\<close>: a query string of name-value pairs in the
  form encoding, with the text of a URL in front of it. Path segments are not normalised, so a
  segment is neither \<open>.\<close> nor \<open>..\<close>.
\<close>

type_synonym search_params = "(string \<times> string) list"

section \<open>Parsed URLs\<close>

text \<open>
  The parts of a \<open>URL\<close> object, and the two ways to parse one, \<open>new URL(text)\<close> and
  \<open>new URL(text, base)\<close>; the models that need them take them as a parameter.
\<close>

record web_url =
  wu_origin :: string
  wu_pathname :: string
  wu_search :: string
  wu_hash :: string

record url_library =
  parse_url :: "string \<Rightarrow> web_url option"
  resolve_url :: "string \<Rightarrow> web_url \<Rightarrow> web_url option"

section \<open>Form encoding\<close>

definition form_unreserved :: "char \<Rightarrow> bool" where
  "form_unreserved c \<longleftrightarrow> is_digit c \<or> is_lower_alpha c \<or> is_upper_alpha c \<or>
     c \<in> {CHR ''*'', CHR ''-'', CHR ''.'', CHR ''_''}"

definition form_char :: "char \<Rightarrow> string" where
  "form_char c =
     (let n = code_unit c in
      if c = CHR '' '' then ''+''
      else if form_unreserved c then [c]
      else if n < 128 then percent_byte n
      else percent_byte (192 + n div 64) @ percent_byte (128 + n mod 64))"

definition form_encode :: "string \<Rightarrow> string" where
  "form_encode s = concat (map form_char s)"

text \<open>
  Decoding: a \<open>%\<close> that starts no escape stands for itself; \<open>None\<close> when the text decodes to a
  character above U+00FF, the replacement character included.
\<close>

fun form_decode :: "string \<Rightarrow> string option" where
  "form_decode [] = Some []"
| "form_decode (c # s) =
     (if c = CHR ''+'' then map_option ((#) CHR '' '') (form_decode s)
      else if c \<noteq> CHR ''%'' then map_option ((#) c) (form_decode s)
      else (case s of
        a # b # t \<Rightarrow>
          (case hex2 a b of
             None \<Rightarrow> map_option ((#) c) (form_decode s)
           | Some n \<Rightarrow>
               if n < 128 then map_option ((#) (char_of n)) (form_decode t)
               else if n = 194 \<or> n = 195 then
                 (case t of
                    p # d # e # u \<Rightarrow>
                      if p \<noteq> CHR ''%'' then None
                      else (case hex2 d e of
                         None \<Rightarrow> None
                       | Some m \<Rightarrow>
                           if 128 \<le> m \<and> m < 192
                           then map_option ((#) (char_of ((n - 192) * 64 + (m - 128)))) (form_decode u)
                           else None)
                  | _ \<Rightarrow> None)
               else None)
      | _ \<Rightarrow> map_option ((#) c) (form_decode s)))"

lemma form_decode_char: "form_decode (form_char c @ t) = map_option ((#) c) (form_decode t)"
proof -
  define n where "n = (of_char c :: nat)"
  have n: "n < 256" "char_of n = c" by (simp_all add: n_def)
  consider "c = CHR '' ''" | "c \<noteq> CHR '' ''" "form_unreserved c" | "c \<noteq> CHR '' ''" "\<not> form_unreserved c" "n < 128"
    | "c \<noteq> CHR '' ''" "\<not> form_unreserved c" "\<not> n < 128" by blast
  then show ?thesis
  proof cases
    case 1
    then show ?thesis by (simp add: form_char_def)
  next
    case 2
    then have "c \<noteq> CHR ''%'' \<and> c \<noteq> CHR ''+''"
      by (auto simp: form_unreserved_def is_digit_def is_lower_alpha_def is_upper_alpha_def)
    with 2 show ?thesis by (simp add: form_char_def Let_def)
  next
    case 3
    with n show ?thesis
      by (simp add: form_char_def percent_byte_def hex2_percent_byte n_def [symmetric])
  next
    case 4
    let ?a = "192 + n div 64" and ?b = "128 + n mod 64"
    have ab: "hex2 (upper_hex (?a div 16)) (upper_hex (?a mod 16)) = Some ?a"
      "hex2 (upper_hex (?b div 16)) (upper_hex (?b mod 16)) = Some ?b"
      by (rule hex2_percent_byte, use n in linarith)+
    have "n div 64 = 2 \<or> n div 64 = 3" using n 4 by linarith
    moreover have "(?a - 192) * 64 + (?b - 128) = n" by simp
    ultimately show ?thesis
      using 4 n ab by (simp add: form_char_def percent_byte_def n_def [symmetric])
  qed
qed

declare form_decode.simps(2) [simp del]

lemma form_decode_encode [simp]: "form_decode (form_encode s) = Some s"
proof (induction s)
  case (Cons c s)
  then show ?case by (simp add: form_encode_def form_decode_char)
qed (simp add: form_encode_def)

lemma form_encode_chars: "c \<in> set (form_encode s) \<Longrightarrow> form_unreserved c \<or> c = CHR ''%'' \<or> c = CHR ''+''"
proof -
  have "form_unreserved c \<or> c = CHR ''%'' \<or> c = CHR ''+''" if "c \<in> set (form_char x)" for x
  proof -
    define n where "n = (of_char x :: nat)"
    have "n < 256" by (simp add: n_def)
    then have b: "n div 16 < 16" "n mod 16 < 16" "(192 + n div 64) div 16 < 16" "(128 + n mod 64) div 16 < 16"
      "(192 + n div 64) mod 16 < 16" "(128 + n mod 64) mod 16 < 16" by linarith+
    from that b [THEN upper_hex_alnum] show ?thesis
      by (auto simp: form_char_def percent_byte_def form_unreserved_def Let_def n_def [symmetric] split: if_splits)
  qed
  then show "c \<in> set (form_encode s) \<Longrightarrow> ?thesis" by (auto simp: form_encode_def)
qed

lemma form_encode_no_special:
  assumes "c \<in> {CHR ''&'', CHR ''='', CHR ''#'', CHR ''?''}"
  shows "c \<notin> set (form_encode s)"
  using form_encode_chars [of c s] assms
  by (auto simp: form_unreserved_def is_digit_def is_lower_alpha_def is_upper_alpha_def)

section \<open>Query strings\<close>

definition form_pair :: "string \<times> string \<Rightarrow> string" where
  "form_pair kv = form_encode (fst kv) @ ''='' @ form_encode (snd kv)"

definition form_serialize :: "search_params \<Rightarrow> string" where
  "form_serialize ps = join ''&'' (map form_pair ps)"

definition parse_pair :: "string \<Rightarrow> (string \<times> string) option" where
  "parse_pair w =
     (case (form_decode (takeWhile (\<lambda>c. c \<noteq> CHR ''='') w), form_decode (drop 1 (dropWhile (\<lambda>c. c \<noteq> CHR ''='') w))) of
        (Some k, Some v) \<Rightarrow> Some (k, v)
      | _ \<Rightarrow> None)"

definition form_parse :: "string \<Rightarrow> search_params option" where
  "form_parse q = those (map parse_pair (filter (\<lambda>w. w \<noteq> []) (split_on CHR ''&'' q)))"

text \<open>\<open>params.set(k, v)\<close> writes the first pair of that name and drops the others.\<close>

fun params_set :: "string \<Rightarrow> string \<Rightarrow> search_params \<Rightarrow> search_params" where
  "params_set k v [] = [(k, v)]"
| "params_set k v (p # ps) =
     (if fst p = k then (k, v) # filter (\<lambda>q. fst q \<noteq> k) ps else p # params_set k v ps)"

text \<open>The text of a URL before its query, its parameters, and the URL of both.\<close>

definition url_base :: "string \<Rightarrow> string" where
  "url_base url = takeWhile (\<lambda>c. c \<noteq> CHR ''?'' \<and> c \<noteq> CHR ''#'') url"

definition url_params :: "string \<Rightarrow> search_params option" where
  "url_params url = form_parse (drop 1 (dropWhile (\<lambda>c. c \<noteq> CHR ''?'') (takeWhile (\<lambda>c. c \<noteq> CHR ''#'') url)))"

definition url_href :: "string \<Rightarrow> search_params \<Rightarrow> string" where
  "url_href base ps = base @ (if ps = [] then [] else CHR ''?'' # form_serialize ps)"

lemma map_of_params_set: "map_of (params_set k v ps) = (map_of ps)(k \<mapsto> v)"
proof (induction ps)
  case (Cons p ps)
  have "map_of (filter (\<lambda>q. fst q \<noteq> k) ps) x = (if x = k then None else map_of ps x)" for x
    by (induction ps) auto
  with Cons show ?case by (cases p) (auto simp: fun_eq_iff)
qed auto

lemma params_set_not_Nil [simp]: "params_set k v ps \<noteq> []"
  by (cases ps) auto

lemma parse_form_pair: "parse_pair (form_pair kv) = Some kv"
proof -
  have no: "\<forall>c \<in> set (form_encode s). c \<noteq> CHR ''=''" for s
    using form_encode_no_special [of "CHR ''=''" s] by auto
  show ?thesis by (simp add: parse_pair_def form_pair_def takeWhile_append2 no dropWhile_append2)
qed

lemma form_pair_chars:
  assumes "c \<in> {CHR ''&'', CHR ''#'', CHR ''?''}"
  shows "c \<notin> set (form_pair kv)"
  using form_encode_no_special [of c] assms by (auto simp: form_pair_def)

lemma set_join: "set (join sep ws) \<subseteq> set sep \<union> \<Union> (set ` set ws)"
  by (induction sep ws rule: join.induct) auto

lemma form_serialize_chars:
  assumes "c \<in> {CHR ''#'', CHR ''?''}"
  shows "c \<notin> set (form_serialize ps)"
  using set_join [of "''&''" "map form_pair ps"] form_pair_chars [of c] assms by (auto simp: form_serialize_def)

lemma form_parse_serialize: "form_parse (form_serialize ps) = Some ps"
proof (cases "ps = []")
  case False
  have "split_on CHR ''&'' (form_serialize ps) = map form_pair ps"
    unfolding form_serialize_def using form_pair_chars [of "CHR ''&''"] False by (intro split_on_join) auto
  moreover have "filter (\<lambda>w. w \<noteq> []) (map form_pair ps) = map form_pair ps"
    by (simp add: filter_id_conv form_pair_def)
  moreover have "those (map (\<lambda>kv. parse_pair (form_pair kv)) ps) = Some ps"
    by (induction ps) (simp_all add: parse_form_pair)
  ultimately show ?thesis by (simp add: form_parse_def comp_def)
qed (simp add: form_parse_def form_serialize_def)

text \<open>Reading back a URL that the code wrote.\<close>

lemma url_params_href:
  assumes "CHR ''?'' \<notin> set base" and "CHR ''#'' \<notin> set base"
  shows "url_params (url_href base ps) = Some ps"
proof -
  have "CHR ''#'' \<notin> set (url_href base ps)"
    using assms form_serialize_chars [of "CHR ''#''"] by (auto simp: url_href_def)
  then have "takeWhile (\<lambda>c. c \<noteq> CHR ''#'') (url_href base ps) = url_href base ps"
    by (auto simp: takeWhile_eq_all_conv)
  moreover have "dropWhile (\<lambda>c. c \<noteq> CHR ''?'') (url_href base ps) = (if ps = [] then [] else CHR ''?'' # form_serialize ps)"
  proof -
    have all: "\<And>c. c \<in> set base \<Longrightarrow> c \<noteq> CHR ''?''" using assms(1) by metis
    show ?thesis
    proof (cases "ps = []")
      case True
      then show ?thesis using all by (simp add: url_href_def dropWhile_eq_Nil_conv)
    next
      case False
      then have "url_href base ps = base @ CHR ''?'' # form_serialize ps" by (simp add: url_href_def)
      then show ?thesis using dropWhile_append2 [of base "\<lambda>c. c \<noteq> CHR ''?''", OF all] False by simp
    qed
  qed
  moreover have "drop 1 (if ps = [] then [] else CHR ''?'' # form_serialize ps) = form_serialize ps"
    by (simp add: form_serialize_def)
  ultimately show ?thesis by (simp only: url_params_def form_parse_serialize)
qed

end
