(* ===== verification/ApiLinks.thy ===== *)
theory ApiLinks
  imports JsUrl
begin

text \<open>
  The links of the public API, \<open>webapp/src/lib/api-links.ts\<close>: the URL of every resource, and the
  \<open>first\<close>, \<open>prev\<close>, \<open>next\<close> and \<open>last\<close> pages of a listing. Numbers are exact; in the program they
  are doubles, which agree up to \<open>2^53\<close>.
\<close>

section \<open>Resources\<close>

abbreviation enc :: "string \<Rightarrow> string" where "enc \<equiv> encodeURIComponent"

definition collectionSelf :: "string \<Rightarrow> string \<Rightarrow> string" where
  "collectionSelf origin collectionSlug = origin @ ''/api/collections/'' @ enc collectionSlug"

definition set_text :: "string \<Rightarrow> string option \<Rightarrow> search_params \<Rightarrow> search_params" where
  "set_text k v ps = (case v of None \<Rightarrow> ps | Some s \<Rightarrow> if s = [] then ps else params_set k s ps)"

definition set_number :: "string \<Rightarrow> int option \<Rightarrow> search_params \<Rightarrow> search_params" where
  "set_number k v ps = (case v of None \<Rightarrow> ps | Some n \<Rightarrow> params_set k (show_int n) ps)"

definition set_flag :: "string \<Rightarrow> bool \<Rightarrow> search_params \<Rightarrow> search_params" where
  "set_flag k b ps = (if b then params_set k ''true'' ps else ps)"

definition set_value :: "string \<Rightarrow> string option \<Rightarrow> search_params \<Rightarrow> search_params" where
  "set_value k v ps = (case v of None \<Rightarrow> ps | Some s \<Rightarrow> params_set k s ps)"

definition collectionDatasetsTagsSelf :: "string \<Rightarrow> string \<Rightarrow> string option \<Rightarrow> string" where
  "collectionDatasetsTagsSelf origin collectionSlug tagKey =
     url_href (origin @ ''/api/collections/'' @ enc collectionSlug @ ''/datasets/tags'') (set_text ''tag_key'' tagKey [])"

record list_params =
  lp_query :: "string option"
  lp_search :: "string option"
  lp_include_urls :: bool
  lp_limit :: "int option"
  lp_offset :: "int option"
  lp_tag_filters :: "string option"
  lp_omit :: "string option"

definition list_search_params :: "list_params \<Rightarrow> search_params" where
  "list_search_params p =
     set_text ''omit'' (lp_omit p)
       (set_text ''tag_filters'' (lp_tag_filters p)
         (set_number ''offset'' (lp_offset p)
           (set_number ''limit'' (lp_limit p)
             (set_flag ''include_urls'' (lp_include_urls p)
               (set_text ''query'' (case lp_query p of None \<Rightarrow> lp_search p | Some q \<Rightarrow> Some q) [])))))"

definition collectionDatasetsListUrl :: "string \<Rightarrow> string \<Rightarrow> list_params \<Rightarrow> string" where
  "collectionDatasetsListUrl origin collectionSlug p =
     url_href (origin @ ''/api/collections/'' @ enc collectionSlug @ ''/datasets'') (list_search_params p)"

definition datasetSelf :: "string \<Rightarrow> string \<Rightarrow> string \<Rightarrow> bool \<Rightarrow> string" where
  "datasetSelf origin collectionSlug datasetSlug include_urls =
     url_href (origin @ ''/api/collections/'' @ enc collectionSlug @ ''/datasets/'' @ enc datasetSlug)
       (set_flag ''include_urls'' include_urls [])"

definition fileSelf :: "string \<Rightarrow> string \<Rightarrow> string \<Rightarrow> string \<Rightarrow> string" where
  "fileSelf origin collectionSlug datasetSlug fileSlug =
     origin @ ''/api/collections/'' @ enc collectionSlug @ ''/datasets/'' @ enc datasetSlug @ ''/files/'' @ enc fileSlug"

definition datasetMetadataSelf :: "string \<Rightarrow> string \<Rightarrow> string \<Rightarrow> string" where
  "datasetMetadataSelf origin collectionSlug datasetSlug =
     datasetSelf origin collectionSlug datasetSlug False @ ''/metadata''"

text \<open>A version is a text here; a number is its decimal text.\<close>

definition fileMetadataSelf :: "string \<Rightarrow> string \<Rightarrow> string \<Rightarrow> string \<Rightarrow> string option \<Rightarrow> string" where
  "fileMetadataSelf origin collectionSlug datasetSlug fileSlug version =
     url_href (fileSelf origin collectionSlug datasetSlug fileSlug @ ''/metadata'') (set_value ''version'' version [])"

definition LOCAL_ORIGIN :: string where "LOCAL_ORIGIN = ''https://local.invalid''"

text \<open>\<open>pathname + search\<close> of a URL of that origin.\<close>

definition without_origin :: "string \<Rightarrow> string" where
  "without_origin url = drop (length LOCAL_ORIGIN) url"

definition fileMetadataPath :: "string \<Rightarrow> string \<Rightarrow> string \<Rightarrow> string option \<Rightarrow> string" where
  "fileMetadataPath collectionSlug datasetSlug fileSlug version =
     without_origin (fileMetadataSelf LOCAL_ORIGIN collectionSlug datasetSlug fileSlug version)"

definition schemaSelf ::
  "string \<Rightarrow> string \<Rightarrow> string \<Rightarrow> string \<Rightarrow> string option \<Rightarrow> int option \<Rightarrow> int option \<Rightarrow> string" where
  "schemaSelf origin collectionSlug datasetSlug fileSlug version column_offset column_limit =
     url_href (fileSelf origin collectionSlug datasetSlug fileSlug @ ''/schema'')
       (set_number ''column_limit'' column_limit
         (set_number ''column_offset'' column_offset (set_value ''version'' version [])))"

definition schemaPath ::
  "string \<Rightarrow> string \<Rightarrow> string \<Rightarrow> string option \<Rightarrow> int option \<Rightarrow> int option \<Rightarrow> string" where
  "schemaPath collectionSlug datasetSlug fileSlug version column_offset column_limit =
     without_origin (schemaSelf LOCAL_ORIGIN collectionSlug datasetSlug fileSlug version column_offset column_limit)"

definition sourceDownloadZip :: "string \<Rightarrow> string \<Rightarrow> string \<Rightarrow> string \<Rightarrow> string \<Rightarrow> string" where
  "sourceDownloadZip origin collectionSlug datasetSlug fileSlug sourceId =
     fileSelf origin collectionSlug datasetSlug fileSlug @ ''/sources/'' @ enc sourceId @ ''/download-zip''"

definition globalDatasetsListSelf :: "string \<Rightarrow> string option \<Rightarrow> string" where
  "globalDatasetsListSelf origin search = url_href (origin @ ''/api/datasets'') (set_text ''search'' search [])"

definition globalDatasetByIdSelf :: "string \<Rightarrow> string \<Rightarrow> string" where
  "globalDatasetByIdSelf origin i = origin @ ''/api/datasets/'' @ i"

definition globalDatasetStatsSelf :: "string \<Rightarrow> string" where
  "globalDatasetStatsSelf origin = origin @ ''/api/datasets/stats''"

definition openapiSpecSelf :: "string \<Rightarrow> string" where
  "openapiSpecSelf origin = origin @ ''/api/openapi''"

section \<open>Pages\<close>

type_synonym link_map = "(string \<times> string) list"

definition link_if :: "bool \<Rightarrow> string \<Rightarrow> string \<Rightarrow> link_map" where
  "link_if b rel href = (if b then [(rel, href)] else [])"

definition page_url :: "string \<Rightarrow> string \<Rightarrow> list_params \<Rightarrow> int \<Rightarrow> int \<Rightarrow> string" where
  "page_url origin collectionSlug base limit offset =
     collectionDatasetsListUrl origin collectionSlug (base\<lparr>lp_limit := Some limit, lp_offset := Some offset\<rparr>)"

definition last_offset :: "int \<Rightarrow> int \<Rightarrow> int" where
  "last_offset totalCount limit = (if totalCount > 0 then (totalCount - 1) div limit * limit else 0)"

definition collectionDatasetsPaginationLinks ::
  "string \<Rightarrow> string \<Rightarrow> list_params \<Rightarrow> int \<Rightarrow> int \<Rightarrow> int \<Rightarrow> link_map" where
  "collectionDatasetsPaginationLinks origin collectionSlug base totalCount limit offset =
     (if limit \<le> 0 then []
      else
        (let url = page_url origin collectionSlug base limit; last = last_offset totalCount limit in
         [(''first'', url 0), (''self'', url offset)]
         @ link_if (offset > 0) ''prev'' (url (max 0 (offset - limit)))
         @ link_if (offset + limit < totalCount) ''next'' (url (offset + limit))
         @ link_if (last \<noteq> offset \<or> totalCount = 0) ''last'' (url last)))"

definition buildLinkHeader :: "link_map \<Rightarrow> string option" where
  "buildLinkHeader links =
     (let parts = concat (map (\<lambda>rel. case map_of links rel of None \<Rightarrow> []
            | Some href \<Rightarrow> if href = [] then [] else [''<'' @ href @ ''>; rel=\"'' @ rel @ ''\"''])
          [''first'', ''prev'', ''next'', ''last''])
      in if parts = [] then None else Some (join '', '' parts))"

lemma parseInt_show_int: "0 \<le> n \<Longrightarrow> parseInt 10 (show_int n) = Some n"
proof -
  assume n: "0 \<le> n"
  have "radix_digit 10 c" if "is_digit c" for c
    using that by (auto simp: radix_digit_def hex_value_def is_digit_def split: option.split)
  then have all: "takeWhile (radix_digit 10) (show_nat m) = show_nat m" for m
    using show_nat_digits [of m] by (auto intro!: takeWhile_all simp: list_all_iff)
  have space: "trimStart (show_nat m) = show_nat m" for m
  proof -
    have "\<not> is_space (hd (show_nat m))"
      using show_nat_hd_digit [of m] by (auto simp: is_space_def is_digit_def)
    then show ?thesis by (cases "show_nat m") (auto simp: trimStart_def)
  qed
  have val: "radix_value 10 s = digits_value s" if "list_all is_digit s" for s
    using that
  proof (induction s rule: rev_induct)
    case (snoc c s)
    then show ?case by (simp add: radix_value_def digits_value_def hex_value_def is_digit_def)
  qed (simp add: radix_value_def digits_value_def)
  show ?thesis using n
    by (simp add: parseInt_def show_int_def space sign_split_digits [OF show_nat_digits] all
        val [OF show_nat_digits])
qed

end
