(* ===== verification/CatalogStore.thy ===== *)
theory CatalogStore
  imports JsJson "HOL-Library.List_Lexorder" "HOL-Library.Char_ord" "HOL-Library.Product_Lexorder"
begin

text \<open>
  The queries of \<open>SQLiteCatalogRepository\<close>, \<open>webapp/src/lib/catalog-repository.ts\<close>. The tables of
  the published database are lists of rows, and a \<open>SELECT\<close> is the list it returns: an inner join
  is a comprehension, \<open>ORDER BY\<close> a stable sort on the binary collation, \<open>LIMIT\<close> and \<open>OFFSET\<close> a
  window. The full-text index of SQLite is a parameter: which paths match a query, and \<open>bm25\<close>.
  Each query checks its rows against a zod schema; \<open>None\<close> is the exception when one fails.
\<close>

section \<open>Rows\<close>

record collection_row =
  co_path :: string
  co_slug :: string
  co_title :: string
  co_description :: string
  co_href :: string
  co_license :: "string option"
  co_created :: "string option"
  co_updated :: "string option"

record dataset_row =
  da_path :: string
  da_collection :: string
  da_slug :: string
  da_title :: string
  da_description :: string
  da_href :: string
  da_created :: "string option"
  da_updated :: "string option"

record file_row =
  fi_path :: string
  fi_dataset :: string
  fi_slug :: string
  fi_title :: string
  fi_description :: string
  fi_latest :: "string option"
  fi_created :: "string option"
  fi_updated :: "string option"

record version_row =
  ve_path :: string
  ve_file :: string
  ve_label :: string
  ve_href :: string
  ve_spatial :: string
  ve_bbox :: "string option"
  ve_geometry :: "string option"
  ve_features :: int
  ve_latest :: int

record tag_row =
  ta_path :: string
  ta_entity :: string
  ta_key :: string
  ta_value :: string

record column_row =
  cl_version :: string
  cl_ordinal :: int
  cl_name :: string
  cl_type :: string
  cl_description :: "string option"
  cl_nullable :: int
  cl_nulls :: "int option"
  cl_uniques :: "int option"
  cl_min :: "string option"
  cl_max :: "string option"
  cl_statistics :: "string option"

record quality_row =
  qu_version :: string
  qu_passed :: int
  qu_invalid :: int
  qu_null :: int
  qu_hash :: string

record asset_row =
  as_path :: string
  as_version :: string
  as_key :: string
  as_format :: string
  as_title :: string
  as_href :: string
  as_media :: string
  as_roles :: string
  as_size :: int
  as_sha :: "string option"
  as_multihash :: "string option"

record location_row =
  lo_path :: string
  lo_asset :: string
  lo_storage :: "string option"
  lo_href :: "string option"
  lo_canonical :: int

record object_row =
  ob_location :: string
  ob_key :: string
  ob_relative :: string
  ob_size :: int
  ob_sha :: "string option"
  ob_multihash :: "string option"
  ob_revision :: "string option"
  ob_partition :: "string option"
  ob_covering :: "string option"
  ob_native_bbox :: "string option"
  ob_bbox :: "string option"

record catalog_db =
  db_collections :: "collection_row list"
  db_datasets :: "dataset_row list"
  db_files :: "file_row list"
  db_versions :: "version_row list"
  db_tags :: "tag_row list"
  db_columns :: "column_row list"
  db_quality :: "quality_row list"
  db_assets :: "asset_row list"
  db_locations :: "location_row list"
  db_objects :: "object_row list"

section \<open>Schemas\<close>

definition collectionSchema :: "collection_row \<Rightarrow> bool" where
  "collectionSchema r \<longleftrightarrow> co_path r \<noteq> [] \<and> co_slug r \<noteq> []"

definition datasetSchema :: "dataset_row \<Rightarrow> bool" where
  "datasetSchema r \<longleftrightarrow> da_path r \<noteq> [] \<and> da_collection r \<noteq> [] \<and> da_slug r \<noteq> []"

definition fileSchema :: "file_row \<Rightarrow> bool" where
  "fileSchema r \<longleftrightarrow> fi_path r \<noteq> [] \<and> fi_dataset r \<noteq> [] \<and> fi_slug r \<noteq> []"

definition versionSchema :: "version_row \<Rightarrow> bool" where
  "versionSchema r \<longleftrightarrow> ve_path r \<noteq> [] \<and> ve_label r \<noteq> [] \<and> ve_href r \<noteq> [] \<and>
     ve_spatial r \<in> {''spatial'', ''all_null_geometry'', ''non_spatial_source''} \<and>
     0 \<le> ve_features r \<and> 0 \<le> ve_latest r \<and> ve_latest r \<le> 1"

definition stacVersionSchema :: "version_row \<Rightarrow> bool" where
  "stacVersionSchema r \<longleftrightarrow> ve_path r \<noteq> [] \<and> ve_href r \<noteq> []"

definition natural :: "int option \<Rightarrow> bool" where
  "natural n = (case n of None \<Rightarrow> True | Some k \<Rightarrow> 0 \<le> k)"

definition columnSchema :: "column_row \<Rightarrow> bool" where
  "columnSchema r \<longleftrightarrow> cl_name r \<noteq> [] \<and> cl_type r \<noteq> [] \<and> 0 \<le> cl_nullable r \<and> cl_nullable r \<le> 1 \<and>
     natural (cl_nulls r) \<and> natural (cl_uniques r)"

definition qualitySchema :: "quality_row \<Rightarrow> bool" where
  "qualitySchema r \<longleftrightarrow> 0 \<le> qu_passed r \<and> qu_passed r \<le> 1 \<and> 0 \<le> qu_invalid r \<and> 0 \<le> qu_null r \<and> qu_hash r \<noteq> []"

definition assetSchema :: "asset_row \<Rightarrow> location_row option \<Rightarrow> bool" where
  "assetSchema r l \<longleftrightarrow> as_path r \<noteq> [] \<and> as_key r \<noteq> [] \<and> as_format r \<noteq> [] \<and> as_href r \<noteq> [] \<and> as_media r \<noteq> [] \<and>
     0 \<le> as_size r \<and> as_sha r \<noteq> Some [] \<and> as_multihash r \<noteq> Some [] \<and> map_option lo_path l \<noteq> Some []"

definition assetObjectSchema :: "object_row \<Rightarrow> bool" where
  "assetObjectSchema r \<longleftrightarrow> ob_key r \<noteq> [] \<and> ob_relative r \<noteq> [] \<and> 0 \<le> ob_size r \<and>
     ob_sha r \<noteq> Some [] \<and> ob_multihash r \<noteq> Some []"

text \<open>\<open>rows.map((row) => schema.parse(row))\<close>, and the same on \<open>row ? schema.parse(row) : null\<close>.\<close>

definition parse_rows :: "('r \<Rightarrow> bool) \<Rightarrow> 'r list \<Rightarrow> 'r list option" where
  "parse_rows schema rows = (if list_all schema rows then Some rows else None)"

definition parse_row :: "('r \<Rightarrow> bool) \<Rightarrow> 'r list \<Rightarrow> 'r option option" where
  "parse_row schema rows =
     (case rows of [] \<Rightarrow> Some None | r # _ \<Rightarrow> if schema r then Some (Some r) else None)"

section \<open>SQL\<close>

text \<open>\<open>LIMIT\<close> is unbounded when negative, and a negative \<open>OFFSET\<close> is 0.\<close>

definition sql_window :: "int \<Rightarrow> int \<Rightarrow> 'r list \<Rightarrow> 'r list" where
  "sql_window limit offset rows =
     (let rest = drop (nat offset) rows in if limit < 0 then rest else take (nat limit) rest)"

definition ascii_lower :: "char \<Rightarrow> char" where
  "ascii_lower c = (if is_upper_alpha c then char_of (code_unit c + 32) else c)"

text \<open>\<open>LIKE\<close>: \<open>%\<close> is any text, \<open>_\<close> any character, and ASCII letters match in either case.\<close>

fun sql_like :: "string \<Rightarrow> string \<Rightarrow> bool" where
  "sql_like [] s = (s = [])"
| "sql_like (p # ps) s =
     (if p = CHR ''%'' then sql_like ps s \<or> (case s of [] \<Rightarrow> False | _ # t \<Rightarrow> sql_like (p # ps) t)
      else (case s of [] \<Rightarrow> False
        | c # t \<Rightarrow> (p = CHR ''_'' \<or> ascii_lower p = ascii_lower c) \<and> sql_like ps t))"

section \<open>Queries\<close>

definition collection_datasets :: "catalog_db \<Rightarrow> string \<Rightarrow> dataset_row list" where
  "collection_datasets db slug =
     [d. d \<leftarrow> db_datasets db, c \<leftarrow> db_collections db, co_path c = da_collection d \<and> co_slug c = slug]"

definition dataset_files :: "catalog_db \<Rightarrow> string \<Rightarrow> string \<Rightarrow> file_row list" where
  "dataset_files db collectionSlug datasetSlug =
     [f. f \<leftarrow> db_files db, d \<leftarrow> collection_datasets db collectionSlug,
         da_path d = fi_dataset f \<and> da_slug d = datasetSlug]"

definition file_versions :: "catalog_db \<Rightarrow> string \<Rightarrow> string \<Rightarrow> string \<Rightarrow> version_row list" where
  "file_versions db collectionSlug datasetSlug fileSlug =
     [v. v \<leftarrow> db_versions db, f \<leftarrow> dataset_files db collectionSlug datasetSlug,
         fi_path f = ve_file v \<and> fi_slug f = fileSlug]"

definition getCollection :: "catalog_db \<Rightarrow> string \<Rightarrow> collection_row option option" where
  "getCollection db slug = parse_row collectionSchema (filter (\<lambda>c. co_slug c = slug) (db_collections db))"

definition listCollections :: "catalog_db \<Rightarrow> collection_row list option" where
  "listCollections db = parse_rows collectionSchema (sort_key co_title (db_collections db))"

text \<open>\<open>None\<close> is also the \<open>RangeError\<close> of a page limit out of range.\<close>

definition listStacVersions :: "catalog_db \<Rightarrow> string option \<Rightarrow> int \<Rightarrow> version_row list option" where
  "listStacVersions db after limit =
     (if limit < 1 \<or> 51 < limit then None
      else parse_rows stacVersionSchema (sql_window limit 0 (sort_key ve_path
        (filter (\<lambda>v. (case after of None \<Rightarrow> [] | Some a \<Rightarrow> a) < ve_path v) (db_versions db)))))"

definition getStacVersion :: "catalog_db \<Rightarrow> string \<Rightarrow> version_row option option" where
  "getStacVersion db i = parse_row stacVersionSchema (filter (\<lambda>v. ve_path v = i) (db_versions db))"

section \<open>Tags\<close>

datatype tag_value = One string | Many "string list"

text \<open>\<open>grouped\<close>: the rows in order, gathered by their key.\<close>

definition group_row :: "tag_row \<Rightarrow> (string \<times> string list) list \<Rightarrow> (string \<times> string list) list" where
  "group_row r grouped =
     map_set (ta_key r) ((case map_of grouped (ta_key r) of None \<Rightarrow> [] | Some vs \<Rightarrow> vs) @ [ta_value r]) grouped"

text \<open>An assignment to the key \<open>__proto__\<close> of an object makes no member.\<close>

definition tag_members :: "(string \<times> string list) list \<Rightarrow> (string \<times> tag_value) list" where
  "tag_members grouped =
     [(k, case vs of [v] \<Rightarrow> One v | _ \<Rightarrow> Many vs). (k, vs) \<leftarrow> grouped, k \<noteq> ''__proto__'' \<and> vs \<noteq> []]"

record catalog_dataset =
  cd_row :: dataset_row
  cd_tags :: "(string \<times> tag_value) list"

definition datasetWithTags :: "catalog_db \<Rightarrow> dataset_row \<Rightarrow> catalog_dataset" where
  "datasetWithTags db d =
     (let rows = sort_key (\<lambda>t. (ta_key t, ta_path t)) (filter (\<lambda>t. ta_entity t = da_path d) (db_tags db)) in
      \<lparr>cd_row = d, cd_tags = tag_members (fold group_row rows [])\<rparr>)"

text \<open>
  The names that an object literal inherits. Reading \<open>tags[key]\<close> of such a key finds the
  inherited value, which has no \<open>push\<close>.
\<close>

definition inherited_names :: "string list" where
  "inherited_names = [''constructor'', ''__defineGetter__'', ''__defineSetter__'', ''hasOwnProperty'',
     ''__lookupGetter__'', ''__lookupSetter__'', ''isPrototypeOf'', ''propertyIsEnumerable'', ''toString'',
     ''valueOf'', ''__proto__'', ''toLocaleString'']"

definition tag_pairs :: "catalog_db \<Rightarrow> string \<Rightarrow> string option \<Rightarrow> tag_row list" where
  "tag_pairs db slug tagKey =
     [t. t \<leftarrow> db_tags db, d \<leftarrow> collection_datasets db slug, da_path d = ta_entity t,
         ta_key t \<noteq> ''geometry_type'' \<and> (case tagKey of None \<Rightarrow> True | Some k \<Rightarrow> k = [] \<or> ta_key t = k)]"

definition grouped_pairs :: "tag_row list \<Rightarrow> (string \<times> string) list" where
  "grouped_pairs rows = sort (remdups (map (\<lambda>t. (ta_key t, ta_value t)) rows))"

definition geometry_types :: "catalog_db \<Rightarrow> string \<Rightarrow> string list" where
  "geometry_types db slug = sort (remdups
     [g. v \<leftarrow> db_versions db, f \<leftarrow> db_files db, fi_path f = ve_file v,
         d \<leftarrow> collection_datasets db slug, da_path d = fi_dataset f \<and> ve_latest v = 1,
         g \<leftarrow> (case ve_geometry v of None \<Rightarrow> [] | Some g \<Rightarrow> [g]), g \<noteq> []])"

definition push_value :: "string \<times> string \<Rightarrow> (string \<times> string list) list \<Rightarrow> (string \<times> string list) list" where
  "push_value kv tags =
     map_set (fst kv) ((case map_of tags (fst kv) of None \<Rightarrow> [] | Some vs \<Rightarrow> vs) @ [snd kv]) tags"

definition listDatasetTags :: "catalog_db \<Rightarrow> string \<Rightarrow> string option \<Rightarrow> (string \<times> string list) list option" where
  "listDatasetTags db slug tagKey =
     (let pairs = grouped_pairs (tag_pairs db slug tagKey) in
      if \<exists>kv \<in> set pairs. fst kv \<in> set inherited_names then None
      else
        (let tags = fold push_value pairs []; types = geometry_types db slug in
         Some (if (tagKey = None \<or> tagKey = Some [] \<or> tagKey = Some ''geometry_type'') \<and> types \<noteq> []
               then map_set ''geometry_type'' types tags else tags)))"

section \<open>Listing and searching datasets\<close>

record 'a catalog_page =
  cp_items :: "'a list"
  cp_total :: int
  cp_limit :: int
  cp_offset :: int

text \<open>The letters, marks and numbers of Latin-1.\<close>

definition is_word_char :: "char \<Rightarrow> bool" where
  "is_word_char c \<longleftrightarrow> is_digit c \<or> is_lower_alpha c \<or> is_upper_alpha c \<or>
     code_unit c \<in> {170, 178, 179, 181, 185, 186, 188, 189, 190} \<or>
     192 \<le> code_unit c \<and> code_unit c \<noteq> 215 \<and> code_unit c \<noteq> 247"

function word_runs :: "string \<Rightarrow> string list" where
  "word_runs [] = []"
| "word_runs (c # s) =
     (if is_word_char c then (c # takeWhile is_word_char s) # word_runs (dropWhile is_word_char s)
      else word_runs s)"
  by pat_completeness auto
termination by (relation "measure length") (auto simp: le_imp_less_Suc length_dropWhile_le)

definition fts_query :: "string \<Rightarrow> string" where
  "fts_query search = join '' AND '' (map (\<lambda>t. ''\"'' @ t @ ''\"*'') (word_runs search))"

text \<open>The full-text index: whether a path matches a query, and the rank of a match.\<close>

record fts_index =
  fts_match :: "string \<Rightarrow> string \<Rightarrow> bool"
  fts_rank :: "string \<Rightarrow> string \<Rightarrow> rat"

definition search_matches :: "catalog_db \<Rightarrow> fts_index \<Rightarrow> string \<Rightarrow> dataset_row \<Rightarrow> bool" where
  "search_matches db fts search d =
     (let q = fts_query search; pattern = ''%'' @ search @ ''%'' in
      if q \<noteq> [] then fts_match fts q (da_path d)
      else search = [] \<or> sql_like pattern (da_slug d) \<or> sql_like pattern (da_title d) \<or>
        sql_like pattern (da_description d) \<or>
        (\<exists>t \<in> set (db_tags db). ta_entity t = da_path d \<and> sql_like pattern (ta_value t)))"

definition filter_values :: "tag_value \<Rightarrow> string list" where
  "filter_values v = (case v of One s \<Rightarrow> [s] | Many vs \<Rightarrow> vs)"

definition filter_matches :: "catalog_db \<Rightarrow> string \<times> tag_value \<Rightarrow> dataset_row \<Rightarrow> bool" where
  "filter_matches db kv d =
     (let vs = filter_values (snd kv) in
      vs = [] \<or>
      (if fst kv = ''geometry_type''
       then \<exists>f \<in> set (db_files db). fi_dataset f = da_path d \<and>
              (\<exists>v \<in> set (db_versions db). ve_file v = fi_path f \<and> ve_latest v = 1 \<and> ve_geometry v \<in> Some ` set vs)
       else \<exists>t \<in> set (db_tags db). ta_entity t = da_path d \<and> ta_key t = fst kv \<and> ta_value t \<in> set vs))"

definition trimmed :: "string option \<Rightarrow> string" where
  "trimmed search = (case search of None \<Rightarrow> [] | Some s \<Rightarrow> trim s)"

definition found_datasets ::
  "catalog_db \<Rightarrow> fts_index \<Rightarrow> string \<Rightarrow> string option \<Rightarrow> (string \<times> tag_value) list \<Rightarrow> dataset_row list" where
  "found_datasets db fts slug search tagFilters =
     (let text = trimmed search; q = fts_query text;
          rows = filter (\<lambda>d. search_matches db fts text d \<and> (\<forall>kv \<in> set tagFilters. filter_matches db kv d))
            (collection_datasets db slug) in
      if q \<noteq> [] then sort_key (\<lambda>d. (fts_rank fts q (da_path d), da_title d, da_path d)) rows
      else sort_key (\<lambda>d. (da_title d, da_path d)) rows)"

definition listDatasets ::
  "catalog_db \<Rightarrow> fts_index \<Rightarrow> string \<Rightarrow> string option \<Rightarrow> (string \<times> tag_value) list \<Rightarrow> int \<Rightarrow> int
   \<Rightarrow> catalog_dataset catalog_page option" where
  "listDatasets db fts slug search tagFilters limit offset =
     (let rows = found_datasets db fts slug search tagFilters in
      map_option (\<lambda>items. \<lparr>cp_items = map (datasetWithTags db) items, cp_total = int (length rows),
          cp_limit = limit, cp_offset = offset\<rparr>)
        (parse_rows datasetSchema (sql_window limit offset rows)))"

definition getDataset :: "catalog_db \<Rightarrow> string \<Rightarrow> string \<Rightarrow> catalog_dataset option option" where
  "getDataset db collectionSlug datasetSlug =
     map_option (map_option (datasetWithTags db))
       (parse_row datasetSchema (filter (\<lambda>d. da_slug d = datasetSlug) (collection_datasets db collectionSlug)))"

section \<open>Files, versions and assets\<close>

definition listFiles :: "catalog_db \<Rightarrow> string \<Rightarrow> string \<Rightarrow> file_row list option" where
  "listFiles db collectionSlug datasetSlug =
     parse_rows fileSchema (sort_key (\<lambda>f. (fi_title f, fi_path f)) (dataset_files db collectionSlug datasetSlug))"

definition getFile :: "catalog_db \<Rightarrow> string \<Rightarrow> string \<Rightarrow> string \<Rightarrow> file_row option option" where
  "getFile db collectionSlug datasetSlug fileSlug =
     parse_row fileSchema (filter (\<lambda>f. fi_slug f = fileSlug) (dataset_files db collectionSlug datasetSlug))"

text \<open>\<open>lc\<close> is \<open>localeCompare\<close> with numeric collation.\<close>

definition version_order :: "(string \<Rightarrow> string \<Rightarrow> int) \<Rightarrow> version_row \<Rightarrow> version_row \<Rightarrow> int" where
  "version_order lc l r =
     (let d = ve_latest r - ve_latest l in if d \<noteq> 0 then d else lc (ve_label r) (ve_label l))"

definition listVersions ::
  "(string \<Rightarrow> string \<Rightarrow> int) \<Rightarrow> catalog_db \<Rightarrow> string \<Rightarrow> string \<Rightarrow> string \<Rightarrow> version_row list option" where
  "listVersions lc db collectionSlug datasetSlug fileSlug =
     map_option (sort_by (version_order lc))
       (parse_rows versionSchema (file_versions db collectionSlug datasetSlug fileSlug))"

text \<open>
  \<open>columnStatisticsSchema\<close>: the members it knows, each absent or of its type; \<open>length\<close> and the
  two counts may be \<open>null\<close>.
\<close>

record column_statistics =
  stat_examples :: "string list option"
  stat_possible :: "string list option"
  stat_length :: "int option"
  stat_nulls :: "int option"
  stat_uniques :: "int option"

fun json_text :: "json \<Rightarrow> string option" where
  "json_text (JStr s) = Some s"
| "json_text _ = None"

definition strings_member :: "(string \<times> json) list \<Rightarrow> string \<Rightarrow> string list option option" where
  "strings_member ms k =
     (case map_of ms k of
        None \<Rightarrow> Some None
      | Some (JArr xs) \<Rightarrow> map_option Some (those (map json_text xs))
      | Some _ \<Rightarrow> None)"

definition natural_member :: "(string \<times> json) list \<Rightarrow> string \<Rightarrow> int option option" where
  "natural_member ms k =
     (case map_of ms k of
        None \<Rightarrow> Some None
      | Some JNull \<Rightarrow> Some None
      | Some (JNum (JsFin r)) \<Rightarrow>
          if snd (quotient_of r) = 1 \<and> 0 \<le> r \<and> r \<le> 9007199254740991 then Some (Some (fst (quotient_of r))) else None
      | Some _ \<Rightarrow> None)"

definition columnStatisticsSchema :: "string \<Rightarrow> column_statistics option" where
  "columnStatisticsSchema text =
     (case json_parse text of
        Some (JObj ms) \<Rightarrow>
          (case (strings_member ms ''exampleValues'', strings_member ms ''possibleValues'', natural_member ms ''length'',
                 natural_member ms ''numNullValues'', natural_member ms ''numUniqueValues'') of
             (Some e, Some p, Some l, Some n, Some u) \<Rightarrow>
               Some \<lparr>stat_examples = e, stat_possible = p, stat_length = l, stat_nulls = n, stat_uniques = u\<rparr>
           | _ \<Rightarrow> None)
      | _ \<Rightarrow> None)"

record catalog_column =
  cc_name :: string
  cc_data_type :: string
  cc_description :: "string option"
  cc_nullable :: bool
  cc_null_count :: "int option"
  cc_unique_count :: "int option"
  cc_min :: "string option"
  cc_max :: "string option"
  cc_examples :: "string list"
  cc_possible :: "string list"
  cc_length :: "int option"

definition or_else :: "'a option \<Rightarrow> 'a option \<Rightarrow> 'a option" where
  "or_else a b = (case a of None \<Rightarrow> b | Some _ \<Rightarrow> a)"

definition catalog_column_of :: "column_row \<Rightarrow> catalog_column option" where
  "catalog_column_of r =
     (if \<not> columnSchema r then None
      else
        (case (case cl_statistics r of None \<Rightarrow> Some None
               | Some t \<Rightarrow> if t = [] then Some None else map_option Some (columnStatisticsSchema t)) of
           None \<Rightarrow> None
         | Some statistics \<Rightarrow>
             (let from = (\<lambda>f. case statistics of None \<Rightarrow> None | Some s \<Rightarrow> f s);
                  texts = (\<lambda>f. case statistics of None \<Rightarrow> [] | Some s \<Rightarrow> (case f s of None \<Rightarrow> [] | Some vs \<Rightarrow> vs)) in
              Some \<lparr>cc_name = cl_name r, cc_data_type = cl_type r, cc_description = cl_description r,
                cc_nullable = (cl_nullable r = 1),
                cc_null_count = or_else (cl_nulls r) (from stat_nulls),
                cc_unique_count = or_else (cl_uniques r) (from stat_uniques),
                cc_min = cl_min r, cc_max = cl_max r, cc_examples = texts stat_examples,
                cc_possible = texts stat_possible, cc_length = from stat_length\<rparr>)))"

record catalog_quality =
  cq_passed :: bool
  cq_invalid :: int
  cq_null :: int
  cq_hash :: string

record file_version =
  fv_row :: version_row
  fv_columns :: "catalog_column list"
  fv_quality :: "catalog_quality option"

definition file_version_of :: "catalog_db \<Rightarrow> version_row \<Rightarrow> file_version option" where
  "file_version_of db v =
     (case those (map catalog_column_of
            (sort_key cl_ordinal (filter (\<lambda>c. cl_version c = ve_path v) (db_columns db)))) of
        None \<Rightarrow> None
      | Some columns \<Rightarrow>
          map_option (\<lambda>q. \<lparr>fv_row = v, fv_columns = columns, fv_quality = map_option (\<lambda>r.
              \<lparr>cq_passed = (qu_passed r = 1), cq_invalid = qu_invalid r, cq_null = qu_null r, cq_hash = qu_hash r\<rparr>) q\<rparr>)
            (parse_row qualitySchema (filter (\<lambda>r. qu_version r = ve_path v) (db_quality db))))"

definition getFileVersion ::
  "catalog_db \<Rightarrow> string \<Rightarrow> string \<Rightarrow> string \<Rightarrow> string \<Rightarrow> file_version option option" where
  "getFileVersion db collectionSlug datasetSlug fileSlug version =
     (case parse_row versionSchema
        (filter (\<lambda>v. ve_label v = version) (file_versions db collectionSlug datasetSlug fileSlug)) of
        None \<Rightarrow> None
      | Some None \<Rightarrow> Some None
      | Some (Some v) \<Rightarrow> map_option Some (file_version_of db v))"

record asset_reference =
  ar_collection :: string
  ar_dataset :: string
  ar_file :: string
  ar_version :: string
  ar_key :: string
  ar_storage :: "string option"

record resolved_asset =
  ra_row :: asset_row
  ra_location :: string
  ra_storage :: "string option"
  ra_objects :: "object_row list"

definition file_assets :: "catalog_db \<Rightarrow> string \<Rightarrow> string \<Rightarrow> string \<Rightarrow> string \<Rightarrow> asset_row list" where
  "file_assets db collectionSlug datasetSlug fileSlug version =
     [a. a \<leftarrow> db_assets db, v \<leftarrow> file_versions db collectionSlug datasetSlug fileSlug,
         ve_path v = as_version a \<and> ve_label v = version]"

definition storage_matches :: "asset_reference \<Rightarrow> location_row \<Rightarrow> bool" where
  "storage_matches reference l =
     (case ar_storage reference of
        Some s \<Rightarrow> if s = [] then lo_canonical l = 1 else lo_storage l = Some s
      | None \<Rightarrow> lo_canonical l = 1)"

definition resolveAsset :: "catalog_db \<Rightarrow> asset_reference \<Rightarrow> resolved_asset option option" where
  "resolveAsset db reference =
     (case filter (\<lambda>a. as_key a = ar_key reference)
          (file_assets db (ar_collection reference) (ar_dataset reference) (ar_file reference) (ar_version reference)) of
        [] \<Rightarrow> Some None
      | a # _ \<Rightarrow>
          (let location = List.find (\<lambda>l. lo_asset l = as_path a \<and> storage_matches reference l) (db_locations db) in
           if \<not> assetSchema a location then None
           else case location of
             None \<Rightarrow> Some None
           | Some l \<Rightarrow>
               map_option (\<lambda>objects. Some \<lparr>ra_row = (case lo_href l of None \<Rightarrow> a | Some h \<Rightarrow> a\<lparr>as_href := h\<rparr>),
                   ra_location = lo_path l, ra_storage = lo_storage l, ra_objects = objects\<rparr>)
                 (parse_rows assetObjectSchema
                   (sort_key ob_relative (filter (\<lambda>x. ob_location x = lo_path l) (db_objects db))))))"

definition assets_of_version ::
  "catalog_db \<Rightarrow> string \<Rightarrow> string \<Rightarrow> string \<Rightarrow> string \<Rightarrow> resolved_asset list option" where
  "assets_of_version db collectionSlug datasetSlug fileSlug version =
     (let keys = map as_key (sort_key as_key (file_assets db collectionSlug datasetSlug fileSlug version)) in
      if [] \<in> set keys then None
      else map_option (List.map_filter (\<lambda>x. x))
        (those (map (\<lambda>k. resolveAsset db \<lparr>ar_collection = collectionSlug, ar_dataset = datasetSlug,
            ar_file = fileSlug, ar_version = version, ar_key = k, ar_storage = None\<rparr>) keys)))"

definition listAssets ::
  "catalog_db \<Rightarrow> string \<Rightarrow> string \<Rightarrow> string \<Rightarrow> string option \<Rightarrow> resolved_asset list option" where
  "listAssets db collectionSlug datasetSlug fileSlug version =
     (case version of
        Some v \<Rightarrow> if v = [] then Some [] else assets_of_version db collectionSlug datasetSlug fileSlug v
      | None \<Rightarrow>
          (case getFile db collectionSlug datasetSlug fileSlug of
             None \<Rightarrow> None
           | Some None \<Rightarrow> Some []
           | Some (Some f) \<Rightarrow>
               (case fi_latest f of
                  None \<Rightarrow> Some []
                | Some v \<Rightarrow> if v = [] then Some [] else assets_of_version db collectionSlug datasetSlug fileSlug v)))"

section \<open>Tag filters\<close>

definition values_of :: "(string \<times> string list) list \<Rightarrow> string \<Rightarrow> string list" where
  "values_of tags k = (case map_of tags k of None \<Rightarrow> [] | Some vs \<Rightarrow> vs)"

lemma values_of_set [simp]: "values_of (map_set k vs tags) k' = (if k' = k then vs else values_of tags k')"
  by (simp add: values_of_def)

lemma values_of_push: "values_of (fold push_value kvs tags) k = values_of tags k @ map snd (filter (\<lambda>kv. fst kv = k) kvs)"
proof (induction kvs arbitrary: tags)
  case (Cons kv kvs)
  have "push_value kv tags = map_set (fst kv) (values_of tags (fst kv) @ [snd kv]) tags"
    by (simp add: push_value_def values_of_def)
  with Cons [of "push_value kv tags"] show ?case by simp
qed simp

lemma values_of_pairs:
  "x \<in> set (values_of (fold push_value (grouped_pairs rows) []) k)
   \<longleftrightarrow> (\<exists>t \<in> set rows. ta_key t = k \<and> ta_value t = x)"
  by (force simp: values_of_push grouped_pairs_def values_of_def [of "[]"])

lemma tag_pairs_mem:
  "t \<in> set (tag_pairs db slug None) \<longleftrightarrow> t \<in> set (db_tags db) \<and> ta_key t \<noteq> ''geometry_type'' \<and>
     (\<exists>d \<in> set (collection_datasets db slug). ta_entity t = da_path d)"
  by (auto simp: tag_pairs_def) metis+

lemma in_concat_map: "y \<in> set (concat (map f xs)) \<longleftrightarrow> (\<exists>x \<in> set xs. y \<in> set (f x))"
  by auto

lemma geometry_types_mem:
  "g \<in> set (geometry_types db slug) \<longleftrightarrow> g \<noteq> [] \<and> (\<exists>v \<in> set (db_versions db). \<exists>f \<in> set (db_files db).
     \<exists>d \<in> set (collection_datasets db slug).
       fi_path f = ve_file v \<and> da_path d = fi_dataset f \<and> ve_latest v = 1 \<and> ve_geometry v = Some g)"
proof -
  have guard: "g \<in> set (if b then ys else []) \<longleftrightarrow> b \<and> g \<in> set ys" for b ys by simp
  have geometry: "(\<exists>h \<in> set (case ve_geometry v of None \<Rightarrow> [] | Some h \<Rightarrow> [h]). h \<noteq> [] \<and> g \<in> set [h])
      \<longleftrightarrow> g \<noteq> [] \<and> ve_geometry v = Some g" for v
    by (auto split: option.splits)
  show ?thesis
    unfolding geometry_types_def set_sort set_remdups in_concat_map guard geometry by blast
qed

lemma listDatasetTags_values:
  assumes "listDatasetTags db slug None = Some tags"
  shows "x \<in> set (values_of tags k) \<longleftrightarrow>
    (if k = ''geometry_type'' then x \<in> set (geometry_types db slug)
     else \<exists>t \<in> set (tag_pairs db slug None). ta_key t = k \<and> ta_value t = x)"
proof -
  have no_geometry: "\<not> (\<exists>t \<in> set (tag_pairs db slug None). ta_key t = ''geometry_type'' \<and> ta_value t = x)"
    by (auto simp: tag_pairs_def)
  with assms values_of_pairs [of x "tag_pairs db slug None"]
  show ?thesis by (auto simp: listDatasetTags_def Let_def split: if_splits)
qed

lemma found_by_tag:
  "d \<in> set (found_datasets db fts slug None [(k, One x)]) \<longleftrightarrow>
     d \<in> set (collection_datasets db slug) \<and> filter_matches db (k, One x) d"
  by (simp add: found_datasets_def trimmed_def search_matches_def fts_query_def Let_def)

lemma geometry_types_found:
  "x \<in> set (geometry_types db slug) \<longleftrightarrow>
     x \<noteq> [] \<and> found_datasets db fts slug None [(''geometry_type'', One x)] \<noteq> []"
proof -
  have "found_datasets db fts slug None [(''geometry_type'', One x)] \<noteq> [] \<longleftrightarrow>
      (\<exists>d. d \<in> set (found_datasets db fts slug None [(''geometry_type'', One x)]))"
    by (metis all_not_in_conv set_empty)
  also have "\<dots> \<longleftrightarrow> (\<exists>d \<in> set (collection_datasets db slug). \<exists>f \<in> set (db_files db). fi_dataset f = da_path d \<and>
      (\<exists>v \<in> set (db_versions db). ve_file v = fi_path f \<and> ve_latest v = 1 \<and> ve_geometry v = Some x))"
    unfolding found_by_tag by (auto simp: filter_matches_def filter_values_def)
  finally show ?thesis unfolding geometry_types_mem by metis
qed

lemma tag_pairs_found:
  assumes "k \<noteq> ''geometry_type''"
  shows "(\<exists>t \<in> set (tag_pairs db slug None). ta_key t = k \<and> ta_value t = x) \<longleftrightarrow>
    found_datasets db fts slug None [(k, One x)] \<noteq> []"
proof -
  have "found_datasets db fts slug None [(k, One x)] \<noteq> [] \<longleftrightarrow>
      (\<exists>d. d \<in> set (found_datasets db fts slug None [(k, One x)]))"
    by (metis all_not_in_conv set_empty)
  also have "\<dots> \<longleftrightarrow> (\<exists>d \<in> set (collection_datasets db slug).
      \<exists>t \<in> set (db_tags db). ta_entity t = da_path d \<and> ta_key t = k \<and> ta_value t = x)"
    unfolding found_by_tag using assms by (auto simp: filter_matches_def filter_values_def)
  finally show ?thesis using assms unfolding Bex_def tag_pairs_mem by blast
qed

text \<open>
  The tag values a collection offers are the filters that find something: a value is
  listed under a key exactly if listing the datasets with that one filter has a total above 0.
  For the key \<open>geometry_type\<close>, which is read off the latest versions of the files, this holds
  for every value but the empty one.
\<close>

theorem tag_values_find_datasets:
  assumes "listDatasetTags db slug None = Some tags"
    and "listDatasets db fts slug None [(key, One x)] limit offset = Some page"
    and "key = ''geometry_type'' \<longrightarrow> x \<noteq> []"
  shows "x \<in> set (values_of tags key) \<longleftrightarrow> 0 < cp_total page"
proof -
  have "0 < cp_total page \<longleftrightarrow> found_datasets db fts slug None [(key, One x)] \<noteq> []"
    using assms(2) by (auto simp: listDatasets_def Let_def)
  then show ?thesis
    unfolding listDatasetTags_values [OF assms(1)]
    using geometry_types_found [of x db slug fts] tag_pairs_found [of key db slug x fts] assms(3) by auto
qed

section \<open>A sample catalogue\<close>

definition sample_dataset :: "string \<Rightarrow> string \<Rightarrow> dataset_row" where
  "sample_dataset slug title = \<lparr>da_path = ''c/'' @ slug, da_collection = ''c'', da_slug = slug, da_title = title,
     da_description = [], da_href = ''c/'' @ slug @ ''/catalog.json'', da_created = None, da_updated = None\<rparr>"

definition sample_version :: "string \<Rightarrow> int \<Rightarrow> version_row" where
  "sample_version label latest = \<lparr>ve_path = ''c/a/f/'' @ label, ve_file = ''c/a/f'', ve_label = label,
     ve_href = label @ ''.json'', ve_spatial = ''spatial'', ve_bbox = None, ve_geometry = Some ''Point'',
     ve_features = 3, ve_latest = latest\<rparr>"

definition sample_tag :: "string \<Rightarrow> string \<Rightarrow> string \<Rightarrow> tag_row" where
  "sample_tag entity key v = \<lparr>ta_path = entity @ key @ v, ta_entity = entity, ta_key = key, ta_value = v\<rparr>"

definition sample_asset :: "string \<Rightarrow> string \<Rightarrow> asset_row" where
  "sample_asset version key = \<lparr>as_path = version @ ''/'' @ key, as_version = version, as_key = key, as_format = ''zip'',
     as_title = key, as_href = key @ ''.zip'', as_media = ''application/zip'', as_roles = ''[]'', as_size = 7,
     as_sha = None, as_multihash = None\<rparr>"

definition sample_db :: catalog_db where
  "sample_db =
     \<lparr>db_collections = [\<lparr>co_path = ''c'', co_slug = ''c'', co_title = ''C'', co_description = [], co_href = ''c'',
        co_license = None, co_created = None, co_updated = None\<rparr>],
      db_datasets = [sample_dataset ''b'' ''Beta'', sample_dataset ''a'' ''Alpha'', sample_dataset ''d'' ''Delta''],
      db_files = [\<lparr>fi_path = ''c/a/f'', fi_dataset = ''c/a'', fi_slug = ''f'', fi_title = ''F'', fi_description = [],
        fi_latest = Some ''2'', fi_created = None, fi_updated = None\<rparr>],
      db_versions = [sample_version ''1'' 0, sample_version ''2'' 1],
      db_tags = [sample_tag ''c/a'' ''theme'' ''water'', sample_tag ''c/b'' ''theme'' ''roads''],
      db_columns = [], db_quality = [],
      db_assets = [sample_asset ''c/a/f/2'' ''zip''],
      db_locations = [\<lparr>lo_path = ''l'', lo_asset = ''c/a/f/2/zip'', lo_storage = Some ''main'', lo_href = None,
        lo_canonical = 1\<rparr>],
      db_objects = []\<rparr>"

definition no_fts :: fts_index where
  "no_fts = \<lparr>fts_match = \<lambda>q p. False, fts_rank = \<lambda>q p. 0\<rparr>"

theorem tag_values_find_datasets_witness:
  "''water'' \<in> set (values_of [(''theme'', [''roads'', ''water'']), (''geometry_type'', [''Point''])] ''theme'') \<longleftrightarrow>
   0 < cp_total (the (listDatasets sample_db no_fts ''c'' None [(''theme'', One ''water'')] 1 0))"
proof -
  have tags: "listDatasetTags sample_db ''c'' None
      = Some [(''theme'', [''roads'', ''water'']), (''geometry_type'', [''Point''])]" by code_simp
  have "listDatasets sample_db no_fts ''c'' None [(''theme'', One ''water'')] 1 0 \<noteq> None" by code_simp
  then obtain page where "listDatasets sample_db no_fts ''c'' None [(''theme'', One ''water'')] 1 0 = Some page" by blast
  with tag_values_find_datasets [OF tags this] show ?thesis by simp
qed

end
