(* ===== verification/CatalogListing.thy ===== *)
theory CatalogListing
  imports ApiLinks CatalogStore "HOL-Library.Sublist"
begin

text \<open>
  The listing API, \<open>webapp/src/lib/catalog-listing.ts\<close>, and the two routes that page through
  datasets, \<open>routes/api/collections.$slug.datasets.ts\<close> and \<open>routes/api/datasets.ts\<close>.
\<close>

section \<open>Query parameters\<close>

text \<open>A problem response: its status, title and detail.\<close>

datatype problem = Problem nat string "string option"

definition DEFAULT_COLLECTION_PAGE_SIZE :: int where "DEFAULT_COLLECTION_PAGE_SIZE = 50"

record api_query =
  aq_search :: "string option"
  aq_tagFilters :: "(string \<times> tag_value) list option"
  aq_tagFiltersParam :: "string option"
  aq_omit :: "string option"
  aq_includeUrls :: bool
  aq_limit :: int
  aq_offset :: int

definition parsePositiveLimit :: "string option \<Rightarrow> problem + int" where
  "parsePositiveLimit v =
     (if v = None \<or> v = Some [] then Inr DEFAULT_COLLECTION_PAGE_SIZE
      else case parseInt 10 (the v) of
        None \<Rightarrow> Inl (Problem 400 ''Invalid limit'' (Some ''limit must be a positive integer''))
      | Some n \<Rightarrow> if n < 1 then Inl (Problem 400 ''Invalid limit'' (Some ''limit must be a positive integer''))
                  else Inr n)"

definition parseNonNegativeOffset :: "string option \<Rightarrow> problem + int" where
  "parseNonNegativeOffset v =
     (case (if v \<noteq> None \<and> v \<noteq> Some [] then parseInt 10 (the v) else Some 0) of
        None \<Rightarrow> Inl (Problem 400 ''Invalid offset'' (Some ''offset must be a non-negative integer''))
      | Some n \<Rightarrow> if n < 0 then Inl (Problem 400 ''Invalid offset'' (Some ''offset must be a non-negative integer''))
                  else Inr n)"

text \<open>\<open>tagFiltersSchema\<close>: an object whose members are strings or arrays of strings.\<close>

definition tag_filter_value :: "json \<Rightarrow> tag_value option" where
  "tag_filter_value j = (case j of JStr s \<Rightarrow> Some (One s)
     | JArr xs \<Rightarrow> map_option Many (those (map json_text xs)) | _ \<Rightarrow> None)"

definition tagFiltersSchema :: "json \<Rightarrow> (string \<times> tag_value) list option" where
  "tagFiltersSchema j = (case j of
     JObj ms \<Rightarrow> those (map (\<lambda>(k, v). map_option (Pair k) (tag_filter_value v)) ms)
   | _ \<Rightarrow> None)"

definition parseTagFilters :: "string option \<Rightarrow> problem + (string \<times> tag_value) list option" where
  "parseTagFilters v =
     (if v = None \<or> v = Some [] then Inr None
      else case Option.bind (json_parse (the v)) tagFiltersSchema of
        None \<Rightarrow> Inl (Problem 400 ''Invalid tag_filters'' (Some ''tag_filters must be valid JSON''))
      | Some filters \<Rightarrow> Inr (Some filters))"

definition parseCollectionApiQuery :: "search_params \<Rightarrow> problem + api_query" where
  "parseCollectionApiQuery params =
     (let get = map_of params;
          search = map_option trim (or_else (get ''query'') (get ''search'')) in
      case parsePositiveLimit (get ''limit'') of Inl p \<Rightarrow> Inl p
      | Inr limit \<Rightarrow>
         (case parseNonNegativeOffset (get ''offset'') of Inl p \<Rightarrow> Inl p
          | Inr offset \<Rightarrow>
             (case parseTagFilters (get ''tag_filters'') of Inl p \<Rightarrow> Inl p
              | Inr tagFilters \<Rightarrow>
                  Inr \<lparr>aq_search = (if search = Some [] then None else search), aq_tagFilters = tagFilters,
                    aq_tagFiltersParam = get ''tag_filters'', aq_omit = get ''omit'',
                    aq_includeUrls = (get ''include_urls'' = Some ''true''), aq_limit = limit, aq_offset = offset\<rparr>)))"

definition collectionLinkBase :: "api_query \<Rightarrow> list_params" where
  "collectionLinkBase q =
     \<lparr>lp_query = aq_search q, lp_search = None, lp_include_urls = aq_includeUrls q, lp_limit = None, lp_offset = None,
      lp_tag_filters = aq_tagFiltersParam q, lp_omit = aq_omit q\<rparr>"

section \<open>Reading the links back\<close>

text \<open>An empty text makes no parameter.\<close>

definition nonempty :: "string option \<Rightarrow> string option" where
  "nonempty v = (if v = Some [] then None else v)"

definition reread :: "api_query \<Rightarrow> int \<Rightarrow> api_query" where
  "reread q offset = q\<lparr>aq_tagFiltersParam := nonempty (aq_tagFiltersParam q), aq_omit := nonempty (aq_omit q),
     aq_offset := offset\<rparr>"

lemma set_text_get: "map_of (set_text n v ps) k = (if k = n then or_else (nonempty v) (map_of ps k) else map_of ps k)"
  by (auto simp: set_text_def nonempty_def or_else_def map_of_params_set split: option.split)

lemma set_number_get:
  "map_of (set_number n v ps) k = (if k = n then or_else (map_option show_int v) (map_of ps k) else map_of ps k)"
  by (auto simp: set_number_def or_else_def map_of_params_set split: option.split)

lemma set_flag_get: "map_of (set_flag n b ps) k = (if b \<and> k = n then Some ''true'' else map_of ps k)"
  by (auto simp: set_flag_def map_of_params_set)

lemma or_else_None [simp]: "or_else v None = v"
  by (simp add: or_else_def split: option.split)

lemma list_search_params_get:
  "map_of (list_search_params p) ''omit'' = nonempty (lp_omit p)"
  "map_of (list_search_params p) ''tag_filters'' = nonempty (lp_tag_filters p)"
  "map_of (list_search_params p) ''offset'' = map_option show_int (lp_offset p)"
  "map_of (list_search_params p) ''limit'' = map_option show_int (lp_limit p)"
  "map_of (list_search_params p) ''include_urls'' = (if lp_include_urls p then Some ''true'' else None)"
  "map_of (list_search_params p) ''query'' = nonempty (or_else (lp_query p) (lp_search p))"
  "map_of (list_search_params p) ''search'' = None"
  by (simp_all add: list_search_params_def set_text_get set_number_get set_flag_get)
    (simp add: or_else_def split: option.split)

text \<open>What a parsed query satisfies.\<close>

definition api_query_ok :: "api_query \<Rightarrow> bool" where
  "api_query_ok q \<longleftrightarrow> parseTagFilters (aq_tagFiltersParam q) = Inr (aq_tagFilters q) \<and> 1 \<le> aq_limit q \<and>
     0 \<le> aq_offset q \<and> (\<forall>s. aq_search q = Some s \<longrightarrow> s \<noteq> [] \<and> trim s = s)"

lemma trim_trim: "trim (trim s) = trim s"
proof -
  let ?u = "dropWhile is_space s"
  let ?t = "rev (dropWhile is_space (rev ?u))"
  have "dropWhile is_space ?t = ?t"
  proof (cases "?t = []")
    case False
    then have "?u \<noteq> []" by (metis dropWhile.simps(1) rev.simps(1))
    have pre: "prefix ?t ?u"
      by (metis suffix_dropWhile suffix_to_prefix rev_rev_ident)
    have "hd ?t = hd ?u" using pre False by (metis hd_append2 prefix_def)
    moreover have "\<not> is_space (hd ?u)" using \<open>?u \<noteq> []\<close> by (rule hd_dropWhile)
    ultimately show ?thesis by (simp add: dropWhile_eq_self_iff)
  next
    case True
    show ?thesis unfolding True by simp
  qed
  then show ?thesis by (simp add: trim_def trimStart_def)
qed

lemma parseCollectionApiQuery_ok: "parseCollectionApiQuery ps = Inr q \<Longrightarrow> api_query_ok q"
  by (auto simp: parseCollectionApiQuery_def Let_def api_query_ok_def parsePositiveLimit_def
      parseNonNegativeOffset_def DEFAULT_COLLECTION_PAGE_SIZE_def trim_trim
      split: sum.splits option.splits if_splits)

lemma parse_nonempty: "parseTagFilters (nonempty v) = parseTagFilters v"
  by (simp add: nonempty_def parseTagFilters_def)

lemma show_int_not_Nil [simp]: "show_int n \<noteq> []"
  by (simp add: show_int_def)

text \<open>A query goes through the URL that the code makes of it.\<close>

lemma parse_link_params:
  assumes "api_query_ok q" and "1 \<le> limit" "0 \<le> offset"
  shows "parseCollectionApiQuery (list_search_params
      ((collectionLinkBase q)\<lparr>lp_limit := Some limit, lp_offset := Some offset\<rparr>))
    = Inr (reread (q\<lparr>aq_limit := limit\<rparr>) offset)"
proof -
  have "map_option trim (nonempty (aq_search q)) = aq_search q" and "aq_search q \<noteq> Some []"
    using assms(1) by (cases "aq_search q"; auto simp: api_query_ok_def nonempty_def)+
  then show ?thesis
    using assms unfolding parseCollectionApiQuery_def Let_def list_search_params_get
    by (simp add: collectionLinkBase_def api_query_ok_def parsePositiveLimit_def parseNonNegativeOffset_def
        parseInt_show_int parse_nonempty reread_def)
qed

section \<open>Published documents\<close>

text \<open>What one fetch of a STAC document comes to.\<close>

datatype fetch_outcome = TransportError | HttpError nat | BodyError | BadJson | BadSchema | Published json

definition document_of :: "fetch_outcome \<Rightarrow> json option" where
  "document_of f = (case f of Published j \<Rightarrow> Some j | _ \<Rightarrow> None)"

definition metadata_problem :: "string \<Rightarrow> problem" where
  "metadata_problem what = Problem 502 (''Published STAC metadata is '' @ what) None"

text \<open>The loop over batches of eight; a batch that fails ends it.\<close>

function publishedDatasets :: "(string \<Rightarrow> fetch_outcome) \<Rightarrow> string list \<Rightarrow> problem + json list" where
  "publishedDatasets fetch hrefs =
     (if hrefs = [] then Inr []
      else
        (let fetched = map fetch (take 8 hrefs) in
         if TransportError \<in> set fetched then Inl (metadata_problem ''unavailable'')
         else if \<exists>f \<in> set fetched. (case f of HttpError _ \<Rightarrow> True | _ \<Rightarrow> False) then Inl (metadata_problem ''unavailable'')
         else case those (map document_of fetched) of
           None \<Rightarrow> Inl (metadata_problem ''invalid'')
         | Some batch \<Rightarrow>
             (case publishedDatasets fetch (drop 8 hrefs) of Inl p \<Rightarrow> Inl p
              | Inr documents \<Rightarrow> Inr (batch @ documents))))"
  by pat_completeness auto

termination by (relation "measure (\<lambda>(fetch, hrefs). length hrefs)") auto

declare publishedDatasets.simps [simp del]

lemma those_documents: "those (map document_of fs) = Some js \<longleftrightarrow> fs = map Published js"
proof (induction fs arbitrary: js)
  case (Cons f fs)
  then show ?case by (cases f; cases js) (auto simp: document_of_def)
qed auto

lemma all_published:
  assumes "fs = map Published js"
  shows "TransportError \<notin> set fs" "\<not> (\<exists>f \<in> set fs. (case f of HttpError _ \<Rightarrow> True | _ \<Rightarrow> False))"
  using assms by auto

lemma publishedDatasets_step:
  assumes "hrefs \<noteq> []"
  shows "publishedDatasets fetch hrefs = Inr documents \<longleftrightarrow>
    (\<exists>batch rest. map fetch (take 8 hrefs) = map Published batch \<and>
       publishedDatasets fetch (drop 8 hrefs) = Inr rest \<and> documents = batch @ rest)"
    (is "?l \<longleftrightarrow> ?r")
proof
  show ?r if ?l
    using that assms by (subst (asm) publishedDatasets.simps)
      (auto simp: Let_def those_documents simp del: map_map split: if_splits option.splits sum.splits)
  assume ?r
  then obtain batch rest where b: "map fetch (take 8 hrefs) = map Published batch"
    "publishedDatasets fetch (drop 8 hrefs) = Inr rest" "documents = batch @ rest" by blast
  from b(1) have "those (map document_of (map fetch (take 8 hrefs))) = Some batch" unfolding those_documents .
  with all_published [OF b(1)] b assms show ?l
    by (subst publishedDatasets.simps) (simp only: Let_def if_False option.case sum.case simp_thms)
qed

text \<open>
  C39: the batches make no difference: a listing gets its documents exactly if every one of
  them was published, and then in the order of their hrefs; a single document that is missing
  or malformed fails the whole page.
\<close>

theorem documents_all_or_none:
  "publishedDatasets fetch hrefs = Inr documents \<longleftrightarrow> map fetch hrefs = map Published documents"
proof (induction "length hrefs" arbitrary: hrefs documents rule: less_induct)
  case less
  show ?case
  proof (cases "hrefs = []")
    case False
    then have "length (drop 8 hrefs) < length hrefs" by simp
    note rest = less [OF this]
    have split: "map fetch hrefs = map fetch (take 8 hrefs) @ map fetch (drop 8 hrefs)"
      by (metis append_take_drop_id map_append)
    show ?thesis
      unfolding publishedDatasets_step [OF False] rest split append_eq_map_conv by metis
  qed (auto simp: publishedDatasets.simps)
qed

section \<open>The datasets of a collection\<close>

text \<open>A response of a route, or the exception it ends with.\<close>

datatype 'a response = ProblemResponse problem | JsonResponse 'a | Thrown

record listing =
  dl_datasets :: "json list"
  dl_total :: int
  dl_limit :: int
  dl_offset :: int
  dl_links :: link_map
  dl_link_header :: "string option"

definition filters_of :: "api_query \<Rightarrow> (string \<times> tag_value) list" where
  "filters_of q = (case aq_tagFilters q of None \<Rightarrow> [] | Some fs \<Rightarrow> fs)"

text \<open>
  The handler; \<open>catalog\<close> is absent while no catalogue or no STAC address is active, and \<open>params\<close>
  are the parameters of the request's URL.
\<close>

definition collection_listing ::
  "catalog_db option \<Rightarrow> fts_index \<Rightarrow> (string \<Rightarrow> fetch_outcome) \<Rightarrow> string \<Rightarrow> string \<Rightarrow> search_params \<Rightarrow> listing response" where
  "collection_listing catalog fts fetch origin slug params =
     (case catalog of None \<Rightarrow> ProblemResponse (Problem 503 ''Catalog metadata is unavailable'' None)
      | Some db \<Rightarrow>
      (case getCollection db slug of None \<Rightarrow> Thrown
       | Some None \<Rightarrow> ProblemResponse (Problem 404 ''Collection not found'' None)
       | Some (Some collection) \<Rightarrow>
       (case parseCollectionApiQuery params of Inl p \<Rightarrow> ProblemResponse p
        | Inr q \<Rightarrow>
        (case listDatasets db fts slug (aq_search q) (filters_of q) (aq_limit q) (aq_offset q) of None \<Rightarrow> Thrown
         | Some page \<Rightarrow>
         (case publishedDatasets fetch (map (\<lambda>d. da_href (cd_row d)) (cp_items page)) of Inl p \<Rightarrow> ProblemResponse p
          | Inr datasets \<Rightarrow>
              (let links = collectionDatasetsPaginationLinks origin slug (collectionLinkBase q)
                     (cp_total page) (aq_limit q) (aq_offset q) in
               JsonResponse \<lparr>dl_datasets = datasets, dl_total = cp_total page, dl_limit = cp_limit page,
                 dl_offset = cp_offset page, dl_links = links, dl_link_header = buildLinkHeader links\<rparr>))))))"

section \<open>Following the links\<close>

definition clean_origin :: "string \<Rightarrow> bool" where
  "clean_origin origin \<longleftrightarrow> CHR ''?'' \<notin> set origin \<and> CHR ''#'' \<notin> set origin"

lemma page_url_params:
  assumes "clean_origin origin"
  shows "url_params (page_url origin slug base limit offset)
    = Some (list_search_params (base\<lparr>lp_limit := Some limit, lp_offset := Some offset\<rparr>))"
proof -
  have "c \<notin> set (enc slug)" if "c \<in> {CHR ''?'', CHR ''#''}" for c
    using encodeURIComponent_chars [of c slug] that
    by (auto simp: uri_unreserved_def is_digit_def is_lower_alpha_def is_upper_alpha_def)
  then show ?thesis
    using assms unfolding page_url_def collectionDatasetsListUrl_def clean_origin_def
    by (intro url_params_href) auto
qed

definition link_offset :: "string \<Rightarrow> int \<Rightarrow> int \<Rightarrow> int \<Rightarrow> int option" where
  "link_offset rel totalCount limit offset =
     (if rel = ''first'' then Some 0
      else if rel = ''self'' then Some offset
      else if rel = ''prev'' then (if offset > 0 then Some (max 0 (offset - limit)) else None)
      else if rel = ''next'' then (if offset + limit < totalCount then Some (offset + limit) else None)
      else if rel = ''last'' \<and> (last_offset totalCount limit \<noteq> offset \<or> totalCount = 0) then Some (last_offset totalCount limit)
      else None)"

lemma link_lookup:
  assumes "1 \<le> limit"
  shows "map_of (collectionDatasetsPaginationLinks origin slug base totalCount limit offset) rel
    = map_option (page_url origin slug base limit) (link_offset rel totalCount limit offset)"
  using assms by (simp add: collectionDatasetsPaginationLinks_def Let_def link_if_def link_offset_def map_add_def)

lemma last_offset_nonneg: "1 \<le> limit \<Longrightarrow> 0 \<le> last_offset totalCount limit"
  by (simp add: last_offset_def pos_imp_zdiv_nonneg_iff)

text \<open>
  Every link of a listing reads back as the page it stands for: parsing the parameters of a
  \<open>first\<close>, \<open>self\<close>, \<open>prev\<close>, \<open>next\<close> or \<open>last\<close> link gives the search, the tag filters, the flag and
  the limit of the request it was made for, with the offset of that page. Only parameters that
  were empty are gone.
\<close>

theorem listing_links_reread:
  assumes "parseCollectionApiQuery params = Inr q" and "clean_origin origin"
    and "map_of (collectionDatasetsPaginationLinks origin slug (collectionLinkBase q) totalCount (aq_limit q) (aq_offset q)) rel
      = Some url"
  shows "\<exists>ps offset. link_offset rel totalCount (aq_limit q) (aq_offset q) = Some offset \<and>
    url_params url = Some ps \<and> parseCollectionApiQuery ps = Inr (reread q offset)"
proof -
  from assms(1) have ok: "api_query_ok q" by (rule parseCollectionApiQuery_ok)
  then have limit: "1 \<le> aq_limit q" "0 \<le> aq_offset q" by (simp_all add: api_query_ok_def)
  from assms(3) obtain offset where o: "link_offset rel totalCount (aq_limit q) (aq_offset q) = Some offset"
    "url = page_url origin slug (collectionLinkBase q) (aq_limit q) offset"
    unfolding link_lookup [OF limit(1)] by blast
  have "0 \<le> offset"
    using o(1) limit last_offset_nonneg [OF limit(1), of totalCount] by (auto simp: link_offset_def split: if_splits)
  with ok limit have "parseCollectionApiQuery (list_search_params
      ((collectionLinkBase q)\<lparr>lp_limit := Some (aq_limit q), lp_offset := Some offset\<rparr>)) = Inr (reread q offset)"
    using parse_link_params [of q "aq_limit q" offset] by simp
  with o page_url_params [OF assms(2)] show ?thesis by blast
qed

text \<open>A client that collects the documents of a page and goes on with its \<open>next\<close> link.\<close>

fun crawl :: "nat \<Rightarrow> (search_params \<Rightarrow> listing response) \<Rightarrow> search_params \<Rightarrow> json list option" where
  "crawl 0 route params = None"
| "crawl (Suc n) route params =
     (case route params of
        JsonResponse page \<Rightarrow>
          (case map_of (dl_links page) ''next'' of
             None \<Rightarrow> Some (dl_datasets page)
           | Some url \<Rightarrow>
               (case url_params url of None \<Rightarrow> None
                | Some ps \<Rightarrow> map_option ((@) (dl_datasets page)) (crawl n route ps)))
      | _ \<Rightarrow> None)"

lemma sql_window_subset: "set (sql_window limit offset rows) \<subseteq> set rows"
  by (auto simp: sql_window_def Let_def dest: in_set_takeD in_set_dropD)

lemma sql_window_append:
  assumes "1 \<le> limit" "0 \<le> offset"
  shows "sql_window limit offset rows @ drop (nat (offset + limit)) rows = drop (nat offset) rows"
proof -
  have "nat (offset + limit) = nat limit + nat offset" using assms by simp
  then show ?thesis using assms by (simp add: sql_window_def flip: drop_drop)
qed

lemma map_published: "(\<forall>d \<in> set ds. fetch (da_href d) = Published (doc d)) \<Longrightarrow>
   publishedDatasets fetch (map da_href ds) = Inr (map doc ds)"
  unfolding documents_all_or_none by simp

lemma collection_page:
  assumes "getCollection db slug = Some (Some c)" "parseCollectionApiQuery params = Inr q"
    and "found_datasets db fts slug (aq_search q) (filters_of q) = rows"
    and "list_all datasetSchema rows" "\<forall>d \<in> set rows. fetch (da_href d) = Published (doc d)"
  shows "\<exists>page. collection_listing (Some db) fts fetch origin slug params = JsonResponse page \<and>
    dl_datasets page = map doc (sql_window (aq_limit q) (aq_offset q) rows) \<and>
    dl_links page = collectionDatasetsPaginationLinks origin slug (collectionLinkBase q)
      (int (length rows)) (aq_limit q) (aq_offset q)"
proof -
  let ?w = "sql_window (aq_limit q) (aq_offset q) rows"
  have sub: "set ?w \<subseteq> set rows" by (rule sql_window_subset)
  have "list_all datasetSchema ?w" using assms(4) sub by (auto simp: list_all_iff)
  then have "listDatasets db fts slug (aq_search q) (filters_of q) (aq_limit q) (aq_offset q)
      = Some \<lparr>cp_items = map (datasetWithTags db) ?w, cp_total = int (length rows),
          cp_limit = aq_limit q, cp_offset = aq_offset q\<rparr>"
    by (simp add: listDatasets_def assms(3) parse_rows_def)
  moreover have "(\<lambda>d. da_href (cd_row d)) \<circ> datasetWithTags db = da_href"
    by (simp add: datasetWithTags_def Let_def comp_def)
  moreover have "publishedDatasets fetch (map da_href ?w) = Inr (map doc ?w)"
    using assms(5) sub by (intro map_published) auto
  ultimately show ?thesis using assms(1,2) by (simp add: collection_listing_def Let_def)
qed

section \<open>Paged listings\<close>

text \<open>
  What a paged route promises its client: parameters it accepts stand for a limit and an offset
  in a list of documents, the page is that window of the list, and its \<open>next\<close> link is there
  exactly while documents are left and is accepted with the following offset.
\<close>

locale paged_listing =
  fixes route :: "search_params \<Rightarrow> listing response"
    and accepts :: "search_params \<Rightarrow> int \<Rightarrow> int \<Rightarrow> bool"
    and docs :: "json list"
  assumes window: "accepts ps limit offset \<Longrightarrow> \<exists>page. route ps = JsonResponse page \<and>
      dl_datasets page = sql_window limit offset docs \<and>
      (if offset + limit < int (length docs)
       then \<exists>url ps'. map_of (dl_links page) ''next'' = Some url \<and> url_params url = Some ps' \<and>
         accepts ps' limit (offset + limit)
       else map_of (dl_links page) ''next'' = None)"
    and range: "accepts ps limit offset \<Longrightarrow> 1 \<le> limit \<and> 0 \<le> offset"
begin

lemma crawl_complete:
  "\<lbrakk>accepts ps limit offset; length docs < nat offset + n; 0 < n\<rbrakk> \<Longrightarrow>
   crawl n route ps = Some (drop (nat offset) docs)"
proof (induction n arbitrary: ps offset)
  case (Suc n)
  have limit: "1 \<le> limit" "0 \<le> offset" using range [OF Suc.prems(1)] by simp_all
  note join = sql_window_append [OF limit, of docs]
  obtain page where page: "route ps = JsonResponse page" "dl_datasets page = sql_window limit offset docs"
    "if offset + limit < int (length docs)
     then \<exists>url ps'. map_of (dl_links page) ''next'' = Some url \<and> url_params url = Some ps' \<and>
       accepts ps' limit (offset + limit)
     else map_of (dl_links page) ''next'' = None"
    using window [OF Suc.prems(1)] by blast
  show ?case
  proof (cases "offset + limit < int (length docs)")
    case False
    then have "drop (nat (offset + limit)) docs = []" by simp
    then show ?thesis using page False join by simp
  next
    case True
    then obtain url ps' where link: "map_of (dl_links page) ''next'' = Some url" "url_params url = Some ps'"
      "accepts ps' limit (offset + limit)" using page(3) by auto
    have "crawl n route ps' = Some (drop (nat (offset + limit)) docs)"
      using link(3) by (rule Suc.IH) (use Suc.prems(2) limit True in auto)
    then show ?thesis using page(1,2) link(1,2) join by simp
  qed
qed simp

end

definition collection_accepts ::
  "catalog_db \<Rightarrow> fts_index \<Rightarrow> (string \<Rightarrow> fetch_outcome) \<Rightarrow> string \<Rightarrow> string \<Rightarrow> dataset_row list \<Rightarrow> (dataset_row \<Rightarrow> json)
   \<Rightarrow> search_params \<Rightarrow> int \<Rightarrow> int \<Rightarrow> bool" where
  "collection_accepts db fts fetch origin slug rows doc ps limit offset \<longleftrightarrow>
     (\<exists>c. getCollection db slug = Some (Some c)) \<and> clean_origin origin \<and> list_all datasetSchema rows \<and>
     (\<forall>d \<in> set rows. fetch (da_href d) = Published (doc d)) \<and>
     (\<exists>q. parseCollectionApiQuery ps = Inr q \<and> found_datasets db fts slug (aq_search q) (filters_of q) = rows \<and>
        aq_limit q = limit \<and> aq_offset q = offset)"

lemma sql_window_map: "sql_window limit offset (map f xs) = map f (sql_window limit offset xs)"
  by (simp add: sql_window_def Let_def drop_map take_map)

lemma reread_simps [simp]:
  "aq_search (reread q offset) = aq_search q" "filters_of (reread q offset) = filters_of q"
  "aq_limit (reread q offset) = aq_limit q" "aq_offset (reread q offset) = offset"
  by (simp_all add: reread_def filters_of_def)

interpretation collection_pages:
  paged_listing "collection_listing (Some db) fts fetch origin slug"
    "collection_accepts db fts fetch origin slug rows doc" "map doc rows"
  for db fts fetch origin slug rows doc
proof
  fix ps limit offset
  assume a: "collection_accepts db fts fetch origin slug rows doc ps limit offset"
  then obtain c q where q: "getCollection db slug = Some (Some c)" "clean_origin origin"
    "list_all datasetSchema rows" "\<forall>d \<in> set rows. fetch (da_href d) = Published (doc d)"
    "parseCollectionApiQuery ps = Inr q" "found_datasets db fts slug (aq_search q) (filters_of q) = rows"
    "aq_limit q = limit" "aq_offset q = offset"
    by (auto simp: collection_accepts_def)
  have ok: "api_query_ok q" by (rule parseCollectionApiQuery_ok [OF q(5)])
  then show range: "1 \<le> limit \<and> 0 \<le> offset" using q(7,8) by (simp add: api_query_ok_def)
  obtain page where page: "collection_listing (Some db) fts fetch origin slug ps = JsonResponse page"
    "dl_datasets page = map doc (sql_window limit offset rows)"
    "dl_links page = collectionDatasetsPaginationLinks origin slug (collectionLinkBase q) (int (length rows)) limit offset"
    using collection_page [OF q(1,5,6,3,4), of origin] unfolding q(7,8) by blast
  let ?ps = "list_search_params ((collectionLinkBase q)\<lparr>lp_limit := Some limit, lp_offset := Some (offset + limit)\<rparr>)"
  have "parseCollectionApiQuery ?ps = Inr (reread q (offset + limit))"
    using parse_link_params [OF ok, of limit "offset + limit"] range by (simp add: q(7) [symmetric])
  then have "collection_accepts db fts fetch origin slug rows doc ?ps limit (offset + limit)"
    using q by (simp add: collection_accepts_def)
  moreover have "map_of (dl_links page) ''next'' = map_option (page_url origin slug (collectionLinkBase q) limit)
      (if offset + limit < int (length rows) then Some (offset + limit) else None)"
    using link_lookup [of limit] range by (simp add: page(3) link_offset_def)
  ultimately show "\<exists>page. collection_listing (Some db) fts fetch origin slug ps = JsonResponse page \<and>
      dl_datasets page = sql_window limit offset (map doc rows) \<and>
      (if offset + limit < int (length (map doc rows))
       then \<exists>url ps'. map_of (dl_links page) ''next'' = Some url \<and> url_params url = Some ps' \<and>
         collection_accepts db fts fetch origin slug rows doc ps' limit (offset + limit)
       else map_of (dl_links page) ''next'' = None)"
    using page(1,2) page_url_params [OF q(2)] by (simp add: sql_window_map)
qed

text \<open>
  C35: a client that starts at any page of a collection and follows the \<open>next\<close> links ends after
  finitely many pages with the documents of all matching datasets from there on, each once and
  in the order of the listing: no page overlaps another, none is skipped, and no link repeats.
\<close>

theorem next_links_reach_every_dataset:
  assumes "getCollection db slug = Some (Some c)" and "clean_origin origin"
    and "parseCollectionApiQuery params = Inr q"
    and "found_datasets db fts slug (aq_search q) (filters_of q) = rows"
    and "list_all datasetSchema rows" and "\<forall>d \<in> set rows. fetch (da_href d) = Published (doc d)"
  shows "crawl (Suc (length rows)) (collection_listing (Some db) fts fetch origin slug) params
    = Some (map doc (drop (nat (aq_offset q)) rows))"
proof -
  have "collection_accepts db fts fetch origin slug rows doc params (aq_limit q) (aq_offset q)"
    using assms by (simp add: collection_accepts_def)
  from collection_pages.crawl_complete [OF this, of "Suc (length rows)"] show ?thesis by (simp add: drop_map)
qed

theorem next_links_reach_every_dataset_witness:
  "crawl 4 (collection_listing (Some sample_db) no_fts (\<lambda>h. Published (JStr h)) ''https://x'' ''c'') [(''limit'', ''2'')]
   = Some (map JStr [''c/a/catalog.json'', ''c/b/catalog.json'', ''c/d/catalog.json''])"
proof -
  let ?q = "\<lparr>aq_search = None, aq_tagFilters = None, aq_tagFiltersParam = None, aq_omit = None,
    aq_includeUrls = False, aq_limit = 2, aq_offset = 0\<rparr>"
  let ?rows = "[sample_dataset ''a'' ''Alpha'', sample_dataset ''b'' ''Beta'', sample_dataset ''d'' ''Delta'']"
  have "getCollection sample_db ''c'' \<noteq> None \<and> getCollection sample_db ''c'' \<noteq> Some None" by code_simp
  then obtain c where c: "getCollection sample_db ''c'' = Some (Some c)" by auto
  have q: "parseCollectionApiQuery [(''limit'', ''2'')] = Inr ?q" by code_simp
  have rows: "found_datasets sample_db no_fts ''c'' (aq_search ?q) (filters_of ?q) = ?rows" by code_simp
  have ok: "list_all datasetSchema ?rows" by code_simp
  have origin: "clean_origin ''https://x''" by code_simp
  have "crawl (Suc (length ?rows)) (collection_listing (Some sample_db) no_fts (\<lambda>h. Published (JStr h)) ''https://x'' ''c'')
      [(''limit'', ''2'')] = Some (map (\<lambda>d. JStr (da_href d)) (drop (nat (aq_offset ?q)) ?rows))"
    by (rule next_links_reach_every_dataset [OF c origin q rows ok]) simp
  moreover have "Suc (length ?rows) = 4" by simp
  ultimately show ?thesis by (simp only:) (simp add: sample_dataset_def)
qed

theorem listing_links_reread_witness:
  "\<exists>ps. url_params ''https://x/api/collections/c/datasets?query=a+b&limit=10&offset=20'' = Some ps \<and>
     parseCollectionApiQuery ps = Inr \<lparr>aq_search = Some ''a b'', aq_tagFilters = None, aq_tagFiltersParam = None,
       aq_omit = None, aq_includeUrls = False, aq_limit = 10, aq_offset = 20\<rparr>"
proof -
  let ?q = "\<lparr>aq_search = Some ''a b'', aq_tagFilters = None, aq_tagFiltersParam = None, aq_omit = None,
    aq_includeUrls = False, aq_limit = 10, aq_offset = 10\<rparr>"
  have "parseCollectionApiQuery [(''search'', '' a b ''), (''limit'', ''10''), (''offset'', ''10x'')] = Inr ?q" by code_simp
  moreover have "clean_origin ''https://x''" by code_simp
  moreover have "map_of (collectionDatasetsPaginationLinks ''https://x'' ''c'' (collectionLinkBase ?q) 35
      (aq_limit ?q) (aq_offset ?q)) ''next''
      = Some ''https://x/api/collections/c/datasets?query=a+b&limit=10&offset=20''" by code_simp
  ultimately obtain ps offset where "link_offset ''next'' 35 (aq_limit ?q) (aq_offset ?q) = Some offset"
    "url_params ''https://x/api/collections/c/datasets?query=a+b&limit=10&offset=20'' = Some ps"
    "parseCollectionApiQuery ps = Inr (reread ?q offset)"
    using listing_links_reread by blast
  then show ?thesis by (auto simp: link_offset_def reread_def nonempty_def)
qed

section \<open>The datasets of all collections\<close>

text \<open>
  The loop over the collections of \<open>/api/datasets\<close>: what is left of the limit and of the offset
  after the collections before.
\<close>

fun global_pages ::
  "catalog_db \<Rightarrow> fts_index \<Rightarrow> api_query \<Rightarrow> collection_row list \<Rightarrow> string list \<Rightarrow> int \<Rightarrow> (string list \<times> int) option" where
  "global_pages db fts q [] hrefs totalCount = Some (hrefs, totalCount)"
| "global_pages db fts q (c # cs) hrefs totalCount =
     (case listDatasets db fts (co_slug c) (aq_search q) (filters_of q)
        (max 0 (aq_limit q - int (length hrefs))) (max 0 (aq_offset q - totalCount)) of
        None \<Rightarrow> None
      | Some page \<Rightarrow>
          global_pages db fts q cs (hrefs @ map (\<lambda>d. da_href (cd_row d)) (cp_items page)) (totalCount + cp_total page))"

definition global_page_url :: "string \<Rightarrow> search_params \<Rightarrow> int \<Rightarrow> int \<Rightarrow> string" where
  "global_page_url base params limit offset =
     url_href base (params_set ''offset'' (show_int offset) (params_set ''limit'' (show_int limit) params))"

definition global_links :: "string \<Rightarrow> search_params \<Rightarrow> int \<Rightarrow> int \<Rightarrow> int \<Rightarrow> link_map" where
  "global_links base params totalCount limit offset =
     (let url = global_page_url base params limit in
      [(''self'', url offset), (''first'', url 0),
       (''last'', url (if totalCount \<noteq> 0 then (totalCount - 1) div limit * limit else 0))]
      @ link_if (offset > 0) ''prev'' (url (max 0 (offset - limit)))
      @ link_if (offset + limit < totalCount) ''next'' (url (offset + limit)))"

definition global_listing ::
  "catalog_db option \<Rightarrow> fts_index \<Rightarrow> (string \<Rightarrow> fetch_outcome) \<Rightarrow> string \<Rightarrow> search_params \<Rightarrow> listing response" where
  "global_listing catalog fts fetch base params =
     (case catalog of None \<Rightarrow> ProblemResponse (Problem 503 ''Catalog metadata is unavailable'' None)
      | Some db \<Rightarrow>
      (case parseCollectionApiQuery params of Inl p \<Rightarrow> ProblemResponse p
       | Inr q \<Rightarrow>
       (case Option.bind (listCollections db) (\<lambda>cs. global_pages db fts q cs [] 0) of None \<Rightarrow> Thrown
        | Some (hrefs, totalCount) \<Rightarrow>
        (case publishedDatasets fetch hrefs of Inl p \<Rightarrow> ProblemResponse p
         | Inr datasets \<Rightarrow>
             (let links = global_links base params totalCount (aq_limit q) (aq_offset q) in
              JsonResponse \<lparr>dl_datasets = datasets, dl_total = totalCount, dl_limit = aq_limit q,
                dl_offset = aq_offset q, dl_links = links, dl_link_header = buildLinkHeader links\<rparr>)))))"

definition found_everywhere :: "catalog_db \<Rightarrow> fts_index \<Rightarrow> api_query \<Rightarrow> collection_row list \<Rightarrow> dataset_row list" where
  "found_everywhere db fts q cs =
     concat (map (\<lambda>c. found_datasets db fts (co_slug c) (aq_search q) (filters_of q)) cs)"

lemma window_append:
  assumes "0 \<le> limit" "0 \<le> offset"
  shows "sql_window limit offset (xs @ ys) = sql_window limit offset xs @
    sql_window (max 0 (limit - int (length (sql_window limit offset xs)))) (max 0 (offset - int (length xs))) ys"
proof -
  obtain l k where lk: "limit = int l" "offset = int k" using assms by (metis nonneg_int_cases)
  have w: "sql_window (int a) (int b) zs = take a (drop b zs)" for a b and zs :: "'a list"
    by (simp add: sql_window_def)
  have d: "max 0 (int a - int b) = int (a - b)" for a b by simp
  have m: "a - min b a = a - b" for a b :: nat by simp
  show ?thesis unfolding lk w d by (cases "k \<le> length xs") (simp_all add: m)
qed

text \<open>The running offset and limit give the window of the concatenation.\<close>

lemma global_pages_window:
  assumes "0 \<le> aq_limit q" "0 \<le> aq_offset q" "list_all datasetSchema (before @ found_everywhere db fts q cs)"
  shows "global_pages db fts q cs (map da_href (sql_window (aq_limit q) (aq_offset q) before)) (int (length before))
    = Some (map da_href (sql_window (aq_limit q) (aq_offset q) (before @ found_everywhere db fts q cs)),
        int (length (before @ found_everywhere db fts q cs)))"
  using assms
proof (induction cs arbitrary: before)
  case (Cons c cs)
  let ?rows = "found_datasets db fts (co_slug c) (aq_search q) (filters_of q)"
  let ?hrefs = "map da_href (sql_window (aq_limit q) (aq_offset q) before)"
  let ?w = "sql_window (max 0 (aq_limit q - int (length ?hrefs))) (max 0 (aq_offset q - int (length before))) ?rows"
  have all: "before @ found_everywhere db fts q (c # cs) = (before @ ?rows) @ found_everywhere db fts q cs"
    by (simp add: found_everywhere_def)
  have "list_all datasetSchema ?w"
    using Cons.prems(3) sql_window_subset unfolding all list_all_iff by fastforce
  moreover have "map (\<lambda>d. da_href (cd_row d)) (map (datasetWithTags db) ?w) = map da_href ?w"
    by (simp add: datasetWithTags_def Let_def comp_def)
  moreover have "?hrefs @ map da_href ?w = map da_href (sql_window (aq_limit q) (aq_offset q) (before @ ?rows))"
    using window_append [OF Cons.prems(1,2), of before ?rows] by simp
  ultimately have "global_pages db fts q (c # cs) ?hrefs (int (length before))
      = global_pages db fts q cs (map da_href (sql_window (aq_limit q) (aq_offset q) (before @ ?rows))) (int (length (before @ ?rows)))"
    by (simp add: listDatasets_def parse_rows_def Let_def del: map_map)
  then show ?case unfolding all using Cons.IH [of "before @ ?rows"] Cons.prems unfolding all by simp
qed (simp add: found_everywhere_def)

definition global_accepts ::
  "catalog_db \<Rightarrow> fts_index \<Rightarrow> (string \<Rightarrow> fetch_outcome) \<Rightarrow> string \<Rightarrow> dataset_row list \<Rightarrow> (dataset_row \<Rightarrow> json)
   \<Rightarrow> search_params \<Rightarrow> int \<Rightarrow> int \<Rightarrow> bool" where
  "global_accepts db fts fetch base rows doc ps limit offset \<longleftrightarrow>
     clean_origin base \<and> list_all datasetSchema rows \<and> (\<forall>d \<in> set rows. fetch (da_href d) = Published (doc d)) \<and>
     (\<exists>cs q. listCollections db = Some cs \<and> parseCollectionApiQuery ps = Inr q \<and>
        found_everywhere db fts q cs = rows \<and> aq_limit q = limit \<and> aq_offset q = offset)"

lemma parse_with_page:
  assumes "parseCollectionApiQuery ps = Inr q" "1 \<le> limit" "0 \<le> offset"
  shows "parseCollectionApiQuery (params_set ''offset'' (show_int offset) (params_set ''limit'' (show_int limit) ps))
    = Inr (q\<lparr>aq_limit := limit, aq_offset := offset\<rparr>)"
  using assms
  by (auto simp: parseCollectionApiQuery_def map_of_params_set parsePositiveLimit_def parseNonNegativeOffset_def
      parseInt_show_int Let_def split: sum.splits)

lemma found_everywhere_page [simp]:
  "found_everywhere db fts (q\<lparr>aq_limit := limit, aq_offset := offset\<rparr>) cs = found_everywhere db fts q cs"
  by (simp add: found_everywhere_def filters_of_def)

lemma global_page:
  assumes "listCollections db = Some cs" "parseCollectionApiQuery ps = Inr q" "found_everywhere db fts q cs = rows"
    and "list_all datasetSchema rows" "\<forall>d \<in> set rows. fetch (da_href d) = Published (doc d)"
  shows "\<exists>page. global_listing (Some db) fts fetch base ps = JsonResponse page \<and>
    dl_datasets page = map doc (sql_window (aq_limit q) (aq_offset q) rows) \<and> dl_total page = int (length rows) \<and>
    dl_links page = global_links base ps (int (length rows)) (aq_limit q) (aq_offset q)"
proof -
  let ?w = "sql_window (aq_limit q) (aq_offset q) rows"
  have "api_query_ok q" by (rule parseCollectionApiQuery_ok [OF assms(2)])
  then have "global_pages db fts q cs [] 0 = Some (map da_href ?w, int (length rows))"
    using global_pages_window [of q "[]" db fts cs] assms(3,4) by (simp add: api_query_ok_def sql_window_def)
  moreover have "publishedDatasets fetch (map da_href ?w) = Inr (map doc ?w)"
    using assms(5) sql_window_subset [of "aq_limit q" "aq_offset q" rows] by (intro map_published) auto
  ultimately show ?thesis using assms(1,2) by (simp add: global_listing_def Let_def)
qed

interpretation global_pages:
  paged_listing "global_listing (Some db) fts fetch base"
    "global_accepts db fts fetch base rows doc" "map doc rows"
  for db fts fetch base rows doc
proof
  fix ps limit offset
  assume "global_accepts db fts fetch base rows doc ps limit offset"
  then obtain cs q where q: "clean_origin base" "list_all datasetSchema rows"
    "\<forall>d \<in> set rows. fetch (da_href d) = Published (doc d)" "listCollections db = Some cs"
    "parseCollectionApiQuery ps = Inr q" "found_everywhere db fts q cs = rows"
    "aq_limit q = limit" "aq_offset q = offset"
    by (auto simp: global_accepts_def)
  have ok: "api_query_ok q" by (rule parseCollectionApiQuery_ok [OF q(5)])
  then show range: "1 \<le> limit \<and> 0 \<le> offset" using q(7,8) by (simp add: api_query_ok_def)
  obtain page where page: "global_listing (Some db) fts fetch base ps = JsonResponse page"
    "dl_datasets page = map doc (sql_window limit offset rows)"
    "dl_links page = global_links base ps (int (length rows)) limit offset"
    using global_page [OF q(4,5,6,2,3), of base] unfolding q(7,8) by blast
  let ?ps = "params_set ''offset'' (show_int (offset + limit)) (params_set ''limit'' (show_int limit) ps)"
  have "parseCollectionApiQuery ?ps = Inr (q\<lparr>aq_limit := limit, aq_offset := offset + limit\<rparr>)"
    using parse_with_page [OF q(5)] range by simp
  then have "global_accepts db fts fetch base rows doc ?ps limit (offset + limit)"
    using q by (auto simp: global_accepts_def)
  moreover have "map_of (dl_links page) ''next''
      = (if offset + limit < int (length rows) then Some (url_href base ?ps) else None)"
    by (simp add: page(3) global_links_def global_page_url_def link_if_def Let_def)
  moreover have "url_params (url_href base ?ps) = Some ?ps"
    using q(1) by (intro url_params_href) (simp_all add: clean_origin_def)
  ultimately show "\<exists>page. global_listing (Some db) fts fetch base ps = JsonResponse page \<and>
      dl_datasets page = sql_window limit offset (map doc rows) \<and>
      (if offset + limit < int (length (map doc rows))
       then \<exists>url ps'. map_of (dl_links page) ''next'' = Some url \<and> url_params url = Some ps' \<and>
         global_accepts db fts fetch base rows doc ps' limit (offset + limit)
       else map_of (dl_links page) ''next'' = None)"
    using page(1,2) by (simp add: sql_window_map)
qed

text \<open>
  The listing over all collections is one listing: although it asks each collection with
  what is left of the limit and the offset, its page is the window of the concatenated listings
  and its total their length, and following \<open>next\<close> from any page gives the rest, each dataset once.
\<close>

theorem global_listing_is_one_list:
  assumes "listCollections db = Some cs" and "clean_origin base"
    and "parseCollectionApiQuery params = Inr q" and "found_everywhere db fts q cs = rows"
    and "list_all datasetSchema rows" and "\<forall>d \<in> set rows. fetch (da_href d) = Published (doc d)"
  shows "(\<exists>page. global_listing (Some db) fts fetch base params = JsonResponse page \<and>
      dl_datasets page = map doc (take (nat (aq_limit q)) (drop (nat (aq_offset q)) rows)) \<and>
      dl_total page = int (length rows)) \<and>
    crawl (Suc (length rows)) (global_listing (Some db) fts fetch base) params
      = Some (map doc (drop (nat (aq_offset q)) rows))"
proof
  have accepts: "global_accepts db fts fetch base rows doc params (aq_limit q) (aq_offset q)"
    using assms by (auto simp: global_accepts_def)
  have "1 \<le> aq_limit q" using global_pages.range [OF accepts] by simp
  then show "\<exists>page. global_listing (Some db) fts fetch base params = JsonResponse page \<and>
      dl_datasets page = map doc (take (nat (aq_limit q)) (drop (nat (aq_offset q)) rows)) \<and>
      dl_total page = int (length rows)"
    using global_page [OF assms(1,3,4,5,6), of base] by (simp add: sql_window_def) blast
  show "crawl (Suc (length rows)) (global_listing (Some db) fts fetch base) params
      = Some (map doc (drop (nat (aq_offset q)) rows))"
    using global_pages.crawl_complete [OF accepts, of "Suc (length rows)"] by (simp add: drop_map)
qed

theorem global_listing_is_one_list_witness:
  "crawl 4 (global_listing (Some sample_db) no_fts (\<lambda>h. Published (JStr h)) ''https://x/api/datasets'')
     [(''limit'', ''1''), (''offset'', ''1'')] = Some (map JStr [''c/b/catalog.json'', ''c/d/catalog.json''])"
proof -
  let ?q = "\<lparr>aq_search = None, aq_tagFilters = None, aq_tagFiltersParam = None, aq_omit = None,
    aq_includeUrls = False, aq_limit = 1, aq_offset = 1\<rparr>"
  let ?ps = "[(''limit'', ''1''), (''offset'', ''1'')]"
  let ?rows = "[sample_dataset ''a'' ''Alpha'', sample_dataset ''b'' ''Beta'', sample_dataset ''d'' ''Delta'']"
  have "listCollections sample_db = Some (db_collections sample_db)" by code_simp
  moreover have "parseCollectionApiQuery ?ps = Inr ?q" by code_simp
  moreover have "found_everywhere sample_db no_fts ?q (db_collections sample_db) = ?rows" by code_simp
  moreover have "list_all datasetSchema ?rows" by code_simp
  moreover have "clean_origin ''https://x/api/datasets''" by code_simp
  ultimately have "crawl (Suc (length ?rows)) (global_listing (Some sample_db) no_fts (\<lambda>h. Published (JStr h))
      ''https://x/api/datasets'') ?ps = Some (map (\<lambda>d. JStr (da_href d)) (drop (nat (aq_offset ?q)) ?rows))"
    by (intro global_listing_is_one_list [THEN conjunct2]) auto
  moreover have "Suc (length ?rows) = 4" by simp
  ultimately show ?thesis by (simp only:) (simp add: sample_dataset_def)
qed

end
