(* ===== verification/CatalogFiles.thy ===== *)
theory CatalogFiles
  imports CatalogListing DatasetSources
begin

text \<open>
  Files, versions and assets as the API serves them: \<open>webapp/src/lib/catalog-api.ts\<close>,
  \<open>catalog-identity.ts\<close>, the asset URLs and the bounded listing of \<open>api-client.ts\<close>, and the
  ZIP redirect of \<open>routes/api/\<close>. A text that must be a URL is checked by the parameter \<open>is_url\<close>.
\<close>

section \<open>Storage\<close>

record catalog_storage =
  gs_type :: string
  gs_base_url :: string
  gs_bucket :: string
  gs_endpoint :: "string option"

definition storageConfigSchema :: "(string \<Rightarrow> bool) \<Rightarrow> json \<Rightarrow> catalog_storage option" where
  "storageConfigSchema is_url j =
     (case j of
        JObj ms \<Rightarrow>
          (case (map_of ms ''type'', map_of ms ''base_url'', map_of ms ''bucket'') of
             (Some (JStr t), Some (JStr u), Some (JStr b)) \<Rightarrow>
               if t \<in> {''gcs'', ''seaweedfs''} \<and> is_url u \<and> b \<noteq> []
               then (case map_of ms ''endpoint_url'' of
                   None \<Rightarrow> Some \<lparr>gs_type = t, gs_base_url = u, gs_bucket = b, gs_endpoint = None\<rparr>
                 | Some (JStr e) \<Rightarrow>
                     if is_url e then Some \<lparr>gs_type = t, gs_base_url = u, gs_bucket = b, gs_endpoint = Some e\<rparr> else None
                 | Some _ \<Rightarrow> None)
               else None
           | _ \<Rightarrow> None)
      | _ \<Rightarrow> None)"

definition storageLocationsSchema :: "(string \<Rightarrow> bool) \<Rightarrow> string \<Rightarrow> (string \<times> catalog_storage) list option" where
  "storageLocationsSchema is_url text =
     (case json_parse text of
        Some (JObj ms) \<Rightarrow> those (map (\<lambda>(k, j). if k = [] then None
          else map_option (Pair k) (storageConfigSchema is_url j)) ms)
      | _ \<Rightarrow> None)"

record catalog_asset =
  ca_version :: string
  ca_key :: string
  ca_format :: string
  ca_title :: string
  ca_href :: string
  ca_media :: string
  ca_size :: int
  ca_sha :: "string option"
  ca_multihash :: "string option"
  ca_storage_slug :: string
  ca_storage :: catalog_storage
  ca_objects :: "object_row list"

text \<open>
  \<open>env\<close> is \<open>CATALOG_STORAGE_LOCATIONS_JSON\<close>. The outer \<open>None\<close> is the exception when it does not
  parse, the inner one an asset that is not served.
\<close>

definition assetResponse ::
  "(string \<Rightarrow> bool) \<Rightarrow> string option \<Rightarrow> string \<Rightarrow> resolved_asset \<Rightarrow> catalog_asset option option" where
  "assetResponse is_url env version a =
     (if \<not> truthy (ra_storage a) \<or> \<not> truthy env then Some None
      else case storageLocationsSchema is_url (the env) of
        None \<Rightarrow> None
      | Some storages \<Rightarrow>
          Some (map_option (\<lambda>storage.
            \<lparr>ca_version = version, ca_key = as_key (ra_row a), ca_format = as_format (ra_row a),
             ca_title = as_title (ra_row a), ca_href = as_href (ra_row a), ca_media = as_media (ra_row a),
             ca_size = as_size (ra_row a), ca_sha = as_sha (ra_row a), ca_multihash = as_multihash (ra_row a),
             ca_storage_slug = the (ra_storage a), ca_storage = storage, ca_objects = ra_objects a\<rparr>)
            (map_of storages (the (ra_storage a)))))"

section \<open>Responses\<close>

record collection_response =
  cr_slug :: string
  cr_path :: string
  cr_name :: string
  cr_description :: string
  cr_created :: "string option"
  cr_updated :: "string option"

definition collectionResponse :: "collection_row \<Rightarrow> collection_response" where
  "collectionResponse c = \<lparr>cr_slug = co_slug c, cr_path = co_path c, cr_name = co_title c,
     cr_description = co_description c, cr_created = co_created c, cr_updated = co_updated c\<rparr>"

record dataset_response =
  dr_collection :: string
  dr_slug :: string
  dr_path :: string
  dr_name :: string
  dr_description :: string
  dr_created :: "string option"
  dr_updated :: "string option"
  dr_href :: string
  dr_tags :: "(string \<times> tag_value) list"

definition datasetResponse :: "string \<Rightarrow> catalog_dataset \<Rightarrow> dataset_response" where
  "datasetResponse collectionSlug d =
     \<lparr>dr_collection = collectionSlug, dr_slug = da_slug (cd_row d), dr_path = da_path (cd_row d),
      dr_name = da_title (cd_row d), dr_description = da_description (cd_row d), dr_created = da_created (cd_row d),
      dr_updated = da_updated (cd_row d), dr_href = da_href (cd_row d), dr_tags = cd_tags d\<rparr>"

record file_response =
  fr_collection :: string
  fr_dataset :: string
  fr_slug :: string
  fr_path :: string
  fr_name :: string
  fr_description :: string
  fr_latest :: "string option"
  fr_created :: "string option"
  fr_updated :: "string option"
  fr_versions :: "version_row list"
  fr_assets :: "catalog_asset list"
  fr_href :: "string option"
  fr_metadata :: "file_version list"

text \<open>\<open>latest ?? versions.find(is_latest === 1)?.version_label\<close>.\<close>

definition latest_label :: "string option \<Rightarrow> version_row list \<Rightarrow> string option" where
  "latest_label latest versions = or_else latest (map_option ve_label (List.find (\<lambda>v. ve_latest v = 1) versions))"

definition fileResponse ::
  "string \<Rightarrow> string \<Rightarrow> file_row \<Rightarrow> version_row list \<Rightarrow> catalog_asset list \<Rightarrow> file_version list \<Rightarrow> file_version option
   \<Rightarrow> file_response" where
  "fileResponse collectionSlug datasetSlug f versions assets metadata selected =
     \<lparr>fr_collection = collectionSlug, fr_dataset = datasetSlug, fr_slug = fi_slug f, fr_path = fi_path f,
      fr_name = fi_title f, fr_description = fi_description f, fr_latest = fi_latest f, fr_created = fi_created f,
      fr_updated = fi_updated f, fr_versions = versions,
      fr_assets = (if truthy (latest_label (fi_latest f) versions) then assets else []),
      fr_href = map_option (\<lambda>m. ve_href (fv_row m)) selected, fr_metadata = metadata\<rparr>"

text \<open>The loop over the versions: their metadata and the assets that are served.\<close>

fun read_versions ::
  "catalog_db \<Rightarrow> (string \<Rightarrow> bool) \<Rightarrow> string option \<Rightarrow> string \<Rightarrow> string \<Rightarrow> string \<Rightarrow> string list
   \<Rightarrow> (catalog_asset list \<times> file_version list) option" where
  "read_versions db is_url env c d f [] = Some ([], [])"
| "read_versions db is_url env c d f (label # labels) =
     (case getFileVersion db c d f label of None \<Rightarrow> None
      | Some metadata \<Rightarrow>
      (case listAssets db c d f (Some label) of None \<Rightarrow> None
       | Some rows \<Rightarrow>
       (case those (map (assetResponse is_url env label) rows) of None \<Rightarrow> None
        | Some shaped \<Rightarrow>
            map_option (\<lambda>(assets, metadatas).
                (List.map_filter (\<lambda>x. x) shaped @ assets, (case metadata of None \<Rightarrow> [] | Some m \<Rightarrow> [m]) @ metadatas))
              (read_versions db is_url env c d f labels))))"

definition readCatalogFile ::
  "(string \<Rightarrow> string \<Rightarrow> int) \<Rightarrow> catalog_db \<Rightarrow> (string \<Rightarrow> bool) \<Rightarrow> string option \<Rightarrow> string \<Rightarrow> string \<Rightarrow> string \<Rightarrow> string option
   \<Rightarrow> file_response option option" where
  "readCatalogFile lc db is_url env collectionSlug datasetSlug fileSlug version =
     (case getFile db collectionSlug datasetSlug fileSlug of None \<Rightarrow> None
      | Some None \<Rightarrow> Some None
      | Some (Some file) \<Rightarrow>
      (case listVersions lc db collectionSlug datasetSlug fileSlug of None \<Rightarrow> None
       | Some versions \<Rightarrow>
           (let selected = or_else version (latest_label (fi_latest file) versions);
                labels = (if truthy version then [the version] else map ve_label versions) in
            map_option (\<lambda>(assets, metadata). Some (fileResponse collectionSlug datasetSlug file versions assets metadata
                (if truthy selected then List.find (\<lambda>m. ve_label (fv_row m) = the selected) metadata else None)))
              (read_versions db is_url env collectionSlug datasetSlug fileSlug labels))))"

section \<open>Statistics\<close>

definition catalog_stats :: "catalog_db \<Rightarrow> fts_index \<Rightarrow> int option" where
  "catalog_stats db fts =
     (case listCollections db of None \<Rightarrow> None
      | Some cs \<Rightarrow>
          map_option (sum_list \<circ> map cp_total)
            (those (map (\<lambda>c. listDatasets db fts (co_slug c) None [] 0 0) cs)))"

section \<open>Identities\<close>

definition datasetIdentity :: "string \<Rightarrow> string \<Rightarrow> (string \<times> string) option" where
  "datasetIdentity collectionId datasetId =
     (case split_on CHR ''/'' datasetId of
        [c, d] \<Rightarrow> if c = collectionId \<and> d \<noteq> [] then Some (collectionId, d) else None
      | _ \<Rightarrow> None)"

definition fileIdentity :: "string \<Rightarrow> string \<Rightarrow> string \<Rightarrow> (string \<times> string \<times> string) option" where
  "fileIdentity collectionId datasetId fileId =
     (case datasetIdentity collectionId datasetId of
        None \<Rightarrow> None
      | Some (c, d) \<Rightarrow>
          (case split_on CHR ''/'' fileId of
             [p, q, f] \<Rightarrow> if p @ ''/'' @ q = datasetId \<and> f \<noteq> [] then Some (c, d, f) else None
           | _ \<Rightarrow> None))"

section \<open>Asset URLs\<close>

definition encode_segment :: "string \<Rightarrow> string" where
  "encode_segment segment =
     (if segment = ''.'' then ''%2E'' else if segment = ''..'' then ''%2E%2E'' else encodeURIComponent segment)"

definition encodeObjectPath :: "string \<Rightarrow> string" where
  "encodeObjectPath v = join ''/'' (map encode_segment (split_on CHR ''/'' v))"

definition catalogObjectUrl :: "catalog_asset \<Rightarrow> object_row \<Rightarrow> string" where
  "catalogObjectUrl a x =
     (if length (ca_objects a) = 1 then ca_href a
      else strip_trailing_slashes (gs_base_url (ca_storage a)) @ ''/''
        @ encodeURIComponent (gs_bucket (ca_storage a)) @ ''/'' @ encodeObjectPath (ob_key x))"

definition catalogAssetUrl :: "catalog_asset \<Rightarrow> string option" where
  "catalogAssetUrl a = (case ca_objects a of [x] \<Rightarrow> Some (catalogObjectUrl a x) | _ \<Rightarrow> None)"

text \<open>The answer of the ZIP route: a redirect, or a problem; \<open>None\<close> when \<open>new URL\<close> throws.\<close>

definition catalogZipRedirect :: "(string \<Rightarrow> bool) \<Rightarrow> catalog_asset list \<Rightarrow> string \<Rightarrow> (problem + string) option" where
  "catalogZipRedirect is_url assets sourceId =
     (case List.find (\<lambda>a. ca_version a @ ''/'' @ ca_key a = sourceId) assets of
        None \<Rightarrow> Some (Inl (Problem 404 ''ZIP source not found'' None))
      | Some a \<Rightarrow>
          if ca_media a \<noteq> ''application/zip'' then Some (Inl (Problem 404 ''ZIP source not found'' None))
          else (case catalogAssetUrl a of
             None \<Rightarrow> Some (Inl (Problem 404 ''ZIP source not found'' None))
           | Some url \<Rightarrow>
               if url = [] then Some (Inl (Problem 404 ''ZIP source not found'' None))
               else if \<not> is_url url then None
               else if startsWith (toLowerCase (trim url)) ''https:'' \<or> startsWith (toLowerCase (trim url)) ''http:''
               then Some (Inr url)
               else Some (Inl (Problem 502 ''Invalid storage URL'' None))))"

section \<open>Formats of a file\<close>

record format_source =
  fs_asset_key :: string
  fs_version :: string
  fs_url :: "string option"
  fs_storage_slug :: string
  fs_size :: int
  fs_sha :: "string option"
  fs_multihash :: "string option"

record format_adapter =
  fa_key :: string
  fa_name :: string
  fa_mime :: string
  fa_sources :: "format_source list"

definition format_source_of :: "catalog_asset \<Rightarrow> format_source" where
  "format_source_of a = \<lparr>fs_asset_key = ca_key a, fs_version = ca_version a, fs_url = catalogAssetUrl a,
     fs_storage_slug = ca_storage_slug a, fs_size = ca_size a, fs_sha = ca_sha a, fs_multihash = ca_multihash a\<rparr>"

definition add_format_asset :: "catalog_asset \<Rightarrow> (string \<times> format_adapter) list \<Rightarrow> (string \<times> format_adapter) list" where
  "add_format_asset a formats =
     (let existing = (case map_of formats (ca_format a) of Some e \<Rightarrow> e
        | None \<Rightarrow> \<lparr>fa_key = ca_format a, fa_name = ca_title a, fa_mime = ca_media a, fa_sources = []\<rparr>) in
      map_set (ca_format a) (existing\<lparr>fa_sources := fa_sources existing @ [format_source_of a]\<rparr>) formats)"

definition catalog_formats :: "catalog_asset list \<Rightarrow> format_adapter list" where
  "catalog_formats assets = map snd (fold add_format_asset assets [])"

section \<open>The bounded list of datasets\<close>

definition GLOBAL_DATASET_LIST_CAP :: nat where "GLOBAL_DATASET_LIST_CAP = 200"
definition GLOBAL_DATASET_PAGE_SIZE :: int where "GLOBAL_DATASET_PAGE_SIZE = 50"

text \<open>
  The \<open>while\<close> loop for one collection; \<open>enrich\<close> adds the published STAC metadata to a row, and
  \<open>None\<close> is an exception. Each round that does not end the loop adds a dataset.
\<close>

function published_loop ::
  "catalog_db \<Rightarrow> fts_index \<Rightarrow> (catalog_dataset \<Rightarrow> 'd option) \<Rightarrow> string \<Rightarrow> string option \<Rightarrow> nat \<Rightarrow> 'd list \<Rightarrow> 'd list option" where
  "published_loop db fts enrich slug search offset out =
     (if GLOBAL_DATASET_LIST_CAP \<le> length out then Some out
      else
        (case listDatasets db fts slug search [] GLOBAL_DATASET_PAGE_SIZE (int offset) of None \<Rightarrow> None
         | Some page \<Rightarrow>
         (case those (map enrich (cp_items page)) of None \<Rightarrow> None
          | Some items \<Rightarrow>
              (let out' = out @ take (GLOBAL_DATASET_LIST_CAP - length out) items;
                   offset' = offset + length items in
               if items = [] \<or> cp_total page \<le> int offset' then Some out'
               else published_loop db fts enrich slug search offset' out'))))"
  by pat_completeness auto

termination
  by (relation "measure (\<lambda>(db, fts, enrich, slug, search, offset, out). GLOBAL_DATASET_LIST_CAP - length out)")
    (auto simp: min_def simp flip: length_greater_0_conv)

declare published_loop.simps [simp del]

fun published_list ::
  "catalog_db \<Rightarrow> fts_index \<Rightarrow> (catalog_dataset \<Rightarrow> 'd option) \<Rightarrow> string option \<Rightarrow> collection_row list \<Rightarrow> 'd list \<Rightarrow> 'd list option" where
  "published_list db fts enrich search [] out = Some out"
| "published_list db fts enrich search (c # cs) out =
     Option.bind (published_loop db fts enrich (co_slug c) search 0 out) (published_list db fts enrich search cs)"

definition listPublishedDatasets ::
  "catalog_db \<Rightarrow> fts_index \<Rightarrow> (catalog_dataset \<Rightarrow> 'd option) \<Rightarrow> string option \<Rightarrow> 'd list option" where
  "listPublishedDatasets db fts enrich search =
     Option.bind (listCollections db)
       (\<lambda>cs. published_list db fts enrich (if truthy search then search else None) cs [])"

section \<open>A listing stops at its cap\<close>

lemma those_map_Some: "those (map (\<lambda>x. Some (f x)) xs) = Some (map f xs)"
  by (induction xs) simp_all

lemma take_take_append: "take n (take n xs @ ys) = take n (xs @ ys)"
  by (cases "n \<le> length xs") (simp_all add: min_def)

lemma published_loop_take:
  assumes "list_all datasetSchema (found_datasets db fts slug search [])"
  shows "length out \<le> GLOBAL_DATASET_LIST_CAP \<Longrightarrow>
    published_loop db fts (\<lambda>d. Some (enrich d)) slug search offset out
     = Some (take GLOBAL_DATASET_LIST_CAP
         (out @ map (enrich \<circ> datasetWithTags db) (drop offset (found_datasets db fts slug search []))))"
proof (induction "GLOBAL_DATASET_LIST_CAP - length out" arbitrary: offset out rule: less_induct)
  case less
  let ?rows = "found_datasets db fts slug search []" and ?e = "enrich \<circ> datasetWithTags db"
  define page where "page = take 50 (drop offset ?rows)"
  let ?out = "out @ take (GLOBAL_DATASET_LIST_CAP - length out) (map ?e page)"
  show ?case
  proof (cases "length out = GLOBAL_DATASET_LIST_CAP")
    case True
    then show ?thesis by (simp add: published_loop.simps)
  next
    case False
    with less.prems have room: "length out < GLOBAL_DATASET_LIST_CAP" by simp
    have "set page \<subseteq> set ?rows" by (auto simp: page_def dest: in_set_takeD in_set_dropD)
    then have "list_all datasetSchema page" using assms by (auto simp: list_all_iff)
    then have answer: "listDatasets db fts slug search [] GLOBAL_DATASET_PAGE_SIZE (int offset)
        = Some \<lparr>cp_items = map (datasetWithTags db) page, cp_total = int (length ?rows),
            cp_limit = GLOBAL_DATASET_PAGE_SIZE, cp_offset = int offset\<rparr>"
      by (simp add: listDatasets_def sql_window_def GLOBAL_DATASET_PAGE_SIZE_def parse_rows_def Let_def page_def)
    have items: "those (map (\<lambda>d. Some (enrich d)) (map (datasetWithTags db) page)) = Some (map ?e page)"
      unfolding those_map_Some by simp
    have step: "published_loop db fts (\<lambda>d. Some (enrich d)) slug search offset out =
        (if page = [] \<or> length ?rows \<le> offset + length page then Some ?out
         else published_loop db fts (\<lambda>d. Some (enrich d)) slug search (offset + length page) ?out)"
      using room by (subst published_loop.simps) (simp add: answer items Let_def del: map_map)
    have rest: "drop offset ?rows = page @ drop (offset + length page) ?rows"
    proof -
      have "zs = take n zs @ drop (length (take n zs)) zs" for n and zs :: "dataset_row list"
        by (cases "length zs \<le> n") (simp_all add: min_def)
      from this [of "drop offset ?rows" 50] show ?thesis by (simp add: page_def add.commute)
    qed
    have out: "?out = take GLOBAL_DATASET_LIST_CAP (out @ map ?e page)" using room by simp
    show ?thesis
    proof (cases "page = [] \<or> length ?rows \<le> offset + length page")
      case True
      then have "drop (offset + length page) ?rows = []" by (auto simp: page_def)
      then show ?thesis unfolding step using True out rest by simp
    next
      case more: False
      have "GLOBAL_DATASET_LIST_CAP - length ?out < GLOBAL_DATASET_LIST_CAP - length out"
      proof -
        obtain n where "length page = Suc n" using more by (metis length_0_conv not0_implies_Suc)
        then show ?thesis using room by (simp add: min_def) arith
      qed
      moreover have "length ?out \<le> GLOBAL_DATASET_LIST_CAP" using room by simp
      ultimately have "published_loop db fts (\<lambda>d. Some (enrich d)) slug search (offset + length page) ?out
          = Some (take GLOBAL_DATASET_LIST_CAP (?out @ map ?e (drop (offset + length page) ?rows)))"
        by (rule less.hyps)
      moreover have "take GLOBAL_DATASET_LIST_CAP (?out @ ys) = take GLOBAL_DATASET_LIST_CAP ((out @ map ?e page) @ ys)" for ys
        unfolding out by (rule take_take_append)
      moreover have "map ?e (drop offset ?rows) = map ?e page @ map ?e (drop (offset + length page) ?rows)"
        by (subst rest) simp
      ultimately show ?thesis unfolding step using more by simp
    qed
  qed
qed

lemma published_list_take:
  assumes "\<forall>c \<in> set cs. list_all datasetSchema (found_datasets db fts (co_slug c) search [])"
  shows "length out \<le> GLOBAL_DATASET_LIST_CAP \<Longrightarrow>
    published_list db fts (\<lambda>d. Some (enrich d)) search cs out
     = Some (take GLOBAL_DATASET_LIST_CAP (out @ map (enrich \<circ> datasetWithTags db)
         (concat (map (\<lambda>c. found_datasets db fts (co_slug c) search []) cs))))"
  using assms
proof (induction cs arbitrary: out)
  case (Cons c cs)
  let ?out = "take GLOBAL_DATASET_LIST_CAP (out @ map (enrich \<circ> datasetWithTags db) (found_datasets db fts (co_slug c) search []))"
  have "published_loop db fts (\<lambda>d. Some (enrich d)) (co_slug c) search 0 out = Some ?out"
    using published_loop_take [of db fts "co_slug c" search out enrich 0] Cons.prems by simp
  moreover have "published_list db fts (\<lambda>d. Some (enrich d)) search cs ?out
     = Some (take GLOBAL_DATASET_LIST_CAP (?out @ map (enrich \<circ> datasetWithTags db)
         (concat (map (\<lambda>c. found_datasets db fts (co_slug c) search []) cs))))"
    using Cons.prems by (intro Cons.IH) auto
  ultimately show ?case unfolding take_take_append by (simp add: comp_def)
qed simp

text \<open>
  C38: the list of all datasets ends, however many there are, with the first 200 of the
  concatenated listings of the collections: the paging loop neither skips nor repeats a dataset
  and stops as soon as the cap is reached.
\<close>

theorem published_datasets_capped:
  assumes "listCollections db = Some cs"
    and "\<forall>c \<in> set cs. list_all datasetSchema (found_datasets db fts (co_slug c) (nonempty search) [])"
  shows "listPublishedDatasets db fts (\<lambda>d. Some (enrich d)) search
    = Some (take 200 (map (enrich \<circ> datasetWithTags db)
        (concat (map (\<lambda>c. found_datasets db fts (co_slug c) (nonempty search) []) cs))))"
proof -
  have "(if truthy search then search else None) = nonempty search"
    by (auto simp: truthy_def nonempty_def split: option.splits)
  then show ?thesis
    using published_list_take [of cs db fts "nonempty search" "[]" enrich] assms
    by (simp add: listPublishedDatasets_def GLOBAL_DATASET_LIST_CAP_def)
qed

theorem published_datasets_capped_witness:
  "listPublishedDatasets sample_db no_fts (\<lambda>d. Some (da_slug (cd_row d))) (Some [])
   = Some [''a'', ''b'', ''d'']"
proof -
  have cs: "listCollections sample_db = Some (db_collections sample_db)" by code_simp
  have ok: "\<forall>c \<in> set (db_collections sample_db).
      list_all datasetSchema (found_datasets sample_db no_fts (co_slug c) (nonempty (Some [])) [])" by code_simp
  have "concat (map (\<lambda>c. found_datasets sample_db no_fts (co_slug c) (nonempty (Some [])) []) (db_collections sample_db))
      = [sample_dataset ''a'' ''Alpha'', sample_dataset ''b'' ''Beta'', sample_dataset ''d'' ''Delta'']" by code_simp
  then show ?thesis
    using published_datasets_capped [OF cs ok, of "\<lambda>d. da_slug (cd_row d)"]
    by (simp add: datasetWithTags_def Let_def sample_dataset_def)
qed

section \<open>A version's response\<close>

lemma find_SomeD: "List.find P xs = Some x \<Longrightarrow> x \<in> set xs \<and> P x"
  by (auto simp: find_Some_iff)

lemma getFileVersion_row:
  assumes "getFileVersion db c d f label = Some (Some m)"
  shows "fv_row m \<in> set (file_versions db c d f)" "ve_label (fv_row m) = label"
proof -
  obtain v where v: "parse_row versionSchema (filter (\<lambda>v. ve_label v = label) (file_versions db c d f)) = Some (Some v)"
    "file_version_of db v = Some m"
    using assms by (auto simp: getFileVersion_def split: option.splits)
  have "fv_row m = v" using v(2) by (auto simp: file_version_of_def split: option.splits)
  moreover obtain rest where rest: "filter (\<lambda>v. ve_label v = label) (file_versions db c d f) = v # rest"
    using v(1) by (auto simp: parse_row_def split: list.splits if_splits)
  have "v \<in> set (filter (\<lambda>v. ve_label v = label) (file_versions db c d f))" unfolding rest by simp
  ultimately show "fv_row m \<in> set (file_versions db c d f)" "ve_label (fv_row m) = label" by auto
qed

lemma getFileVersion_None:
  assumes "getFileVersion db c d f label = Some None"
  shows "\<forall>v \<in> set (file_versions db c d f). ve_label v \<noteq> label"
  using assms
  by (auto simp: getFileVersion_def parse_row_def filter_empty_conv split: option.splits list.splits if_splits)

lemma assetResponse_version: "assetResponse is_url env version a = Some (Some x) \<Longrightarrow> ca_version x = version"
  by (auto simp: assetResponse_def split: if_splits option.splits)

lemma map_filter_id_mem: "x \<in> set (List.map_filter (\<lambda>x. x) xs) \<longleftrightarrow> Some x \<in> set xs"
  by (induction xs) (auto simp: map_filter_simps split: option.split)

lemma those_mem: "those xs = Some ys \<Longrightarrow> set xs = Some ` set ys"
  by (induction xs arbitrary: ys) (auto split: option.splits)

lemma read_one_version:
  assumes "read_versions db is_url env c d f [label] = Some (assets, metadata)"
  shows "\<forall>a \<in> set assets. ca_version a = label"
    and "metadata = [] \<and> (\<forall>v \<in> set (file_versions db c d f). ve_label v \<noteq> label) \<or>
      (\<exists>m. metadata = [m] \<and> fv_row m \<in> set (file_versions db c d f) \<and> ve_label (fv_row m) = label)"
proof -
  obtain m rows shaped where r: "getFileVersion db c d f label = Some m" "listAssets db c d f (Some label) = Some rows"
    "those (map (assetResponse is_url env label) rows) = Some shaped"
    "assets = List.map_filter (\<lambda>x. x) shaped" "metadata = (case m of None \<Rightarrow> [] | Some x \<Rightarrow> [x])"
    using assms by (auto split: option.splits)
  have "ca_version a = label" if "a \<in> set assets" for a
  proof -
    have "Some a \<in> set shaped" using that unfolding r(4) map_filter_id_mem .
    then have "Some (Some a) \<in> set (map (assetResponse is_url env label) rows)" unfolding those_mem [OF r(3)] by (rule imageI)
    then obtain row where "assetResponse is_url env label row = Some (Some a)" by auto
    then show ?thesis by (rule assetResponse_version)
  qed
  then show "\<forall>a \<in> set assets. ca_version a = label" by blast
  show "metadata = [] \<and> (\<forall>v \<in> set (file_versions db c d f). ve_label v \<noteq> label) \<or>
      (\<exists>m. metadata = [m] \<and> fv_row m \<in> set (file_versions db c d f) \<and> ve_label (fv_row m) = label)"
  proof (cases m)
    case None
    then show ?thesis using getFileVersion_None [of db c d f label] r(1,5) by simp
  next
    case (Some x)
    then show ?thesis using getFileVersion_row [of db c d f label x] r(1,5) by simp
  qed
qed



section \<open>Formats hold every asset once\<close>

definition sources_of :: "(string \<times> format_adapter) list \<Rightarrow> string \<Rightarrow> format_source list" where
  "sources_of formats k = (case map_of formats k of None \<Rightarrow> [] | Some e \<Rightarrow> fa_sources e)"

lemma sources_of_add:
  "sources_of (add_format_asset a formats) k
   = sources_of formats k @ (if ca_format a = k then [format_source_of a] else [])"
  by (simp add: sources_of_def add_format_asset_def Let_def split: option.split)

lemma sources_of_fold:
  "sources_of (fold add_format_asset assets formats) k
   = sources_of formats k @ map format_source_of (filter (\<lambda>a. ca_format a = k) assets)"
  by (induction assets arbitrary: formats) (simp_all add: sources_of_add)

definition keyed :: "(string \<times> format_adapter) list \<Rightarrow> bool" where
  "keyed formats \<longleftrightarrow> distinct (map fst formats) \<and> (\<forall>(k, e) \<in> set formats. fa_key e = k)"

lemma keyed_add:
  assumes "keyed formats"
  shows "keyed (add_format_asset a formats)"
proof -
  let ?e = "case map_of formats (ca_format a) of Some e \<Rightarrow> e
    | None \<Rightarrow> \<lparr>fa_key = ca_format a, fa_name = ca_title a, fa_mime = ca_media a, fa_sources = []\<rparr>"
  have e: "fa_key ?e = ca_format a"
    using assms by (auto simp: keyed_def split: option.split dest: map_of_SomeD)
  have "set (map_set k v m) \<subseteq> insert (k, v) (set m)" for k v and m :: "(string \<times> format_adapter) list"
    by (induction m) auto
  with assms e show ?thesis
    unfolding keyed_def add_format_asset_def Let_def by (fastforce simp: distinct_update)
qed

lemma keyed_fold: "keyed formats \<Longrightarrow> keyed (fold add_format_asset assets formats)"
  by (induction assets arbitrary: formats) (simp_all add: keyed_add)

text \<open>
  Grouping the assets of a file by format loses and repeats nothing: there is one format
  per key, and its sources are those of the assets with that key, in their order.
\<close>

theorem formats_hold_every_asset:
  "distinct (map fa_key (catalog_formats assets)) \<and>
   fa_key ` set (catalog_formats assets) = ca_format ` set assets \<and>
   (\<forall>e \<in> set (catalog_formats assets).
      fa_sources e = map format_source_of (filter (\<lambda>a. ca_format a = fa_key e) assets))"
proof -
  let ?fs = "fold add_format_asset assets []"
  have k: "keyed ?fs" by (rule keyed_fold) (simp add: keyed_def)
  then have keys: "map fa_key (catalog_formats assets) = map fst ?fs"
    by (auto simp: catalog_formats_def keyed_def)
  have "fst ` set (fold add_format_asset xs formats) = fst ` set formats \<union> ca_format ` set xs" for xs formats
    by (induction xs arbitrary: formats) (auto simp: add_format_asset_def Let_def set_keys_map_set)
  from this [of assets "[]"] have "fa_key ` set (catalog_formats assets) = ca_format ` set assets"
    using arg_cong [OF keys, of set] by simp
  moreover have "fa_sources e = map format_source_of (filter (\<lambda>a. ca_format a = fa_key e) assets)"
    if e: "e \<in> set (catalog_formats assets)" for e
  proof -
    obtain key where mem: "(key, e) \<in> set ?fs" using e by (force simp: catalog_formats_def)
    then have "map_of ?fs key = Some e" "fa_key e = key" using k by (auto simp: keyed_def)
    then show ?thesis using sources_of_fold [of assets "[]" key] by (simp add: sources_of_def)
  qed
  ultimately show ?thesis using k keys by (simp add: keyed_def)
qed

section \<open>Object paths\<close>

lemma encode_segment_no_slash: "CHR ''/'' \<notin> set (encode_segment s)"
  using encodeURIComponent_chars [of "CHR ''/''" s]
  by (auto simp: encode_segment_def uri_unreserved_def is_digit_def is_lower_alpha_def is_upper_alpha_def)

text \<open>
  The path of an object reaches the storage as it is: its segments decode to those of the
  key, one by one, and none is the bare \<open>.\<close> or \<open>..\<close>. (A URL parser that follows the WHATWG
  standard also reads \<open>%2E%2E\<close> as a parent segment; the model does not resolve paths.)
\<close>

theorem object_path_segments:
  "map decodeURIComponent (split_on CHR ''/'' (encodeObjectPath v)) = map Some (split_on CHR ''/'' v) \<and>
   ''.'' \<notin> set (split_on CHR ''/'' (encodeObjectPath v)) \<and>
   ''..'' \<notin> set (split_on CHR ''/'' (encodeObjectPath v))"
proof -
  have segments: "split_on CHR ''/'' (encodeObjectPath v) = map encode_segment (split_on CHR ''/'' v)"
    unfolding encodeObjectPath_def using encode_segment_no_slash by (intro split_on_join) auto
  have decoded: "decodeURIComponent (encode_segment s) = Some s" for s
  proof -
    have "decodeURIComponent ''%2E'' = Some ''.''" "decodeURIComponent ''%2E%2E'' = Some ''..''" by code_simp+
    then show ?thesis by (simp add: encode_segment_def)
  qed
  have "encode_segment s \<noteq> t" if t: "t \<in> {''.'', ''..''}" for s t
  proof
    assume eq: "encode_segment s = t"
    have "decodeURIComponent ''.'' = Some ''.''" "decodeURIComponent ''..'' = Some ''..''" by code_simp+
    with t have "decodeURIComponent t = Some t" by auto
    with decoded [of s] eq have "s = t" by simp
    with eq t show False by (auto simp: encode_segment_def)
  qed
  then have "''.'' \<notin> set (map encode_segment ws)" "''..'' \<notin> set (map encode_segment ws)" for ws
    by (metis (no_types, lifting) ex_map_conv insertI1, metis (no_types, lifting) ex_map_conv insertI1 insertI2)
  with decoded show ?thesis unfolding segments by (simp add: comp_def)
qed

end
