(* ===== verification/FeatureDiff.thy ===== *)
theory FeatureDiff
  imports FeatureSelection
begin

text \<open>
  Comparing the selected features of two versions of a file,
  \<open>webapp/src/components/map/featureDiff.ts\<close> and \<open>featureSpatialIndex.ts\<close>: candidate pairs are
  scored on match keys, each feature of the left version takes the best free one of the right,
  and the rest is shown on its own. Scores are exact rationals. \<open>lc\<close> and \<open>lcBase\<close> are
  \<open>localeCompare\<close> without and with the numeric base options; the S2 library is a parameter.
\<close>

section \<open>Spatial index\<close>

record s2_library =
  s2_max_level :: int
  s2_token :: "rat \<times> rat \<Rightarrow> int \<Rightarrow> string"
  s2_neighbors :: "rat \<times> rat \<Rightarrow> int \<Rightarrow> string list"

record s2_cell =
  cell_token :: string
  cell_level :: int
  cell_neighbors :: "string list"

definition validLevel :: "s2_library \<Rightarrow> js_number \<Rightarrow> int" where
  "validLevel s2 level =
     (case level of
        JsFin r \<Rightarrow> if isInteger level \<and> 0 \<le> r \<and> r \<le> of_int (s2_max_level s2) then fst (quotient_of r) else 16
      | _ \<Rightarrow> 16)"

definition s2CellForPoint :: "s2_library \<Rightarrow> rat \<times> rat \<Rightarrow> js_number \<Rightarrow> s2_cell" where
  "s2CellForPoint s2 point level =
     (let n = validLevel s2 level in
      \<lparr>cell_token = s2_token s2 point n, cell_level = n,
       cell_neighbors = set_from_list (s2_token s2 point n # s2_neighbors s2 point n)\<rparr>)"

section \<open>Types\<close>

definition GEOMETRY_MATCH_COLUMN :: string where "GEOMETRY_MATCH_COLUMN = ''__geometry__''"
definition DEFAULT_MATCH_THRESHOLD :: rat where "DEFAULT_MATCH_THRESHOLD = 65 / 100"

definition STABLE_IDENTIFIER_FIELDS :: "string list" where
  "STABLE_IDENTIFIER_FIELDS = [''OBJECTID'', ''ID'', ''id'', ''objectid'', ''fid'', ''facility_id'']"

definition DEFAULT_MATCH_KEY_FIELDS :: "string list" where
  "DEFAULT_MATCH_KEY_FIELDS = STABLE_IDENTIFIER_FIELDS @ [''NAME'', ''name'']"

datatype diff_status = Unchanged | Changed | LeftOnly | RightOnly | PossibleMatch

fun STATUS_SORT_ORDER :: "diff_status \<Rightarrow> int" where
  "STATUS_SORT_ORDER Changed = 0"
| "STATUS_SORT_ORDER PossibleMatch = 1"
| "STATUS_SORT_ORDER LeftOnly = 2"
| "STATUS_SORT_ORDER RightOnly = 3"
| "STATUS_SORT_ORDER Unchanged = 4"

datatype match_method = MatchKey | MatchFuzzy | MatchS2 | MatchNone
datatype cell_status = CellUnchanged | CellChanged | CellAdded | CellRemoved

record match_pair =
  mp_id :: string
  mp_left :: string
  mp_right :: string

datatype sort_direction = Asc | Desc

record diff_sort =
  so_column :: string
  so_direction :: sort_direction

record diff_options =
  do_leftVersion :: string
  do_rightVersion :: string
  do_pairs :: "match_pair list"
  do_s2Level :: js_number
  do_sort :: "diff_sort option"

record diff_cell =
  dc_left :: string
  dc_right :: string
  dc_leftPresent :: bool
  dc_rightPresent :: bool
  dc_status :: cell_status

text \<open>A row carries catalogue features only; key and label of a column are the same text.\<close>

record diff_row =
  dr_id :: string
  dr_status :: diff_status
  dr_method :: match_method
  dr_confidence :: rat
  dr_left :: "selected_feature option"
  dr_right :: "selected_feature option"
  dr_cells :: "(string \<times> diff_cell) list"

record diff_summary =
  su_selected :: nat
  su_matched :: nat
  su_changed :: nat
  su_leftOnly :: nat
  su_rightOnly :: nat
  su_possible :: nat

record diff_result =
  re_canCompare :: bool
  re_reason :: "string option"
  re_leftVersion :: "string option"
  re_rightVersion :: "string option"
  re_columns :: "string list"
  re_rows :: "diff_row list"
  re_summary :: diff_summary

record column_score =
  sc_score :: rat
  sc_method :: match_method
  sc_weight :: rat
  sc_stable :: bool

record score_accumulator =
  ac_totalWeight :: rat
  ac_weightedScore :: rat
  ac_exactMatch :: bool
  ac_disagreement :: bool
  ac_scores :: "column_score list"

definition emptySummary :: "nat \<Rightarrow> diff_summary" where
  "emptySummary selected = \<lparr>su_selected = selected, su_matched = 0, su_changed = 0, su_leftOnly = 0,
     su_rightOnly = 0, su_possible = 0\<rparr>"

section \<open>Versions and match keys\<close>

definition catalogFeatures :: "selected_feature list \<Rightarrow> selected_feature list" where
  "catalogFeatures features = filter isCatalogSelectedMapFeature features"

definition descriptor_of :: "selected_feature \<Rightarrow> source_descriptor option" where
  "descriptor_of f = (case sm_kind f of CatalogSelected d \<Rightarrow> Some d | QuerySelected q \<Rightarrow> None)"

definition comparisonScope :: "source_descriptor \<Rightarrow> string" where
  "comparisonScope d = join '':'' [sd_collectionSlug d, sd_datasetSlug d, sd_fileSlug d]"

definition has_version :: "string \<Rightarrow> selected_feature \<Rightarrow> bool" where
  "has_version v f = (map_option sd_version (descriptor_of f) = Some v)"

definition comparableVersions :: "(string \<Rightarrow> string \<Rightarrow> int) \<Rightarrow> selected_feature list \<Rightarrow> string list option" where
  "comparableVersions lc features =
     (let catalog = catalogFeatures features; ds = List.map_filter descriptor_of catalog in
      if catalog = [] \<or> length catalog \<noteq> length features then None
      else
        (let scopes = set_from_list (map comparisonScope ds); versions = set_from_list (map sd_version ds) in
         if length scopes \<noteq> 1 \<or> length versions \<noteq> 2 then None
         else Some (sort_by (\<lambda>l r. version_cmp lc (VersionString r) (VersionString l)) versions)))"

definition comparableFeatureDiffVersions :: "(string \<Rightarrow> string \<Rightarrow> int) \<Rightarrow> selected_feature list \<Rightarrow> string list" where
  "comparableFeatureDiffVersions lc features =
     (case comparableVersions lc features of None \<Rightarrow> [] | Some vs \<Rightarrow> vs)"

text \<open>The module has its own \<open>isComparableFeatureDiffSelection\<close>.\<close>

definition comparable_selection :: "(string \<Rightarrow> string \<Rightarrow> int) \<Rightarrow> selected_feature list \<Rightarrow> bool" where
  "comparable_selection lc features \<longleftrightarrow> comparableVersions lc features \<noteq> None"

definition allPropertyKeys :: "(string \<Rightarrow> string \<Rightarrow> int) \<Rightarrow> selected_feature list \<Rightarrow> string list" where
  "allPropertyKeys lc features =
     sort_by lc (set_from_list (concat (map (\<lambda>f. map fst (sm_properties f)) features)))"

definition propertyKeysForVersion :: "selected_feature list \<Rightarrow> string \<Rightarrow> string list" where
  "propertyKeysForVersion features version =
     set_from_list (concat (map (\<lambda>f. map fst (sm_properties f)) (filter (has_version version) (catalogFeatures features))))"

definition featuresForVersionHaveCentroid :: "selected_feature list \<Rightarrow> string \<Rightarrow> bool" where
  "featuresForVersionHaveCentroid features version \<longleftrightarrow>
     (\<exists>f \<in> set (catalogFeatures features). has_version version f \<and> sm_centroid f \<noteq> None)"

definition matchKeyPair :: "string \<Rightarrow> string \<Rightarrow> match_pair" where
  "matchKeyPair l r = \<lparr>mp_id = l @ '':'' @ r, mp_left = l, mp_right = r\<rparr>"

text \<open>Key and label of each option.\<close>

definition featureDiffMatchKeyOptions ::
  "(string \<Rightarrow> string \<Rightarrow> int) \<Rightarrow> selected_feature list \<Rightarrow> string \<Rightarrow> (string \<times> string) list" where
  "featureDiffMatchKeyOptions lc features version =
     (let catalog = catalogFeatures features;
          columns = map (\<lambda>k. (k, k)) (sort_by lc (propertyKeysForVersion features version)) in
      if \<not> featuresForVersionHaveCentroid catalog version then columns
      else columns @ [(GEOMETRY_MATCH_COLUMN, ''Geometry'')])"

definition defaultFeatureDiffMatchKeyPairs ::
  "(string \<Rightarrow> string \<Rightarrow> int) \<Rightarrow> selected_feature list \<Rightarrow> string \<Rightarrow> string \<Rightarrow> match_pair list" where
  "defaultFeatureDiffMatchKeyPairs lc features leftVersion rightVersion =
     (let catalog = catalogFeatures features;
          leftKeys = propertyKeysForVersion catalog leftVersion;
          rightKeys = propertyKeysForVersion catalog rightVersion in
      case List.find (\<lambda>k. k \<in> set leftKeys \<and> k \<in> set rightKeys) DEFAULT_MATCH_KEY_FIELDS of
        Some k \<Rightarrow> [matchKeyPair k k]
      | None \<Rightarrow>
          (case sort_by lc (filter (\<lambda>k. k \<in> set rightKeys) leftKeys) of
             k # ks \<Rightarrow> if k \<noteq> [] then [matchKeyPair k k] else []
           | [] \<Rightarrow>
               if featuresForVersionHaveCentroid catalog leftVersion \<and> featuresForVersionHaveCentroid catalog rightVersion
               then [matchKeyPair GEOMETRY_MATCH_COLUMN GEOMETRY_MATCH_COLUMN] else []))"

section \<open>Similarity of texts\<close>

text \<open>\<open>s.replace(/P+/g, " ")\<close>.\<close>

function replace_runs :: "(char \<Rightarrow> bool) \<Rightarrow> string \<Rightarrow> string" where
  "replace_runs P [] = []"
| "replace_runs P (c # s) =
     (if P c then CHR '' '' # replace_runs P (dropWhile P s) else c # replace_runs P s)"
  by pat_completeness auto
termination by (relation "measure (length \<circ> snd)") (auto simp: le_imp_less_Suc length_dropWhile_le)

definition normalizeText :: "string \<Rightarrow> string" where
  "normalizeText v =
     trim (replace_runs is_space
       (replace_runs (\<lambda>c. \<not> is_lower_alpha c \<and> \<not> is_digit c) (toLowerCase (trim v))))"

definition bigrams :: "string \<Rightarrow> string list" where
  "bigrams v =
     (if length v \<le> 2 then (if v = [] then [] else [v])
      else set_from_list (map (\<lambda>i. take 2 (drop i v)) [0..<length v - 1]))"

definition normalized_similarity :: "string \<Rightarrow> string \<Rightarrow> rat option" where
  "normalized_similarity l r =
     (if l = [] \<or> r = [] then None
      else if l = r then Some 1
      else if str_includes l r \<or> str_includes r l
      then Some (max (7 / 10) (of_nat (min (length l) (length r)) / of_nat (max (length l) (length r))))
      else
        (let ls = bigrams l; rs = bigrams r in
         if ls = [] \<or> rs = [] then None
         else Some (2 * of_nat (length (filter (\<lambda>g. g \<in> set rs) ls)) / of_nat (length ls + length rs))))"

definition textSimilarity :: "string \<Rightarrow> string \<Rightarrow> rat option" where
  "textSimilarity leftValue rightValue = normalized_similarity (normalizeText leftValue) (normalizeText rightValue)"

section \<open>Scores\<close>

definition hasFeatureProperty :: "selected_feature \<Rightarrow> string \<Rightarrow> bool" where
  "hasFeatureProperty f k \<longleftrightarrow> map_of (sm_properties f) k \<noteq> None"

text \<open>\<open>feature.properties[key] ?? ""\<close>, asked for an own property only.\<close>

definition property_text :: "selected_feature \<Rightarrow> string \<Rightarrow> string" where
  "property_text f k = (case map_of (sm_properties f) k of Some v \<Rightarrow> v | None \<Rightarrow> [])"

definition isStableIdentifierKey :: "string \<Rightarrow> bool" where
  "isStableIdentifierKey k \<longleftrightarrow> k \<in> set STABLE_IDENTIFIER_FIELDS"

definition matchKeyWeight :: "bool \<Rightarrow> rat" where
  "matchKeyWeight isStable = (if isStable then 5 / 2 else 1)"

definition geometrySimilarity :: "s2_library \<Rightarrow> selected_feature \<Rightarrow> selected_feature \<Rightarrow> js_number \<Rightarrow> rat option" where
  "geometrySimilarity s2 left right level =
     (case (sm_centroid left, sm_centroid right) of
        (Some p, Some q) \<Rightarrow>
          (let leftCell = s2CellForPoint s2 p level; rightCell = s2CellForPoint s2 q level in
           if cell_token leftCell = cell_token rightCell then Some (8 / 10)
           else if cell_token rightCell \<in> set (cell_neighbors leftCell) then Some (7 / 10) else Some 0)
      | _ \<Rightarrow> None)"

definition scoreGeometryColumn ::
  "s2_library \<Rightarrow> selected_feature \<Rightarrow> selected_feature \<Rightarrow> js_number \<Rightarrow> bool \<Rightarrow> column_score option" where
  "scoreGeometryColumn s2 left right level geometryOnly =
     map_option (\<lambda>s. \<lparr>sc_score = s, sc_method = MatchS2, sc_weight = if geometryOnly then 1 else 7 / 10,
       sc_stable = False\<rparr>) (geometrySimilarity s2 left right level)"

definition scorePropertyColumn :: "match_pair \<Rightarrow> selected_feature \<Rightarrow> selected_feature \<Rightarrow> column_score option" where
  "scorePropertyColumn p left right =
     (let isStable = isStableIdentifierKey (mp_left p) \<and> isStableIdentifierKey (mp_right p);
          weight = matchKeyWeight isStable in
      if \<not> hasFeatureProperty left (mp_left p) \<or> \<not> hasFeatureProperty right (mp_right p)
      then Some \<lparr>sc_score = 0, sc_method = MatchFuzzy, sc_weight = weight, sc_stable = isStable\<rparr>
      else
        (let leftValue = property_text left (mp_left p); rightValue = property_text right (mp_right p);
             l = normalizeText leftValue; r = normalizeText rightValue in
         if isStable \<and> l \<noteq> [] \<and> r \<noteq> [] \<and> l \<noteq> r
         then Some \<lparr>sc_score = 0, sc_method = MatchKey, sc_weight = weight, sc_stable = isStable\<rparr>
         else map_option (\<lambda>s. \<lparr>sc_score = s, sc_method = if s = 1 \<or> isStable then MatchKey else MatchFuzzy,
                sc_weight = weight, sc_stable = isStable\<rparr>) (textSimilarity leftValue rightValue)))"

definition scoreForColumn ::
  "s2_library \<Rightarrow> match_pair \<Rightarrow> selected_feature \<Rightarrow> selected_feature \<Rightarrow> js_number \<Rightarrow> bool \<Rightarrow> column_score option" where
  "scoreForColumn s2 p left right level geometryOnly =
     (if mp_left p = GEOMETRY_MATCH_COLUMN \<and> mp_right p = GEOMETRY_MATCH_COLUMN
      then scoreGeometryColumn s2 left right level geometryOnly
      else if mp_left p = GEOMETRY_MATCH_COLUMN \<or> mp_right p = GEOMETRY_MATCH_COLUMN then None
      else scorePropertyColumn p left right)"

definition emptyCandidateScoreAccumulator :: score_accumulator where
  "emptyCandidateScoreAccumulator =
     \<lparr>ac_totalWeight = 0, ac_weightedScore = 0, ac_exactMatch = False, ac_disagreement = False, ac_scores = []\<rparr>"

definition addColumnScore :: "score_accumulator \<Rightarrow> column_score \<Rightarrow> score_accumulator" where
  "addColumnScore a s =
     \<lparr>ac_totalWeight = ac_totalWeight a + sc_weight s,
      ac_weightedScore = ac_weightedScore a + sc_score s * sc_weight s,
      ac_exactMatch = (ac_exactMatch a \<or> (sc_stable s \<and> sc_score s = 1)),
      ac_disagreement = (ac_disagreement a \<or> (sc_stable s \<and> sc_score s < 1)),
      ac_scores = ac_scores a @ [s]\<rparr>"

definition bestColumnSignal :: "column_score list \<Rightarrow> column_score option" where
  "bestColumnSignal scores =
     (case scores of
        [] \<Rightarrow> None
      | s # ss \<Rightarrow> Some (foldl (\<lambda>b x. if sc_score b < sc_score x then x else b) s ss))"

definition candidateScoreFromAccumulator :: "score_accumulator \<Rightarrow> (rat \<times> match_method) option" where
  "candidateScoreFromAccumulator a =
     (if ac_totalWeight a = 0 \<or> ac_scores a = [] \<or> ac_disagreement a then None
      else
        (let s = ac_weightedScore a / ac_totalWeight a in
         if s < DEFAULT_MATCH_THRESHOLD then None
         else if ac_exactMatch a then Some (s, MatchKey)
         else map_option (\<lambda>b. (s, sc_method b)) (bestColumnSignal (ac_scores a))))"

definition geometry_only :: "match_pair list \<Rightarrow> bool" where
  "geometry_only pairs \<longleftrightarrow>
     (case pairs of [p] \<Rightarrow> mp_left p = GEOMETRY_MATCH_COLUMN \<and> mp_right p = GEOMETRY_MATCH_COLUMN | _ \<Rightarrow> False)"

definition scoreCandidate ::
  "s2_library \<Rightarrow> selected_feature \<Rightarrow> selected_feature \<Rightarrow> match_pair list \<Rightarrow> js_number \<Rightarrow> (rat \<times> match_method) option" where
  "scoreCandidate s2 left right pairs level =
     candidateScoreFromAccumulator
       (foldl (\<lambda>a p. case scoreForColumn s2 p left right level (geometry_only pairs) of
                       None \<Rightarrow> a | Some s \<Rightarrow> addColumnScore a s)
         emptyCandidateScoreAccumulator pairs)"

section \<open>Rows\<close>

definition cellStatus :: "string \<Rightarrow> string \<Rightarrow> bool \<Rightarrow> bool \<Rightarrow> cell_status" where
  "cellStatus left right leftPresent rightPresent =
     (if \<not> leftPresent \<and> \<not> rightPresent then CellUnchanged
      else if \<not> leftPresent \<and> rightPresent then CellAdded
      else if leftPresent \<and> \<not> rightPresent then CellRemoved
      else if left = right then CellUnchanged else CellChanged)"

definition side_text :: "selected_feature option \<Rightarrow> string \<Rightarrow> string option" where
  "side_text side column = (case side of None \<Rightarrow> None | Some f \<Rightarrow> map_of (sm_properties f) column)"

definition build_cell :: "selected_feature option \<Rightarrow> selected_feature option \<Rightarrow> string \<Rightarrow> diff_cell" where
  "build_cell left right column =
     (let l = side_text left column; r = side_text right column;
          leftValue = (case l of Some v \<Rightarrow> v | None \<Rightarrow> []); rightValue = (case r of Some v \<Rightarrow> v | None \<Rightarrow> []) in
      \<lparr>dc_left = leftValue, dc_right = rightValue, dc_leftPresent = (l \<noteq> None), dc_rightPresent = (r \<noteq> None),
       dc_status = cellStatus leftValue rightValue (l \<noteq> None) (r \<noteq> None)\<rparr>)"

definition buildCells ::
  "selected_feature option \<Rightarrow> selected_feature option \<Rightarrow> string list \<Rightarrow> (string \<times> diff_cell) list" where
  "buildCells left right columns =
     foldl (\<lambda>cells column. map_set column (build_cell left right column) cells) [] columns"

definition rowStatus ::
  "selected_feature option \<Rightarrow> selected_feature option \<Rightarrow> rat \<Rightarrow> (string \<times> diff_cell) list \<Rightarrow> diff_status" where
  "rowStatus left right confidence cells =
     (if left = None then RightOnly
      else if right = None then LeftOnly
      else if confidence < 9 / 10 then PossibleMatch
      else if \<exists>c \<in> set cells. dc_status (snd c) \<noteq> CellUnchanged then Changed else Unchanged)"

definition matchedRow ::
  "selected_feature \<Rightarrow> selected_feature \<Rightarrow> rat \<Rightarrow> match_method \<Rightarrow> string list \<Rightarrow> diff_row" where
  "matchedRow left right score method columns =
     (let cells = buildCells (Some left) (Some right) columns in
      \<lparr>dr_id = sm_id left @ '':'' @ sm_id right, dr_status = rowStatus (Some left) (Some right) score cells,
       dr_method = method, dr_confidence = score, dr_left = Some left, dr_right = Some right, dr_cells = cells\<rparr>)"

datatype row_side = LeftSide | RightSide

definition unmatchedRow :: "selected_feature \<Rightarrow> row_side \<Rightarrow> string list \<Rightarrow> diff_row" where
  "unmatchedRow f side columns =
     (let left = (if side = LeftSide then Some f else None); right = (if side = RightSide then Some f else None) in
      \<lparr>dr_id = (if side = LeftSide then ''left'' else ''right'') @ '':'' @ sm_id f,
       dr_status = (if side = LeftSide then LeftOnly else RightOnly), dr_method = MatchNone, dr_confidence = 0,
       dr_left = left, dr_right = right, dr_cells = buildCells left right columns\<rparr>)"

definition summarize :: "diff_row list \<Rightarrow> nat \<Rightarrow> diff_summary" where
  "summarize rows selected =
     \<lparr>su_selected = selected,
      su_matched = length (filter (\<lambda>r. dr_left r \<noteq> None \<and> dr_right r \<noteq> None) rows),
      su_changed = length (filter (\<lambda>r. dr_status r = Changed) rows),
      su_leftOnly = length (filter (\<lambda>r. dr_status r = LeftOnly) rows),
      su_rightOnly = length (filter (\<lambda>r. dr_status r = RightOnly) rows),
      su_possible = length (filter (\<lambda>r. dr_status r = PossibleMatch) rows)\<rparr>"

definition featureSortValue :: "diff_row \<Rightarrow> string \<Rightarrow> string" where
  "featureSortValue row column =
     (case map_of (dr_cells row) column of
        None \<Rightarrow> []
      | Some c \<Rightarrow> if dc_leftPresent c then dc_left c else if dc_rightPresent c then dc_right c else [])"

definition row_cmp :: "(string \<Rightarrow> string \<Rightarrow> int) \<Rightarrow> diff_sort \<Rightarrow> diff_row \<Rightarrow> diff_row \<Rightarrow> rat" where
  "row_cmp lcBase s l r =
     (let direction = (if so_direction s = Asc then 1 else - 1) in
      if so_column s = ''status'' then of_int (STATUS_SORT_ORDER (dr_status l) - STATUS_SORT_ORDER (dr_status r)) * direction
      else if so_column s = ''confidence'' then (dr_confidence l - dr_confidence r) * direction
      else of_int (lcBase (featureSortValue l (so_column s)) (featureSortValue r (so_column s))) * direction)"

definition sortRows :: "(string \<Rightarrow> string \<Rightarrow> int) \<Rightarrow> diff_row list \<Rightarrow> diff_sort option \<Rightarrow> diff_row list" where
  "sortRows lcBase rows s = (case s of None \<Rightarrow> rows | Some d \<Rightarrow> sort_by (row_cmp lcBase d) rows)"

section \<open>Matching\<close>

fun scoreMethodRank :: "match_method \<Rightarrow> int" where
  "scoreMethodRank MatchKey = 0"
| "scoreMethodRank MatchFuzzy = 1"
| "scoreMethodRank MatchS2 = 2"
| "scoreMethodRank MatchNone = 3"

type_synonym scored = "selected_feature \<times> rat \<times> match_method"

definition better_match :: "(string \<Rightarrow> string \<Rightarrow> int) \<Rightarrow> scored \<Rightarrow> scored option \<Rightarrow> bool" where
  "better_match lc x best =
     (case (x, best) of
        (_, None) \<Rightarrow> True
      | ((f, s, m), Some (g, t, n)) \<Rightarrow>
          t < s \<or> (s = t \<and> scoreMethodRank m < scoreMethodRank n) \<or> (s = t \<and> m = n \<and> lc (sm_id f) (sm_id g) < 0))"

definition consider_match ::
  "s2_library \<Rightarrow> (string \<Rightarrow> string \<Rightarrow> int) \<Rightarrow> selected_feature \<Rightarrow> string list \<Rightarrow> match_pair list \<Rightarrow> js_number \<Rightarrow>
   scored option \<Rightarrow> selected_feature \<Rightarrow> scored option" where
  "consider_match s2 lc left unmatchedRight pairs level best right =
     (if sm_id right \<notin> set unmatchedRight then best
      else
        (case scoreCandidate s2 left right pairs level of
           None \<Rightarrow> best
         | Some sm \<Rightarrow> if better_match lc (right, sm) best then Some (right, sm) else best))"

definition bestMatchForLeft ::
  "s2_library \<Rightarrow> (string \<Rightarrow> string \<Rightarrow> int) \<Rightarrow> selected_feature \<Rightarrow> selected_feature list \<Rightarrow> string list \<Rightarrow>
   match_pair list \<Rightarrow> js_number \<Rightarrow> scored option" where
  "bestMatchForLeft s2 lc left rightFeatures unmatchedRight pairs level =
     foldl (consider_match s2 lc left unmatchedRight pairs level) None rightFeatures"

text \<open>One step of the loop over the left features: the free right ids and the rows so far.\<close>

definition left_step ::
  "s2_library \<Rightarrow> (string \<Rightarrow> string \<Rightarrow> int) \<Rightarrow> selected_feature list \<Rightarrow> match_pair list \<Rightarrow> js_number \<Rightarrow> string list \<Rightarrow>
   string list \<times> diff_row list \<Rightarrow> selected_feature \<Rightarrow> string list \<times> diff_row list" where
  "left_step s2 lc rightFeatures pairs level columns acc left =
     (case bestMatchForLeft s2 lc left rightFeatures (fst acc) pairs level of
        None \<Rightarrow> (fst acc, snd acc @ [unmatchedRow left LeftSide columns])
      | Some (right, s, m) \<Rightarrow>
          (removeAll (sm_id right) (fst acc), snd acc @ [matchedRow left right s m columns]))"

definition buildRows ::
  "s2_library \<Rightarrow> (string \<Rightarrow> string \<Rightarrow> int) \<Rightarrow> selected_feature list \<Rightarrow> selected_feature list \<Rightarrow>
   match_pair list \<Rightarrow> js_number \<Rightarrow> string list \<Rightarrow> diff_row list" where
  "buildRows s2 lc leftFeatures rightFeatures pairs level columns =
     (let acc = foldl (left_step s2 lc rightFeatures pairs level columns)
            (set_from_list (map sm_id rightFeatures), []) leftFeatures in
      snd acc @ map (\<lambda>f. unmatchedRow f RightSide columns) (filter (\<lambda>f. sm_id f \<in> set (fst acc)) rightFeatures))"

definition incomparable :: "string \<Rightarrow> nat \<Rightarrow> diff_result" where
  "incomparable reason selected =
     \<lparr>re_canCompare = False, re_reason = Some reason, re_leftVersion = None, re_rightVersion = None,
      re_columns = [], re_rows = [], re_summary = emptySummary selected\<rparr>"

definition chosen_versions :: "string list \<Rightarrow> diff_options \<Rightarrow> (string \<times> string) option" where
  "chosen_versions versions opts =
     (let left = (if do_leftVersion opts \<in> set versions then do_leftVersion opts else versions ! 0) in
      case (if do_rightVersion opts \<in> set versions then Some (do_rightVersion opts)
            else List.find (\<lambda>v. v \<noteq> left) versions) of
        None \<Rightarrow> None
      | Some right \<Rightarrow> if left = [] \<or> right = [] \<or> left = right then None else Some (left, right))"

definition used_pairs ::
  "(string \<Rightarrow> string \<Rightarrow> int) \<Rightarrow> selected_feature list \<Rightarrow> diff_options \<Rightarrow> string \<Rightarrow> string \<Rightarrow> match_pair list" where
  "used_pairs lc catalog opts leftVersion rightVersion =
     (if do_pairs opts \<noteq> [] then do_pairs opts else defaultFeatureDiffMatchKeyPairs lc catalog leftVersion rightVersion)"

definition buildFeatureDiff ::
  "s2_library \<Rightarrow> (string \<Rightarrow> string \<Rightarrow> int) \<Rightarrow> (string \<Rightarrow> string \<Rightarrow> int) \<Rightarrow>
   selected_feature list \<Rightarrow> diff_options \<Rightarrow> diff_result" where
  "buildFeatureDiff s2 lc lcBase features opts =
     (let catalog = catalogFeatures features; selected = length features in
      case comparableVersions lc catalog of
        None \<Rightarrow> incomparable ''Select features from exactly two versions of the same dataset file.'' selected
      | Some versions \<Rightarrow>
          if do_leftVersion opts = do_rightVersion opts
          then incomparable ''Select features from exactly two versions of the same dataset file.'' selected
          else
            (case chosen_versions versions opts of
               None \<Rightarrow> incomparable ''Choose two different versions to compare.'' selected
             | Some (leftVersion, rightVersion) \<Rightarrow>
                 (let columns = allPropertyKeys lc catalog;
                      rows = sortRows lcBase
                        (buildRows s2 lc (filter (has_version leftVersion) catalog) (filter (has_version rightVersion) catalog)
                          (used_pairs lc catalog opts leftVersion rightVersion) (do_s2Level opts) columns)
                        (do_sort opts) in
                  \<lparr>re_canCompare = True, re_reason = None, re_leftVersion = Some leftVersion,
                   re_rightVersion = Some rightVersion, re_columns = columns, re_rows = rows,
                   re_summary = summarize rows selected\<rparr>)))"

definition changedFeatureDiffColumns :: "diff_result \<Rightarrow> string list" where
  "changedFeatureDiffColumns diff =
     filter (\<lambda>c. \<exists>r \<in> set (re_rows diff). map_option dc_status (map_of (dr_cells r) c) \<noteq> Some CellUnchanged)
       (re_columns diff)"

section \<open>Similarity lies between 0 and 1\<close>

lemma distinct_bigrams [simp]: "distinct (bigrams v)"
  by (simp add: bigrams_def)

lemma length_common_grams:
  assumes "distinct xs"
  shows "length (filter (\<lambda>g. g \<in> set ys) xs) = card (set xs \<inter> set ys)"
proof -
  have "set (filter (\<lambda>g. g \<in> set ys) xs) = set xs \<inter> set ys" by auto
  then show ?thesis using assms by (metis distinct_card distinct_filter)
qed

lemma common_grams_le:
  "2 * length (filter (\<lambda>g. g \<in> set (bigrams r)) (bigrams l)) \<le> length (bigrams l) + length (bigrams r)"
proof -
  have "card (set (bigrams l) \<inter> set (bigrams r)) \<le> card (set (bigrams l))"
    "card (set (bigrams l) \<inter> set (bigrams r)) \<le> card (set (bigrams r))"
    by (auto intro: card_mono)
  then show ?thesis by (simp add: length_common_grams distinct_card)
qed

lemma normalized_similarity_bounds:
  assumes "normalized_similarity l r = Some s"
  shows "0 \<le> s \<and> s \<le> 1"
proof (cases "l = [] \<or> r = [] \<or> l = r \<or> str_includes l r \<or> str_includes r l")
  case True
  have "of_nat (min (length l) (length r)) / of_nat (max (length l) (length r)) \<le> (1 :: rat)"
    by (intro divide_le_eq_1 [THEN iffD2]) (auto simp: max_def min_def)
  with assms True show ?thesis by (auto simp: normalized_similarity_def le_max_iff_disj split: if_splits)
next
  case False
  define n where "n = length (filter (\<lambda>g. g \<in> set (bigrams r)) (bigrams l))"
  define m where "m = length (bigrams l) + length (bigrams r)"
  have "2 * n \<le> m" using common_grams_le [of r l] by (simp add: n_def m_def)
  then have nm: "2 * of_nat n \<le> (of_nat m :: rat)" by (metis of_nat_le_iff of_nat_mult of_nat_numeral)
  have "bigrams l \<noteq> []" and s: "s = 2 * of_nat n / of_nat m"
    using assms False by (auto simp: normalized_similarity_def Let_def n_def m_def split: if_splits)
  then have "0 < m" by (simp add: m_def)
  then have "0 < (of_nat m :: rat)" by (simp only: of_nat_0_less_iff)
  with nm show ?thesis by (simp add: s divide_le_eq)
qed

lemma normalized_similarity_sym: "normalized_similarity l r = normalized_similarity r l"
  by (auto simp: normalized_similarity_def Let_def length_common_grams inf_commute min.commute max.commute add.commute)

text \<open>The similarity of two texts is symmetric and lies between 0 and 1.\<close>

lemma text_similarity_symmetric:
  "textSimilarity l r = textSimilarity r l \<and> (case textSimilarity l r of Some s \<Rightarrow> 0 \<le> s \<and> s \<le> 1 | None \<Rightarrow> True)"
  using normalized_similarity_bounds normalized_similarity_sym
  by (auto simp: textSimilarity_def split: option.splits)

text \<open>
  Texts with the same bigrams have similarity 1 without being equal, and their pair is then
  reported as matched by key.
\<close>

lemma different_texts_match_fully:
  "textSimilarity ''abab'' ''baba'' = Some 1"
  by code_simp

section \<open>Candidate scores\<close>

definition column_scores ::
  "s2_library \<Rightarrow> selected_feature \<Rightarrow> selected_feature \<Rightarrow> match_pair list \<Rightarrow> js_number \<Rightarrow> column_score list" where
  "column_scores s2 left right pairs level =
     List.map_filter (\<lambda>p. scoreForColumn s2 p left right level (geometry_only pairs)) pairs"

lemma fold_scores:
  "foldl (\<lambda>a p. case f p of None \<Rightarrow> a | Some s \<Rightarrow> addColumnScore a s) a ps =
   foldl addColumnScore a (List.map_filter f ps)"
  by (induction ps arbitrary: a) (auto simp: map_filter_simps split: option.splits)

lemma scoreCandidate_scores:
  "scoreCandidate s2 left right pairs level =
   candidateScoreFromAccumulator (foldl addColumnScore emptyCandidateScoreAccumulator (column_scores s2 left right pairs level))"
  by (simp add: scoreCandidate_def column_scores_def fold_scores)

lemma fold_addColumnScore:
  "ac_scores (foldl addColumnScore a ss) = ac_scores a @ ss \<and>
   ac_totalWeight (foldl addColumnScore a ss) = ac_totalWeight a + sum_list (map sc_weight ss) \<and>
   ac_weightedScore (foldl addColumnScore a ss) = ac_weightedScore a + sum_list (map (\<lambda>s. sc_score s * sc_weight s) ss) \<and>
   (ac_disagreement (foldl addColumnScore a ss) \<longleftrightarrow>
      ac_disagreement a \<or> (\<exists>s \<in> set ss. sc_stable s \<and> sc_score s < 1))"
  by (induction ss arbitrary: a) (auto simp: addColumnScore_def)

lemma geometry_column_bounds:
  assumes "scoreGeometryColumn s2 left right level g = Some s"
  shows "0 \<le> sc_score s \<and> sc_score s \<le> 1 \<and> 0 < sc_weight s"
  using assms
  by (auto simp: scoreGeometryColumn_def geometrySimilarity_def Let_def split: option.splits if_splits)

lemma property_column_bounds:
  assumes "scorePropertyColumn p left right = Some s"
  shows "0 \<le> sc_score s \<and> sc_score s \<le> 1 \<and> 0 < sc_weight s"
proof -
  have "0 \<le> t \<and> t \<le> 1" if "textSimilarity l r = Some t" for l r t
    using that normalized_similarity_bounds by (simp add: textSimilarity_def)
  with assms show ?thesis
    by (auto simp: scorePropertyColumn_def Let_def matchKeyWeight_def split: if_splits)
qed

lemma column_score_bounds:
  assumes "s \<in> set (column_scores s2 left right pairs level)"
  shows "0 \<le> sc_score s \<and> sc_score s \<le> 1 \<and> 0 < sc_weight s"
proof -
  obtain p where "scoreForColumn s2 p left right level (geometry_only pairs) = Some s"
    using assms by (auto simp: column_scores_def List.map_filter_def)
  then show ?thesis
    by (auto simp: scoreForColumn_def split: if_splits dest: geometry_column_bounds property_column_bounds)
qed

lemma weighted_le_total:
  assumes "\<forall>s \<in> set ss. 0 \<le> sc_score s \<and> sc_score s \<le> 1 \<and> 0 < sc_weight s"
  shows "sum_list (map (\<lambda>s. sc_score s * sc_weight s) ss) \<le> sum_list (map sc_weight ss) \<and>
    0 \<le> sum_list (map sc_weight ss)"
  using assms
proof (induction ss)
  case (Cons s ss)
  then have "sc_score s * sc_weight s \<le> 1 * sc_weight s" by (intro mult_right_mono) auto
  moreover have "sum_list (map (\<lambda>s. sc_score s * sc_weight s) ss) \<le> sum_list (map sc_weight ss)"
    "0 \<le> sum_list (map sc_weight ss)" "0 < sc_weight s"
    using Cons by auto
  ultimately show ?case unfolding list.map sum_list.Cons by linarith
qed simp

lemma candidate_score_bounds:
  assumes "scoreCandidate s2 left right pairs level = Some (c, m)"
  shows "DEFAULT_MATCH_THRESHOLD \<le> c \<and> c \<le> 1"
proof -
  define a where "a = foldl addColumnScore emptyCandidateScoreAccumulator (column_scores s2 left right pairs level)"
  have "\<forall>s \<in> set (column_scores s2 left right pairs level). 0 \<le> sc_score s \<and> sc_score s \<le> 1 \<and> 0 < sc_weight s"
    using column_score_bounds by blast
  from weighted_le_total [OF this] have le: "ac_weightedScore a \<le> ac_totalWeight a" "0 \<le> ac_totalWeight a"
    by (auto simp: a_def fold_addColumnScore emptyCandidateScoreAccumulator_def)
  have "\<not> c < DEFAULT_MATCH_THRESHOLD" "c = ac_weightedScore a / ac_totalWeight a" "ac_totalWeight a \<noteq> 0"
    using assms by (auto simp: scoreCandidate_scores a_def [symmetric] candidateScoreFromAccumulator_def Let_def
        split: if_splits)
  with le show ?thesis by (simp add: divide_le_eq)
qed

text \<open>Two features agree on a pair of stable identifiers: both have it, and the texts are equal or one is blank.\<close>

definition agree_on :: "selected_feature \<Rightarrow> selected_feature \<Rightarrow> match_pair \<Rightarrow> bool" where
  "agree_on left right p \<longleftrightarrow>
     hasFeatureProperty left (mp_left p) \<and> hasFeatureProperty right (mp_right p) \<and>
     (normalizeText (property_text left (mp_left p)) = normalizeText (property_text right (mp_right p)) \<or>
      normalizeText (property_text left (mp_left p)) = [] \<or> normalizeText (property_text right (mp_right p)) = [])"

lemma stable_not_geometry: "isStableIdentifierKey k \<Longrightarrow> k \<noteq> GEOMETRY_MATCH_COLUMN"
  by (auto simp: isStableIdentifierKey_def STABLE_IDENTIFIER_FIELDS_def GEOMETRY_MATCH_COLUMN_def)

lemma candidate_agrees:
  assumes score: "scoreCandidate s2 left right pairs level \<noteq> None" and p: "p \<in> set pairs"
    and ids: "isStableIdentifierKey (mp_left p)" "isStableIdentifierKey (mp_right p)"
  shows "agree_on left right p"
proof (rule ccontr)
  assume no: "\<not> agree_on left right p"
  have "\<exists>s. scorePropertyColumn p left right = Some s \<and> sc_stable s \<and> sc_score s < 1"
    using no ids by (auto simp: scorePropertyColumn_def agree_on_def Let_def)
  then obtain s where s: "scoreForColumn s2 p left right level (geometry_only pairs) = Some s" "sc_stable s" "sc_score s < 1"
    using ids stable_not_geometry by (auto simp: scoreForColumn_def)
  with p have "s \<in> set (column_scores s2 left right pairs level)"
    unfolding column_scores_def List.map_filter_def by force
  with s score show False
    by (auto simp: scoreCandidate_scores candidateScoreFromAccumulator_def fold_addColumnScore split: if_splits)
qed

section \<open>The best match\<close>

text \<open>
  After the features \<open>rs\<close> the best match so far is one of the free ones, and no free one has a
  greater score, or the same score by a better method.
\<close>

definition best_of ::
  "s2_library \<Rightarrow> selected_feature \<Rightarrow> string list \<Rightarrow> match_pair list \<Rightarrow> js_number \<Rightarrow> selected_feature list \<Rightarrow>
   scored option \<Rightarrow> bool" where
  "best_of s2 left free pairs level rs best \<longleftrightarrow>
     (case best of
        None \<Rightarrow> \<forall>r \<in> set rs. sm_id r \<in> set free \<longrightarrow> scoreCandidate s2 left r pairs level = None
      | Some (r, s, m) \<Rightarrow>
          r \<in> set rs \<and> sm_id r \<in> set free \<and> scoreCandidate s2 left r pairs level = Some (s, m) \<and>
          (\<forall>q \<in> set rs. \<forall>t n. sm_id q \<in> set free \<longrightarrow> scoreCandidate s2 left q pairs level = Some (t, n) \<longrightarrow>
             t < s \<or> (t = s \<and> scoreMethodRank m \<le> scoreMethodRank n)))"

lemma best_of_step:
  assumes "best_of s2 left free pairs level rs best"
  shows "best_of s2 left free pairs level (rs @ [r]) (consider_match s2 lc left free pairs level best r)"
proof (cases "sm_id r \<in> set free")
  case False
  with assms show ?thesis by (auto simp: best_of_def consider_match_def split: option.splits)
next
  case free: True
  show ?thesis
  proof (cases "scoreCandidate s2 left r pairs level")
    case None
    with assms show ?thesis by (auto simp: best_of_def consider_match_def split: option.splits)
  next
    case (Some tn)
    obtain t n where tn: "tn = (t, n)" by (cases tn)
    show ?thesis
    proof (cases best)
      case None
      with assms Some tn free show ?thesis
        by (auto simp: best_of_def consider_match_def better_match_def)
    next
      case best: (Some b)
      obtain q s m where b: "b = (q, s, m)" by (cases b)
      show ?thesis
      proof (cases "better_match lc (r, t, n) best")
        case True
        then have "s < t \<or> (s = t \<and> scoreMethodRank n \<le> scoreMethodRank m)"
          by (auto simp: better_match_def best b)
        with assms Some tn free True show ?thesis
          unfolding best_of_def consider_match_def best b by fastforce
      next
        case False
        then have "t < s \<or> (t = s \<and> scoreMethodRank m \<le> scoreMethodRank n)"
          by (auto simp: better_match_def best b)
        with assms Some tn free False show ?thesis
          unfolding best_of_def consider_match_def best b by auto
      qed
    qed
  qed
qed

lemma best_of_fold:
  "best_of s2 left free pairs level rs (foldl (consider_match s2 lc left free pairs level) None rs)"
proof (induction rs rule: rev_induct)
  case Nil
  show ?case by (simp add: best_of_def)
next
  case (snoc r rs)
  from best_of_step [OF this] show ?case by simp
qed

lemma bestMatchForLeft_best: "best_of s2 left free pairs level rights (bestMatchForLeft s2 lc left rights free pairs level)"
  unfolding bestMatchForLeft_def by (rule best_of_fold)

text \<open>
  The match of a left feature is the best of the right features that are still free: it is one
  of them, no other free one scores higher or the same by a better method, and there is no match
  only if no free feature reaches the threshold.
\<close>

theorem best_free_match:
  "case bestMatchForLeft s2 lc left rights free pairs level of
     None \<Rightarrow> \<forall>r \<in> set rights. sm_id r \<in> set free \<longrightarrow> scoreCandidate s2 left r pairs level = None
   | Some (r, s, m) \<Rightarrow>
       r \<in> set rights \<and> sm_id r \<in> set free \<and> scoreCandidate s2 left r pairs level = Some (s, m) \<and>
       (\<forall>q \<in> set rights. \<forall>t n. sm_id q \<in> set free \<longrightarrow> scoreCandidate s2 left q pairs level = Some (t, n) \<longrightarrow>
          t < s \<or> (t = s \<and> scoreMethodRank m \<le> scoreMethodRank n))"
  using bestMatchForLeft_best [unfolded best_of_def] .

section \<open>Every feature is in one row\<close>

definition row_features :: "diff_row \<Rightarrow> selected_feature list" where
  "row_features r = (case dr_left r of None \<Rightarrow> [] | Some f \<Rightarrow> [f]) @ (case dr_right r of None \<Rightarrow> [] | Some f \<Rightarrow> [f])"

definition rows_features :: "diff_row list \<Rightarrow> selected_feature list" where
  "rows_features rows = concat (map row_features rows)"

lemma rows_features_simps [simp]:
  "rows_features [] = []" "rows_features (r # rows) = row_features r @ rows_features rows"
  "rows_features (rows @ rows') = rows_features rows @ rows_features rows'"
  by (simp_all add: rows_features_def)

lemma row_features_simps [simp]:
  "row_features (matchedRow l r s m columns) = [l, r]"
  "row_features (unmatchedRow f side columns) = [f]"
  by (cases side; simp add: row_features_def matchedRow_def unmatchedRow_def Let_def)+

lemma rows_features_unmatched [simp]:
  "rows_features (map (\<lambda>f. unmatchedRow f side columns) fs) = fs"
  by (induction fs) auto

lemma same_id_same_feature:
  assumes "distinct (map sm_id fs)" "f \<in> set fs" "g \<in> set fs" "sm_id f = sm_id g"
  shows "f = g"
  using assms by (auto simp: distinct_map inj_on_def)

lemma taking_one_id:
  assumes "distinct (map sm_id fs)" "r \<in> set fs" "sm_id r \<in> set free"
  shows "mset (filter (\<lambda>f. sm_id f \<notin> set (removeAll (sm_id r) free)) fs) =
    add_mset r (mset (filter (\<lambda>f. sm_id f \<notin> set free) fs))"
  using assms
proof (induction fs)
  case (Cons f fs)
  show ?case
  proof (cases "f = r")
    case True
    with Cons.prems have "sm_id g \<noteq> sm_id r" if "g \<in> set fs" for g
      using that by (auto simp: image_iff)
    then have "filter (\<lambda>f. sm_id f \<notin> set (removeAll (sm_id r) free)) fs = filter (\<lambda>f. sm_id f \<notin> set free) fs"
      by (intro filter_cong) auto
    with True Cons.prems show ?thesis by simp
  next
    case False
    with Cons have "sm_id f \<noteq> sm_id r" by (auto simp: image_iff)
    with Cons False show ?thesis by auto
  qed
qed simp

definition left_inv ::
  "selected_feature list \<Rightarrow> selected_feature list \<Rightarrow> string list \<times> diff_row list \<Rightarrow> bool" where
  "left_inv rights lefts acc \<longleftrightarrow>
     mset (rows_features (snd acc)) = mset lefts + mset (filter (\<lambda>f. sm_id f \<notin> set (fst acc)) rights)"

lemma left_inv_step:
  assumes "distinct (map sm_id rights)" "left_inv rights lefts acc"
  shows "left_inv rights (lefts @ [l]) (left_step s2 lc rights pairs level columns acc l)"
proof (cases "bestMatchForLeft s2 lc l rights (fst acc) pairs level")
  case None
  with assms(2) show ?thesis by (simp add: left_inv_def left_step_def)
next
  case (Some b)
  obtain r s m where b: "b = (r, s, m)" by (cases b)
  have "r \<in> set rights" "sm_id r \<in> set (fst acc)"
    using bestMatchForLeft_best [of s2 l "fst acc" pairs level rights lc] by (auto simp: Some b best_of_def)
  from taking_one_id [OF assms(1) this] assms(2) show ?thesis
    by (simp add: left_inv_def left_step_def Some b)
qed

lemma left_inv_fold:
  assumes "distinct (map sm_id rights)"
  shows "left_inv rights lefts
    (foldl (left_step s2 lc rights pairs level columns) (set_from_list (map sm_id rights), []) lefts)"
proof (induction lefts rule: rev_induct)
  case Nil
  show ?case by (simp add: left_inv_def filter_empty_conv)
next
  case (snoc l lefts)
  from left_inv_step [OF assms this] show ?case by simp
qed

lemma buildRows_features:
  assumes "distinct (map sm_id rights)"
  shows "mset (rows_features (buildRows s2 lc lefts rights pairs level columns)) = mset lefts + mset rights"
proof -
  define acc where "acc = foldl (left_step s2 lc rights pairs level columns) (set_from_list (map sm_id rights), []) lefts"
  have "left_inv rights lefts acc" using left_inv_fold [OF assms] by (simp add: acc_def)
  moreover have "mset (filter (\<lambda>f. sm_id f \<notin> set (fst acc)) rights) + mset (filter (\<lambda>f. sm_id f \<in> set (fst acc)) rights)
      = mset rights"
    using multiset_partition [of "mset rights" "\<lambda>f. sm_id f \<in> set (fst acc)"] by (simp add: add.commute)
  ultimately show ?thesis
    by (simp add: buildRows_def acc_def [symmetric] Let_def left_inv_def add.assoc)
qed

subsection \<open>The shape of a row\<close>

definition row_ok ::
  "s2_library \<Rightarrow> match_pair list \<Rightarrow> js_number \<Rightarrow> selected_feature set \<Rightarrow> selected_feature set \<Rightarrow> diff_row \<Rightarrow> bool" where
  "row_ok s2 pairs level lefts rights row \<longleftrightarrow>
     (case (dr_left row, dr_right row) of
        (Some l, Some r) \<Rightarrow> l \<in> lefts \<and> r \<in> rights \<and>
          scoreCandidate s2 l r pairs level = Some (dr_confidence row, dr_method row) \<and>
          dr_status row = rowStatus (Some l) (Some r) (dr_confidence row) (dr_cells row)
      | (Some l, None) \<Rightarrow> l \<in> lefts \<and> dr_status row = LeftOnly
      | (None, Some r) \<Rightarrow> r \<in> rights \<and> dr_status row = RightOnly
      | (None, None) \<Rightarrow> False)"

lemma row_ok_matched:
  assumes "l \<in> lefts" "r \<in> rights" "scoreCandidate s2 l r pairs level = Some (s, m)"
  shows "row_ok s2 pairs level lefts rights (matchedRow l r s m columns)"
  using assms by (simp add: row_ok_def matchedRow_def Let_def)

lemma row_ok_unmatched:
  "l \<in> lefts \<Longrightarrow> row_ok s2 pairs level lefts rights (unmatchedRow l LeftSide columns)"
  "r \<in> rights \<Longrightarrow> row_ok s2 pairs level lefts rights (unmatchedRow r RightSide columns)"
  by (simp_all add: row_ok_def unmatchedRow_def Let_def)

lemma row_ok_left_step:
  assumes "\<forall>row \<in> set (snd acc). row_ok s2 pairs level lefts (set rights) row" "l \<in> lefts"
  shows "\<forall>row \<in> set (snd (left_step s2 lc rights pairs level columns acc l)). row_ok s2 pairs level lefts (set rights) row"
proof (cases "bestMatchForLeft s2 lc l rights (fst acc) pairs level")
  case None
  with assms show ?thesis by (auto simp: left_step_def row_ok_unmatched)
next
  case (Some b)
  obtain r s m where b: "b = (r, s, m)" by (cases b)
  have "r \<in> set rights" "scoreCandidate s2 l r pairs level = Some (s, m)"
    using bestMatchForLeft_best [of s2 l "fst acc" pairs level rights lc] by (auto simp: Some b best_of_def)
  with assms show ?thesis by (auto simp: left_step_def Some b intro: row_ok_matched)
qed

lemma buildRows_ok:
  assumes "row \<in> set (buildRows s2 lc lefts rights pairs level columns)"
  shows "row_ok s2 pairs level (set lefts) (set rights) row"
proof -
  define acc where "acc = foldl (left_step s2 lc rights pairs level columns) (set_from_list (map sm_id rights), []) lefts"
  have "\<forall>row \<in> set (snd acc). row_ok s2 pairs level (set lefts) (set rights) row"
    unfolding acc_def
    by (rule foldl_invariant [where P = "\<lambda>acc. \<forall>row \<in> set (snd acc). row_ok s2 pairs level (set lefts) (set rights) row"])
      (use row_ok_left_step in auto)
  with assms show ?thesis
    by (auto simp: buildRows_def acc_def [symmetric] Let_def row_ok_unmatched)
qed

lemma row_counts:
  assumes "\<forall>row \<in> set rows. row_ok s2 pairs level lefts rights row"
  shows "length (rows_features rows) =
    2 * su_matched (summarize rows n) + su_leftOnly (summarize rows n) + su_rightOnly (summarize rows n)"
  using assms
proof (induction rows)
  case Nil
  show ?case by (simp add: summarize_def)
next
  case (Cons row rows)
  then have "row_ok s2 pairs level lefts rights row" by simp
  then have "length (row_features row) = 2 * (if dr_left row \<noteq> None \<and> dr_right row \<noteq> None then 1 else 0)
      + (if dr_status row = LeftOnly then 1 else 0) + (if dr_status row = RightOnly then 1 else 0)"
    by (auto simp: row_ok_def row_features_def rowStatus_def split: option.splits)
  with Cons show ?case by (auto simp: summarize_def)
qed

section \<open>The whole comparison\<close>

lemma catalogFeatures_idem [simp]: "catalogFeatures (catalogFeatures fs) = catalogFeatures fs"
  by (simp add: catalogFeatures_def)

lemma catalog_versions:
  assumes "comparableVersions lc (catalogFeatures features) = Some versions"
  shows "set versions = {v. \<exists>f \<in> set (catalogFeatures features). has_version v f} \<and>
    length versions = 2 \<and> distinct versions"
proof -
  define ds where "ds = List.map_filter descriptor_of (catalogFeatures features)"
  have "versions = sort_by (\<lambda>l r. version_cmp lc (VersionString r) (VersionString l)) (set_from_list (map sd_version ds))"
    and two: "length (set_from_list (map sd_version ds)) = 2"
    using assms by (auto simp: comparableVersions_def Let_def ds_def split: if_splits)
  moreover have "set (map sd_version ds) = {v. \<exists>f \<in> set (catalogFeatures features). has_version v f}"
    by (force simp: ds_def List.map_filter_def has_version_def)
  ultimately show ?thesis by simp
qed

lemma chosen_versions_cases:
  assumes "chosen_versions versions opts = Some (l, r)" "length versions = 2" "distinct versions"
  shows "set versions = {l, r} \<and> l \<noteq> r"
proof -
  obtain a b where ab: "versions = [a, b]" "a \<noteq> b"
    using assms(2,3) by (auto simp: numeral_2_eq_2 length_Suc_conv)
  have "l \<in> set versions" using assms(1) by (auto simp: chosen_versions_def ab Let_def split: option.splits if_splits)
  moreover have "r \<in> set versions" "l \<noteq> r"
    using assms(1) by (auto simp: chosen_versions_def Let_def find_Some_iff split: option.splits if_splits)
  ultimately show ?thesis using ab by auto
qed

lemma two_versions_split:
  assumes "\<forall>f \<in> set fs. has_version l f \<or> has_version r f" "l \<noteq> r"
  shows "mset (filter (has_version l) fs) + mset (filter (has_version r) fs) = mset fs"
  using assms by (induction fs) (auto simp: has_version_def)

lemma set_sortRows [simp]: "mset (sortRows lcBase rows s) = mset rows"
  by (simp add: sortRows_def split: option.splits)

lemma mset_rows_features: "mset (rows_features rows) = sum_mset (image_mset (mset \<circ> row_features) (mset rows))"
  by (induction rows) auto

lemma rows_features_mset: "mset rows = mset rows' \<Longrightarrow> mset (rows_features rows) = mset (rows_features rows')"
  by (simp only: mset_rows_features)

text \<open>What a comparison that was made consists of.\<close>

lemma buildFeatureDiff_made:
  assumes "re_canCompare (buildFeatureDiff s2 lc lcBase features opts)"
  obtains l r rows where
    "re_leftVersion (buildFeatureDiff s2 lc lcBase features opts) = Some l"
    "re_rightVersion (buildFeatureDiff s2 lc lcBase features opts) = Some r" "l \<noteq> r"
    "\<forall>f \<in> set (catalogFeatures features). has_version l f \<or> has_version r f"
    "rows = buildRows s2 lc (filter (has_version l) (catalogFeatures features))
       (filter (has_version r) (catalogFeatures features)) (used_pairs lc (catalogFeatures features) opts l r)
       (do_s2Level opts) (allPropertyKeys lc (catalogFeatures features))"
    "mset (re_rows (buildFeatureDiff s2 lc lcBase features opts)) = mset rows"
    "re_summary (buildFeatureDiff s2 lc lcBase features opts) =
       summarize (re_rows (buildFeatureDiff s2 lc lcBase features opts)) (length features)"
proof -
  obtain versions l r where versions: "comparableVersions lc (catalogFeatures features) = Some versions"
    and chosen: "chosen_versions versions opts = Some (l, r)" and neq: "do_leftVersion opts \<noteq> do_rightVersion opts"
    using assms by (auto simp: buildFeatureDiff_def incomparable_def Let_def split: option.splits if_splits)
  have "set versions = {l, r}" "l \<noteq> r"
    using chosen_versions_cases [OF chosen] catalog_versions [OF versions] by auto
  moreover have "\<forall>f \<in> set (catalogFeatures features). has_version l f \<or> has_version r f"
  proof
    fix f assume f: "f \<in> set (catalogFeatures features)"
    then obtain d where "descriptor_of f = Some d"
      by (auto simp: catalogFeatures_def isCatalogSelectedMapFeature_def descriptor_of_def split: selected_kind.splits)
    then have "has_version (sd_version d) f" by (simp add: has_version_def)
    with f catalog_versions [OF versions] have "sd_version d \<in> set versions" by auto
    with \<open>set versions = {l, r}\<close> \<open>has_version (sd_version d) f\<close> show "has_version l f \<or> has_version r f" by auto
  qed
  ultimately show ?thesis
    using that [OF _ _ _ _ refl] versions chosen neq by (simp add: buildFeatureDiff_def Let_def)
qed

text \<open>
  C33: when two versions can be compared, every selected catalogue feature is in exactly one row of
  the comparison, however the rows are sorted, and the numbers of the summary account for all of
  them: two for each matched row and one for each row of a single version.
\<close>

theorem selection_partitioned_into_rows:
  assumes "distinct (map sm_id features)"
    and "re_canCompare (buildFeatureDiff s2 lc lcBase features opts)"
    and "d = buildFeatureDiff s2 lc lcBase features opts"
  shows "mset (rows_features (re_rows d)) = mset (catalogFeatures features) \<and>
    length (catalogFeatures features) = 2 * su_matched (re_summary d) + su_leftOnly (re_summary d) + su_rightOnly (re_summary d)"
proof -
  define fs where "fs = catalogFeatures features"
  obtain l r rows where lr: "l \<noteq> r" "\<forall>f \<in> set fs. has_version l f \<or> has_version r f"
    and rows: "rows = buildRows s2 lc (filter (has_version l) fs) (filter (has_version r) fs)
       (used_pairs lc fs opts l r) (do_s2Level opts) (allPropertyKeys lc fs)"
    and sorted: "mset (re_rows d) = mset rows" and su: "re_summary d = summarize (re_rows d) (length features)"
    using buildFeatureDiff_made [OF assms(2)] unfolding fs_def assms(3) by metis
  have "distinct (map sm_id (filter (has_version r) fs))"
    using assms(1) by (simp add: fs_def catalogFeatures_def distinct_map_filter)
  from buildRows_features [OF this] have "mset (rows_features rows) = mset fs"
    unfolding rows using two_versions_split [OF lr(2,1)] by simp
  with rows_features_mset [OF sorted] have all: "mset (rows_features (re_rows d)) = mset fs" by simp
  have "\<forall>row \<in> set (re_rows d). row_ok s2 (used_pairs lc fs opts l r) (do_s2Level opts) (set (filter (has_version l) fs))
      (set (filter (has_version r) fs)) row"
    using mset_eq_setD [OF sorted] buildRows_ok unfolding rows by blast
  from row_counts [OF this] all show ?thesis
    unfolding fs_def [symmetric] su by (metis mset_eq_length)
qed


section \<open>A sample comparison\<close>

text \<open>Three features of one file in two versions; a library with one cell for the whole world.\<close>

definition sample_s2 :: s2_library where
  "sample_s2 = \<lparr>s2_max_level = 30, s2_token = (\<lambda>p n. ''1''), s2_neighbors = (\<lambda>p n. [''3''])\<rparr>"

definition sample_feature :: "string \<Rightarrow> string \<Rightarrow> (string \<times> string) list \<Rightarrow> selected_feature" where
  "sample_feature i v props =
     \<lparr>sm_id = i, sm_loadedLayerId = ''l'', sm_layerName = ''L'', sm_sourceLayerId = ''s'', sm_featureId = i,
      sm_centroid = None, sm_properties = props,
      sm_kind = CatalogSelected \<lparr>sd_collectionSlug = ''c'', sd_datasetSlug = ''d'', sd_fileSlug = ''f'', sd_version = v,
        sd_assetKey = ''a'', sd_storageLocationSlug = None\<rparr>\<rparr>"

definition sample_features :: "selected_feature list" where
  "sample_features =
     [sample_feature ''a'' ''1'' [(''ID'', ''7''), (''NAME'', ''x'')], sample_feature ''b'' ''1'' [(''ID'', ''8'')],
      sample_feature ''c'' ''2'' [(''ID'', ''7''), (''NAME'', ''y'')]]"

definition sample_options :: diff_options where
  "sample_options = \<lparr>do_leftVersion = ''1'', do_rightVersion = ''2'', do_pairs = [], do_s2Level = JsFin 16,
     do_sort = None\<rparr>"

definition sample_compare :: "string \<Rightarrow> string \<Rightarrow> int" where
  "sample_compare a b = int (length a) - int (length b)"

definition sample_diff :: diff_result where
  "sample_diff = buildFeatureDiff sample_s2 sample_compare sample_compare sample_features sample_options"

lemma sample_diff_steps:
  "catalogFeatures sample_features = sample_features"
  "comparableVersions sample_compare sample_features = Some [''1'', ''2'']"
  "chosen_versions [''1'', ''2''] sample_options = Some (''1'', ''2'')"
  "used_pairs sample_compare sample_features sample_options ''1'' ''2'' = [matchKeyPair ''ID'' ''ID'']"
  "distinct (map sm_id sample_features)"
  "allPropertyKeys sample_compare sample_features = [''ID'', ''NAME'']"
  by code_simp+

lemma sample_diff_made:
  "re_canCompare sample_diff" "re_leftVersion sample_diff = Some ''1''" "re_rightVersion sample_diff = Some ''2''"
  "re_rows sample_diff = buildRows sample_s2 sample_compare (filter (has_version ''1'') sample_features)
     (filter (has_version ''2'') sample_features) [matchKeyPair ''ID'' ''ID''] (JsFin 16) [''ID'', ''NAME'']"
  by (simp_all add: sample_diff_def buildFeatureDiff_def sample_diff_steps Let_def,
      simp_all add: sample_options_def sortRows_def)

lemma sample_rows:
  "map (\<lambda>r. (dr_left r, dr_right r, dr_status r)) (buildRows sample_s2 sample_compare
     (filter (has_version ''1'') sample_features) (filter (has_version ''2'') sample_features)
     [matchKeyPair ''ID'' ''ID''] (JsFin 16) [''ID'', ''NAME'']) =
   [(Some (sample_features ! 0), Some (sample_features ! 2), Changed), (Some (sample_features ! 1), None, LeftOnly)]"
  by code_simp

theorem selection_partitioned_into_rows_witness:
  "mset (rows_features (re_rows sample_diff)) = mset sample_features \<and>
   length sample_features = 2 * su_matched (re_summary sample_diff) + su_leftOnly (re_summary sample_diff)
     + su_rightOnly (re_summary sample_diff)"
  using selection_partitioned_into_rows [OF sample_diff_steps(5) sample_diff_made(1) [unfolded sample_diff_def] sample_diff_def]
  by (simp only: sample_diff_steps)


lemma sample_best_match:
  "bestMatchForLeft sample_s2 sample_compare (sample_features ! 0) (drop 2 sample_features) [''c'']
     [matchKeyPair ''ID'' ''ID''] (JsFin 16) = Some (sample_features ! 2, 1, MatchKey)"
  by code_simp

theorem best_free_match_witness:
  "sample_features ! 2 \<in> set (drop 2 sample_features) \<and>
   scoreCandidate sample_s2 (sample_features ! 0) (sample_features ! 2) [matchKeyPair ''ID'' ''ID''] (JsFin 16) = Some (1, MatchKey)"
  using best_free_match [where ?s2.0 = sample_s2 and lc = sample_compare and left = "sample_features ! 0"
    and rights = "drop 2 sample_features" and free = "[''c'']" and pairs = "[matchKeyPair ''ID'' ''ID'']" and level = "JsFin 16"]
  unfolding sample_best_match by auto

end
