(* ===== verification/JsBytes.thy ===== *)
theory JsBytes
  imports JsJson
begin

text \<open>
  Bytes, as a string of code units below 256: UTF-8 as \<open>TextEncoder\<close>, \<open>TextDecoder\<close> and \<open>Buffer\<close> use it,
  and the base64url text of \<open>Buffer\<close>, with the round trips.
\<close>

section \<open>UTF-8 and base64url\<close>

definition utf8_char :: "char \<Rightarrow> string" where
  "utf8_char c =
     (let n = code_unit c in
      if n < 128 then [c] else [char_of (192 + n div 64), char_of (128 + n mod 64)])"

definition utf8_encode :: "string \<Rightarrow> string" where
  "utf8_encode s = concat (map utf8_char s)"

text \<open>\<open>None\<close> when the bytes decode to a character above U+00FF, the replacement character included.\<close>

fun utf8_decode :: "string \<Rightarrow> string option" where
  "utf8_decode [] = Some []"
| "utf8_decode [c] = (if code_unit c < 128 then Some [c] else None)"
| "utf8_decode (c # d # s) =
     (if code_unit c < 128 then map_option ((#) c) (utf8_decode (d # s))
      else if (code_unit c = 194 \<or> code_unit c = 195) \<and> 128 \<le> code_unit d \<and> code_unit d < 192
      then map_option ((#) (char_of ((code_unit c - 192) * 64 + (code_unit d - 128)))) (utf8_decode s)
      else None)"

definition b64_char :: "nat \<Rightarrow> char" where
  "b64_char n =
     (if n < 26 then char_of (65 + n) else if n < 52 then char_of (71 + n) else if n < 62 then char_of (n - 4)
      else if n = 62 then CHR ''-'' else CHR ''_'')"

definition b64_value :: "char \<Rightarrow> nat" where
  "b64_value c =
     (let n = code_unit c in
      if is_upper_alpha c then n - 65 else if is_lower_alpha c then n - 71 else if is_digit c then n + 4
      else if c = CHR ''-'' then 62 else 63)"

definition b64_token_char :: "char \<Rightarrow> bool" where
  "b64_token_char c \<longleftrightarrow> is_upper_alpha c \<or> is_lower_alpha c \<or> is_digit c \<or> c = CHR ''-'' \<or> c = CHR ''_''"

fun base64url_encode :: "string \<Rightarrow> string" where
  "base64url_encode [] = []"
| "base64url_encode [a] = [b64_char (code_unit a div 4), b64_char (code_unit a mod 4 * 16)]"
| "base64url_encode [a, b] =
     [b64_char (code_unit a div 4), b64_char (code_unit a mod 4 * 16 + code_unit b div 16),
      b64_char (code_unit b mod 16 * 4)]"
| "base64url_encode (a # b # c # s) =
     b64_char (code_unit a div 4) # b64_char (code_unit a mod 4 * 16 + code_unit b div 16)
       # b64_char (code_unit b mod 16 * 4 + code_unit c div 64) # b64_char (code_unit c mod 64)
       # base64url_encode s"

text \<open>\<open>Buffer.from(token, "base64url")\<close> of text over the alphabet: a cut group gives the whole bytes in it.\<close>

fun base64url_decode :: "string \<Rightarrow> string" where
  "base64url_decode [] = []"
| "base64url_decode [p] = []"
| "base64url_decode [p, q] = [char_of (b64_value p * 4 + b64_value q div 16)]"
| "base64url_decode [p, q, r] =
     [char_of (b64_value p * 4 + b64_value q div 16), char_of (b64_value q mod 16 * 16 + b64_value r div 4)]"
| "base64url_decode (p # q # r # t # s) =
     char_of (b64_value p * 4 + b64_value q div 16) # char_of (b64_value q mod 16 * 16 + b64_value r div 4)
       # char_of (b64_value r mod 4 * 64 + b64_value t) # base64url_decode s"

lemma utf8_decode_char: "utf8_decode (utf8_char c @ s) = map_option ((#) c) (utf8_decode s)"
proof (cases "code_unit c < 128")
  case True
  then show ?thesis by (cases s) (simp_all add: utf8_char_def)
next
  case False
  define n where "n = (of_char c :: nat)"
  have n: "n < 256" "char_of n = c" by (simp_all add: n_def)
  have "\<not> n < 128" using False by (simp add: n_def)
  then have "n div 64 = 2 \<or> n div 64 = 3" using n(1) by linarith
  moreover have "(192 + n div 64 - 192) * 64 + (128 + n mod 64 - 128) = n" by simp
  moreover have "n mod 64 < 64" by simp
  ultimately show ?thesis using False n
    by (auto simp: utf8_char_def Let_def n_def [symmetric])
qed

lemma utf8_decode_encode [simp]: "utf8_decode (utf8_encode s) = Some s"
  by (induction s) (simp_all add: utf8_encode_def utf8_decode_char)

lemma b64_value_char [simp]: "n < 64 \<Longrightarrow> b64_value (b64_char n) = n"
  by (auto simp: b64_value_def b64_char_def is_upper_alpha_def is_lower_alpha_def is_digit_def Let_def)

lemma b64_token_b64_char: "b64_token_char (b64_char n)"
  by (auto simp: b64_token_char_def b64_char_def is_upper_alpha_def is_lower_alpha_def is_digit_def)

lemma base64url_encode_chars: "c \<in> set (base64url_encode s) \<Longrightarrow> b64_token_char c"
  by (induction s rule: base64url_encode.induct) (auto simp: b64_token_b64_char)

lemma base64_group:
  fixes x y z :: nat
  assumes "x < 256" "y < 256" "z < 256"
  shows "x div 4 < 64" "x mod 4 * 16 + y div 16 < 64" "y mod 16 * 4 + z div 64 < 64" "x mod 4 * 16 < 64"
    "y mod 16 * 4 < 64"
    "x div 4 * 4 + (x mod 4 * 16 + y div 16) div 16 = x" "x div 4 * 4 + x mod 4 * 16 div 16 = x"
    "(x mod 4 * 16 + y div 16) mod 16 * 16 + (y mod 16 * 4 + z div 64) div 4 = y"
    "(x mod 4 * 16 + y div 16) mod 16 * 16 + y mod 16 * 4 div 4 = y"
    "(y mod 16 * 4 + z div 64) mod 4 * 64 + z mod 64 = z"
proof -
  have digits: "(a * k + b) div k = a" "(a * k + b) mod k = b" if "b < k" for a b k :: nat
    using that by simp_all
  have small: "y div 16 < 16" "z div 64 < 4" using assms by simp_all
  show "x div 4 < 64" "x mod 4 * 16 + y div 16 < 64" "y mod 16 * 4 + z div 64 < 64" "x mod 4 * 16 < 64"
    "y mod 16 * 4 < 64"
    using assms by linarith+
  show "x div 4 * 4 + (x mod 4 * 16 + y div 16) div 16 = x" unfolding digits [OF small(1)] by simp
  show "x div 4 * 4 + x mod 4 * 16 div 16 = x" by simp
  show "(x mod 4 * 16 + y div 16) mod 16 * 16 + (y mod 16 * 4 + z div 64) div 4 = y"
    unfolding digits [OF small(1)] digits [OF small(2)] by simp
  show "(x mod 4 * 16 + y div 16) mod 16 * 16 + y mod 16 * 4 div 4 = y" unfolding digits [OF small(1)] by simp
  show "(y mod 16 * 4 + z div 64) mod 4 * 64 + z mod 64 = z" unfolding digits [OF small(2)] by simp
qed

lemma base64url_decode_encode [simp]: "base64url_decode (base64url_encode s) = s"
proof -
  show ?thesis
  proof (induction s rule: base64url_encode.induct)
    case (2 a)
    have "(of_char a :: nat) < 256" by simp
    with base64_group [of "of_char a" 0 0] show ?case by simp
  next
    case (3 a b)
    have "(of_char a :: nat) < 256" "(of_char b :: nat) < 256" by simp_all
    moreover from this have "code_unit b div 16 < 16" by linarith
    ultimately show ?case using base64_group [of "of_char a" "of_char b" 0] by simp
  next
    case (4 a b c s)
    have "(of_char a :: nat) < 256" "(of_char b :: nat) < 256" "(of_char c :: nat) < 256" by simp_all
    moreover from this have "code_unit b div 16 < 16" "code_unit c div 64 < 4" by linarith+
    ultimately show ?case using base64_group [of "of_char a" "of_char b" "of_char c"] 4 by simp
  qed simp
qed

lemma base64url_encode_Nil [simp]: "base64url_encode s = [] \<longleftrightarrow> s = []"
  by (cases s rule: base64url_encode.cases) auto

end
