(* ===== verification/StacApi.thy ===== *)
theory StacApi
  imports CatalogListing JsBytes
begin

text \<open>
  The STAC API: \<open>webapp/src/lib/stac-api.ts\<close>, the addresses of \<open>catalog-stac.ts\<close> and the routes
  \<open>/stac\<close>, \<open>/stac/collections\<close> and \<open>/stac/collections/{id}\<close>. A page of collections carries a cursor,
  the base64url text of the catalogue generation and the last version path; the next page asks the
  repository for the paths after it. The web (\<open>fetch\<close>, \<open>URL\<close> resolution) is a parameter.
\<close>

section \<open>Documents\<close>

text \<open>\<open>rest\<close>: the members of an object that its schema does not name.\<close>

record stac_link =
  sl_rel :: string
  sl_href :: string
  sl_type :: "string option"
  sl_rest :: "(string \<times> json) list"

datatype stac_type = StacCatalogType | StacCollectionType

record stac_document =
  st_type :: stac_type
  st_id :: string
  st_version :: string
  st_description :: string
  st_links :: "stac_link list"
  st_rest :: "(string \<times> json) list"

definition text_member :: "(string \<times> json) list \<Rightarrow> string \<Rightarrow> string option" where
  "text_member ms k = (case map_of ms k of Some (JStr s) \<Rightarrow> Some s | _ \<Rightarrow> None)"

definition stacLinkSchema :: "json \<Rightarrow> stac_link option" where
  "stacLinkSchema j =
     (case j of
        JObj ms \<Rightarrow>
          (case (text_member ms ''rel'', text_member ms ''href'') of
             (Some rel, Some href) \<Rightarrow>
               if map_of ms ''type'' \<noteq> None \<and> text_member ms ''type'' = None then None
               else Some \<lparr>sl_rel = rel, sl_href = href, sl_type = text_member ms ''type'',
                 sl_rest = filter (\<lambda>m. fst m \<notin> {''rel'', ''href'', ''type''}) ms\<rparr>
           | _ \<Rightarrow> None)
      | _ \<Rightarrow> None)"

definition stac_type_of :: "string \<Rightarrow> stac_type option" where
  "stac_type_of s =
     (if s = ''Catalog'' then Some StacCatalogType else if s = ''Collection'' then Some StacCollectionType else None)"

definition stacApiDocumentSchema :: "json \<Rightarrow> stac_document option" where
  "stacApiDocumentSchema j =
     (case j of
        JObj ms \<Rightarrow>
          (case (Option.bind (text_member ms ''type'') stac_type_of, text_member ms ''id'', text_member ms ''stac_version'',
                 text_member ms ''description'', map_of ms ''links'') of
             (Some t, Some i, Some v, Some d, Some (JArr ls)) \<Rightarrow>
               map_option (\<lambda>links. \<lparr>st_type = t, st_id = i, st_version = v, st_description = d, st_links = links,
                   st_rest = filter (\<lambda>m. fst m \<notin> {''type'', ''id'', ''stac_version'', ''description'', ''links''}) ms\<rparr>)
                 (those (map stacLinkSchema ls))
           | _ \<Rightarrow> None)
      | _ \<Rightarrow> None)"

subsection \<open>Addresses, \<open>catalog-stac.ts\<close>\<close>

definition CATALOG_INDEX_SUFFIX :: string where "CATALOG_INDEX_SUFFIX = ''/_catalog/catalog.sqlite''"

definition ends_with :: "string \<Rightarrow> string \<Rightarrow> bool" where
  "ends_with s t = startsWith (rev s) (rev t)"

definition catalogStacUrl :: "url_library \<Rightarrow> string \<Rightarrow> string \<Rightarrow> web_url option" where
  "catalogStacUrl lib sqliteUrl href =
     (case parse_url lib sqliteUrl of
        None \<Rightarrow> None
      | Some indexUrl \<Rightarrow>
          if \<not> ends_with (wu_pathname indexUrl) CATALOG_INDEX_SUFFIX then None
          else
            (let bucketRoot = indexUrl\<lparr>wu_pathname := take (length (wu_pathname indexUrl) - length CATALOG_INDEX_SUFFIX)
                    (wu_pathname indexUrl) @ ''/'', wu_search := [], wu_hash := []\<rparr> in
             (case resolve_url lib href bucketRoot of
                None \<Rightarrow> None
              | Some resolved \<Rightarrow>
                  if wu_origin resolved \<noteq> wu_origin bucketRoot \<or>
                    \<not> startsWith (wu_pathname resolved) (wu_pathname bucketRoot) then None
                  else Some resolved)))"

text \<open>The JSON body of an ok response of the web, if there is one.\<close>

record web =
  web_urls :: url_library
  web_json :: "web_url \<Rightarrow> json option"

definition loadStacDocument :: "web \<Rightarrow> string \<Rightarrow> string \<Rightarrow> stac_document option" where
  "loadStacDocument w catalogUrl href =
     Option.bind (Option.bind (catalogStacUrl (web_urls w) catalogUrl href) (web_json w)) stacApiDocumentSchema"

section \<open>Links of the API\<close>

definition apiLink :: "string \<Rightarrow> string \<Rightarrow> stac_link" where
  "apiLink rel href = \<lparr>sl_rel = rel, sl_href = href, sl_type = Some ''application/json'', sl_rest = []\<rparr>"

definition stacCollectionUrl :: "string \<Rightarrow> string \<Rightarrow> string" where
  "stacCollectionUrl origin i = origin @ ''/stac/collections/'' @ encodeURIComponent i"

definition STAC_API_CONFORMANCE :: "string list" where
  "STAC_API_CONFORMANCE = [''https://api.stacspec.org/v1.0.0/core'', ''https://api.stacspec.org/v1.0.0/collections'']"

definition buildStacLanding :: "stac_document \<Rightarrow> string \<Rightarrow> stac_document option" where
  "buildStacLanding publishedRoot origin =
     (if st_type publishedRoot \<noteq> StacCatalogType then None
      else Some (publishedRoot\<lparr>
        st_rest := map_set ''conformsTo'' (JArr (map JStr STAC_API_CONFORMANCE)) (st_rest publishedRoot),
        st_links := [apiLink ''self'' (origin @ ''/stac''), apiLink ''root'' (origin @ ''/stac''),
            apiLink ''data'' (origin @ ''/stac/collections''),
            \<lparr>sl_rel = ''service-desc'', sl_href = origin @ ''/stac/api'',
             sl_type = Some ''application/vnd.oai.openapi+json;version=3.1'', sl_rest = []\<rparr>]
          @ filter (\<lambda>l. sl_rel l \<notin> {''self'', ''root'', ''data'', ''service-desc'', ''service-doc'', ''search'', ''child''})
              (st_links publishedRoot)\<rparr>))"

definition buildStacCollection :: "stac_document \<Rightarrow> string \<Rightarrow> stac_document option" where
  "buildStacCollection published origin =
     (if st_type published \<noteq> StacCollectionType then None
      else Some (published\<lparr>st_links :=
        [apiLink ''self'' (stacCollectionUrl origin (st_id published)), apiLink ''root'' (origin @ ''/stac''),
         apiLink ''parent'' (origin @ ''/stac'')]
        @ filter (\<lambda>l. sl_rel l \<notin> {''self'', ''root'', ''parent'', ''items''}) (st_links published)\<rparr>))"

section \<open>Cursors\<close>

record stac_cursor =
  cu_generation :: string
  cu_after :: string

definition cursorSchema :: "json \<Rightarrow> stac_cursor option" where
  "cursorSchema j =
     (case j of
        JObj ms \<Rightarrow>
          if \<exists>k \<in> set (map fst ms). k \<noteq> ''generation'' \<and> k \<noteq> ''after'' then None
          else
            (case (text_member ms ''generation'', text_member ms ''after'') of
               (Some g, Some a) \<Rightarrow> if g = [] \<or> a = [] then None else Some \<lparr>cu_generation = g, cu_after = a\<rparr>
             | _ \<Rightarrow> None)
      | _ \<Rightarrow> None)"

definition cursor_json :: "stac_cursor \<Rightarrow> json" where
  "cursor_json c = JObj [(''generation'', JStr (cu_generation c)), (''after'', JStr (cu_after c))]"

definition encodeStacCursor :: "stac_cursor \<Rightarrow> string option" where
  "encodeStacCursor c =
     map_option (\<lambda>v. base64url_encode (utf8_encode (json_stringify (cursor_json v)))) (cursorSchema (cursor_json c))"

datatype decoded_cursor = CursorAfter "string option" | InvalidCursor | StaleCursor

definition decodeStacCursor :: "string option \<Rightarrow> string \<Rightarrow> decoded_cursor" where
  "decodeStacCursor token gen =
     (case token of
        None \<Rightarrow> CursorAfter None
      | Some t \<Rightarrow>
          if t = [] \<or> 2048 < length t \<or> (\<exists>c \<in> set t. \<not> b64_token_char c) then InvalidCursor
          else
            (case Option.bind (Option.bind (utf8_decode (base64url_decode t)) json_parse) cursorSchema of
               None \<Rightarrow> InvalidCursor
             | Some c \<Rightarrow> if cu_generation c \<noteq> gen then StaleCursor else CursorAfter (Some (cu_after c))))"

definition listingUrl :: "string \<Rightarrow> string \<Rightarrow> string option \<Rightarrow> string option" where
  "listingUrl origin gen after =
     (case after of
        None \<Rightarrow> Some (origin @ ''/stac/collections'')
      | Some a \<Rightarrow>
          map_option (\<lambda>c. url_href (origin @ ''/stac/collections'') (params_set ''cursor'' c []))
            (encodeStacCursor \<lparr>cu_generation = gen, cu_after = a\<rparr>))"

section \<open>Pages of collections\<close>

definition PAGE_SIZE :: nat where "PAGE_SIZE = 50"

record stac_page =
  sp_collections :: "stac_document list"
  sp_links :: "stac_link list"

text \<open>One entry: its document, which must be the Collection of that version.\<close>

definition page_entry :: "web \<Rightarrow> string \<Rightarrow> string \<Rightarrow> version_row \<Rightarrow> stac_document option" where
  "page_entry w catalogUrl origin v =
     (case loadStacDocument w catalogUrl (ve_href v) of
        None \<Rightarrow> None
      | Some d \<Rightarrow> if st_type d \<noteq> StacCollectionType \<or> st_id d \<noteq> ve_path v then None else buildStacCollection d origin)"

text \<open>The loop in batches of eight; \<open>None\<close> is an exception in a batch.\<close>

function page_batches :: "(version_row \<Rightarrow> stac_document option) \<Rightarrow> version_row list \<Rightarrow> stac_document list option" where
  "page_batches f selected =
     (if selected = [] then Some []
      else
        (case those (map f (take 8 selected)) of
           None \<Rightarrow> None
         | Some batch \<Rightarrow> map_option ((@) batch) (page_batches f (drop 8 selected))))"
  by pat_completeness auto
termination by (relation "measure (length \<circ> snd)") auto

definition buildStacCollectionsPage ::
  "web \<Rightarrow> version_row list \<Rightarrow> string \<Rightarrow> string \<Rightarrow> string \<Rightarrow> string option \<Rightarrow> stac_page option" where
  "buildStacCollectionsPage w entries catalogUrl origin gen after =
     (let selected = take PAGE_SIZE entries in
      case page_batches (page_entry w catalogUrl origin) selected of
        None \<Rightarrow> None
      | Some collections \<Rightarrow>
          (case listingUrl origin gen after of
             None \<Rightarrow> None
           | Some self \<Rightarrow>
               (let links = [apiLink ''self'' self, apiLink ''root'' (origin @ ''/stac'')] in
                if PAGE_SIZE < length entries \<and> selected \<noteq> []
                then map_option (\<lambda>url. \<lparr>sp_collections = collections, sp_links = links @ [apiLink ''next'' url]\<rparr>)
                       (listingUrl origin gen (Some (ve_path (last selected))))
                else Some \<lparr>sp_collections = collections, sp_links = links\<rparr>)))"

section \<open>Routes\<close>

text \<open>What \<open>withSnapshot\<close> hands to a route: the repository, the URL of its file and its generation.\<close>

record stac_snapshot =
  sn_db :: catalog_db
  sn_catalogUrl :: "string option"
  sn_generation :: string

definition unavailable_metadata :: problem where
  "unavailable_metadata = Problem 503 ''Catalog metadata is unavailable'' None"

definition upstream_problem :: problem where
  "upstream_problem = Problem 502 ''Published STAC metadata is unavailable'' None"

text \<open>A page of the listing with the \<open>X-Catalog-Generation\<close> header; \<open>cursor\<close> is the query parameter.\<close>

definition serveStacCollections ::
  "web \<Rightarrow> stac_snapshot option \<Rightarrow> string \<Rightarrow> search_params \<Rightarrow> (string \<times> stac_page) response" where
  "serveStacCollections w snap origin params =
     (case snap of
        None \<Rightarrow> ProblemResponse unavailable_metadata
      | Some s \<Rightarrow>
      (case sn_catalogUrl s of
         None \<Rightarrow> ProblemResponse unavailable_metadata
       | Some catalogUrl \<Rightarrow>
       if catalogUrl = [] then ProblemResponse unavailable_metadata
       else
       (case decodeStacCursor (map_of params ''cursor'') (sn_generation s) of
          StaleCursor \<Rightarrow> ProblemResponse (Problem 409 ''STAC cursor is stale'' None)
        | InvalidCursor \<Rightarrow> ProblemResponse (Problem 400 ''Invalid STAC cursor'' None)
        | CursorAfter after \<Rightarrow>
          (case Option.bind (listStacVersions (sn_db s) after 51)
                  (\<lambda>entries. buildStacCollectionsPage w entries catalogUrl origin (sn_generation s) after) of
             None \<Rightarrow> ProblemResponse upstream_problem
           | Some page \<Rightarrow> JsonResponse (sn_generation s, page)))))"

definition serveStacCollection ::
  "web \<Rightarrow> stac_snapshot option \<Rightarrow> string \<Rightarrow> string \<Rightarrow> (string \<times> stac_document) response" where
  "serveStacCollection w snap origin i =
     (case snap of
        None \<Rightarrow> ProblemResponse unavailable_metadata
      | Some s \<Rightarrow>
      (case sn_catalogUrl s of
         None \<Rightarrow> ProblemResponse unavailable_metadata
       | Some catalogUrl \<Rightarrow>
       if catalogUrl = [] then ProblemResponse unavailable_metadata
       else
       (case getStacVersion (sn_db s) i of
          None \<Rightarrow> Thrown
        | Some None \<Rightarrow> ProblemResponse (Problem 404 ''Collection not found'' None)
        | Some (Some v) \<Rightarrow>
          (case loadStacDocument w catalogUrl (ve_href v) of
             None \<Rightarrow> ProblemResponse upstream_problem
           | Some d \<Rightarrow>
               if st_type d \<noteq> StacCollectionType \<or> st_id d \<noteq> i
               then ProblemResponse (Problem 502 ''Published STAC Collection does not match catalog'' None)
               else (case buildStacCollection d origin of
                  None \<Rightarrow> ProblemResponse upstream_problem
                | Some c \<Rightarrow> JsonResponse (sn_generation s, c))))))"

definition stac_landing ::
  "web \<Rightarrow> stac_snapshot option \<Rightarrow> string \<Rightarrow> (string \<times> stac_document) response" where
  "stac_landing w snap origin =
     (case snap of
        None \<Rightarrow> ProblemResponse unavailable_metadata
      | Some s \<Rightarrow>
      (case sn_catalogUrl s of
         None \<Rightarrow> ProblemResponse unavailable_metadata
       | Some catalogUrl \<Rightarrow>
       if catalogUrl = [] then ProblemResponse unavailable_metadata
       else
       (case Option.bind (loadStacDocument w catalogUrl ''catalog.json'') (\<lambda>d. buildStacLanding d origin) of
          None \<Rightarrow> ProblemResponse upstream_problem
        | Some d \<Rightarrow> JsonResponse (sn_generation s, d))))"

section \<open>Cursors come back\<close>

lemma encodeStacCursor_Some:
  assumes "cu_generation c \<noteq> []" "cu_after c \<noteq> []"
  shows "encodeStacCursor c = Some (base64url_encode (utf8_encode (json_stringify (cursor_json c))))"
  using assms by (simp add: encodeStacCursor_def cursorSchema_def cursor_json_def text_member_def)

lemma cursor_json_parse: "json_parse (json_stringify (cursor_json c)) = Some (cursor_json c)"
  by (rule json_parse_stringify) (simp add: cursor_json_def)

lemma utf8_encode_Nil [simp]: "utf8_encode s = [] \<longleftrightarrow> s = []"
  by (cases s) (simp_all add: utf8_encode_def utf8_char_def Let_def)

lemma decode_encode_cursor:
  assumes "encodeStacCursor c = Some t" "length t \<le> 2048"
  shows "decodeStacCursor (Some t) gen = (if cu_generation c = gen then CursorAfter (Some (cu_after c)) else StaleCursor)"
proof -
  have ok: "cu_generation c \<noteq> []" "cu_after c \<noteq> []"
    using assms(1) by (auto simp: encodeStacCursor_def cursorSchema_def cursor_json_def text_member_def split: if_splits)
  then have t: "t = base64url_encode (utf8_encode (json_stringify (cursor_json c)))"
    using assms(1) by (simp add: encodeStacCursor_Some)
  have schema: "cursorSchema (cursor_json c) = Some c"
    using ok by (simp add: cursorSchema_def cursor_json_def text_member_def)
  have "json_stringify (cursor_json c) \<noteq> []" by (simp add: cursor_json_def)
  moreover have "\<not> (\<exists>x \<in> set t. \<not> b64_token_char x)" using base64url_encode_chars by (auto simp: t)
  ultimately show ?thesis
    using assms(2) by (simp add: decodeStacCursor_def t cursor_json_parse schema)
qed

text \<open>
  A cursor survives the client: the token that a page's link carries decodes to the position
  it was made for in the same generation of the catalogue, and in any other generation it is
  recognised as stale instead of being applied to the wrong rows.
\<close>

theorem stac_cursor_roundtrip:
  assumes "encodeStacCursor \<lparr>cu_generation = gen, cu_after = after\<rparr> = Some t" and "length t \<le> 2048"
  shows "decodeStacCursor (Some t) gen = CursorAfter (Some after) \<and>
    decodeStacCursor (Some t) (gen @ [c]) = StaleCursor"
  using decode_encode_cursor [OF assms] by simp

section \<open>The pages\<close>

declare page_batches.simps [simp del]

lemma those_append: "those (xs @ ys) = (case those xs of None \<Rightarrow> None | Some us \<Rightarrow> map_option ((@) us) (those ys))"
proof (induction xs)
  case Nil
  show ?case by (cases "those ys") auto
next
  case (Cons x xs)
  then show ?case by (cases x; cases "those xs"; cases "those ys") auto
qed

lemma page_batches_those: "page_batches f selected = those (map f selected)"
proof (induction f selected rule: page_batches.induct)
  case (1 f selected)
  show ?case
  proof (cases "selected = []")
    case True
    then show ?thesis by (simp add: page_batches.simps)
  next
    case False
    have "those (map f selected) = those (map f (take 8 selected) @ map f (drop 8 selected))"
      by (simp flip: map_append)
    with 1 False show ?thesis
      by (simp add: page_batches.simps [of f selected] those_append split: option.splits)
  qed
qed

text \<open>The versions in the order of their path, the primary key, from after a path on.\<close>

definition versions_after :: "catalog_db \<Rightarrow> string option \<Rightarrow> version_row list" where
  "versions_after db after =
     sort_key ve_path (filter (\<lambda>v. (case after of None \<Rightarrow> [] | Some a \<Rightarrow> a) < ve_path v) (db_versions db))"

lemma sorted_filter_after:
  assumes "sorted_wrt (\<lambda>v w. ve_path v < (ve_path w :: string)) (xs @ y # ys)"
  shows "filter (\<lambda>v. ve_path y < ve_path v) (xs @ y # ys) = ys"
proof -
  have "filter (\<lambda>v. ve_path y < ve_path v) xs = []"
    using assms by (auto simp: filter_empty_conv sorted_wrt_append dest: order.asym)
  moreover have "filter (\<lambda>v. ve_path y < ve_path v) ys = ys"
    using assms by (auto simp: filter_id_conv sorted_wrt_append)
  ultimately show ?thesis by simp
qed

lemma versions_after_strict:
  assumes "distinct (map ve_path (db_versions db))"
  shows "sorted_wrt (\<lambda>v w. ve_path v < ve_path w) (versions_after db after)"
proof -
  have "sorted (map ve_path (versions_after db after))" by (simp add: versions_after_def)
  moreover have "distinct (map ve_path (versions_after db after))"
  proof -
    have "mset (map ve_path (versions_after db after)) =
        mset (map ve_path (filter (\<lambda>v. (case after of None \<Rightarrow> [] | Some a \<Rightarrow> a) < ve_path v) (db_versions db)))"
      by (simp add: versions_after_def)
    then show ?thesis using assms distinct_map_filter mset_eq_imp_distinct_iff by blast
  qed
  ultimately have "sorted_wrt (<) (map ve_path (versions_after db after))" by (simp only: strict_sorted_iff)
  then show ?thesis by (simp add: sorted_wrt_map)
qed

section \<open>Following the cursors\<close>

text \<open>A client that asks for a page and goes on with the position of its next link.\<close>

fun follow :: "nat \<Rightarrow> ('c \<Rightarrow> ('d list \<times> 'c option) option) \<Rightarrow> 'c \<Rightarrow> 'd list option" where
  "follow 0 page c = None"
| "follow (Suc n) page c =
     (case page c of
        None \<Rightarrow> None
      | Some (ds, None) \<Rightarrow> Some ds
      | Some (ds, Some c') \<Rightarrow> map_option ((@) ds) (follow n page c'))"

text \<open>
  What a listing with cursors promises: from a valid position a page is a prefix of what is left,
  and its next position, there as long as anything is left, stands for the remainder.
\<close>

locale cursor_listing =
  fixes page :: "'c \<Rightarrow> ('d list \<times> 'c option) option"
    and valid :: "'c \<Rightarrow> bool"
    and remaining :: "'c \<Rightarrow> 'd list"
  assumes prefix_page: "valid c \<Longrightarrow> \<exists>ds nxt. page c = Some (ds, nxt) \<and>
      (case nxt of
         None \<Rightarrow> remaining c = ds
       | Some c' \<Rightarrow> valid c' \<and> ds \<noteq> [] \<and> remaining c = ds @ remaining c')"
begin

lemma follow_complete: "valid c \<Longrightarrow> length (remaining c) < n \<Longrightarrow> follow n page c = Some (remaining c)"
proof (induction n arbitrary: c)
  case (Suc n)
  obtain ds nxt where p: "page c = Some (ds, nxt)" "case nxt of None \<Rightarrow> remaining c = ds
       | Some c' \<Rightarrow> valid c' \<and> ds \<noteq> [] \<and> remaining c = ds @ remaining c'"
    using prefix_page [OF Suc.prems(1)] by blast
  show ?case
  proof (cases nxt)
    case None
    with p show ?thesis by simp
  next
    case (Some c')
    then have "valid c'" "length (remaining c') < n" using p Suc.prems(2) by (cases ds; simp)+
    from Suc.IH [OF this] p Some show ?thesis by simp
  qed
qed simp

end

definition next_url :: "stac_page \<Rightarrow> string option" where
  "next_url page = map_option sl_href (List.find (\<lambda>l. sl_rel l = ''next'') (sp_links page))"

definition stac_fetch ::
  "web \<Rightarrow> stac_snapshot option \<Rightarrow> string \<Rightarrow> search_params \<Rightarrow> (stac_document list \<times> search_params option) option" where
  "stac_fetch w snap origin params =
     (case serveStacCollections w snap origin params of
        JsonResponse (g, page) \<Rightarrow>
          (case next_url page of
             None \<Rightarrow> Some (sp_collections page, None)
           | Some url \<Rightarrow> map_option (\<lambda>ps. (sp_collections page, Some ps)) (url_params url))
      | _ \<Rightarrow> None)"

definition after_of :: "string \<Rightarrow> search_params \<Rightarrow> string option" where
  "after_of gen ps = (case decodeStacCursor (map_of ps ''cursor'') gen of CursorAfter a \<Rightarrow> a | _ \<Rightarrow> None)"

text \<open>
  A published catalogue whose versions can all be read: keys are distinct, every row passes its
  schema, every document loads and matches, and no path is too long for a cursor.
\<close>

definition stac_readable ::
  "web \<Rightarrow> stac_snapshot \<Rightarrow> string \<Rightarrow> string \<Rightarrow> (version_row \<Rightarrow> stac_document) \<Rightarrow> bool" where
  "stac_readable w s catalogUrl origin doc \<longleftrightarrow>
     sn_catalogUrl s = Some catalogUrl \<and> catalogUrl \<noteq> [] \<and> sn_generation s \<noteq> [] \<and> clean_origin origin \<and>
     distinct (map ve_path (db_versions (sn_db s))) \<and> list_all stacVersionSchema (db_versions (sn_db s)) \<and>
     (\<forall>v \<in> set (db_versions (sn_db s)). page_entry w catalogUrl origin v = Some (doc v) \<and>
        (case encodeStacCursor \<lparr>cu_generation = sn_generation s, cu_after = ve_path v\<rparr> of
           Some t \<Rightarrow> length t \<le> 2048 | None \<Rightarrow> True))"

definition stac_valid ::
  "web \<Rightarrow> stac_snapshot \<Rightarrow> string \<Rightarrow> string \<Rightarrow> (version_row \<Rightarrow> stac_document) \<Rightarrow> search_params \<Rightarrow> bool" where
  "stac_valid w s catalogUrl origin doc ps \<longleftrightarrow>
     stac_readable w s catalogUrl origin doc \<and>
     (\<exists>a. decodeStacCursor (map_of ps ''cursor'') (sn_generation s) = CursorAfter a \<and> a \<noteq> Some [])"

lemma versions_after_subset: "set (versions_after db after) \<subseteq> set (db_versions db)"
  by (auto simp: versions_after_def)

lemma listStacVersions_after:
  assumes "list_all stacVersionSchema (db_versions db)"
  shows "listStacVersions db after 51 = Some (take 51 (versions_after db after))"
proof -
  have "list_all stacVersionSchema (take 51 (versions_after db after))"
    using assms versions_after_subset [of db after] by (auto simp: list_all_iff dest: in_set_takeD)
  then show ?thesis
    by (simp add: listStacVersions_def parse_rows_def sql_window_def versions_after_def [symmetric])
qed

lemma versions_after_member:
  assumes distinct: "distinct (map ve_path (db_versions db))" and split: "versions_after db after = xs @ y # ys"
  shows "versions_after db (Some (ve_path y)) = ys"
proof -
  let ?a = "case after of None \<Rightarrow> [] | Some a \<Rightarrow> a"
  have "y \<in> set (versions_after db after)" by (simp add: split)
  then have "?a < ve_path y" by (simp add: versions_after_def)
  then have "filter (\<lambda>v. ve_path y < ve_path v) (db_versions db) =
      filter (\<lambda>v. ve_path y < ve_path v) (filter (\<lambda>v. ?a < ve_path v) (db_versions db))"
    by (auto simp: filter_filter intro!: filter_cong)
  then have "versions_after db (Some (ve_path y)) = filter (\<lambda>v. ve_path y < ve_path v) (versions_after db after)"
    by (simp add: versions_after_def filter_sort)
  also have "\<dots> = ys"
    using sorted_filter_after versions_after_strict [OF distinct, of after] by (simp add: split)
  finally show ?thesis .
qed

lemma those_all_Some: "\<forall>x \<in> set xs. f x = Some (g x) \<Longrightarrow> those (map f xs) = Some (map g xs)"
  by (induction xs) auto

lemma stac_page_of:
  assumes r: "stac_readable w s catalogUrl origin doc"
    and a: "decodeStacCursor (map_of ps ''cursor'') (sn_generation s) = CursorAfter after" "after \<noteq> Some []"
  defines "vs \<equiv> versions_after (sn_db s) after"
  shows "\<exists>page. serveStacCollections w (Some s) origin ps = JsonResponse (sn_generation s, page) \<and>
    sp_collections page = map doc (take 50 vs) \<and>
    next_url page = (if 50 < length vs
      then listingUrl origin (sn_generation s) (Some (ve_path (last (take 50 vs)))) else None)"
proof -
  have url: "sn_catalogUrl s = Some catalogUrl" "catalogUrl \<noteq> []" and ok: "list_all stacVersionSchema (db_versions (sn_db s))"
    and docs: "\<And>v. v \<in> set (db_versions (sn_db s)) \<Longrightarrow> page_entry w catalogUrl origin v = Some (doc v)"
    and gen: "sn_generation s \<noteq> []"
    using r by (auto simp: stac_readable_def)
  have vs: "set vs \<subseteq> set (db_versions (sn_db s))" using versions_after_subset by (simp add: vs_def)
  have sel: "take 50 (take 51 vs) = take 50 vs" by (simp add: min_def)
  have "those (map (page_entry w catalogUrl origin) (take 50 vs)) = Some (map doc (take 50 vs))"
    using docs vs by (intro those_all_Some) (auto dest: in_set_takeD)
  then have batches: "page_batches (page_entry w catalogUrl origin) (take 50 vs) = Some (map doc (take 50 vs))"
    by (simp add: page_batches_those)
  have enc: "\<exists>u. listingUrl origin (sn_generation s) (Some p) = Some u" if "p \<noteq> []" for p
    using that gen encodeStacCursor_Some [of "\<lparr>cu_generation = sn_generation s, cu_after = p\<rparr>"]
    by (simp add: listingUrl_def)
  have "\<exists>self. listingUrl origin (sn_generation s) after = Some self"
  proof (cases after)
    case None
    then show ?thesis by (simp add: listingUrl_def)
  next
    case (Some p)
    with a(2) enc [of p] show ?thesis by simp
  qed
  then obtain self where self: "listingUrl origin (sn_generation s) after = Some self" by blast
  have long: "50 < length (take 51 vs) \<longleftrightarrow> 50 < length vs" by simp
  have page: "buildStacCollectionsPage w (take 51 vs) catalogUrl origin (sn_generation s) after =
      (let links = [apiLink ''self'' self, apiLink ''root'' (origin @ ''/stac'')] in
       if 50 < length vs
       then map_option (\<lambda>u. \<lparr>sp_collections = map doc (take 50 vs), sp_links = links @ [apiLink ''next'' u]\<rparr>)
              (listingUrl origin (sn_generation s) (Some (ve_path (last (take 50 vs)))))
       else Some \<lparr>sp_collections = map doc (take 50 vs), sp_links = links\<rparr>)"
    unfolding buildStacCollectionsPage_def PAGE_SIZE_def Let_def sel batches self long by auto
  have path: "ve_path (last (take 50 vs)) \<noteq> []" if "50 < length vs"
  proof -
    have "last (take 50 vs) \<in> set vs"
      using that by (metis last_in_set in_set_takeD less_nat_zero_code list.size(3) take_eq_Nil zero_neq_numeral)
    then show ?thesis using vs ok by (auto simp: list_all_iff stacVersionSchema_def)
  qed
  have serve: "serveStacCollections w (Some s) origin ps =
      (case buildStacCollectionsPage w (take 51 vs) catalogUrl origin (sn_generation s) after of
         None \<Rightarrow> ProblemResponse upstream_problem | Some page \<Rightarrow> JsonResponse (sn_generation s, page))"
    using url a listStacVersions_after [OF ok] by (simp add: serveStacCollections_def vs_def)
  show ?thesis
  proof (cases "50 < length vs")
    case True
    then obtain u where "listingUrl origin (sn_generation s) (Some (ve_path (last (take 50 vs)))) = Some u"
      using enc path by blast
    with True show ?thesis unfolding serve page by (simp add: next_url_def apiLink_def)
  next
    case False
    then show ?thesis unfolding serve page by (simp add: next_url_def apiLink_def)
  qed
qed

interpretation stac_collections:
  cursor_listing "stac_fetch w (Some s) origin" "stac_valid w s catalogUrl origin doc"
    "\<lambda>ps. map doc (versions_after (sn_db s) (after_of (sn_generation s) ps))"
  for w s catalogUrl origin doc
proof
  fix ps
  assume v: "stac_valid w s catalogUrl origin doc ps"
  then obtain after where a: "decodeStacCursor (map_of ps ''cursor'') (sn_generation s) = CursorAfter after" "after \<noteq> Some []"
    by (auto simp: stac_valid_def)
  define vs where "vs = versions_after (sn_db s) after"
  have r: "stac_readable w s catalogUrl origin doc" using v by (simp add: stac_valid_def)
  then have distinct: "distinct (map ve_path (db_versions (sn_db s)))" and origin: "clean_origin origin"
    by (simp_all add: stac_readable_def)
  have rest: "versions_after (sn_db s) (after_of (sn_generation s) ps) = vs"
    by (simp add: after_of_def a vs_def)
  obtain page where page: "serveStacCollections w (Some s) origin ps = JsonResponse (sn_generation s, page)"
    "sp_collections page = map doc (take 50 vs)"
    "next_url page = (if 50 < length vs
      then listingUrl origin (sn_generation s) (Some (ve_path (last (take 50 vs)))) else None)"
    using stac_page_of [OF r a] unfolding vs_def by blast
  show "\<exists>ds nxt. stac_fetch w (Some s) origin ps = Some (ds, nxt) \<and>
      (case nxt of
         None \<Rightarrow> map doc (versions_after (sn_db s) (after_of (sn_generation s) ps)) = ds
       | Some c' \<Rightarrow> stac_valid w s catalogUrl origin doc c' \<and> ds \<noteq> [] \<and>
           map doc (versions_after (sn_db s) (after_of (sn_generation s) ps)) =
           ds @ map doc (versions_after (sn_db s) (after_of (sn_generation s) c')))"
  proof (cases "50 < length vs")
    case False
    then show ?thesis unfolding rest using page by (simp add: stac_fetch_def)
  next
    case True
    define y where "y = vs ! 49"
    have suc: "Suc 49 = 50" by simp
    have "49 < length vs" using True by simp
    from id_take_nth_drop [OF this] have split: "vs = take 49 vs @ y # drop 50 vs" unfolding y_def suc .
    have "vs \<noteq> []" "length (take 50 vs) = 50" using True by auto
    then have last: "last (take 50 vs) = y" by (simp add: y_def last_conv_nth)
    have "y \<in> set vs" using split by (metis in_set_conv_decomp)
    then have y: "y \<in> set (db_versions (sn_db s))" using versions_after_subset by (auto simp: vs_def)
    then have "ve_path y \<noteq> []" using r by (auto simp: stac_readable_def list_all_iff stacVersionSchema_def)
    then obtain t where t: "encodeStacCursor \<lparr>cu_generation = sn_generation s, cu_after = ve_path y\<rparr> = Some t"
      using r encodeStacCursor_Some [of "\<lparr>cu_generation = sn_generation s, cu_after = ve_path y\<rparr>"]
      by (simp add: stac_readable_def)
    then have "length t \<le> 2048" using r y by (force simp: stac_readable_def)
    from decode_encode_cursor [OF t this] have dec:
      "decodeStacCursor (map_of [(''cursor'', t)] ''cursor'') (sn_generation s) = CursorAfter (Some (ve_path y))" by simp
    have url: "url_params (url_href (origin @ ''/stac/collections'') [(''cursor'', t)]) = Some [(''cursor'', t)]"
      using origin by (intro url_params_href) (auto simp: clean_origin_def)
    have rest': "versions_after (sn_db s) (after_of (sn_generation s) [(''cursor'', t)]) = drop 50 vs"
      using versions_after_member [OF distinct split [unfolded vs_def]] unfolding after_of_def dec vs_def by simp
    have "stac_fetch w (Some s) origin ps = Some (map doc (take 50 vs), Some [(''cursor'', t)])"
      using page True last t url by (simp add: stac_fetch_def listingUrl_def)
    moreover have "stac_valid w s catalogUrl origin doc [(''cursor'', t)]"
      using r dec \<open>ve_path y \<noteq> []\<close> by (auto simp: stac_valid_def)
    moreover have "map doc (take 50 vs) @ map doc (drop 50 vs) = map doc vs"
      by (metis append_take_drop_id map_append)
    moreover have "map doc (take 50 vs) \<noteq> []" using True by auto
    ultimately show ?thesis unfolding rest using rest' by auto
  qed
qed

text \<open>
  C26: a client that reads \<open>/stac/collections\<close> and follows the \<open>next\<close> links ends after finitely many
  pages with the documents of all published versions, in the order of their paths and each once,
  although every page asks the repository afresh for the paths after its cursor.
\<close>

theorem stac_pages_reach_every_version:
  assumes "stac_readable w s catalogUrl origin doc"
  shows "follow (Suc (length (db_versions (sn_db s)))) (stac_fetch w (Some s) origin) [] =
    Some (map doc (sort_key ve_path (db_versions (sn_db s))))"
proof -
  have valid: "stac_valid w s catalogUrl origin doc []"
    using assms by (simp add: stac_valid_def decodeStacCursor_def)
  have "[] < p" if "p \<noteq> []" for p :: string using that by (cases p) simp_all
  then have "filter (\<lambda>v. [] < ve_path v) (db_versions (sn_db s)) = db_versions (sn_db s)"
    using assms by (auto simp: filter_id_conv stac_readable_def list_all_iff stacVersionSchema_def)
  then have "versions_after (sn_db s) (after_of (sn_generation s) []) = sort_key ve_path (db_versions (sn_db s))"
    by (simp add: after_of_def decodeStacCursor_def versions_after_def)
  with stac_collections.follow_complete [OF valid, of "Suc (length (db_versions (sn_db s)))"] show ?thesis
    by simp
qed

section \<open>A sample of the web\<close>

definition sample_web :: web where
  "sample_web =
     \<lparr>web_urls = \<lparr>parse_url = (\<lambda>t. Some \<lparr>wu_origin = ''https://s'', wu_pathname = ''/_catalog/catalog.sqlite'',
          wu_search = [], wu_hash = []\<rparr>),
        resolve_url = (\<lambda>href b. Some (b\<lparr>wu_pathname := wu_pathname b @ href\<rparr>))\<rparr>,
      web_json = (\<lambda>u. Some (JObj [(''type'', JStr ''Collection''),
        (''id'', JStr (''c/a/f/'' @ takeWhile (\<lambda>c. c \<noteq> CHR ''.'') (drop 1 (wu_pathname u)))),
        (''stac_version'', JStr ''1.0.0''), (''description'', JStr []), (''links'', JArr [])]))\<rparr>"

definition sample_stac :: stac_snapshot where
  "sample_stac = \<lparr>sn_db = sample_db, sn_catalogUrl = Some ''u'', sn_generation = ''g''\<rparr>"

theorem stac_cursor_roundtrip_witness:
  "decodeStacCursor (Some ''eyJnZW5lcmF0aW9uIjoiZyIsImFmdGVyIjoiYyJ9'') ''g'' = CursorAfter (Some ''c'') \<and>
   decodeStacCursor (Some ''eyJnZW5lcmF0aW9uIjoiZyIsImFmdGVyIjoiYyJ9'') ''gh'' = StaleCursor"
proof -
  have "encodeStacCursor \<lparr>cu_generation = ''g'', cu_after = ''c''\<rparr> = Some ''eyJnZW5lcmF0aW9uIjoiZyIsImFmdGVyIjoiYyJ9''"
    by code_simp
  from stac_cursor_roundtrip [OF this, of "CHR ''h''"] show ?thesis by simp
qed

lemma sample_stac_readable:
  "stac_readable sample_web sample_stac ''u'' ''https://x'' (\<lambda>v. the (page_entry sample_web ''u'' ''https://x'' v))"
proof -
  have keys: "distinct (map ve_path (db_versions sample_db))" "list_all stacVersionSchema (db_versions sample_db)"
    "clean_origin ''https://x''" by code_simp+
  have entries: "\<forall>v \<in> set (db_versions sample_db). page_entry sample_web ''u'' ''https://x'' v \<noteq> None" by code_simp
  have tokens: "\<forall>v \<in> set (db_versions sample_db).
      (case encodeStacCursor \<lparr>cu_generation = ''g'', cu_after = ve_path v\<rparr> of Some t \<Rightarrow> length t \<le> 2048 | None \<Rightarrow> True)"
    by code_simp
  show ?thesis unfolding stac_readable_def using keys entries tokens by (simp add: sample_stac_def)
qed

theorem stac_pages_reach_every_version_witness:
  "map_option (map st_id) (follow 3 (stac_fetch sample_web (Some sample_stac) ''https://x'') [])
   = Some [''c/a/f/1'', ''c/a/f/2'']"
proof -
  have "length (db_versions (sn_db sample_stac)) = 2" by code_simp
  moreover have "map (\<lambda>v. st_id (the (page_entry sample_web ''u'' ''https://x'' v)))
      (sort_key ve_path (db_versions (sn_db sample_stac))) = [''c/a/f/1'', ''c/a/f/2'']" by code_simp
  ultimately show ?thesis
    using stac_pages_reach_every_version [OF sample_stac_readable] by (simp add: comp_def eval_nat_numeral)
qed

end
