(* ===== verification/MapSources.thy ===== *)
theory MapSources
  imports LayerStyles MapLayers JsUrl
begin

text \<open>
  The sources and rendered layers of the viewer's map,
  \<open>webapp/src/components/viewer/useMapInitialization.ts\<close>: the vector layers that a source offers, the
  style layers that draw them, and the synchronisation of the map with the loaded layers, which
  waits for the metadata of each archive while newer synchronisations may replace it. MapLibre and
  the archives are parameters: MapLibre is a record of the operations the code calls.
\<close>

section \<open>Fields and vector layers\<close>

record archive_layer =
  al_id :: "string option"
  al_fields :: "(string \<times> category_value) list option"

definition archive_fields :: "archive_layer option \<Rightarrow> (string \<times> category_value) list" where
  "archive_fields l = (case Option.bind l al_fields of None \<Rightarrow> [] | Some fs \<Rightarrow> fs)"

definition isNumericFieldType :: "category_value option \<Rightarrow> bool" where
  "isNumericFieldType type =
     (case type of
        Some (CatNumber n) \<Rightarrow> True
      | Some (CatString t) \<Rightarrow>
          (let normalized = toLowerCase t in
           \<exists>w \<in> set [''number'', ''int'', ''float'', ''double'', ''decimal'']. str_includes normalized w)
      | _ \<Rightarrow> False)"

definition isNumericColumn :: "column_schema \<Rightarrow> bool" where
  "isNumericColumn c \<longleftrightarrow> isNumericFieldType (Some (CatString (cs_type c))) \<or> cs_min c \<noteq> None \<or> cs_max c \<noteq> None"

definition add_numeric_column ::
  "(string \<times> category_value) list \<Rightarrow> (string \<times> numeric_field) list \<Rightarrow> column_schema \<Rightarrow> (string \<times> numeric_field) list" where
  "add_numeric_column flds summaries c =
     (if isNumericColumn c \<and> (flds = [] \<or> map_of flds (cs_name c) \<noteq> None)
      then map_set (cs_name c) \<lparr>nf_name = cs_name c, nf_min = cs_min c, nf_max = cs_max c\<rparr> summaries
      else summaries)"

definition numericFieldSummaries ::
  "(string \<Rightarrow> string \<Rightarrow> int) \<Rightarrow> (string \<times> category_value) list \<Rightarrow> column_schema list \<Rightarrow> numeric_field list" where
  "numericFieldSummaries lc flds columns =
     (let typed = foldl (\<lambda>m (name, type). if isNumericFieldType (Some type)
            then map_set name \<lparr>nf_name = name, nf_min = None, nf_max = None\<rparr> m else m) [] flds in
      sort_by (\<lambda>l r. lc (nf_name l) (nf_name r)) (map snd (foldl (add_numeric_column flds) typed columns)))"

text \<open>The columns as \<open>scalarFieldSummaries\<close> reads them.\<close>

definition scalar_columns :: "column_schema list \<Rightarrow> (string \<times> string \<times> string list option) list" where
  "scalar_columns columns = map (\<lambda>c. (cs_name c, cs_type c, cs_possible_values c)) columns"

definition getVectorLayers :: "(string \<Rightarrow> string \<Rightarrow> int) \<Rightarrow> archive_layer list \<Rightarrow> vector_layer list" where
  "getVectorLayers lc metadata =
     concat (map (\<lambda>l. case al_id l of
         None \<Rightarrow> []
       | Some i \<Rightarrow> [\<lparr>vl_id = i, vl_sourceLayerId = None, vl_loadedLayerId = None, vl_mapSourceId = None,
           vl_mapLayerBaseId = None, vl_fields = map fst (archive_fields (Some l)),
           vl_numericFields = numericFieldSummaries lc (archive_fields (Some l)) [],
           vl_scalarFields = Some (scalarFieldSummaries (archive_fields (Some l)) []), vl_geometryType = None\<rparr>]) metadata)"

definition getVectorLayersForQuerySource :: "loaded_layer \<Rightarrow> query_part \<Rightarrow> vector_layer list" where
  "getVectorLayersForQuerySource source q =
     [\<lparr>vl_id = ll_id source @ '':'' @ qp_sourceLayerId q, vl_sourceLayerId = Some (qp_sourceLayerId q),
       vl_loadedLayerId = Some (ll_id source), vl_mapSourceId = Some (ll_mapSourceId source),
       vl_mapLayerBaseId = Some (ll_mapSourceId source @ ''-'' @ qp_sourceLayerId q),
       vl_fields = map qf_name (qp_scalarFields q),
       vl_numericFields = map (\<lambda>f. \<lparr>nf_name = qf_name f, nf_min = qf_min f, nf_max = qf_max f\<rparr>)
         (filter (\<lambda>f. isNumericFieldType (Some (CatString (qf_logicalType f))) \<or> qf_min f \<noteq> None \<or> qf_max f \<noteq> None)
           (qp_scalarFields q)),
       vl_scalarFields = Some (scalarFieldSummaries
         (map_from_entries (map (\<lambda>f. (qf_name f, CatString (qf_logicalType f))) (qp_scalarFields q))) []),
       vl_geometryType = None\<rparr>]"

text \<open>
  \<open>layer.sourceLayerId\<close> is still undefined where the scalar fields are looked up, so a metadata
  entry without an id matches as well.
\<close>

definition getVectorLayersForSource ::
  "(string \<Rightarrow> string \<Rightarrow> int) \<Rightarrow> archive_layer list \<Rightarrow> loaded_layer \<Rightarrow> vector_layer list" where
  "getVectorLayersForSource lc metadata source =
     (case ll_kind source of
        QueryMvt q \<Rightarrow> getVectorLayersForQuerySource source q
      | CatalogPmtiles d sourceMetadata u \<Rightarrow>
          (let columns = (case Option.bind sourceMetadata fm_columns of None \<Rightarrow> [] | Some cs \<Rightarrow> cs) in
           map (\<lambda>l. l\<lparr>vl_id := ll_id source @ '':'' @ vl_id l, vl_sourceLayerId := Some (vl_id l),
               vl_loadedLayerId := Some (ll_id source), vl_mapSourceId := Some (ll_mapSourceId source),
               vl_mapLayerBaseId := Some (ll_mapSourceId source @ ''-'' @ vl_id l),
               vl_numericFields := numericFieldSummaries lc
                 (archive_fields (List.find (\<lambda>e. al_id e = Some (vl_id l)) metadata)) columns,
               vl_geometryType := Option.bind sourceMetadata fm_geometry_type,
               vl_scalarFields := Some (scalarFieldSummaries
                 (archive_fields (List.find (\<lambda>e. al_id e = None \<or> al_id e = Some (vl_id l)) metadata))
                 (scalar_columns columns))\<rparr>)
             (getVectorLayers lc metadata)))"

section \<open>The map\<close>

record style_layer =
  la_id :: string
  la_type :: string
  la_source :: "string option"
  la_sourceLayer :: "string option"
  la_filter :: "string option"
  la_visible :: bool
  la_paint :: "(string \<times> json) list"

datatype source_spec = QueryTiles string | PmtilesArchive string | RasterTiles string

text \<open>The operations of MapLibre; \<open>ml_layers\<close> is \<open>map.getStyle().layers\<close>, the bottom layer first.\<close>

record 'm maplibre =
  ml_layers :: "'m \<Rightarrow> style_layer list"
  ml_getSource :: "'m \<Rightarrow> string \<Rightarrow> bool"
  ml_addSource :: "string \<Rightarrow> source_spec \<Rightarrow> 'm \<Rightarrow> 'm"
  ml_removeSource :: "string \<Rightarrow> 'm \<Rightarrow> 'm"
  ml_getLayer :: "'m \<Rightarrow> string \<Rightarrow> bool"
  ml_addLayer :: "style_layer \<Rightarrow> string option \<Rightarrow> 'm \<Rightarrow> 'm"
  ml_removeLayer :: "string \<Rightarrow> 'm \<Rightarrow> 'm"
  ml_moveLayer :: "string \<Rightarrow> 'm \<Rightarrow> 'm"
  ml_setVisibility :: "string \<Rightarrow> bool \<Rightarrow> 'm \<Rightarrow> 'm"

definition set_visible :: "string \<Rightarrow> bool \<Rightarrow> style_layer list \<Rightarrow> style_layer list" where
  "set_visible i v layers = map (\<lambda>l. if la_id l = i then l\<lparr>la_visible := v\<rparr> else l) layers"

definition insert_before :: "style_layer \<Rightarrow> string \<Rightarrow> style_layer list \<Rightarrow> style_layer list" where
  "insert_before l i layers = takeWhile (\<lambda>x. la_id x \<noteq> i) layers @ l # dropWhile (\<lambda>x. la_id x \<noteq> i) layers"

text \<open>
  What the documentation of MapLibre says of them, where their preconditions hold: a source is
  added under a new id and removed when no layer uses it; a layer is added under a new id on a
  source of the style, on top or below another; the other operations name a layer of the style.
\<close>

definition maplibre_laws :: "'m maplibre \<Rightarrow> bool" where
  "maplibre_laws ml \<longleftrightarrow>
     (\<forall>m i. ml_getLayer ml m i \<longleftrightarrow> i \<in> la_id ` set (ml_layers ml m)) \<and>
     (\<forall>m i s. \<not> ml_getSource ml m i \<longrightarrow>
        ml_layers ml (ml_addSource ml i s m) = ml_layers ml m \<and>
        (\<forall>j. ml_getSource ml (ml_addSource ml i s m) j \<longleftrightarrow> j = i \<or> ml_getSource ml m j)) \<and>
     (\<forall>m i. (\<forall>l \<in> set (ml_layers ml m). la_source l \<noteq> Some i) \<longrightarrow>
        ml_layers ml (ml_removeSource ml i m) = ml_layers ml m \<and>
        (\<forall>j. ml_getSource ml (ml_removeSource ml i m) j \<longleftrightarrow> j \<noteq> i \<and> ml_getSource ml m j)) \<and>
     (\<forall>m l. \<not> ml_getLayer ml m (la_id l) \<and> (\<forall>i. la_source l = Some i \<longrightarrow> ml_getSource ml m i) \<longrightarrow>
        ml_layers ml (ml_addLayer ml l None m) = ml_layers ml m @ [l] \<and>
        (\<forall>j. ml_getSource ml (ml_addLayer ml l None m) j = ml_getSource ml m j)) \<and>
     (\<forall>m l i. \<not> ml_getLayer ml m (la_id l) \<and> (\<forall>i. la_source l = Some i \<longrightarrow> ml_getSource ml m i) \<and>
         ml_getLayer ml m i \<longrightarrow>
        ml_layers ml (ml_addLayer ml l (Some i) m) = insert_before l i (ml_layers ml m) \<and>
        (\<forall>j. ml_getSource ml (ml_addLayer ml l (Some i) m) j = ml_getSource ml m j)) \<and>
     (\<forall>m i. ml_getLayer ml m i \<longrightarrow>
        ml_layers ml (ml_removeLayer ml i m) = filter (\<lambda>l. la_id l \<noteq> i) (ml_layers ml m) \<and>
        (\<forall>j. ml_getSource ml (ml_removeLayer ml i m) j = ml_getSource ml m j)) \<and>
     (\<forall>m i. ml_getLayer ml m i \<longrightarrow>
        ml_layers ml (ml_moveLayer ml i m) =
          filter (\<lambda>l. la_id l \<noteq> i) (ml_layers ml m) @ filter (\<lambda>l. la_id l = i) (ml_layers ml m) \<and>
        (\<forall>j. ml_getSource ml (ml_moveLayer ml i m) j = ml_getSource ml m j)) \<and>
     (\<forall>m i v. ml_getLayer ml m i \<longrightarrow>
        ml_layers ml (ml_setVisibility ml i v m) = set_visible i v (ml_layers ml m) \<and>
        (\<forall>j. ml_getSource ml (ml_setVisibility ml i v m) j = ml_getSource ml m j))"

section \<open>Style layers of a source\<close>

definition show_layer :: "'m maplibre \<Rightarrow> style_layer \<Rightarrow> 'm \<Rightarrow> 'm" where
  "show_layer ml l m =
     (if \<not> ml_getLayer ml m (la_id l) then ml_addLayer ml l None m
      else ml_setVisibility ml (la_id l) (la_visible l) m)"

definition base_id :: "loaded_layer \<Rightarrow> vector_layer \<Rightarrow> string" where
  "base_id source layer =
     (case vl_mapLayerBaseId layer of
        Some b \<Rightarrow> b
      | None \<Rightarrow> ll_mapSourceId source @ ''-'' @ (case vl_sourceLayerId layer of Some s \<Rightarrow> s | None \<Rightarrow> vl_id layer))"

definition rendered_ids :: "string \<Rightarrow> string list" where
  "rendered_ids b = [b @ ''-fill'', b @ ''-line'', b @ ''-circle'']"

text \<open>The three style layers of a vector layer, for polygons, lines and points.\<close>

definition style_layers :: "loaded_layer \<Rightarrow> vector_layer \<Rightarrow> style_layer list" where
  "style_layers source layer =
     (let b = base_id source layer;
          sourceLayer = (case vl_sourceLayerId layer of Some s \<Rightarrow> s | None \<Rightarrow> vl_id layer);
          opacity = JNum (JsFin (ll_opacity source));
          make = (\<lambda>i type geometry paint. \<lparr>la_id = i, la_type = type, la_source = Some (ll_mapSourceId source),
            la_sourceLayer = Some sourceLayer, la_filter = Some geometry, la_visible = ll_visible source,
            la_paint = paint\<rparr>) in
      [make (b @ ''-fill'') ''fill'' ''Polygon'' [(''fill-color'', JStr ''#C5E8FF''), (''fill-opacity'', opacity)],
       make (b @ ''-line'') ''line'' ''LineString''
         [(''line-color'', JStr ''#6D6659''), (''line-opacity'', opacity), (''line-width'', JNum (st_lineWidth DEFAULT_STYLE))],
       make (b @ ''-circle'') ''circle'' ''Point''
         [(''circle-color'', JStr ''#C0E6AA''), (''circle-opacity'', opacity), (''circle-radius'', JNum (st_radius DEFAULT_STYLE))]])"

definition addRenderedLayersForVectorLayer ::
  "'m maplibre \<Rightarrow> loaded_layer \<Rightarrow> vector_layer \<Rightarrow> 'm \<Rightarrow> 'm \<times> string list" where
  "addRenderedLayersForVectorLayer ml source layer m =
     (fold (show_layer ml) (style_layers source layer) m,
      if ll_visible source then map la_id (style_layers source layer) else [])"

definition syncExistingRenderedLayers :: "'m maplibre \<Rightarrow> loaded_layer \<Rightarrow> 'm \<Rightarrow> 'm \<times> string list" where
  "syncExistingRenderedLayers ml source m =
     (let mine = filter (\<lambda>l. la_source l = Some (ll_mapSourceId source)) (ml_layers ml m) in
      (fold (\<lambda>l. ml_setVisibility ml (la_id l) (ll_visible source)) mine m,
       if ll_visible source then map la_id mine else []))"

type_synonym vector_layers_by_source = "(string \<times> vector_layer list) list"

definition layers_of_source :: "vector_layers_by_source \<Rightarrow> string \<Rightarrow> vector_layer list" where
  "layers_of_source known i = (case map_of known i of None \<Rightarrow> [] | Some ls \<Rightarrow> ls)"

text \<open>The ids in the order of drawing; the fallback of the base id differs from the one above.\<close>

definition order_base_id :: "loaded_layer \<Rightarrow> vector_layer \<Rightarrow> string" where
  "order_base_id source layer =
     (case vl_mapLayerBaseId layer of
        Some b \<Rightarrow> b
      | None \<Rightarrow> ll_id source @ ''-'' @ (case vl_sourceLayerId layer of Some s \<Rightarrow> s | None \<Rightarrow> vl_id layer))"

definition drawing_order :: "loaded_layer list \<Rightarrow> vector_layers_by_source \<Rightarrow> string list" where
  "drawing_order sources known =
     concat (map (\<lambda>s. concat (map (\<lambda>l. rendered_ids (order_base_id s l)) (layers_of_source known (ll_id s)))) sources)"

definition move_to_top :: "'m maplibre \<Rightarrow> string \<Rightarrow> 'm \<Rightarrow> 'm" where
  "move_to_top ml i m = (if ml_getLayer ml m i then ml_moveLayer ml i m else m)"

definition syncRenderedLayerOrder ::
  "'m maplibre \<Rightarrow> loaded_layer list \<Rightarrow> vector_layers_by_source \<Rightarrow> 'm \<Rightarrow> 'm" where
  "syncRenderedLayerOrder ml sources known m = fold (move_to_top ml) (drawing_order sources known) m"

section \<open>Removing what is no longer loaded\<close>

text \<open>The layers of managed sources that are not active any more.\<close>

definition inactive_layers :: "string list \<Rightarrow> string list \<Rightarrow> style_layer list \<Rightarrow> style_layer list" where
  "inactive_layers active managed layers =
     filter (\<lambda>l. case la_source l of None \<Rightarrow> False
                | Some i \<Rightarrow> i \<noteq> [] \<and> i \<in> set managed \<and> i \<notin> set active) layers"

definition remove_layer_step :: "'m maplibre \<Rightarrow> style_layer \<Rightarrow> 'm \<times> string list \<Rightarrow> 'm \<times> string list" where
  "remove_layer_step ml l acc =
     (case acc of (m, removed) \<Rightarrow>
        if ml_getLayer ml m (la_id l) then (ml_removeLayer ml (la_id l) m, set_add (la_id l) removed) else (m, removed))"

definition hasRemainingStyleLayerForSource :: "style_layer list \<Rightarrow> string \<Rightarrow> string list \<Rightarrow> bool" where
  "hasRemainingStyleLayerForSource layers i removed \<longleftrightarrow>
     (\<exists>l \<in> set layers. la_source l = Some i \<and> la_id l \<notin> set removed)"

definition remove_source_step ::
  "'m maplibre \<Rightarrow> style_layer list \<Rightarrow> string list \<Rightarrow> string \<Rightarrow> 'm \<Rightarrow> 'm" where
  "remove_source_step ml layers removed i m =
     (if \<not> hasRemainingStyleLayerForSource layers i removed \<and> ml_getSource ml m i then ml_removeSource ml i m else m)"

definition removeInactiveMapSources ::
  "'m maplibre \<Rightarrow> string list \<Rightarrow> string list \<Rightarrow> 'm \<Rightarrow> 'm \<times> string list" where
  "removeInactiveMapSources ml active managed m =
     (let layers = ml_layers ml m;
          (m1, removed) = fold (remove_layer_step ml) (inactive_layers active managed layers) (m, []);
          inactive = filter (\<lambda>i. i \<notin> set active) managed in
      (fold (remove_source_step ml layers removed) inactive m1, filter (\<lambda>i. i \<in> set active) managed))"

section \<open>Synchronising the map with the loaded layers\<close>

text \<open>
  A call of \<open>syncLoadedMapSources\<close> stops at two kinds of \<open>await\<close>: for the metadata of an archive,
  and at the return of \<open>loadMapSourceForSync\<close>. The layer it is at, those after it and what it has
  gathered so far make a job; the map, the managed ids and the known vector layers are shared.
\<close>

datatype wait = AwaitMetadata bool | AwaitReturn "vector_layer list" "string list"

record sync_job =
  jb_sources :: "loaded_layer list"
  jb_current :: loaded_layer
  jb_wait :: wait
  jb_rest :: "loaded_layer list"
  jb_layers :: "vector_layer list"
  jb_interactive :: "string list"
  jb_cancelled :: bool

record sync_result =
  sr_layers :: "vector_layer list"
  sr_interactive :: "string list"

record 'm viewer =
  vw_map :: 'm
  vw_managed :: "string list"
  vw_known :: vector_layers_by_source
  vw_jobs :: "(nat \<times> sync_job) list"
  vw_next :: nat
  vw_result :: "sync_result option"
  vw_errors :: "string list"

text \<open>\<open>loadMapSource\<close> up to its first \<open>await\<close> or its return.\<close>

definition fold_rendered ::
  "'m maplibre \<Rightarrow> loaded_layer \<Rightarrow> vector_layer list \<Rightarrow> 'm \<Rightarrow> 'm \<times> string list" where
  "fold_rendered ml source layers m =
     fold (\<lambda>l (m, ids). let (m', ids') = addRenderedLayersForVectorLayer ml source l m in (m', ids @ ids')) layers (m, [])"

definition load_begin :: "'m maplibre \<Rightarrow> loaded_layer \<Rightarrow> 'm \<Rightarrow> 'm \<times> wait" where
  "load_begin ml source m =
     (case ll_kind source of
        QueryMvt q \<Rightarrow>
          if ml_getSource ml m (ll_mapSourceId source)
          then (let (m', ids) = syncExistingRenderedLayers ml source m in (m', AwaitReturn [] ids))
          else
            (let layers = getVectorLayersForQuerySource source q;
                 (m', ids) = fold_rendered ml source layers
                   (ml_addSource ml (ll_mapSourceId source) (QueryTiles (qp_tileTemplate q)) m) in
             (m', AwaitReturn layers ids))
      | CatalogPmtiles d meta u \<Rightarrow> (m, AwaitMetadata (ml_getSource ml m (ll_mapSourceId source))))"

text \<open>\<open>loadMapSource\<close> after the metadata of an archive has arrived.\<close>

definition archive_spec :: "loaded_layer \<Rightarrow> source_spec" where
  "archive_spec source =
     (case ll_kind source of
        CatalogPmtiles d meta u \<Rightarrow> PmtilesArchive (''pmtiles://'' @ u)
      | QueryMvt q \<Rightarrow> QueryTiles (qp_tileTemplate q))"

definition load_end ::
  "'m maplibre \<Rightarrow> (string \<Rightarrow> string \<Rightarrow> int) \<Rightarrow> loaded_layer \<Rightarrow> bool \<Rightarrow> archive_layer list \<Rightarrow> 'm \<Rightarrow> 'm \<times> wait" where
  "load_end ml lc source alreadyAdded metadata m =
     (let layers = getVectorLayersForSource lc metadata source;
          m1 = (if alreadyAdded then m else ml_addSource ml (ll_mapSourceId source) (archive_spec source) m);
          (m2, ids) = fold_rendered ml source layers m1 in
      (m2, AwaitReturn layers ids))"

definition removeInactiveVectorLayers :: "vector_layers_by_source \<Rightarrow> string list \<Rightarrow> vector_layers_by_source" where
  "removeInactiveVectorLayers known activeLayerIds = filter (\<lambda>k. fst k \<in> set activeLayerIds) known"

text \<open>The end of the loop: what is not loaded any more goes, and the rest is put in order.\<close>

definition sync_finish ::
  "'m maplibre \<Rightarrow> loaded_layer list \<Rightarrow> vector_layer list \<Rightarrow> string list \<Rightarrow> 'm viewer \<Rightarrow> 'm viewer" where
  "sync_finish ml sources layers ids v =
     (let (m1, managed) = removeInactiveMapSources ml (map ll_mapSourceId sources) (vw_managed v) (vw_map v);
          known = removeInactiveVectorLayers (vw_known v) (map ll_id sources) in
      v\<lparr>vw_map := syncRenderedLayerOrder ml sources known m1, vw_managed := managed, vw_known := known,
        vw_result := Some \<lparr>sr_layers = layers, sr_interactive = ids\<rparr>\<rparr>)"

text \<open>The next turn of the loop, or its end.\<close>

definition sync_turn ::
  "'m maplibre \<Rightarrow> nat \<Rightarrow> loaded_layer list \<Rightarrow> loaded_layer list \<Rightarrow> vector_layer list \<Rightarrow> string list \<Rightarrow> 'm viewer \<Rightarrow> 'm viewer" where
  "sync_turn ml k sources rest layers ids v =
     (case rest of
        [] \<Rightarrow> sync_finish ml sources layers ids (v\<lparr>vw_jobs := map_delete k (vw_jobs v)\<rparr>)
      | s # ss \<Rightarrow>
          (let (m', w) = load_begin ml s (vw_map v) in
           v\<lparr>vw_map := m', vw_managed := set_add (ll_mapSourceId s) (vw_managed v),
             vw_jobs := map_set k \<lparr>jb_sources = sources, jb_current = s, jb_wait = w, jb_rest = ss,
               jb_layers = layers, jb_interactive = ids, jb_cancelled = False\<rparr> (vw_jobs v)\<rparr>))"

definition cancel_jobs :: "(nat \<times> sync_job) list \<Rightarrow> (nat \<times> sync_job) list" where
  "cancel_jobs jobs = map (\<lambda>(k, j). (k, j\<lparr>jb_cancelled := True\<rparr>)) jobs"

text \<open>
  The effect on a new list of layers: the one before it is cancelled. The answer of an archive is
  its metadata or the message of the error. A return continues the loop. The ids of map sources
  are built with a prefix and are never empty.
\<close>

datatype sync_event =
    Layers "loaded_layer list"
  | Metadata nat "string + archive_layer list"
  | Return nat

definition sync_metadata ::
  "'m maplibre \<Rightarrow> (string \<Rightarrow> string \<Rightarrow> int) \<Rightarrow> nat \<Rightarrow> string + archive_layer list \<Rightarrow> 'm viewer \<Rightarrow> 'm viewer" where
  "sync_metadata ml lc k answer v =
     (case map_of (vw_jobs v) k of
        None \<Rightarrow> v
      | Some j \<Rightarrow>
          (case jb_wait j of
             AwaitReturn ls ids \<Rightarrow> v
           | AwaitMetadata alreadyAdded \<Rightarrow>
               (case answer of
                  Inl message \<Rightarrow>
                    (let v' = v\<lparr>vw_jobs := map_delete k (vw_jobs v)\<rparr> in
                     if jb_cancelled j then v' else v'\<lparr>vw_errors := vw_errors v @ [ll_id (jb_current j)]\<rparr>)
                | Inr metadata \<Rightarrow>
                    if jb_cancelled j then v\<lparr>vw_jobs := map_delete k (vw_jobs v)\<rparr>
                    else
                      (let (m', w) = load_end ml lc (jb_current j) alreadyAdded metadata (vw_map v) in
                       v\<lparr>vw_map := m', vw_jobs := map_set k (j\<lparr>jb_wait := w\<rparr>) (vw_jobs v)\<rparr>))))"

definition sync_return :: "'m maplibre \<Rightarrow> nat \<Rightarrow> 'm viewer \<Rightarrow> 'm viewer" where
  "sync_return ml k v =
     (case map_of (vw_jobs v) k of
        None \<Rightarrow> v
      | Some j \<Rightarrow>
          (case jb_wait j of
             AwaitMetadata b \<Rightarrow> v
           | AwaitReturn ls ids \<Rightarrow>
               if jb_cancelled j then v\<lparr>vw_jobs := map_delete k (vw_jobs v)\<rparr>
               else
                 (let known = (if ls \<noteq> [] then map_set (ll_id (jb_current j)) ls (vw_known v) else vw_known v);
                      mine = (case map_of known (ll_id (jb_current j)) of Some ks \<Rightarrow> ks | None \<Rightarrow> ls) in
                  sync_turn ml k (jb_sources j) (jb_rest j) (jb_layers j @ mine) (jb_interactive j @ ids)
                    (v\<lparr>vw_known := known\<rparr>))))"

definition sync_step :: "'m maplibre \<Rightarrow> (string \<Rightarrow> string \<Rightarrow> int) \<Rightarrow> sync_event \<Rightarrow> 'm viewer \<Rightarrow> 'm viewer" where
  "sync_step ml lc e v =
     (case e of
        Layers sources \<Rightarrow>
          sync_turn ml (vw_next v) sources sources [] [] (v\<lparr>vw_jobs := cancel_jobs (vw_jobs v), vw_next := Suc (vw_next v)\<rparr>)
      | Metadata k answer \<Rightarrow> sync_metadata ml lc k answer v
      | Return k \<Rightarrow> sync_return ml k v)"

definition new_viewer :: "'m \<Rightarrow> 'm viewer" where
  "new_viewer m = \<lparr>vw_map = m, vw_managed = [], vw_known = [], vw_jobs = [], vw_next = 0, vw_result = None, vw_errors = []\<rparr>"

definition named_sources :: "sync_event \<Rightarrow> bool" where
  "named_sources e \<longleftrightarrow> (case e of Layers sources \<Rightarrow> \<forall>s \<in> set sources. ll_mapSourceId s \<noteq> [] | _ \<Rightarrow> True)"

inductive sync_reachable :: "'m maplibre \<Rightarrow> (string \<Rightarrow> string \<Rightarrow> int) \<Rightarrow> 'm \<Rightarrow> 'm viewer \<Rightarrow> bool"
  for ml lc m0 where
  reach_new: "sync_reachable ml lc m0 (new_viewer m0)"
| reach_step: "sync_reachable ml lc m0 v \<Longrightarrow> named_sources e \<Longrightarrow> sync_reachable ml lc m0 (sync_step ml lc e v)"

section \<open>Facts about the map operations\<close>

lemma getLayer_iff: "maplibre_laws ml \<Longrightarrow> ml_getLayer ml m i \<longleftrightarrow> i \<in> la_id ` set (ml_layers ml m)"
  by (simp add: maplibre_laws_def)

lemma addSource_facts:
  assumes "maplibre_laws ml" "\<not> ml_getSource ml m i"
  shows "ml_layers ml (ml_addSource ml i s m) = ml_layers ml m"
    "ml_getSource ml (ml_addSource ml i s m) j \<longleftrightarrow> j = i \<or> ml_getSource ml m j"
  using assms by (simp_all add: maplibre_laws_def)

lemma removeSource_facts:
  assumes "maplibre_laws ml" "\<forall>l \<in> set (ml_layers ml m). la_source l \<noteq> Some i"
  shows "ml_layers ml (ml_removeSource ml i m) = ml_layers ml m"
    "ml_getSource ml (ml_removeSource ml i m) j \<longleftrightarrow> j \<noteq> i \<and> ml_getSource ml m j"
  using assms by (simp_all add: maplibre_laws_def)

lemma addLayer_facts:
  assumes "maplibre_laws ml" "\<not> ml_getLayer ml m (la_id l)" "\<forall>i. la_source l = Some i \<longrightarrow> ml_getSource ml m i"
  shows "ml_layers ml (ml_addLayer ml l None m) = ml_layers ml m @ [l]"
    "ml_getSource ml (ml_addLayer ml l None m) j = ml_getSource ml m j"
  using assms by (simp_all add: maplibre_laws_def)

lemma addLayer_before_facts:
  assumes "maplibre_laws ml" "\<not> ml_getLayer ml m (la_id l)" "\<forall>i. la_source l = Some i \<longrightarrow> ml_getSource ml m i"
    "ml_getLayer ml m i"
  shows "ml_layers ml (ml_addLayer ml l (Some i) m) = insert_before l i (ml_layers ml m)"
    "ml_getSource ml (ml_addLayer ml l (Some i) m) j = ml_getSource ml m j"
  using assms by (simp_all add: maplibre_laws_def)

lemma removeLayer_facts:
  assumes "maplibre_laws ml" "ml_getLayer ml m i"
  shows "ml_layers ml (ml_removeLayer ml i m) = filter (\<lambda>l. la_id l \<noteq> i) (ml_layers ml m)"
    "ml_getSource ml (ml_removeLayer ml i m) j = ml_getSource ml m j"
  using assms by (simp_all add: maplibre_laws_def)

lemma moveLayer_facts:
  assumes "maplibre_laws ml" "ml_getLayer ml m i"
  shows "ml_layers ml (ml_moveLayer ml i m) =
      filter (\<lambda>l. la_id l \<noteq> i) (ml_layers ml m) @ filter (\<lambda>l. la_id l = i) (ml_layers ml m)"
    "ml_getSource ml (ml_moveLayer ml i m) j = ml_getSource ml m j"
  using assms by (simp_all add: maplibre_laws_def)

lemma setVisibility_facts:
  assumes "maplibre_laws ml" "ml_getLayer ml m i"
  shows "ml_layers ml (ml_setVisibility ml i w m) = set_visible i w (ml_layers ml m)"
    "ml_getSource ml (ml_setVisibility ml i w m) j = ml_getSource ml m j"
  using assms by (simp_all add: maplibre_laws_def)

lemma set_visible_simps [simp]:
  "map la_id (set_visible i w ls) = map la_id ls" "map la_source (set_visible i w ls) = map la_source ls"
  by (auto simp: set_visible_def)

text \<open>A style is sound when layer ids are distinct and every layer's source is in the style.\<close>

definition style_sound :: "'m maplibre \<Rightarrow> 'm \<Rightarrow> bool" where
  "style_sound ml m \<longleftrightarrow>
     distinct (map la_id (ml_layers ml m)) \<and>
     (\<forall>l \<in> set (ml_layers ml m). \<forall>i. la_source l = Some i \<longrightarrow> ml_getSource ml m i)"

text \<open>What an operation that only changes visibilities leaves alone.\<close>

definition same_shape :: "'m maplibre \<Rightarrow> 'm \<Rightarrow> 'm \<Rightarrow> bool" where
  "same_shape ml m m' \<longleftrightarrow>
     map la_id (ml_layers ml m') = map la_id (ml_layers ml m) \<and>
     map la_source (ml_layers ml m') = map la_source (ml_layers ml m) \<and>
     (\<forall>j. ml_getSource ml m' j = ml_getSource ml m j)"

lemma same_shape_refl [simp]: "same_shape ml m m"
  by (simp add: same_shape_def)

lemma same_shape_trans: "same_shape ml m m' \<Longrightarrow> same_shape ml m' m'' \<Longrightarrow> same_shape ml m m''"
  by (simp add: same_shape_def)

lemma same_shape_sources:
  assumes "same_shape ml m m'" "l' \<in> set (ml_layers ml m')"
  shows "\<exists>l \<in> set (ml_layers ml m). la_source l = la_source l'"
proof -
  have "la_source l' \<in> set (map la_source (ml_layers ml m'))" using assms(2) by simp
  then have "la_source l' \<in> set (map la_source (ml_layers ml m))" using assms(1) by (simp only: same_shape_def)
  then show ?thesis by auto
qed

lemma same_shape_sound: "same_shape ml m m' \<Longrightarrow> style_sound ml m \<Longrightarrow> style_sound ml m'"
  using same_shape_sources unfolding style_sound_def same_shape_def by metis

lemma same_shape_getLayer:
  assumes "maplibre_laws ml" "same_shape ml m m'"
  shows "ml_getLayer ml m' i = ml_getLayer ml m i"
proof -
  have "set (map la_id (ml_layers ml m')) = set (map la_id (ml_layers ml m))" using assms(2) by (simp only: same_shape_def)
  then show ?thesis using getLayer_iff [OF assms(1)] by simp
qed

lemma same_shape_setVisibility:
  "maplibre_laws ml \<Longrightarrow> ml_getLayer ml m i \<Longrightarrow> same_shape ml m (ml_setVisibility ml i w m)"
  by (simp add: same_shape_def setVisibility_facts)

lemma same_shape_fold:
  assumes "maplibre_laws ml" "\<forall>l \<in> set ls. ml_getLayer ml m (la_id l)"
  shows "same_shape ml m (fold (\<lambda>l. ml_setVisibility ml (la_id l) w) ls m)"
  using assms(2)
proof (induction ls arbitrary: m)
  case (Cons l ls)
  have step: "same_shape ml m (ml_setVisibility ml (la_id l) w m)"
    using Cons.prems by (intro same_shape_setVisibility [OF assms(1)]) simp
  have "\<forall>x \<in> set ls. ml_getLayer ml (ml_setVisibility ml (la_id l) w m) (la_id x)"
    using Cons.prems same_shape_getLayer [OF assms(1) step] by simp
  from Cons.IH [OF this] same_shape_trans [OF step] show ?case by simp
qed simp

lemma syncExisting_shape:
  assumes "maplibre_laws ml"
  shows "same_shape ml m (fst (syncExistingRenderedLayers ml source m))"
  unfolding syncExistingRenderedLayers_def Let_def fst_conv
  by (intro same_shape_fold [OF assms]) (auto simp: getLayer_iff [OF assms])

text \<open>Showing layers of sources that are there keeps the style sound and the sources as they are.\<close>

definition keeps_sources :: "'m maplibre \<Rightarrow> 'm \<Rightarrow> 'm \<Rightarrow> bool" where
  "keeps_sources ml m m' \<longleftrightarrow>
     (style_sound ml m \<longrightarrow> style_sound ml m') \<and> (\<forall>j. ml_getSource ml m' j = ml_getSource ml m j)"

lemma keeps_sources_trans: "keeps_sources ml m m' \<Longrightarrow> keeps_sources ml m' m'' \<Longrightarrow> keeps_sources ml m m''"
  by (simp add: keeps_sources_def)

lemma same_shape_keeps:
  assumes "same_shape ml m m'"
  shows "keeps_sources ml m m'"
proof -
  have "\<forall>j. ml_getSource ml m' j = ml_getSource ml m j" using assms by (simp add: same_shape_def)
  with same_shape_sound [OF assms] show ?thesis by (simp add: keeps_sources_def)
qed

lemma show_layer_keeps:
  assumes "maplibre_laws ml" "\<forall>i. la_source l = Some i \<longrightarrow> ml_getSource ml m i"
  shows "keeps_sources ml m (show_layer ml l m)"
proof (cases "ml_getLayer ml m (la_id l)")
  case True
  then show ?thesis using same_shape_keeps [OF same_shape_setVisibility [OF assms(1) True]] by (simp add: show_layer_def)
next
  case False
  then show ?thesis
    using addLayer_facts [OF assms(1) False assms(2)] getLayer_iff [OF assms(1), of m "la_id l"] assms(2)
    by (auto simp: keeps_sources_def style_sound_def show_layer_def)
qed

lemma fold_show_keeps:
  assumes "maplibre_laws ml" "\<forall>l \<in> set ls. \<forall>i. la_source l = Some i \<longrightarrow> ml_getSource ml m i"
  shows "keeps_sources ml m (fold (show_layer ml) ls m)"
  using assms(2)
proof (induction ls arbitrary: m)
  case Nil
  show ?case by (simp add: keeps_sources_def)
next
  case (Cons l ls)
  have step: "keeps_sources ml m (show_layer ml l m)" using Cons.prems by (intro show_layer_keeps [OF assms(1)]) auto
  then have "\<forall>x \<in> set ls. \<forall>i. la_source x = Some i \<longrightarrow> ml_getSource ml (show_layer ml l m) i"
    using Cons.prems by (auto simp: keeps_sources_def)
  from keeps_sources_trans [OF step Cons.IH [OF this]] show ?case by simp
qed

lemma style_layers_source: "l \<in> set (style_layers source layer) \<Longrightarrow> la_source l = Some (ll_mapSourceId source)"
  by (auto simp: style_layers_def Let_def)

lemma fold_rendered_keeps:
  assumes "maplibre_laws ml" "ml_getSource ml m (ll_mapSourceId source)"
  shows "keeps_sources ml m (fst (fold_rendered ml source layers m))"
proof -
  have "keeps_sources ml m (fst (fold (\<lambda>l (m, ids). let (m', ids') = addRenderedLayersForVectorLayer ml source l m
      in (m', ids @ ids')) layers (m, ids)))" for ids
    using assms(2)
  proof (induction layers arbitrary: m ids)
    case Nil
    show ?case by (simp add: keeps_sources_def)
  next
    case (Cons l layers)
    have step: "keeps_sources ml m (fold (show_layer ml) (style_layers source l) m)"
      using Cons.prems style_layers_source by (intro fold_show_keeps [OF assms(1)]) fastforce
    then have "ml_getSource ml (fold (show_layer ml) (style_layers source l) m) (ll_mapSourceId source)"
      using Cons.prems by (simp add: keeps_sources_def)
    from keeps_sources_trans [OF step Cons.IH [OF this]] show ?case
      by (simp add: addRenderedLayersForVectorLayer_def)
  qed
  then show ?thesis by (simp add: fold_rendered_def)
qed

section \<open>Removal\<close>

lemma remove_layers_fold:
  assumes "maplibre_laws ml" "distinct (map la_id gone)" "\<forall>l \<in> set gone. l \<in> set (ml_layers ml m)"
    "distinct (map la_id (ml_layers ml m))"
  shows "ml_layers ml (fst (fold (remove_layer_step ml) gone (m, removed))) =
      filter (\<lambda>l. la_id l \<notin> la_id ` set gone) (ml_layers ml m) \<and>
    set (snd (fold (remove_layer_step ml) gone (m, removed))) = set removed \<union> la_id ` set gone \<and>
    (\<forall>j. ml_getSource ml (fst (fold (remove_layer_step ml) gone (m, removed))) j = ml_getSource ml m j)"
  using assms(2-4)
proof (induction gone arbitrary: m removed)
  case Nil
  show ?case by simp
next
  case (Cons l gone)
  have present: "ml_getLayer ml m (la_id l)" using Cons.prems(2) getLayer_iff [OF assms(1)] by auto
  let ?m = "ml_removeLayer ml (la_id l) m"
  note facts = removeLayer_facts [OF assms(1) present]
  have "distinct (map la_id gone)" using Cons.prems(1) by simp
  moreover have "\<forall>x \<in> set gone. x \<in> set (ml_layers ml ?m)"
  proof
    fix x assume x: "x \<in> set gone"
    then have "la_id x \<noteq> la_id l" using Cons.prems(1) by (metis distinct.simps(2) imageI list.set_map list.simps(9))
    then show "x \<in> set (ml_layers ml ?m)" using Cons.prems(2) x by (simp add: facts)
  qed
  moreover have "distinct (map la_id (ml_layers ml ?m))"
    using Cons.prems(3) by (simp add: facts distinct_map_filter)
  ultimately show ?case
    using Cons.IH [of ?m "set_add (la_id l) removed"] present
    by (simp add: remove_layer_step_def facts conj_commute)
qed

lemma remove_sources_fold:
  assumes "maplibre_laws ml" "\<forall>i \<in> set gone. \<not> hasRemainingStyleLayerForSource layers i removed"
    "\<forall>l \<in> set (ml_layers ml m). \<forall>i \<in> set gone. la_source l \<noteq> Some i"
  shows "ml_layers ml (fold (remove_source_step ml layers removed) gone m) = ml_layers ml m \<and>
    (\<forall>j. ml_getSource ml (fold (remove_source_step ml layers removed) gone m) j
       \<longleftrightarrow> j \<notin> set gone \<and> ml_getSource ml m j)"
  using assms(2,3)
proof (induction gone arbitrary: m)
  case Nil
  show ?case by simp
next
  case (Cons i gone)
  let ?m = "remove_source_step ml layers removed i m"
  have "\<forall>l \<in> set (ml_layers ml m). la_source l \<noteq> Some i" using Cons.prems(2) by simp
  note facts = removeSource_facts [OF assms(1) this]
  have step: "ml_layers ml ?m = ml_layers ml m" "\<And>j. ml_getSource ml ?m j \<longleftrightarrow> j \<noteq> i \<and> ml_getSource ml m j"
    using Cons.prems(1) by (auto simp: remove_source_step_def facts)
  have "\<forall>l \<in> set (ml_layers ml ?m). \<forall>i \<in> set gone. la_source l \<noteq> Some i" using Cons.prems(2) by (simp add: step)
  with Cons.IH [of ?m] Cons.prems(1) show ?case by (auto simp: step)
qed

text \<open>
  What is left after \<open>removeInactiveMapSources\<close>: the layers of inactive managed sources and these
  sources are gone, everything else is as it was.
\<close>

lemma removeInactive_facts:
  assumes laws: "maplibre_laws ml" and sound: "style_sound ml m" and named: "\<forall>i \<in> set managed. i \<noteq> []"
    and def: "removeInactiveMapSources ml active managed m = (m', managed')"
  shows "ml_layers ml m' = filter (\<lambda>l. l \<notin> set (inactive_layers active managed (ml_layers ml m))) (ml_layers ml m)"
    "ml_getSource ml m' j \<longleftrightarrow> \<not> (j \<in> set managed \<and> j \<notin> set active) \<and> ml_getSource ml m j"
    "managed' = filter (\<lambda>i. i \<in> set active) managed"
    "style_sound ml m'"
proof -
  define layers where "layers = ml_layers ml m"
  define gone where "gone = inactive_layers active managed layers"
  define m1 where "m1 = fst (fold (remove_layer_step ml) gone (m, []))"
  define removed where "removed = snd (fold (remove_layer_step ml) gone (m, []))"
  define inactive where "inactive = filter (\<lambda>i. i \<notin> set active) managed"
  have dist: "distinct (map la_id layers)" using sound by (simp add: style_sound_def layers_def)
  have gone_sub: "\<forall>l \<in> set gone. l \<in> set (ml_layers ml m)" by (simp add: gone_def inactive_layers_def layers_def)
  have "distinct (map la_id gone)" using dist by (simp add: gone_def inactive_layers_def distinct_map_filter)
  from remove_layers_fold [OF laws this gone_sub dist [unfolded layers_def], of "[]"]
  have m1: "ml_layers ml m1 = filter (\<lambda>l. la_id l \<notin> la_id ` set gone) layers" "set removed = la_id ` set gone"
    "\<And>j. ml_getSource ml m1 j = ml_getSource ml m j"
    by (simp_all add: m1_def removed_def layers_def)
  have same: "la_id l \<in> la_id ` set gone \<longleftrightarrow> l \<in> set gone" if "l \<in> set layers" for l
    using that dist gone_sub by (auto simp: layers_def distinct_map dest: inj_onD)
  then have m1_layers: "ml_layers ml m1 = filter (\<lambda>l. l \<notin> set gone) layers"
    unfolding m1 by (intro filter_cong) auto
  have mine: "l \<in> set gone" if "l \<in> set layers" "i \<in> set inactive" "la_source l = Some i" for l i
    using that named by (auto simp: gone_def inactive_layers_def inactive_def)
  have no: "\<forall>i \<in> set inactive. \<not> hasRemainingStyleLayerForSource layers i removed"
    using mine by (auto simp: hasRemainingStyleLayerForSource_def m1(2))
  have unused: "\<forall>l \<in> set (ml_layers ml m1). \<forall>i \<in> set inactive. la_source l \<noteq> Some i"
    using mine by (auto simp: m1_layers)
  have m': "m' = fold (remove_source_step ml layers removed) inactive m1" "managed' = filter (\<lambda>i. i \<in> set active) managed"
    using def by (simp_all add: removeInactiveMapSources_def Let_def split_def layers_def gone_def m1_def removed_def inactive_def)
  note final = remove_sources_fold [OF laws no unused, folded m'(1)]
  show layers': "ml_layers ml m' = filter (\<lambda>l. l \<notin> set (inactive_layers active managed (ml_layers ml m))) (ml_layers ml m)"
    using final m1_layers by (simp add: layers_def gone_def)
  show sources': "ml_getSource ml m' j \<longleftrightarrow> \<not> (j \<in> set managed \<and> j \<notin> set active) \<and> ml_getSource ml m j" for j
    using final by (auto simp: m1 inactive_def)
  show "managed' = filter (\<lambda>i. i \<in> set active) managed" by (rule m'(2))
  have "distinct (map la_id (ml_layers ml m'))" using dist by (simp add: layers' layers_def distinct_map_filter)
  moreover have "ml_getSource ml m' i" if "l \<in> set (ml_layers ml m')" "la_source l = Some i" for l i
  proof -
    have "l \<in> set layers" "l \<notin> set gone" using that(1) by (simp_all add: layers' layers_def gone_def)
    with that(2) mine [of l i] sound show ?thesis
      by (auto simp: sources' style_sound_def layers_def inactive_def)
  qed
  ultimately show "style_sound ml m'" by (simp add: style_sound_def)
qed

section \<open>The order of drawing\<close>

definition picked :: "style_layer list \<Rightarrow> string list \<Rightarrow> style_layer list" where
  "picked layers ids = concat (map (\<lambda>i. filter (\<lambda>l. la_id l = i) layers) ids)"

lemma picked_others:
  assumes "i \<notin> set ids"
  shows "filter (\<lambda>l. la_id l = i) (picked layers ids) = []" "filter (\<lambda>l. la_id l \<noteq> i) (picked layers ids) = picked layers ids"
  using assms by (auto simp: picked_def filter_empty_conv filter_id_conv)

lemma move_all_to_top:
  assumes "maplibre_laws ml" "distinct ids"
  shows "ml_layers ml (fold (move_to_top ml) ids m) =
      filter (\<lambda>l. la_id l \<notin> set ids) (ml_layers ml m) @ picked (ml_layers ml m) ids \<and>
    (\<forall>j. ml_getSource ml (fold (move_to_top ml) ids m) j = ml_getSource ml m j)"
  using assms(2)
proof (induction ids rule: rev_induct)
  case Nil
  show ?case by (simp add: picked_def)
next
  case (snoc i ids)
  define M where "M = fold (move_to_top ml) ids m"
  let ?L = "ml_layers ml m"
  have fold: "fold (move_to_top ml) (ids @ [i]) m = (if ml_getLayer ml M i then ml_moveLayer ml i M else M)"
    by (simp add: M_def move_to_top_def)
  have new: "i \<notin> set ids" using snoc.prems by simp
  have IH: "ml_layers ml M = filter (\<lambda>l. la_id l \<notin> set ids) ?L @ picked ?L ids"
    "\<And>j. ml_getSource ml M j = ml_getSource ml m j"
    using snoc by (simp_all add: M_def)
  have here: "filter (\<lambda>l. la_id l = i) (ml_layers ml M) = filter (\<lambda>l. la_id l = i) ?L"
    using new by (simp add: IH picked_others) (metis (mono_tags, lifting) filter_cong)
  have away: "filter (\<lambda>l. la_id l \<noteq> i) (ml_layers ml M) =
      filter (\<lambda>l. la_id l \<notin> set (ids @ [i])) ?L @ picked ?L ids"
    using new by (simp add: IH picked_others conj_commute)
  have snoc_picked: "picked ?L (ids @ [i]) = picked ?L ids @ filter (\<lambda>l. la_id l = i) ?L" by (simp add: picked_def)
  show ?case
  proof (cases "ml_getLayer ml M i")
    case True
    then show ?thesis
      unfolding fold using moveLayer_facts [OF assms(1) True] IH(2) by (simp add: here away [simplified] snoc_picked)
  next
    case False
    then have "filter (\<lambda>l. la_id l = i) (ml_layers ml M) = []" "filter (\<lambda>l. la_id l \<noteq> i) (ml_layers ml M) = ml_layers ml M"
      using getLayer_iff [OF assms(1), of M i] by (auto simp: filter_empty_conv filter_id_conv)
    then show ?thesis unfolding fold using False IH(2) away here by (simp add: snoc_picked)
  qed
qed

lemma move_to_top_keeps:
  assumes "maplibre_laws ml"
  shows "keeps_sources ml m (move_to_top ml i m)"
proof (cases "ml_getLayer ml m i")
  case True
  note moved = moveLayer_facts [OF assms True]
  have "mset (ml_layers ml (ml_moveLayer ml i m)) = mset (ml_layers ml m)"
    using multiset_partition [of "mset (ml_layers ml m)" "\<lambda>l. la_id l = i"] by (simp add: moved(1) add.commute)
  then have same: "mset (map la_id (ml_layers ml (ml_moveLayer ml i m))) = mset (map la_id (ml_layers ml m))"
    "set (ml_layers ml (ml_moveLayer ml i m)) = set (ml_layers ml m)"
    by (simp, metis set_mset_mset)
  show ?thesis
    using True moved(2) same(2) mset_eq_imp_distinct_iff [OF same(1)]
    by (simp add: keeps_sources_def style_sound_def move_to_top_def)
next
  case False
  then show ?thesis by (simp add: move_to_top_def keeps_sources_def)
qed

lemma fold_move_keeps: "maplibre_laws ml \<Longrightarrow> keeps_sources ml m (fold (move_to_top ml) ids m)"
proof (induction ids arbitrary: m)
  case Nil
  show ?case by (simp add: keeps_sources_def)
next
  case (Cons i ids)
  from keeps_sources_trans [OF move_to_top_keeps [OF Cons.prems] Cons.IH [OF Cons.prems]] show ?case by simp
qed

section \<open>The end of a synchronisation\<close>

lemma sync_finish_facts:
  fixes sources :: "loaded_layer list" and layers :: "vector_layer list" and ids :: "string list"
  assumes laws: "maplibre_laws ml" and sound: "style_sound ml (vw_map v)" and named: "\<forall>i \<in> set (vw_managed v). i \<noteq> []"
  defines "v' \<equiv> sync_finish ml sources layers ids v"
  defines "known \<equiv> removeInactiveVectorLayers (vw_known v) (map ll_id sources)"
  defines "kept \<equiv> filter (\<lambda>l. l \<notin> set (inactive_layers (map ll_mapSourceId sources) (vw_managed v) (ml_layers ml (vw_map v))))
      (ml_layers ml (vw_map v))"
  shows "distinct (drawing_order sources known) \<Longrightarrow> ml_layers ml (vw_map v') =
      filter (\<lambda>l. la_id l \<notin> set (drawing_order sources known)) kept @ picked kept (drawing_order sources known)"
    "ml_getSource ml (vw_map v') j \<longleftrightarrow>
      \<not> (j \<in> set (vw_managed v) \<and> j \<notin> set (map ll_mapSourceId sources)) \<and> ml_getSource ml (vw_map v) j"
    "vw_managed v' = filter (\<lambda>i. i \<in> set (map ll_mapSourceId sources)) (vw_managed v)"
    "style_sound ml (vw_map v')" "vw_jobs v' = vw_jobs v" "vw_known v' = known" "vw_next v' = vw_next v"
    "vw_result v' = Some \<lparr>sr_layers = layers, sr_interactive = ids\<rparr>"
proof -
  obtain m1 managed where rem: "removeInactiveMapSources ml (map ll_mapSourceId sources) (vw_managed v) (vw_map v) = (m1, managed)"
    by fastforce
  note facts = removeInactive_facts [OF laws sound named rem]
  have m': "vw_map v' = fold (move_to_top ml) (drawing_order sources known) m1" "vw_managed v' = managed"
    by (simp_all add: v'_def sync_finish_def rem Let_def syncRenderedLayerOrder_def known_def)
  note moved = fold_move_keeps [OF laws, of m1 "drawing_order sources known"]
  show "ml_layers ml (vw_map v') =
      filter (\<lambda>l. la_id l \<notin> set (drawing_order sources known)) kept @ picked kept (drawing_order sources known)"
    if dist: "distinct (drawing_order sources known)"
    unfolding m' using move_all_to_top [OF laws dist, of m1] by (simp add: facts(1) kept_def)
  show "ml_getSource ml (vw_map v') j \<longleftrightarrow>
      \<not> (j \<in> set (vw_managed v) \<and> j \<notin> set (map ll_mapSourceId sources)) \<and> ml_getSource ml (vw_map v) j"
    unfolding m' using moved facts(2) by (simp add: keeps_sources_def)
  show "vw_managed v' = filter (\<lambda>i. i \<in> set (map ll_mapSourceId sources)) (vw_managed v)"
    unfolding m' by (rule facts(3))
  show "style_sound ml (vw_map v')" unfolding m' using moved facts(4) by (simp add: keeps_sources_def)
  show "vw_jobs v' = vw_jobs v" "vw_known v' = known" "vw_next v' = vw_next v"
    "vw_result v' = Some \<lparr>sr_layers = layers, sr_interactive = ids\<rparr>"
    by (simp_all add: v'_def sync_finish_def rem Let_def known_def)
qed

section \<open>The invariant\<close>

text \<open>
  In every state the style is sound, at most one job has not been cancelled, and what that job saw
  of its source before it waited is still so.
\<close>

definition viewer_inv :: "'m maplibre \<Rightarrow> 'm viewer \<Rightarrow> bool" where
  "viewer_inv ml v \<longleftrightarrow>
     style_sound ml (vw_map v) \<and> (\<forall>i \<in> set (vw_managed v). i \<noteq> []) \<and>
     (\<forall>k \<in> fst ` set (vw_jobs v). k < vw_next v) \<and>
     (\<forall>k j k' j'. map_of (vw_jobs v) k = Some j \<and> \<not> jb_cancelled j \<and>
        map_of (vw_jobs v) k' = Some j' \<and> \<not> jb_cancelled j' \<longrightarrow> k = k') \<and>
     (\<forall>k j. map_of (vw_jobs v) k = Some j \<and> \<not> jb_cancelled j \<longrightarrow>
        (\<forall>b. jb_wait j = AwaitMetadata b \<longrightarrow> b = ml_getSource ml (vw_map v) (ll_mapSourceId (jb_current j))) \<and>
        (\<forall>s \<in> set (jb_current j # jb_rest j). ll_mapSourceId s \<noteq> []))"

lemma load_begin_facts:
  assumes "maplibre_laws ml" "load_begin ml s m = (m', w)"
  shows "(style_sound ml m \<longrightarrow> style_sound ml m') \<and> (\<forall>b. w = AwaitMetadata b \<longrightarrow> b = ml_getSource ml m' (ll_mapSourceId s))"
proof (cases "ll_kind s")
  case (CatalogPmtiles d meta u)
  with assms(2) show ?thesis by (auto simp: load_begin_def)
next
  case (QueryMvt q)
  show ?thesis
  proof (cases "ml_getSource ml m (ll_mapSourceId s)")
    case True
    then show ?thesis
      using assms(2) QueryMvt same_shape_sound [OF syncExisting_shape [OF assms(1), of m s]]
      by (auto simp: load_begin_def split: prod.splits)
  next
    case False
    let ?m = "ml_addSource ml (ll_mapSourceId s) (QueryTiles (qp_tileTemplate q)) m"
    note added = addSource_facts [OF assms(1) False]
    have "style_sound ml ?m" if "style_sound ml m" using that by (auto simp: style_sound_def added)
    moreover have "ml_getSource ml ?m (ll_mapSourceId s)" by (simp add: added)
    ultimately show ?thesis
      using assms(2) QueryMvt False fold_rendered_keeps [OF assms(1), of ?m s "getVectorLayersForQuerySource s q"]
      by (auto simp: load_begin_def keeps_sources_def Let_def split: prod.splits)
  qed
qed

lemma load_end_facts:
  assumes "maplibre_laws ml" "load_end ml lc s b metadata m = (m', w)" "b = ml_getSource ml m (ll_mapSourceId s)"
    "style_sound ml m"
  shows "style_sound ml m' \<and> (\<forall>c. w \<noteq> AwaitMetadata c)"
proof -
  let ?m = "if b then m else ml_addSource ml (ll_mapSourceId s) (archive_spec s) m"
  have "style_sound ml ?m \<and> ml_getSource ml ?m (ll_mapSourceId s)"
    using assms(3,4) addSource_facts [OF assms(1)] by (auto simp: style_sound_def)
  then show ?thesis
    using assms(2) fold_rendered_keeps [OF assms(1), of ?m s "getVectorLayersForSource lc metadata s"]
    by (auto simp: load_end_def keeps_sources_def Let_def split: prod.splits)
qed

lemma viewer_invD:
  assumes "viewer_inv ml v"
  shows "style_sound ml (vw_map v)" "i \<in> set (vw_managed v) \<Longrightarrow> i \<noteq> []" "k \<in> fst ` set (vw_jobs v) \<Longrightarrow> k < vw_next v"
    "map_of (vw_jobs v) k = Some j \<Longrightarrow> \<not> jb_cancelled j \<Longrightarrow> map_of (vw_jobs v) k' = Some j' \<Longrightarrow>
       \<not> jb_cancelled j' \<Longrightarrow> k = k'"
    "map_of (vw_jobs v) k = Some j \<Longrightarrow> \<not> jb_cancelled j \<Longrightarrow> jb_wait j = AwaitMetadata b \<Longrightarrow>
       b = ml_getSource ml (vw_map v) (ll_mapSourceId (jb_current j))"
    "map_of (vw_jobs v) k = Some j \<Longrightarrow> \<not> jb_cancelled j \<Longrightarrow> s \<in> set (jb_current j # jb_rest j) \<Longrightarrow> ll_mapSourceId s \<noteq> []"
  using assms unfolding viewer_inv_def by blast+

lemma viewer_invI:
  assumes "style_sound ml (vw_map v)" "\<And>i. i \<in> set (vw_managed v) \<Longrightarrow> i \<noteq> []"
    "\<And>k. k \<in> fst ` set (vw_jobs v) \<Longrightarrow> k < vw_next v"
    "\<And>k j k' j'. map_of (vw_jobs v) k = Some j \<Longrightarrow> \<not> jb_cancelled j \<Longrightarrow> map_of (vw_jobs v) k' = Some j' \<Longrightarrow>
       \<not> jb_cancelled j' \<Longrightarrow> k = k'"
    "\<And>k j b. map_of (vw_jobs v) k = Some j \<Longrightarrow> \<not> jb_cancelled j \<Longrightarrow> jb_wait j = AwaitMetadata b \<Longrightarrow>
       b = ml_getSource ml (vw_map v) (ll_mapSourceId (jb_current j))"
    "\<And>k j s. map_of (vw_jobs v) k = Some j \<Longrightarrow> \<not> jb_cancelled j \<Longrightarrow> s \<in> set (jb_current j # jb_rest j) \<Longrightarrow>
       ll_mapSourceId s \<noteq> []"
  shows "viewer_inv ml v"
  unfolding viewer_inv_def
proof (intro conjI)
  show "\<forall>k j k' j'. map_of (vw_jobs v) k = Some j \<and> \<not> jb_cancelled j \<and>
      map_of (vw_jobs v) k' = Some j' \<and> \<not> jb_cancelled j' \<longrightarrow> k = k'"
    by (intro allI impI, elim conjE, rule assms(4))
  show "\<forall>k j. map_of (vw_jobs v) k = Some j \<and> \<not> jb_cancelled j \<longrightarrow>
      (\<forall>b. jb_wait j = AwaitMetadata b \<longrightarrow> b = ml_getSource ml (vw_map v) (ll_mapSourceId (jb_current j))) \<and>
      (\<forall>s \<in> set (jb_current j # jb_rest j). ll_mapSourceId s \<noteq> [])"
    by (intro allI impI conjI ballI; elim conjE; rule assms(5,6))
qed (rule assms(1), intro ballI, rule assms(2), assumption, intro ballI, rule assms(3))

lemma delete_keys: "fst ` set (map_delete k m) \<subseteq> fst ` set m"
  by (auto simp: AList.delete_eq)

lemma sync_turn_inv:
  assumes laws: "maplibre_laws ml" and sound: "style_sound ml (vw_map v)" "\<forall>i \<in> set (vw_managed v). i \<noteq> []"
    "\<forall>i \<in> fst ` set (vw_jobs v). i < vw_next v" "k < vw_next v"
    and others: "\<And>k' j. map_of (vw_jobs v) k' = Some j \<Longrightarrow> k' \<noteq> k \<Longrightarrow> jb_cancelled j"
    and rest: "\<forall>s \<in> set rest. ll_mapSourceId s \<noteq> []"
  shows "viewer_inv ml (sync_turn ml k sources rest layers ids v)"
proof (cases rest)
  case Nil
  let ?v = "v\<lparr>vw_jobs := map_delete k (vw_jobs v)\<rparr>"
  note facts = sync_finish_facts [OF laws, of ?v sources layers ids]
  have keys: "i < vw_next v" if "i \<in> fst ` set (map_delete k (vw_jobs v))" for i
    using sound(3) subsetD [OF delete_keys that] by blast
  have idle: "jb_cancelled j" if "map_of (map_delete k (vw_jobs v)) k' = Some j" for k' j
    using that others by (auto split: if_splits)
  define v' where "v' = sync_finish ml sources layers ids ?v"
  have v': "vw_jobs v' = map_delete k (vw_jobs v)" "vw_next v' = vw_next v" "style_sound ml (vw_map v')"
    "vw_managed v' = filter (\<lambda>i. i \<in> set (map ll_mapSourceId sources)) (vw_managed v)"
    using facts(3,4,5,7) sound by (simp_all add: v'_def)
  have "viewer_inv ml v'"
  proof (rule viewer_invI, unfold v'(1,2,4))
    show "style_sound ml (vw_map v')" by (rule v'(3))
    show "i \<noteq> []" if "i \<in> set (filter (\<lambda>i. i \<in> set (map ll_mapSourceId sources)) (vw_managed v))" for i
      using that sound(2) by simp
    show "i < vw_next v" if "i \<in> fst ` set (map_delete k (vw_jobs v))" for i
      by (rule keys [OF that])
  qed (blast dest: idle)+
  then show ?thesis by (simp add: Nil sync_turn_def v'_def)
next
  case (Cons s ss)
  obtain m' w where started: "load_begin ml s (vw_map v) = (m', w)" by fastforce
  have "style_sound ml m'" "\<forall>b. w = AwaitMetadata b \<longrightarrow> b = ml_getSource ml m' (ll_mapSourceId s)"
    using load_begin_facts [OF laws started] sound(1) by auto
  then show ?thesis
    using Cons rest sound others
    by (auto simp: viewer_inv_def sync_turn_def started set_keys_map_set split: if_splits)
qed

lemma cancel_jobs_simps [simp]:
  "map_of (cancel_jobs jobs) k = map_option (\<lambda>j. j\<lparr>jb_cancelled := True\<rparr>) (map_of jobs k)"
  "fst ` set (cancel_jobs jobs) = fst ` set jobs"
  by (induction jobs) (auto simp: cancel_jobs_def image_iff)

lemma viewer_inv_delete:
  assumes "viewer_inv ml v"
  shows "viewer_inv ml (v\<lparr>vw_jobs := map_delete k (vw_jobs v)\<rparr>)"
proof -
  have sub: "map_of (vw_jobs v) k' = Some j" if "map_of (map_delete k (vw_jobs v)) k' = Some j" for k' j
    using that by (simp split: if_splits)
  note inv = viewer_invD [OF assms]
  define v' where "v' = v\<lparr>vw_jobs := map_delete k (vw_jobs v)\<rparr>"
  have v': "vw_jobs v' = map_delete k (vw_jobs v)" "vw_next v' = vw_next v" "vw_map v' = vw_map v" "vw_managed v' = vw_managed v"
    by (simp_all add: v'_def)
  have "viewer_inv ml v'"
  proof (rule viewer_invI, unfold v')
    show "k' < vw_next v" if "k' \<in> fst ` set (map_delete k (vw_jobs v))" for k'
      by (rule inv(3) [OF subsetD [OF delete_keys that]])
  qed (rule inv(1), erule inv(2), (blast dest: sub inv(4-6))+)
  then show ?thesis by (simp add: v'_def)
qed

lemma viewer_inv_errors [simp]: "viewer_inv ml (v\<lparr>vw_errors := e\<rparr>) = viewer_inv ml v"
  by (simp add: viewer_inv_def)

lemma job_key: "map_of jobs k = Some j \<Longrightarrow> k \<in> fst ` set jobs"
  by (force dest: map_of_SomeD)

lemma viewer_inv_others:
  assumes "viewer_inv ml v" "map_of (vw_jobs v) k = Some j" "\<not> jb_cancelled j"
    and "map_of (vw_jobs v) k' = Some j'" "k' \<noteq> k"
  shows "jb_cancelled j'"
  using assms unfolding viewer_inv_def by blast

lemma viewer_inv_metadata:
  assumes laws: "maplibre_laws ml" and inv: "viewer_inv ml v"
  shows "viewer_inv ml (sync_metadata ml lc k answer v)"
proof (cases "map_of (vw_jobs v) k")
  case None
  with inv show ?thesis by (simp add: sync_metadata_def)
next
  case job: (Some j)
  show ?thesis
  proof (cases "jb_wait j")
    case (AwaitReturn ls ids)
    with inv job show ?thesis by (simp add: sync_metadata_def)
  next
    case wait: (AwaitMetadata b)
    show ?thesis
    proof (cases "\<exists>metadata. answer = Inr metadata \<and> \<not> jb_cancelled j")
      case False
      then show ?thesis
        using viewer_inv_delete [OF inv, of k] job wait by (cases answer) (auto simp: sync_metadata_def Let_def)
    next
      case True
      then obtain metadata where answer: "answer = Inr metadata" "\<not> jb_cancelled j" by blast
      obtain m' w where ended: "load_end ml lc (jb_current j) b metadata (vw_map v) = (m', w)" by fastforce
      have "style_sound ml m' \<and> (\<forall>c. w \<noteq> AwaitMetadata c)"
        using inv job wait answer by (intro load_end_facts [OF laws ended]) (auto simp: viewer_inv_def)
      moreover have "k < vw_next v" using inv job_key [OF job] by (auto simp: viewer_inv_def)
      moreover have others: "jb_cancelled j'" if "map_of (vw_jobs v) k' = Some j'" "k' \<noteq> k" for k' j'
        using viewer_inv_others [OF inv job] answer that by blast
      moreover have "style_sound ml (vw_map v)" "\<forall>i \<in> set (vw_managed v). i \<noteq> []"
        "\<forall>k \<in> fst ` set (vw_jobs v). k < vw_next v"
        "\<forall>s \<in> set (jb_current j # jb_rest j). ll_mapSourceId s \<noteq> []"
        using inv job answer by (auto simp: viewer_inv_def)
      moreover have "sync_metadata ml lc k answer v = v\<lparr>vw_map := m', vw_jobs := map_set k (j\<lparr>jb_wait := w\<rparr>) (vw_jobs v)\<rparr>"
        using job answer wait by (simp add: sync_metadata_def ended)
      ultimately show ?thesis
        unfolding viewer_inv_def by (auto simp: set_keys_map_set split: if_splits dest: others)
    qed
  qed
qed

lemma picked_set: "set (picked layers ids) \<subseteq> set layers"
  by (auto simp: picked_def)

lemma picked_all: "{l \<in> set layers. la_id l \<in> set ids} \<subseteq> set (picked layers ids)"
  by (auto simp: picked_def)

lemma one_by_id:
  assumes "distinct (map la_id layers)"
  shows "map la_id (filter (\<lambda>l. la_id l = i) layers) = (if i \<in> la_id ` set layers then [i] else [])"
  using assms
proof (induction layers)
  case (Cons l layers)
  then have "la_id x \<noteq> la_id l" if "x \<in> set layers" for x
    using that by (metis distinct.simps(2) image_eqI list.set_map list.simps(9))
  then have "filter (\<lambda>x. la_id x = la_id l) layers = []" by (simp add: filter_empty_conv)
  with Cons show ?case by auto
qed simp

lemma ids_of_picked:
  assumes "distinct (map la_id layers)"
  shows "map la_id (picked layers ids) = filter (\<lambda>i. i \<in> la_id ` set layers) ids"
  by (induction ids) (auto simp: picked_def one_by_id [OF assms])

lemma viewer_inv_step:
  assumes laws: "maplibre_laws ml" and inv: "viewer_inv ml v" and named: "named_sources e"
  shows "viewer_inv ml (sync_step ml lc e v)"
proof (cases e)
  case (Layers sources)
  let ?v = "v\<lparr>vw_jobs := cancel_jobs (vw_jobs v), vw_next := Suc (vw_next v)\<rparr>"
  have "viewer_inv ml (sync_turn ml (vw_next v) sources sources [] [] ?v)"
    by (rule sync_turn_inv [OF laws])
      (use inv named Layers in \<open>auto simp: viewer_inv_def named_sources_def less_SucI\<close>)
  then show ?thesis by (simp add: sync_step_def Layers)
next
  case (Metadata k answer)
  with viewer_inv_metadata [OF laws inv] show ?thesis by (simp add: sync_step_def)
next
  case (Return k)
  show ?thesis
  proof (cases "map_of (vw_jobs v) k")
    case None
    with inv show ?thesis by (simp add: sync_step_def Return sync_return_def)
  next
    case job: (Some j)
    show ?thesis
    proof (cases "jb_wait j")
      case (AwaitMetadata b)
      with inv job show ?thesis by (simp add: sync_step_def Return sync_return_def)
    next
      case wait: (AwaitReturn ls ids)
      show ?thesis
      proof (cases "jb_cancelled j")
        case True
        then show ?thesis
          using viewer_inv_delete [OF inv, of k] job wait by (simp add: sync_step_def Return sync_return_def)
      next
        case False
        have key: "k < vw_next v" using inv job_key [OF job] by (auto simp: viewer_inv_def)
        have others: "jb_cancelled j'" if "map_of (vw_jobs v) k' = Some j'" "k' \<noteq> k" for k' j'
          by (rule viewer_inv_others [OF inv job False that])
        have rest: "\<forall>s \<in> set (jb_rest j). ll_mapSourceId s \<noteq> []" using inv job False by (simp add: viewer_inv_def)
        have base: "style_sound ml (vw_map v)" "\<forall>i \<in> set (vw_managed v). i \<noteq> []"
          "\<forall>k \<in> fst ` set (vw_jobs v). k < vw_next v"
          using inv by (simp_all add: viewer_inv_def)
        have "viewer_inv ml (sync_turn ml k (jb_sources j) (jb_rest j) layers shown (v\<lparr>vw_known := known\<rparr>))"
          for layers shown known
          by (rule sync_turn_inv [OF laws]) (use key others rest base in simp_all)
        then show ?thesis using job wait False by (simp add: sync_step_def Return sync_return_def Let_def)
      qed
    qed
  qed
qed

lemma viewer_reachable_inv:
  assumes "maplibre_laws ml" "style_sound ml m0" "sync_reachable ml lc m0 v"
  shows "viewer_inv ml v"
  using assms(3)
proof induction
  case reach_new
  show ?case using assms(2) by (simp add: viewer_inv_def new_viewer_def)
next
  case (reach_step v e)
  from viewer_inv_step [OF assms(1) reach_step.IH reach_step.hyps(2)] show ?case .
qed

text \<open>
  C11: whatever lists of layers replace one another while archives are still answering, in any
  order, the style of the map stays sound: the ids of its layers are distinct and every layer's
  source is in the style, so MapLibre never refuses a layer or a source.
\<close>

theorem map_style_stays_sound:
  assumes "maplibre_laws ml" and "style_sound ml m0" and "sync_reachable ml lc m0 v"
  shows "distinct (map la_id (ml_layers ml (vw_map v))) \<and>
    (\<forall>l \<in> set (ml_layers ml (vw_map v)). \<forall>i. la_source l = Some i \<longrightarrow> ml_getSource ml (vw_map v) i)"
  using viewer_reachable_inv [OF assms] by (simp add: viewer_inv_def style_sound_def)


section \<open>A synchronisation completes\<close>

text \<open>The event that the live job waits for: the metadata of its archive, or the return.\<close>

definition live_job :: "'m viewer \<Rightarrow> (nat \<times> sync_job) option" where
  "live_job v =
     List.find (\<lambda>(k, j). \<not> jb_cancelled j)
       (List.map_filter (\<lambda>k. map_option (Pair k) (map_of (vw_jobs v) k)) (map fst (vw_jobs v)))"

definition awaited_event :: "(loaded_layer \<Rightarrow> archive_layer list) \<Rightarrow> nat \<times> sync_job \<Rightarrow> sync_event" where
  "awaited_event archive kj =
     (case jb_wait (snd kj) of
        AwaitMetadata b \<Rightarrow> Metadata (fst kj) (Inr (archive (jb_current (snd kj))))
      | AwaitReturn ls ids \<Rightarrow> Return (fst kj))"

definition advance ::
  "'m maplibre \<Rightarrow> (string \<Rightarrow> string \<Rightarrow> int) \<Rightarrow> (loaded_layer \<Rightarrow> archive_layer list) \<Rightarrow> 'm viewer \<Rightarrow> 'm viewer" where
  "advance ml lc archive v =
     (case live_job v of None \<Rightarrow> v | Some kj \<Rightarrow> sync_step ml lc (awaited_event archive kj) v)"

lemma live_jobs_iff:
  "(k, j) \<in> set (List.map_filter (\<lambda>k. map_option (Pair k) (map_of (vw_jobs v) k)) (map fst (vw_jobs v))) \<longleftrightarrow>
     map_of (vw_jobs v) k = Some j"
proof -
  have key: "k \<in> fst ` set (vw_jobs v)" if "map_of (vw_jobs v) k = Some j" using that by (force dest: map_of_SomeD)
  have "(k, j) \<in> set (List.map_filter (\<lambda>k. map_option (Pair k) (map_of (vw_jobs v) k)) (map fst (vw_jobs v))) \<longleftrightarrow>
      (\<exists>x \<in> fst ` set (vw_jobs v). map_option (Pair x) (map_of (vw_jobs v) x) = Some (k, j))"
    by (force simp: List.map_filter_def image_iff)
  then show ?thesis using key by auto
qed

lemma find_Some_mem: "List.find P xs = Some x \<Longrightarrow> x \<in> set xs \<and> P x"
  by (auto simp: find_Some_iff)

lemma live_job_Some: "live_job v = Some (k, j) \<Longrightarrow> map_of (vw_jobs v) k = Some j \<and> \<not> jb_cancelled j"
  unfolding live_job_def by (drule find_Some_mem) (simp add: live_jobs_iff)

lemma live_job_None: "live_job v = None \<longleftrightarrow> (\<forall>k j. map_of (vw_jobs v) k = Some j \<longrightarrow> jb_cancelled j)"
proof -
  have "live_job v = None \<longleftrightarrow> (\<forall>k j. (k, j) \<in> set (List.map_filter (\<lambda>k. map_option (Pair k) (map_of (vw_jobs v) k))
      (map fst (vw_jobs v))) \<longrightarrow> jb_cancelled j)"
    unfolding live_job_def find_None_iff by auto
  then show ?thesis by (simp only: live_jobs_iff)
qed

lemma live_job_is:
  assumes "viewer_inv ml v" "map_of (vw_jobs v) k = Some j" "\<not> jb_cancelled j"
  shows "live_job v = Some (k, j)"
proof (cases "live_job v")
  case None
  with assms show ?thesis by (auto simp: live_job_None)
next
  case (Some kj)
  obtain k' j' where kj: "kj = (k', j')" by (cases kj)
  then have "map_of (vw_jobs v) k' = Some j'" "\<not> jb_cancelled j'" using live_job_Some Some by auto
  with viewer_invD(4) [OF assms(1) this assms(2,3)] assms(2) Some kj show ?thesis by simp
qed

text \<open>Every layer of the job is still to come, or its source is managed and, but for the wait, on the map.\<close>

definition job_progress :: "'m maplibre \<Rightarrow> 'm viewer \<Rightarrow> loaded_layer list \<Rightarrow> sync_job \<Rightarrow> bool" where
  "job_progress ml v sources j \<longleftrightarrow> jb_sources j = sources \<and>
     (\<forall>s \<in> set sources. s \<in> set (jb_rest j) \<or>
        ll_mapSourceId s \<in> set (vw_managed v) \<and>
        (ml_getSource ml (vw_map v) (ll_mapSourceId s) \<or> (s = jb_current j \<and> (\<exists>b. jb_wait j = AwaitMetadata b))))"

definition steps_left :: "sync_job \<Rightarrow> nat" where
  "steps_left j = 2 * length (jb_rest j) + (case jb_wait j of AwaitMetadata b \<Rightarrow> 2 | AwaitReturn ls ids \<Rightarrow> 1)"

definition shows_sources :: "'m maplibre \<Rightarrow> loaded_layer list \<Rightarrow> 'm viewer \<Rightarrow> bool" where
  "shows_sources ml sources v \<longleftrightarrow>
     live_job v = None \<and> set (vw_managed v) = set (map ll_mapSourceId sources) \<and>
     (\<forall>s \<in> set sources. ml_getSource ml (vw_map v) (ll_mapSourceId s))"

lemma load_begin_sources:
  assumes laws: "maplibre_laws ml" and started: "load_begin ml s m = (m', w)"
  shows "(\<forall>j. ml_getSource ml m j \<longrightarrow> ml_getSource ml m' j) \<and>
    ((\<exists>b. w = AwaitMetadata b) \<or> ml_getSource ml m' (ll_mapSourceId s) \<and> (\<exists>ls ids. w = AwaitReturn ls ids))"
proof (cases "ll_kind s")
  case (CatalogPmtiles d meta u)
  with started show ?thesis by (auto simp: load_begin_def)
next
  case (QueryMvt q)
  show ?thesis
  proof (cases "ml_getSource ml m (ll_mapSourceId s)")
    case True
    then show ?thesis
      using started QueryMvt syncExisting_shape [OF laws, of m s]
      by (auto simp: load_begin_def same_shape_def split: prod.splits)
  next
    case False
    let ?m = "ml_addSource ml (ll_mapSourceId s) (QueryTiles (qp_tileTemplate q)) m"
    note added = addSource_facts(2) [OF laws False]
    have "ml_getSource ml ?m (ll_mapSourceId s)" by (simp add: added)
    from fold_rendered_keeps [OF laws this, of "getVectorLayersForQuerySource s q"] show ?thesis
      using started QueryMvt False
      by (auto simp: load_begin_def keeps_sources_def added Let_def split: prod.splits)
  qed
qed

lemma sync_turn_progress:
  assumes laws: "maplibre_laws ml" and inv: "viewer_inv ml (sync_turn ml k sources rest layers ids v)"
    and sound: "style_sound ml (vw_map v)" "\<forall>i \<in> set (vw_managed v). i \<noteq> []"
    and others: "\<And>k' j. map_of (vw_jobs v) k' = Some j \<Longrightarrow> k' \<noteq> k \<Longrightarrow> jb_cancelled j"
    and before: "\<forall>s \<in> set sources. s \<in> set rest \<or>
        ll_mapSourceId s \<in> set (vw_managed v) \<and> ml_getSource ml (vw_map v) (ll_mapSourceId s)"
  shows "shows_sources ml sources (sync_turn ml k sources rest layers ids v) \<or>
    (\<exists>j. live_job (sync_turn ml k sources rest layers ids v) = Some (k, j) \<and> steps_left j \<le> 2 * length rest \<and>
       job_progress ml (sync_turn ml k sources rest layers ids v) sources j)"
proof (cases rest)
  case Nil
  let ?v = "v\<lparr>vw_jobs := map_delete k (vw_jobs v)\<rparr>"
  define v' where "v' = sync_finish ml sources layers ids ?v"
  have v': "vw_jobs v' = map_delete k (vw_jobs v)"
    "vw_managed v' = filter (\<lambda>i. i \<in> set (map ll_mapSourceId sources)) (vw_managed v)"
    "\<And>i. ml_getSource ml (vw_map v') i \<longleftrightarrow>
      \<not> (i \<in> set (vw_managed v) \<and> i \<notin> set (map ll_mapSourceId sources)) \<and> ml_getSource ml (vw_map v) i"
    using sync_finish_facts(2,3,5) [OF laws, of ?v sources layers ids] sound by (simp_all add: v'_def)
  have "live_job v' = None" unfolding live_job_None v'(1) using others by (auto split: if_splits)
  moreover have "set (vw_managed v') = set (map ll_mapSourceId sources)" using before Nil by (auto simp: v'(2))
  ultimately have "shows_sources ml sources v'" using before Nil by (auto simp: shows_sources_def v'(3))
  then show ?thesis by (simp add: Nil sync_turn_def v'_def)
next
  case (Cons s ss)
  obtain m' w where started: "load_begin ml s (vw_map v) = (m', w)" by fastforce
  define j where "j = \<lparr>jb_sources = sources, jb_current = s, jb_wait = w, jb_rest = ss, jb_layers = layers,
    jb_interactive = ids, jb_cancelled = False\<rparr>"
  define v' where "v' = v\<lparr>vw_map := m', vw_managed := set_add (ll_mapSourceId s) (vw_managed v), vw_jobs := map_set k j (vw_jobs v)\<rparr>"
  have turn: "sync_turn ml k sources rest layers ids v = v'"
    by (simp add: Cons sync_turn_def started v'_def j_def)
  have "live_job v' = Some (k, j)"
    using inv unfolding turn by (rule live_job_is) (simp_all add: v'_def j_def)
  moreover have "steps_left j \<le> 2 * length rest" by (simp add: Cons steps_left_def j_def split: wait.split)
  moreover have "job_progress ml v' sources j"
    using before load_begin_sources [OF laws started] unfolding job_progress_def by (auto simp: Cons v'_def j_def)
  ultimately show ?thesis unfolding turn by blast
qed

lemma load_end_sources:
  assumes laws: "maplibre_laws ml" and ended: "load_end ml lc s b metadata m = (m', w)"
    and b: "b = ml_getSource ml m (ll_mapSourceId s)"
  shows "(\<forall>j. ml_getSource ml m j \<longrightarrow> ml_getSource ml m' j) \<and> ml_getSource ml m' (ll_mapSourceId s) \<and>
    (\<exists>ls ids. w = AwaitReturn ls ids)"
proof -
  let ?m = "if b then m else ml_addSource ml (ll_mapSourceId s) (archive_spec s) m"
  have m: "ml_getSource ml ?m (ll_mapSourceId s)" "\<And>j. ml_getSource ml m j \<Longrightarrow> ml_getSource ml ?m j"
    using b addSource_facts(2) [OF laws] by auto
  from fold_rendered_keeps [OF laws m(1), of "getVectorLayersForSource lc metadata s"] show ?thesis
    using ended m unfolding load_end_def keeps_sources_def by (auto simp: Let_def split: prod.splits)
qed

lemma steps_left_pos: "0 < steps_left j"
  by (cases "jb_wait j") (simp_all add: steps_left_def)

lemma awaited_event_named: "named_sources (awaited_event archive kj)"
  by (simp add: awaited_event_def named_sources_def split: wait.split)

text \<open>The awaited answer brings the live job one step nearer to its end.\<close>

lemma advance_progress:
  assumes laws: "maplibre_laws ml" and inv: "viewer_inv ml v" and live: "live_job v = Some (k, j)"
    and prog: "job_progress ml v sources j"
  shows "shows_sources ml sources (advance ml lc archive v) \<or>
    (\<exists>j'. live_job (advance ml lc archive v) = Some (k, j') \<and> steps_left j' < steps_left j \<and>
       job_progress ml (advance ml lc archive v) sources j')"
proof -
  note job = live_job_Some [OF live]
  have adv: "advance ml lc archive v = sync_step ml lc (awaited_event archive (k, j)) v" by (simp add: advance_def live)
  have inv': "viewer_inv ml (advance ml lc archive v)"
    unfolding adv by (rule viewer_inv_step [OF laws inv awaited_event_named])
  show ?thesis
  proof (cases "jb_wait j")
    case wait: (AwaitMetadata b)
    obtain m' w where ended: "load_end ml lc (jb_current j) b (archive (jb_current j)) (vw_map v) = (m', w)" by fastforce
    have b: "b = ml_getSource ml (vw_map v) (ll_mapSourceId (jb_current j))"
      using viewer_invD(5) [OF inv] job wait by blast
    note facts = load_end_sources [OF laws ended b]
    define j' where "j' = j\<lparr>jb_wait := w\<rparr>"
    have adv': "advance ml lc archive v = v\<lparr>vw_map := m', vw_jobs := map_set k j' (vw_jobs v)\<rparr>"
      using job wait ended by (simp add: adv awaited_event_def sync_step_def sync_metadata_def j'_def)
    have "live_job (advance ml lc archive v) = Some (k, j')"
      using inv' by (rule live_job_is) (use job in \<open>simp_all add: adv' j'_def\<close>)
    moreover have "steps_left j' < steps_left j" using facts wait by (auto simp: steps_left_def j'_def)
    moreover have "job_progress ml (advance ml lc archive v) sources j'"
      using prog facts unfolding job_progress_def by (auto simp: adv' j'_def)
    ultimately show ?thesis by blast
  next
    case wait: (AwaitReturn ls ids)
    obtain known layers shown where adv': "advance ml lc archive v =
        sync_turn ml k sources (jb_rest j) layers shown (v\<lparr>vw_known := known\<rparr>)"
      using job wait prog
      by (simp add: adv awaited_event_def sync_step_def sync_return_def job_progress_def Let_def)
    have "shows_sources ml sources (sync_turn ml k sources (jb_rest j) layers shown (v\<lparr>vw_known := known\<rparr>)) \<or>
      (\<exists>j'. live_job (sync_turn ml k sources (jb_rest j) layers shown (v\<lparr>vw_known := known\<rparr>)) = Some (k, j') \<and>
        steps_left j' \<le> 2 * length (jb_rest j) \<and>
        job_progress ml (sync_turn ml k sources (jb_rest j) layers shown (v\<lparr>vw_known := known\<rparr>)) sources j')"
    proof (rule sync_turn_progress [OF laws inv' [unfolded adv']])
      show "jb_cancelled j'" if "map_of (vw_jobs (v\<lparr>vw_known := known\<rparr>)) k' = Some j'" "k' \<noteq> k" for k' j'
        using viewer_inv_others [OF inv conjunct1 [OF job] conjunct2 [OF job], of k' j'] that by simp
    qed (use viewer_invD(1,2) [OF inv] prog wait in \<open>auto simp: job_progress_def\<close>)
    then show ?thesis unfolding adv' using wait by (auto simp: steps_left_def)
  qed
qed

lemma advance_inv: "maplibre_laws ml \<Longrightarrow> viewer_inv ml v \<Longrightarrow> viewer_inv ml (advance ml lc archive v)"
  by (auto simp: advance_def split: option.split intro: viewer_inv_step awaited_event_named)

lemma shows_sources_still: "shows_sources ml sources v \<Longrightarrow> advance ml lc archive v = v"
  by (simp add: shows_sources_def advance_def)

lemma progress_completes:
  assumes "maplibre_laws ml" "viewer_inv ml v"
    "shows_sources ml sources v \<or> (\<exists>k j. live_job v = Some (k, j) \<and> steps_left j \<le> n \<and> job_progress ml v sources j)"
  shows "shows_sources ml sources ((advance ml lc archive ^^ n) v)"
  using assms(2,3)
proof (induction n arbitrary: v)
  case 0
  then show ?case using steps_left_pos by (metis funpow_0 not_le)
next
  case (Suc n)
  note inv = advance_inv [OF assms(1) Suc.prems(1), of lc archive]
  have "shows_sources ml sources (advance ml lc archive v) \<or>
      (\<exists>k j. live_job (advance ml lc archive v) = Some (k, j) \<and> steps_left j \<le> n \<and>
        job_progress ml (advance ml lc archive v) sources j)"
  proof (cases "shows_sources ml sources v")
    case True
    then show ?thesis by (simp add: shows_sources_still)
  next
    case False
    then obtain k j where live: "live_job v = Some (k, j)" "steps_left j \<le> Suc n" "job_progress ml v sources j"
      using Suc.prems(2) by blast
    from advance_progress [OF assms(1) Suc.prems(1) live(1,3), of lc archive] live(2) show ?thesis
      by (meson less_Suc_eq_le order_less_le_trans)
  qed
  from Suc.IH [OF inv this] show ?case by (simp add: funpow_swap1)
qed


section \<open>The basemap\<close>

definition STREET_BASE_LAYER_ID :: string where
  "STREET_BASE_LAYER_ID = ''osm-base''"

definition SATELLITE_BASE_LAYER_ID :: string where
  "SATELLITE_BASE_LAYER_ID = ''satellite-base''"

definition SATELLITE_BASE_SOURCE_ID :: string where
  "SATELLITE_BASE_SOURCE_ID = ''esri-world-imagery''"

definition isStreetBasemapStyleLayer :: "style_layer \<Rightarrow> bool" where
  "isStreetBasemapStyleLayer l =
     (case la_source l of
        Some i \<Rightarrow> if i = [] then la_type l = ''background'' else i \<in> {''openmaptiles'', ''openfreemap''}
      | None \<Rightarrow> la_type l = ''background'')"

text \<open>\<open>mode\<close> is \<open>street\<close> or \<open>satellite\<close>.\<close>

definition show_if_there :: "'m maplibre \<Rightarrow> string \<Rightarrow> bool \<Rightarrow> 'm \<Rightarrow> 'm" where
  "show_if_there ml i shown m = (if ml_getLayer ml m i then ml_setVisibility ml i shown m else m)"

definition syncBasemapVisibility :: "'m maplibre \<Rightarrow> basemap_mode \<Rightarrow> 'm \<Rightarrow> 'm" where
  "syncBasemapVisibility ml mode m =
     (let street = filter isStreetBasemapStyleLayer (ml_layers ml m);
          m1 = fold (\<lambda>l. ml_setVisibility ml (la_id l) (mode = Street)) street m in
      show_if_there ml SATELLITE_BASE_LAYER_ID (mode = Satellite)
        (show_if_there ml STREET_BASE_LAYER_ID (mode = Street) m1))"

definition satellite_tiles :: string where
  "satellite_tiles = ''https://services.arcgisonline.com/ArcGIS/rest/services/World_Imagery/MapServer/tile/{z}/{y}/{x}''"

definition satellite_layer :: style_layer where
  "satellite_layer =
     \<lparr>la_id = SATELLITE_BASE_LAYER_ID, la_type = ''raster'', la_source = Some SATELLITE_BASE_SOURCE_ID,
      la_sourceLayer = None, la_filter = None, la_visible = False, la_paint = []\<rparr>"

definition ensureSatelliteBasemapLayer :: "'m maplibre \<Rightarrow> 'm \<Rightarrow> 'm" where
  "ensureSatelliteBasemapLayer ml m =
     (let m1 = (if \<not> ml_getSource ml m SATELLITE_BASE_SOURCE_ID
                then ml_addSource ml SATELLITE_BASE_SOURCE_ID (RasterTiles satellite_tiles) m else m) in
      if ml_getLayer ml m1 SATELLITE_BASE_LAYER_ID then m1
      else ml_addLayer ml satellite_layer
             (case ml_layers ml m1 of [] \<Rightarrow> None | l # ls \<Rightarrow> Some (la_id l)) m1)"

definition syncBasemapVisibilityAfterStyleLoad :: "'m maplibre \<Rightarrow> basemap_mode \<Rightarrow> 'm \<Rightarrow> 'm" where
  "syncBasemapVisibilityAfterStyleLoad ml mode m = syncBasemapVisibility ml mode (ensureSatelliteBasemapLayer ml m)"

lemma fold_visibility:
  assumes "maplibre_laws ml" "\<forall>l \<in> set ls. ml_getLayer ml m (la_id l)"
  shows "ml_layers ml (fold (\<lambda>l. ml_setVisibility ml (la_id l) w) ls m) =
    map (\<lambda>l. if la_id l \<in> la_id ` set ls then l\<lparr>la_visible := w\<rparr> else l) (ml_layers ml m)"
  using assms(2)
proof (induction ls arbitrary: m)
  case (Cons l ls)
  let ?m = "ml_setVisibility ml (la_id l) w m"
  have here: "ml_getLayer ml m (la_id l)" using Cons.prems by simp
  have "\<forall>x \<in> set ls. ml_getLayer ml ?m (la_id x)"
    using Cons.prems same_shape_getLayer [OF assms(1) same_shape_setVisibility [OF assms(1) here]] by simp
  from Cons.IH [OF this] show ?case
    by (auto simp: setVisibility_facts [OF assms(1) here] set_visible_def)
qed simp

lemma show_if_there_layers:
  assumes "maplibre_laws ml"
  shows "ml_layers ml (show_if_there ml i w m) = set_visible i w (ml_layers ml m)" "same_shape ml m (show_if_there ml i w m)"
proof -
  have "set_visible i w (ml_layers ml m) = ml_layers ml m" if "\<not> ml_getLayer ml m i"
    unfolding set_visible_def using that getLayer_iff [OF assms] by (intro map_idI) auto
  then show "ml_layers ml (show_if_there ml i w m) = set_visible i w (ml_layers ml m)"
    using setVisibility_facts(1) [OF assms] by (simp add: show_if_there_def)
  show "same_shape ml m (show_if_there ml i w m)" using same_shape_setVisibility [OF assms] by (simp add: show_if_there_def)
qed

definition basemap_visible :: "basemap_mode \<Rightarrow> style_layer \<Rightarrow> style_layer" where
  "basemap_visible mode l =
     (if la_id l = SATELLITE_BASE_LAYER_ID then l\<lparr>la_visible := (mode = Satellite)\<rparr>
      else if la_id l = STREET_BASE_LAYER_ID \<or> isStreetBasemapStyleLayer l then l\<lparr>la_visible := (mode = Street)\<rparr>
      else l)"

lemma base_ids_differ: "STREET_BASE_LAYER_ID \<noteq> SATELLITE_BASE_LAYER_ID"
  by (simp add: STREET_BASE_LAYER_ID_def SATELLITE_BASE_LAYER_ID_def)

lemma syncBasemapVisibility_layers:
  assumes laws: "maplibre_laws ml" and sound: "style_sound ml m"
  shows "ml_layers ml (syncBasemapVisibility ml mode m) = map (basemap_visible mode) (ml_layers ml m)"
    "same_shape ml m (syncBasemapVisibility ml mode m)"
proof -
  define street where "street = filter isStreetBasemapStyleLayer (ml_layers ml m)"
  define m1 where "m1 = fold (\<lambda>l. ml_setVisibility ml (la_id l) (mode = Street)) street m"
  have there: "\<forall>l \<in> set street. ml_getLayer ml m (la_id l)" by (simp add: street_def getLayer_iff [OF laws])
  have ids: "la_id l \<in> la_id ` set street \<longleftrightarrow> isStreetBasemapStyleLayer l" if "l \<in> set (ml_layers ml m)" for l
    using that sound by (auto simp: street_def style_sound_def distinct_map dest: inj_onD)
  have m1: "ml_layers ml m1 = map (\<lambda>l. if isStreetBasemapStyleLayer l then l\<lparr>la_visible := (mode = Street)\<rparr> else l) (ml_layers ml m)"
    unfolding m1_def fold_visibility [OF laws there] using ids by (intro map_cong) auto
  have whole: "syncBasemapVisibility ml mode m =
      show_if_there ml SATELLITE_BASE_LAYER_ID (mode = Satellite) (show_if_there ml STREET_BASE_LAYER_ID (mode = Street) m1)"
    by (simp add: syncBasemapVisibility_def Let_def street_def m1_def)
  show "ml_layers ml (syncBasemapVisibility ml mode m) = map (basemap_visible mode) (ml_layers ml m)"
    using base_ids_differ
    by (auto simp: whole show_if_there_layers [OF laws] m1 set_visible_def basemap_visible_def)
  have "same_shape ml m m1" unfolding m1_def by (rule same_shape_fold [OF laws there])
  then show "same_shape ml m (syncBasemapVisibility ml mode m)"
    unfolding whole using show_if_there_layers(2) [OF laws] same_shape_trans by metis
qed

lemma insert_before_first: "insert_before l (la_id x) (x # xs) = l # x # xs"
  by (simp add: insert_before_def)

lemma ensureSatellite_facts:
  assumes laws: "maplibre_laws ml" and sound: "style_sound ml m"
  shows "ml_layers ml (ensureSatelliteBasemapLayer ml m) =
      (if SATELLITE_BASE_LAYER_ID \<in> la_id ` set (ml_layers ml m) then ml_layers ml m else satellite_layer # ml_layers ml m)"
    "style_sound ml (ensureSatelliteBasemapLayer ml m)"
proof -
  define m1 where "m1 = (if \<not> ml_getSource ml m SATELLITE_BASE_SOURCE_ID
      then ml_addSource ml SATELLITE_BASE_SOURCE_ID (RasterTiles satellite_tiles) m else m)"
  have m1: "ml_layers ml m1 = ml_layers ml m"
    "\<And>j. ml_getSource ml m1 j \<longleftrightarrow> j = SATELLITE_BASE_SOURCE_ID \<or> ml_getSource ml m j"
    using addSource_facts [OF laws] by (auto simp: m1_def)
  have sound1: "style_sound ml m1" using sound by (auto simp: style_sound_def m1)
  let ?b = "case ml_layers ml m1 of [] \<Rightarrow> None | l # ls \<Rightarrow> Some (la_id l)"
  have sat: "la_id satellite_layer = SATELLITE_BASE_LAYER_ID" "\<forall>i. la_source satellite_layer = Some i \<longrightarrow> ml_getSource ml m1 i"
    by (simp_all add: satellite_layer_def m1)
  have added: "ml_layers ml (ml_addLayer ml satellite_layer ?b m1) = satellite_layer # ml_layers ml m"
    "ml_getSource ml (ml_addLayer ml satellite_layer ?b m1) j = ml_getSource ml m1 j"
    if "\<not> ml_getLayer ml m1 SATELLITE_BASE_LAYER_ID" for j
    using that addLayer_facts [OF laws _ sat(2)] addLayer_before_facts [OF laws _ sat(2)] getLayer_iff [OF laws]
    by (cases "ml_layers ml m"; simp add: sat(1) m1 insert_before_first)+
  have whole: "ensureSatelliteBasemapLayer ml m =
      (if ml_getLayer ml m1 SATELLITE_BASE_LAYER_ID then m1 else ml_addLayer ml satellite_layer ?b m1)"
    by (simp add: ensureSatelliteBasemapLayer_def m1_def Let_def)
  show "ml_layers ml (ensureSatelliteBasemapLayer ml m) =
      (if SATELLITE_BASE_LAYER_ID \<in> la_id ` set (ml_layers ml m) then ml_layers ml m else satellite_layer # ml_layers ml m)"
    using added by (simp add: whole getLayer_iff [OF laws] m1)
  show "style_sound ml (ensureSatelliteBasemapLayer ml m)"
    using sound1 added sat by (auto simp: whole style_sound_def getLayer_iff [OF laws] m1)
qed

text \<open>
  Once the basemap has been set after a style has loaded, the map shows one basemap: the
  satellite layer exists and is visible in satellite mode only, the layers of the street map are
  visible in street mode only, no other layer changes, a satellite layer that had to be added lies
  below all of them, and the style is still sound.
\<close>

theorem basemap_shows_one_mode:
  assumes "maplibre_laws ml" and "style_sound ml m"
  shows "style_sound ml (syncBasemapVisibilityAfterStyleLoad ml mode m) \<and>
    (\<exists>l \<in> set (ml_layers ml (syncBasemapVisibilityAfterStyleLoad ml mode m)).
       la_id l = SATELLITE_BASE_LAYER_ID \<and> la_visible l = (mode = Satellite)) \<and>
    ml_layers ml (syncBasemapVisibilityAfterStyleLoad ml mode m) =
      (if SATELLITE_BASE_LAYER_ID \<in> la_id ` set (ml_layers ml m) then [] else [satellite_layer\<lparr>la_visible := (mode = Satellite)\<rparr>]) @
      map (basemap_visible mode) (ml_layers ml m)"
proof -
  note ensured = ensureSatellite_facts [OF assms]
  note shown = syncBasemapVisibility_layers [OF assms(1) ensured(2), of mode]
  have layers: "ml_layers ml (syncBasemapVisibilityAfterStyleLoad ml mode m) =
      (if SATELLITE_BASE_LAYER_ID \<in> la_id ` set (ml_layers ml m) then [] else [satellite_layer\<lparr>la_visible := (mode = Satellite)\<rparr>]) @
      map (basemap_visible mode) (ml_layers ml m)"
    by (simp add: syncBasemapVisibilityAfterStyleLoad_def shown ensured basemap_visible_def satellite_layer_def)
  moreover have "\<exists>l \<in> set (ml_layers ml (syncBasemapVisibilityAfterStyleLoad ml mode m)).
       la_id l = SATELLITE_BASE_LAYER_ID \<and> la_visible l = (mode = Satellite)"
  proof (cases "SATELLITE_BASE_LAYER_ID \<in> la_id ` set (ml_layers ml m)")
    case True
    then obtain l where l: "l \<in> set (ml_layers ml m)" "la_id l = SATELLITE_BASE_LAYER_ID" by auto
    then have "basemap_visible mode l \<in> set (ml_layers ml (syncBasemapVisibilityAfterStyleLoad ml mode m))"
      unfolding layers by simp
    with l(2) show ?thesis by (intro bexI) (simp_all add: basemap_visible_def)
  next
    case False
    then show ?thesis unfolding layers by (simp add: satellite_layer_def)
  qed
  ultimately show ?thesis
    using same_shape_sound [OF shown(2) ensured(2)] by (simp add: syncBasemapVisibilityAfterStyleLoad_def)
qed

section \<open>A concrete map\<close>

text \<open>The map as its source ids and its layers, for examples; out of its preconditions nothing happens.\<close>

type_synonym list_map = "string list \<times> style_layer list"

definition list_maplibre :: "list_map maplibre" where
  "list_maplibre =
     \<lparr>ml_layers = snd, ml_getSource = (\<lambda>m i. i \<in> set (fst m)),
      ml_addSource = (\<lambda>i s m. (fst m @ [i], snd m)),
      ml_removeSource = (\<lambda>i m. (filter (\<lambda>j. j \<noteq> i) (fst m), snd m)),
      ml_getLayer = (\<lambda>m i. i \<in> set (map la_id (snd m))),
      ml_addLayer = (\<lambda>l b m. (fst m, case b of None \<Rightarrow> snd m @ [l] | Some i \<Rightarrow> insert_before l i (snd m))),
      ml_removeLayer = (\<lambda>i m. (fst m, filter (\<lambda>l. la_id l \<noteq> i) (snd m))),
      ml_moveLayer = (\<lambda>i m. (fst m, filter (\<lambda>l. la_id l \<noteq> i) (snd m) @ filter (\<lambda>l. la_id l = i) (snd m))),
      ml_setVisibility = (\<lambda>i w m. (fst m, set_visible i w (snd m)))\<rparr>"

lemma list_maplibre_laws: "maplibre_laws list_maplibre"
  by (auto simp: maplibre_laws_def list_maplibre_def)

lemma list_style_sound: "style_sound list_maplibre ([], [])"
  by (simp add: style_sound_def list_maplibre_def)

definition demo_layer :: "string \<Rightarrow> layer_kind \<Rightarrow> loaded_layer" where
  "demo_layer i kind =
     \<lparr>ll_id = i, ll_name = i, ll_label = i, ll_datasetName = None, ll_storageLocationName = None,
      ll_mapSourceId = CHR ''s'' # i, ll_visible = True, ll_opacity = 1, ll_bounds = None, ll_loadError = None,
      ll_kind = kind\<rparr>"

definition demo_query :: loaded_layer where
  "demo_query = demo_layer ''q'' (QueryMvt \<lparr>qp_queryId = ''q'', qp_sourceAliases = [], qp_geometryColumn = ''g'',
     qp_tileTemplate = ''t'', qp_sourceLayerId = ''v'', qp_scalarFields = [], qp_status = QueryReady\<rparr>)"

definition demo_archive :: loaded_layer where
  "demo_archive = demo_layer ''a'' (CatalogPmtiles \<lparr>sd_collectionSlug = ''c'', sd_datasetSlug = ''d'', sd_fileSlug = ''f'',
     sd_version = ''1'', sd_assetKey = ''k'', sd_storageLocationSlug = None\<rparr> None ''u'')"

definition demo_metadata :: "archive_layer list" where
  "demo_metadata = [\<lparr>al_id = Some ''x'', al_fields = None\<rparr>]"

definition demo_step :: "sync_event \<Rightarrow> list_map viewer \<Rightarrow> list_map viewer" where
  "demo_step = sync_step list_maplibre (\<lambda>a b. 0)"

definition demo_start :: "list_map viewer" where
  "demo_start = demo_step (Layers [demo_query, demo_archive]) (new_viewer ([], []))"

text \<open>The query layer is on the map, the archive has answered, and the call is about to return from it.\<close>

definition demo_loaded :: "list_map viewer" where
  "demo_loaded = demo_step (Metadata 0 (Inr demo_metadata)) (demo_step (Return 0) demo_start)"

abbreviation demo_reachable :: "list_map viewer \<Rightarrow> bool" where
  "demo_reachable \<equiv> sync_reachable list_maplibre (\<lambda>a b. 0) ([], [])"

lemma demo_start_reachable: "demo_reachable demo_start"
  unfolding demo_start_def demo_step_def
  by (intro reach_step reach_new) (simp add: named_sources_def demo_query_def demo_archive_def demo_layer_def)

lemma demo_loaded_reachable: "demo_reachable demo_loaded"
  unfolding demo_loaded_def demo_step_def
  by (intro reach_step demo_start_reachable) (simp_all add: named_sources_def)

lemma demo_loaded_layers: "map la_id (snd (vw_map demo_loaded)) = [''sq-v-fill'', ''sq-v-line'', ''sq-v-circle'',
    ''sa-x-fill'', ''sa-x-line'', ''sa-x-circle'']"
  by code_simp

theorem map_style_stays_sound_witness:
  "distinct (map la_id (snd (vw_map demo_loaded))) \<and> length (snd (vw_map demo_loaded)) = 6"
  using map_style_stays_sound [OF list_maplibre_laws list_style_sound demo_loaded_reachable]
    arg_cong [OF demo_loaded_layers, of length]
  by (simp add: list_maplibre_def)

lemma demo_job:
  "map_of (vw_jobs demo_loaded) 0 = Some (the (map_of (vw_jobs demo_loaded) 0))"
  "jb_wait (the (map_of (vw_jobs demo_loaded) 0)) = AwaitReturn
     (getVectorLayersForSource (\<lambda>a b. 0) demo_metadata demo_archive) [''sa-x-fill'', ''sa-x-line'', ''sa-x-circle'']"
  "\<not> jb_cancelled (the (map_of (vw_jobs demo_loaded) 0))"
  "jb_rest (the (map_of (vw_jobs demo_loaded) 0)) = []"
  by code_simp+

lemma demo_order:
  "drawing_order (jb_sources (the (map_of (vw_jobs demo_loaded) 0))) (vw_known (demo_step (Return 0) demo_loaded)) =
     [''sq-v-fill'', ''sq-v-line'', ''sq-v-circle'', ''sa-x-fill'', ''sa-x-line'', ''sa-x-circle'']"
  by code_simp



theorem basemap_shows_one_mode_witness:
  "ml_layers list_maplibre (syncBasemapVisibilityAfterStyleLoad list_maplibre Satellite ([], [])) =
     [satellite_layer\<lparr>la_visible := True\<rparr>]"
  using basemap_shows_one_mode [OF list_maplibre_laws list_style_sound, of Satellite]
  by (simp add: list_maplibre_def)

text \<open>
  An archive that cannot be read ends the call: the layers after it are not loaded, and nothing that
  is no longer in the list is removed.
\<close>

lemma failed_archive_ends_sync:
  assumes "viewer_inv ml v" "map_of (vw_jobs v) k = Some j" "\<not> jb_cancelled j" "jb_wait j = AwaitMetadata b"
  shows "live_job (sync_step ml lc (Metadata k (Inl message)) v) = None \<and>
    vw_map (sync_step ml lc (Metadata k (Inl message)) v) = vw_map v \<and>
    vw_managed (sync_step ml lc (Metadata k (Inl message)) v) = vw_managed v \<and>
    vw_errors (sync_step ml lc (Metadata k (Inl message)) v) = vw_errors v @ [ll_id (jb_current j)]"
proof -
  have step: "sync_step ml lc (Metadata k (Inl message)) v =
      v\<lparr>vw_jobs := map_delete k (vw_jobs v), vw_errors := vw_errors v @ [ll_id (jb_current j)]\<rparr>"
    using assms(2-4) by (simp add: sync_step_def sync_metadata_def)
  have "jb_cancelled j'" if "map_of (map_delete k (vw_jobs v)) k' = Some j'" for k' j'
    using that viewer_inv_others [OF assms(1-3)] by (simp split: if_splits)
  then show ?thesis unfolding step by (simp add: live_job_None)
qed

end
