(* ===== verification/MapEvents.thy ===== *)
theory MapEvents
  imports MapSources
begin

text \<open>
  The events of the viewer's map, \<open>webapp/src/components/viewer/useMapInitialization.ts\<close>: requests for
  the tiles of queries, tiles that fail and load again, the fallback basemap, selection boxes,
  clicks, the pinned popup and the hovered feature.
\<close>

section \<open>Requests for query tiles\<close>

datatype tile_request = TileRequest string string | BlockedTile string

text \<open>\<open>/^\/api\/queries\/([^/]+)\/tiles\/[^/]+\/[^/]+\/[^/]+\.mvt$/\<close>: the query id of a match.\<close>

definition QUERY_TILE_PATH :: "string \<Rightarrow> string option" where
  "QUERY_TILE_PATH pathname =
     (case split_on (CHR ''/'') pathname of
        [r, a, q, queryId, t, z, x, y] \<Rightarrow>
          if r = [] \<and> a = ''api'' \<and> q = ''queries'' \<and> t = ''tiles'' \<and> queryId \<noteq> [] \<and> z \<noteq> [] \<and> x \<noteq> [] \<and>
            endsWith y ''.mvt'' \<and> 4 < length y
          then Some queryId else None
      | _ \<Rightarrow> None)"

definition TOKEN_PARAMS :: "string list" where
  "TOKEN_PARAMS = [''token'', ''query_token'', ''queryToken'']"

text \<open>\<open>searchParams.delete\<close> writes the query again, also when it has no such parameter.\<close>

definition delete_params :: "string list \<Rightarrow> search_params \<Rightarrow> search_params" where
  "delete_params names params = filter (\<lambda>p. fst p \<notin> set names) params"

definition query_text :: "search_params \<Rightarrow> string" where
  "query_text params = (if params = [] then [] else CHR ''?'' # form_serialize params)"

text \<open>\<open>/^[a-z][a-z\d+.-]*:/i\<close>.\<close>

definition is_alpha :: "char \<Rightarrow> bool" where
  "is_alpha c \<longleftrightarrow> is_lower_alpha c \<or> is_upper_alpha c"

definition is_scheme_char :: "char \<Rightarrow> bool" where
  "is_scheme_char c \<longleftrightarrow> is_alpha c \<or> is_digit c \<or> c \<in> {CHR ''+'', CHR ''.'', CHR ''-''}"

definition isAbsoluteUrl :: "string \<Rightarrow> bool" where
  "isAbsoluteUrl s =
     (case s of [] \<Rightarrow> False
      | c # t \<Rightarrow> is_alpha c \<and> startsWith (dropWhile is_scheme_char t) '':'')"

text \<open>
  \<open>base\<close> is the parsed \<open>http://localhost\<close>; the left is the \<open>URIError\<close> of \<open>decodeURIComponent\<close>. The
  query of the URL is read by \<open>form_parse\<close>, which gives nothing outside the model's characters.
\<close>

definition transformQueryTileRequest ::
  "url_library \<Rightarrow> web_url \<Rightarrow> string \<Rightarrow> (string \<times> string) list \<Rightarrow> string + tile_request option" where
  "transformQueryTileRequest lib base requestUrl queryTokens =
     (case resolve_url lib requestUrl base of
        None \<Rightarrow> Inr None
      | Some parsedUrl \<Rightarrow>
      (case QUERY_TILE_PATH (wu_pathname parsedUrl) of
         None \<Rightarrow> Inr None
       | Some queryId \<Rightarrow>
       (case decodeURIComponent queryId of
          None \<Rightarrow> Inl ''URI malformed''
        | Some decoded \<Rightarrow>
            (let token = (case map_of queryTokens decoded of None \<Rightarrow> [] | Some t \<Rightarrow> t) in
             if token = [] then Inr (Some (BlockedTile decoded))
             else
               (case form_parse (drop 1 (wu_search parsedUrl)) of
                  None \<Rightarrow> Inl ''outside the model''
                | Some params \<Rightarrow>
                    (let rest = wu_pathname parsedUrl @ query_text (delete_params TOKEN_PARAMS params) @ wu_hash parsedUrl in
                     Inr (Some (TileRequest (if isAbsoluteUrl requestUrl then wu_origin parsedUrl @ rest else rest) token))))))))"

text \<open>The callback that MapLibre calls: a blocked tile is an empty resource and an error of its layer.\<close>

datatype map_request = SendRequest string string | EmptyResource

definition transformRequest ::
  "url_library \<Rightarrow> web_url \<Rightarrow> (string \<times> string) list \<Rightarrow> string \<Rightarrow>
   string + map_request option \<times> (string \<times> string \<times> string) option" where
  "transformRequest lib base queryTokens url =
     (case transformQueryTileRequest lib base url queryTokens of
        Inl e \<Rightarrow> Inl e
      | Inr None \<Rightarrow> Inr (None, None)
      | Inr (Some (BlockedTile q)) \<Rightarrow>
          Inr (Some EmptyResource, Some (''query:'' @ q, q, ''Query map layer is unavailable.''))
      | Inr (Some (TileRequest u token)) \<Rightarrow> Inr (Some (SendRequest u token), None))"

section \<open>Tiles that fail and load again\<close>

text \<open>
  An error event that parses as a source error: the id of the map source, the name and the message of
  the error and the key of the tile. A data event: the id, \<open>isSourceLoaded\<close> and the key of a loaded tile.
\<close>

record source_error =
  se_sourceId :: string
  se_name :: string
  se_message :: string
  se_tile :: "string option"

record source_data =
  sd_sourceId :: string
  sd_isSourceLoaded :: bool
  sd_tile :: "string option"

record runtime_failures =
  rf_tileKeys :: "string list"
  rf_unidentified :: bool

type_synonym failures_by_source = "(string \<times> runtime_failures) list"

datatype source_notice =
    SourceError string "string option" string
  | SourceRecovered string "string option"

fun notice_source :: "source_notice \<Rightarrow> string" where
  "notice_source (SourceError s q m) = s"
| "notice_source (SourceRecovered s q) = s"

fun is_error_notice :: "source_notice \<Rightarrow> bool" where
  "is_error_notice (SourceError s q m) = True"
| "is_error_notice (SourceRecovered s q) = False"

definition source_query :: "loaded_layer \<Rightarrow> string option" where
  "source_query s = (case ll_kind s of QueryMvt q \<Rightarrow> Some (qp_queryId q) | CatalogPmtiles d m u \<Rightarrow> None)"

definition source_of_map :: "loaded_layer list \<Rightarrow> string \<Rightarrow> loaded_layer option" where
  "source_of_map sources i = List.find (\<lambda>s. ll_mapSourceId s = i) sources"

text \<open>The first component is the result; the second what is reported.\<close>

definition reportRuntimeSourceError ::
  "source_error option \<Rightarrow> loaded_layer list \<Rightarrow> bool \<times> source_notice option" where
  "reportRuntimeSourceError event sources =
     (case event of
        None \<Rightarrow> (False, None)
      | Some e \<Rightarrow>
      (case source_of_map sources (se_sourceId e) of
         None \<Rightarrow> (False, None)
       | Some source \<Rightarrow>
           if se_name e = ''AbortError'' then (True, None)
           else (True, Some (SourceError (ll_id source) (source_query source)
             (take 500 (if se_message e = [] then ''The map layer could not load its tiles.'' else se_message e))))))"

definition no_failures :: runtime_failures where
  "no_failures = \<lparr>rf_tileKeys = [], rf_unidentified = False\<rparr>"

text \<open>The callback of the error handler: \<open>if (tileKey)\<close> takes an empty key for none.\<close>

definition add_failure :: "string option \<Rightarrow> runtime_failures \<Rightarrow> runtime_failures" where
  "add_failure tileKey f =
     (case tileKey of
        Some k \<Rightarrow> if k \<noteq> [] then f\<lparr>rf_tileKeys := set_add k (rf_tileKeys f)\<rparr> else f\<lparr>rf_unidentified := True\<rparr>
      | None \<Rightarrow> f\<lparr>rf_unidentified := True\<rparr>)"

definition record_failure :: "string \<Rightarrow> string option \<Rightarrow> failures_by_source \<Rightarrow> failures_by_source" where
  "record_failure i tileKey failures =
     map_set i (add_failure tileKey (case map_of failures i of None \<Rightarrow> no_failures | Some f \<Rightarrow> f)) failures"

definition loaded_tile :: "string option \<Rightarrow> runtime_failures \<Rightarrow> runtime_failures" where
  "loaded_tile tileKey f =
     (case tileKey of
        Some k \<Rightarrow> if k \<noteq> [] then f\<lparr>rf_tileKeys := filter (\<lambda>x. x \<noteq> k) (rf_tileKeys f)\<rparr> else f
      | None \<Rightarrow> f)"

definition recoverRuntimeSource ::
  "source_data option \<Rightarrow> loaded_layer list \<Rightarrow> failures_by_source \<Rightarrow> failures_by_source \<times> source_notice option" where
  "recoverRuntimeSource event sources failures =
     (case event of
        None \<Rightarrow> (failures, None)
      | Some d \<Rightarrow>
      (case source_of_map sources (sd_sourceId d) of
         None \<Rightarrow> (failures, None)
       | Some source \<Rightarrow>
       (case map_of failures (ll_id source) of
          None \<Rightarrow> (failures, None)
        | Some f \<Rightarrow>
            (let f' = loaded_tile (sd_tile d) f in
             if rf_unidentified f' \<or> rf_tileKeys f' \<noteq> [] \<or> \<not> sd_isSourceLoaded d
             then (map_set (ll_id source) f' failures, None)
             else (map_delete (ll_id source) failures, Some (SourceRecovered (ll_id source) (source_query source)))))))"

text \<open>
  The \<open>error\<close>, \<open>sourcedata\<close> and \<open>style.load\<close> handlers with the variables they share. A notice goes to the
  page; \<open>rm_fallbacks\<close> counts the calls of \<open>setStyle\<close> with the fallback basemap.
\<close>

record runtime_map =
  rm_failures :: failures_by_source
  rm_notices :: "source_notice list"
  rm_synced :: bool
  rm_fallback :: bool
  rm_fallbacks :: nat

datatype map_event =
    ErrorEvent "source_error option"
  | DataEvent "source_data option"
  | StyleLoad

definition on_error :: "loaded_layer list \<Rightarrow> source_error option \<Rightarrow> runtime_map \<Rightarrow> runtime_map" where
  "on_error sources event r =
     (case reportRuntimeSourceError event sources of
        (True, Some n) \<Rightarrow>
          r\<lparr>rm_failures := record_failure (notice_source n) (Option.bind event se_tile) (rm_failures r),
            rm_notices := rm_notices r @ [n]\<rparr>
      | (True, None) \<Rightarrow> r
      | (False, _) \<Rightarrow>
          if rm_synced r \<or> rm_fallback r then r
          else r\<lparr>rm_fallback := True, rm_fallbacks := Suc (rm_fallbacks r)\<rparr>)"

definition on_data :: "loaded_layer list \<Rightarrow> source_data option \<Rightarrow> runtime_map \<Rightarrow> runtime_map" where
  "on_data sources event r =
     (case recoverRuntimeSource event sources (rm_failures r) of
        (failures, None) \<Rightarrow> r\<lparr>rm_failures := failures\<rparr>
      | (failures, Some n) \<Rightarrow> r\<lparr>rm_failures := failures, rm_notices := rm_notices r @ [n]\<rparr>)"

text \<open>Each event comes with the layers that are loaded at that time.\<close>

definition runtime_step :: "loaded_layer list \<times> map_event \<Rightarrow> runtime_map \<Rightarrow> runtime_map" where
  "runtime_step se r =
     (case snd se of
        ErrorEvent e \<Rightarrow> on_error (fst se) e r
      | DataEvent d \<Rightarrow> on_data (fst se) d r
      | StyleLoad \<Rightarrow> r\<lparr>rm_synced := True\<rparr>)"

definition new_runtime :: runtime_map where
  "new_runtime = \<lparr>rm_failures = [], rm_notices = [], rm_synced = False, rm_fallback = False, rm_fallbacks = 0\<rparr>"

definition runtime_run :: "(loaded_layer list \<times> map_event) list \<Rightarrow> runtime_map" where
  "runtime_run es = fold runtime_step es new_runtime"

text \<open>
  What the events say, without the bookkeeping: which source and tile an event reports as failed or
  loaded; a tile is failing when the last event about it reported a failure.
\<close>

definition failure_of :: "loaded_layer list \<times> map_event \<Rightarrow> (string \<times> string option) option" where
  "failure_of se =
     (case snd se of
        ErrorEvent (Some e) \<Rightarrow>
          (case source_of_map (fst se) (se_sourceId e) of
             Some source \<Rightarrow>
               if se_name e = ''AbortError'' then None
               else Some (ll_id source, if se_tile e = Some [] then None else se_tile e)
           | None \<Rightarrow> None)
      | _ \<Rightarrow> None)"

definition loads :: "loaded_layer list \<times> map_event \<Rightarrow> string \<Rightarrow> string \<Rightarrow> bool" where
  "loads se i k =
     (case snd se of
        DataEvent (Some d) \<Rightarrow> map_option ll_id (source_of_map (fst se) (sd_sourceId d)) = Some i \<and> sd_tile d = Some k \<and> k \<noteq> []
      | _ \<Rightarrow> False)"

fun failing :: "(loaded_layer list \<times> map_event) list \<Rightarrow> string \<Rightarrow> string \<Rightarrow> bool" where
  "failing [] i k = False"
| "failing (se # earlier) i k = (failure_of se = Some (i, Some k) \<or> \<not> loads se i k \<and> failing earlier i k)"

text \<open>The last notice about a source.\<close>

definition shown_as_failed :: "source_notice list \<Rightarrow> string \<Rightarrow> bool" where
  "shown_as_failed ns i =
     (case filter (\<lambda>n. notice_source n = i) (rev ns) of [] \<Rightarrow> False | n # _ \<Rightarrow> is_error_notice n)"

lemma shown_as_failed_simps [simp]:
  "shown_as_failed [] i = False"
  "shown_as_failed (ns @ [n]) i = (if notice_source n = i then is_error_notice n else shown_as_failed ns i)"
  by (simp_all add: shown_as_failed_def)

definition failures_at :: "failures_by_source \<Rightarrow> string \<Rightarrow> runtime_failures" where
  "failures_at failures i = (case map_of failures i of None \<Rightarrow> no_failures | Some f \<Rightarrow> f)"

definition tiles_inv :: "(loaded_layer list \<times> map_event) list \<Rightarrow> runtime_map \<Rightarrow> string \<Rightarrow> bool" where
  "tiles_inv es r i \<longleftrightarrow>
     (\<forall>k. k \<in> set (rf_tileKeys (failures_at (rm_failures r) i)) \<longleftrightarrow> failing (rev es) i k) \<and>
     (rf_unidentified (failures_at (rm_failures r) i) \<longleftrightarrow> (\<exists>se \<in> set es. failure_of se = Some (i, None))) \<and>
     (map_of (rm_failures r) i \<noteq> None \<longleftrightarrow> shown_as_failed (rm_notices r) i)"

lemma failure_key: "failure_of se = Some (i, Some k) \<Longrightarrow> k \<noteq> []"
  by (auto simp: failure_of_def split: map_event.splits option.splits if_splits)

lemma failing_key: "failing es i k \<Longrightarrow> k \<noteq> []"
  by (induction es) (auto dest: failure_key)

lemma on_error_facts:
  "failure_of (sources, ErrorEvent e) = None \<Longrightarrow>
     rm_failures (on_error sources e r) = rm_failures r \<and> rm_notices (on_error sources e r) = rm_notices r"
  "failure_of (sources, ErrorEvent e) = Some (j, t) \<Longrightarrow>
     \<exists>q m. rm_notices (on_error sources e r) = rm_notices r @ [SourceError j q m] \<and>
       rm_failures (on_error sources e r) = map_set j (add_failure t (failures_at (rm_failures r) j)) (rm_failures r)"
  by (auto simp: failure_of_def on_error_def reportRuntimeSourceError_def record_failure_def failures_at_def
      add_failure_def split: option.splits if_splits)

lemma tiles_inv_error:
  assumes "tiles_inv es r i"
  shows "tiles_inv (es @ [(sources, ErrorEvent e)]) (on_error sources e r) i"
proof (cases "failure_of (sources, ErrorEvent e)")
  case None
  with assms on_error_facts(1) [OF None, of r] show ?thesis by (simp add: tiles_inv_def loads_def)
next
  case (Some jt)
  obtain j t where jt: "jt = (j, t)" by fastforce
  from on_error_facts(2) [OF Some [unfolded jt], of r] obtain q m where
    r': "rm_notices (on_error sources e r) = rm_notices r @ [SourceError j q m]"
    "rm_failures (on_error sources e r) = map_set j (add_failure t (failures_at (rm_failures r) j)) (rm_failures r)" by blast
  have key: "t = Some k \<Longrightarrow> k \<noteq> []" for k using Some jt failure_key by blast
  have at: "failures_at (rm_failures (on_error sources e r)) i =
      (if i = j then add_failure t (failures_at (rm_failures r) j) else failures_at (rm_failures r) i)"
    by (simp add: r' failures_at_def)
  show ?thesis
    using assms Some key unfolding tiles_inv_def at
    by (cases t) (auto simp: r' jt add_failure_def loads_def)
qed

lemma on_data_facts:
  assumes "on_data sources e r = r'"
  shows "(\<forall>d source f. e = Some d \<and> source_of_map sources (sd_sourceId d) = Some source \<and>
      map_of (rm_failures r) (ll_id source) = Some f \<longrightarrow>
        (let f' = loaded_tile (sd_tile d) f in
         if rf_unidentified f' \<or> rf_tileKeys f' \<noteq> [] \<or> \<not> sd_isSourceLoaded d
         then rm_failures r' = map_set (ll_id source) f' (rm_failures r) \<and> rm_notices r' = rm_notices r
         else rm_failures r' = map_delete (ll_id source) (rm_failures r) \<and>
           rm_notices r' = rm_notices r @ [SourceRecovered (ll_id source) (source_query source)])) \<and>
    ((e = None \<or> (\<exists>d. e = Some d \<and> (source_of_map sources (sd_sourceId d) = None \<or>
        (\<exists>source. source_of_map sources (sd_sourceId d) = Some source \<and> map_of (rm_failures r) (ll_id source) = None)))) \<longrightarrow>
      rm_failures r' = rm_failures r \<and> rm_notices r' = rm_notices r)"
  using assms by (auto simp: on_data_def recoverRuntimeSource_def Let_def split: option.splits)

lemma tiles_inv_data:
  assumes inv: "tiles_inv es r i"
  shows "tiles_inv (es @ [(sources, DataEvent e)]) (on_data sources e r) i"
proof -
  define r' where "r' = on_data sources e r"
  note facts = on_data_facts [OF r'_def [symmetric]]
  have no: "failure_of (sources, DataEvent e) = None" by (simp add: failure_of_def)
  consider (known) d source f where "e = Some d" "source_of_map sources (sd_sourceId d) = Some source"
      "map_of (rm_failures r) (ll_id source) = Some f"
    | (fine) "e = None \<or> (\<exists>d. e = Some d \<and> (source_of_map sources (sd_sourceId d) = None \<or>
        (\<exists>source. source_of_map sources (sd_sourceId d) = Some source \<and> map_of (rm_failures r) (ll_id source) = None)))"
    by (cases e) fastforce+
  then show ?thesis
  proof cases
    case known
    let ?f = "loaded_tile (sd_tile d) f"
    have loads: "loads (sources, DataEvent e) j k \<longleftrightarrow> j = ll_id source \<and> sd_tile d = Some k \<and> k \<noteq> []" for j k
      using known by (auto simp: loads_def)
    have tiles: "k \<in> set (rf_tileKeys ?f) \<longleftrightarrow> \<not> (sd_tile d = Some k \<and> k \<noteq> []) \<and> k \<in> set (rf_tileKeys f)"
      "rf_unidentified ?f = rf_unidentified f" for k
      by (auto simp: loaded_tile_def split: option.splits)
    show ?thesis
    proof (cases "i = ll_id source")
      case True
      with inv known have before: "\<And>k. k \<in> set (rf_tileKeys f) \<longleftrightarrow> failing (rev es) i k"
        "rf_unidentified f \<longleftrightarrow> (\<exists>se \<in> set es. failure_of se = Some (i, None))" "shown_as_failed (rm_notices r) i"
        by (simp_all add: tiles_inv_def failures_at_def)
      have after: "failing (rev (es @ [(sources, DataEvent e)])) i k \<longleftrightarrow> k \<in> set (rf_tileKeys ?f)" for k
        using before(1) tiles(1) by (simp add: no loads True)
      have unknown: "(\<exists>se \<in> set (es @ [(sources, DataEvent e)]). failure_of se = Some (i, None)) \<longleftrightarrow> rf_unidentified ?f"
        using before(2) tiles(2) by (simp add: no)
      show ?thesis
      proof (cases "rf_unidentified ?f \<or> rf_tileKeys ?f \<noteq> [] \<or> \<not> sd_isSourceLoaded d")
        case kept: True
        then have "rm_failures r' = map_set i ?f (rm_failures r)" "rm_notices r' = rm_notices r"
          using facts known True by (simp_all add: Let_def)
        then show ?thesis
          unfolding tiles_inv_def r'_def [symmetric] after unknown using before(3) by (simp add: failures_at_def)
      next
        case gone: False
        then have "rm_failures r' = map_delete i (rm_failures r)"
          "rm_notices r' = rm_notices r @ [SourceRecovered i (source_query source)]"
          using facts known True by (simp_all add: Let_def)
        then show ?thesis
          unfolding tiles_inv_def r'_def [symmetric] after unknown
          using gone True by (simp add: failures_at_def no_failures_def)
      qed
    next
      case False
      then have "map_of (rm_failures r') i = map_of (rm_failures r) i"
        "shown_as_failed (rm_notices r') i = shown_as_failed (rm_notices r) i"
        using facts known by (auto simp: Let_def split: if_splits)
      then show ?thesis
        using inv False by (simp add: tiles_inv_def failures_at_def r'_def [symmetric] no loads)
    qed
  next
    case fine
    have "\<not> (loads (sources, DataEvent e) i k \<and> failing (rev es) i k)" for k
    proof
      assume l: "loads (sources, DataEvent e) i k \<and> failing (rev es) i k"
      then have "map_of (rm_failures r) i = None" using fine by (auto simp: loads_def split: option.splits)
      then show False using inv l by (simp add: tiles_inv_def failures_at_def no_failures_def)
    qed
    then show ?thesis
      using facts fine inv by (auto simp: tiles_inv_def failures_at_def r'_def [symmetric] no)
  qed
qed

lemma runtime_run_snoc: "runtime_run (es @ [se]) = runtime_step se (runtime_run es)"
  by (simp add: runtime_run_def)

lemma runtime_run_inv: "tiles_inv es (runtime_run es) i"
proof (induction es rule: rev_induct)
  case Nil
  show ?case by (simp add: tiles_inv_def runtime_run_def new_runtime_def failures_at_def no_failures_def)
next
  case (snoc se es)
  obtain sources ev where se: "se = (sources, ev)" by fastforce
  show ?case
  proof (cases ev)
    case (ErrorEvent e)
    with tiles_inv_error [OF snoc] show ?thesis by (simp add: runtime_run_snoc se runtime_step_def)
  next
    case (DataEvent e)
    with tiles_inv_data [OF snoc] show ?thesis by (simp add: runtime_run_snoc se runtime_step_def)
  next
    case StyleLoad
    with snoc show ?thesis
      by (simp add: runtime_run_snoc se runtime_step_def tiles_inv_def failure_of_def loads_def)
  qed
qed

lemma fallback_once:
  "rm_fallbacks (runtime_run es) \<le> 1 \<and> (rm_fallbacks (runtime_run es) = 1 \<longleftrightarrow> rm_fallback (runtime_run es))"
proof (induction es rule: rev_induct)
  case Nil
  show ?case by (simp add: runtime_run_def new_runtime_def)
next
  case (snoc se es)
  have "rm_fallbacks (on_data sources e r) = rm_fallbacks r \<and> rm_fallback (on_data sources e r) = rm_fallback r"
    for sources e r by (simp add: on_data_def split: prod.split option.split)
  moreover have "rm_fallbacks (on_error sources e r) \<le> 1 \<and>
      (rm_fallbacks (on_error sources e r) = 1 \<longleftrightarrow> rm_fallback (on_error sources e r))"
    if "rm_fallbacks r \<le> 1" "rm_fallbacks r = 1 \<longleftrightarrow> rm_fallback r" for sources e r
  proof -
    obtain b n where "reportRuntimeSourceError e sources = (b, n)" by fastforce
    with that show ?thesis by (cases b; cases n) (auto simp: on_error_def)
  qed
  ultimately show ?case
    using snoc by (cases "snd se") (simp_all add: runtime_run_snoc runtime_step_def)
qed


section \<open>Tokens of query tiles\<close>

lemma delete_params_gone: "p \<in> set (delete_params names ps) \<Longrightarrow> fst p \<notin> set names"
  by (simp add: delete_params_def)

lemma hash_cut:
  assumes "CHR ''#'' \<notin> set s" "hash = [] \<or> hd hash = CHR ''#''"
  shows "takeWhile (\<lambda>c. c \<noteq> CHR ''#'') (s @ hash) = s"
proof -
  have "takeWhile (\<lambda>c. c \<noteq> CHR ''#'') hash = []" using assms(2) by (cases hash) auto
  moreover have "\<And>c. c \<in> set s \<Longrightarrow> c \<noteq> CHR ''#''" using assms(1) by metis
  ultimately show ?thesis by (simp add: takeWhile_append2)
qed

text \<open>What a URL library promises of the parts of a URL.\<close>

definition url_parts_ok :: "web_url \<Rightarrow> bool" where
  "url_parts_ok u \<longleftrightarrow>
     CHR ''?'' \<notin> set (wu_origin u @ wu_pathname u) \<and> CHR ''#'' \<notin> set (wu_origin u @ wu_pathname u) \<and>
     (wu_hash u = [] \<or> hd (wu_hash u) = CHR ''#'')"

lemma params_of_tile_url:
  assumes "CHR ''?'' \<notin> set front" "CHR ''#'' \<notin> set front" "hash = [] \<or> hd hash = CHR ''#''"
  shows "url_params (front @ query_text ps @ hash) = Some ps"
proof -
  have "CHR ''#'' \<notin> set (front @ query_text ps)"
    using assms(2) form_serialize_chars [of "CHR ''#''" ps] by (auto simp: query_text_def)
  note cuts = hash_cut [OF this assms(3)] hash_cut [OF this, of "[]"]
  have href: "url_href front ps = front @ query_text ps" by (simp add: url_href_def query_text_def)
  have cut: "takeWhile (\<lambda>c. c \<noteq> CHR ''#'') (front @ query_text ps @ hash) =
      takeWhile (\<lambda>c. c \<noteq> CHR ''#'') (url_href front ps)"
    unfolding href using cuts by (simp only: append_assoc append_Nil2 simp_thms)
  then show ?thesis using url_params_href [OF assms(1,2), of ps] by (simp add: url_params_def)
qed

text \<open>
  C15: the token of a query travels in the header only: a request that is sent on carries the token
  that is held for the query its path names, and its URL has the other parameters of the request and
  none of the names under which a token could be written.
\<close>

theorem query_token_stays_in_header:
  assumes "resolve_url lib requestUrl base = Some u" and "url_parts_ok u"
    and "transformQueryTileRequest lib base requestUrl queryTokens = Inr (Some (TileRequest url token))"
  shows "\<exists>queryId decoded params. QUERY_TILE_PATH (wu_pathname u) = Some queryId \<and>
    decodeURIComponent queryId = Some decoded \<and> map_of queryTokens decoded = Some token \<and> token \<noteq> [] \<and>
    form_parse (drop 1 (wu_search u)) = Some params \<and>
    url_params url = Some (filter (\<lambda>p. fst p \<notin> {''token'', ''query_token'', ''queryToken''}) params)"
proof -
  obtain queryId decoded where path: "QUERY_TILE_PATH (wu_pathname u) = Some queryId" "decodeURIComponent queryId = Some decoded"
    using assms(3) by (auto simp: transformQueryTileRequest_def assms(1) split: option.splits)
  obtain params where token: "map_of queryTokens decoded = Some token" "token \<noteq> []"
    "form_parse (drop 1 (wu_search u)) = Some params"
    and url: "url = (if isAbsoluteUrl requestUrl then wu_origin u else []) @ wu_pathname u @
      query_text (delete_params TOKEN_PARAMS params) @ wu_hash u"
    using assms(3) by (auto simp: transformQueryTileRequest_def assms(1) path Let_def split: option.splits if_splits)
  define front where "front = (if isAbsoluteUrl requestUrl then wu_origin u else []) @ wu_pathname u"
  have "url_params (front @ query_text (delete_params TOKEN_PARAMS params) @ wu_hash u) = Some (delete_params TOKEN_PARAMS params)"
    using assms(2) by (intro params_of_tile_url) (auto simp: url_parts_ok_def front_def)
  then have "url_params url = Some (filter (\<lambda>p. fst p \<notin> {''token'', ''query_token'', ''queryToken''}) params)"
    by (simp add: url front_def delete_params_def TOKEN_PARAMS_def)
  with path token show ?thesis by blast
qed

text \<open>The origin of the URL is not looked at: the token goes wherever the path has the form of a tile.\<close>

definition demo_urls :: url_library where
  "demo_urls =
     \<lparr>parse_url = (\<lambda>s. None),
      resolve_url = (\<lambda>s base. if s = ''https://other.example/api/queries/q/tiles/0/0/0.mvt?token=x&v=1''
        then Some \<lparr>wu_origin = ''https://other.example'', wu_pathname = ''/api/queries/q/tiles/0/0/0.mvt'',
          wu_search = ''?token=x&v=1'', wu_hash = []\<rparr> else None)\<rparr>"

definition demo_base :: web_url where
  "demo_base = \<lparr>wu_origin = ''http://localhost'', wu_pathname = ''/'', wu_search = [], wu_hash = []\<rparr>"

lemma token_sent_to_other_origin:
  "transformQueryTileRequest demo_urls demo_base ''https://other.example/api/queries/q/tiles/0/0/0.mvt?token=x&v=1'' [(''q'', ''t'')] =
     Inr (Some (TileRequest ''https://other.example/api/queries/q/tiles/0/0/0.mvt?v=1'' ''t''))"
  by code_simp

theorem query_token_stays_in_header_witness:
  "url_params ''https://other.example/api/queries/q/tiles/0/0/0.mvt?v=1'' = Some [(''v'', ''1'')]"
proof -
  define u where "u = \<lparr>wu_origin = ''https://other.example'', wu_pathname = ''/api/queries/q/tiles/0/0/0.mvt'',
      wu_search = ''?token=x&v=1'', wu_hash = []\<rparr>"
  have u: "resolve_url demo_urls ''https://other.example/api/queries/q/tiles/0/0/0.mvt?token=x&v=1'' demo_base = Some u"
    by (simp add: demo_urls_def u_def)
  have "url_parts_ok u" by (simp add: url_parts_ok_def u_def)
  from query_token_stays_in_header [OF u this token_sent_to_other_origin]
  obtain params where p: "form_parse (drop 1 (wu_search u)) = Some params"
    "url_params ''https://other.example/api/queries/q/tiles/0/0/0.mvt?v=1'' =
       Some (filter (\<lambda>p. fst p \<notin> {''token'', ''query_token'', ''queryToken''}) params)" by blast
  have "form_parse ''token=x&v=1'' = Some [(''token'', ''x''), (''v'', ''1'')]" by code_simp
  then have "params = [(''token'', ''x''), (''v'', ''1'')]" using p(1) by (simp add: u_def)
  with p(2) show ?thesis by simp
qed

section \<open>Pointer events\<close>

text \<open>A rendered feature, as far as the handlers look at it; \<open>fe_layerSourceLayer\<close> is \<open>layer["source-layer"]\<close>.\<close>

record map_feature =
  fe_id :: "json option"
  fe_source :: string
  fe_sourceLayer :: "string option"
  fe_layerSourceLayer :: "string option"

definition renderedSourceLayer :: "map_feature \<Rightarrow> string option" where
  "renderedSourceLayer f =
     (case fe_sourceLayer f of
        Some l \<Rightarrow> if l \<noteq> [] then Some l else fe_layerSourceLayer f
      | None \<Rightarrow> fe_layerSourceLayer f)"

definition layerLabelForFeature :: "map_feature option \<Rightarrow> string option" where
  "layerLabelForFeature f = Option.bind f renderedSourceLayer"

definition mapSourceForFeature :: "map_feature \<Rightarrow> string" where
  "mapSourceForFeature f = (if fe_source f \<noteq> [] then fe_source f else ''pmtiles'')"

text \<open>\<open>map.queryRenderedFeatures\<close> at a point and in a box.\<close>

record rendered =
  at_point :: "point \<Rightarrow> string list \<Rightarrow> map_feature list"
  in_box :: "point \<times> point \<Rightarrow> string list \<Rightarrow> map_feature list"

record hover_info =
  hi_point :: point
  hi_features :: "map_feature list"
  hi_layerLabel :: "string option"
  hi_selectedIndex :: nat
  hi_isPinned :: bool
  hi_lngLat :: "point option"

text \<open>
  The refs of the hook and what the handlers change: the selection box on the map, the cursor, panning,
  the pending timers, the selections reported so far and the two popups. \<open>pt_popups\<close>: whether the page
  passes \<open>onPinnedPopup\<close>.
\<close>

record pointer =
  pt_active :: bool
  pt_layers :: "string list"
  pt_popups :: bool
  pt_start :: "point option"
  pt_startLngLat :: "point option"
  pt_suppress :: bool
  pt_timers :: nat
  pt_dragPan :: bool
  pt_crosshair :: bool
  pt_box :: "point list option"
  pt_selections :: "map_feature list list"
  pt_hover :: "hover_info option"
  pt_pinned :: "hover_info option"

datatype pointer_event =
    MouseDown point point
  | MouseMove point point
  | MouseUp point point
  | Click point point
  | Timer
  | SelectionActive bool
  | InteractiveLayers "string list"
  | ClearSelectionBox

definition queryRenderedSelectionFeatures :: "rendered \<Rightarrow> point \<Rightarrow> string list \<Rightarrow> map_feature list" where
  "queryRenderedSelectionFeatures m p layers = (if layers = [] then [] else at_point m p layers)"

definition queryRenderedBoxFeatures :: "rendered \<Rightarrow> point \<Rightarrow> point \<Rightarrow> string list \<Rightarrow> map_feature list" where
  "queryRenderedBoxFeatures m start end layers =
     (if layers = [] then []
      else in_box m ((min (fst start) (fst end), min (snd start) (snd end)), (max (fst start) (fst end), max (snd start) (snd end)))
        layers)"

definition first_of :: "'a list \<Rightarrow> 'a option" where
  "first_of xs = (case xs of [] \<Rightarrow> None | x # _ \<Rightarrow> Some x)"

definition handleMapClick :: "rendered \<Rightarrow> point \<Rightarrow> point \<Rightarrow> pointer \<Rightarrow> pointer" where
  "handleMapClick m p lngLat s =
     (let s' = s\<lparr>pt_box := None\<rparr> in
      if \<not> pt_popups s \<or> pt_layers s = [] then s'
      else
        (let features = at_point m p (pt_layers s) in
         if features = [] then s'\<lparr>pt_pinned := None\<rparr>
         else s'\<lparr>pt_pinned := Some \<lparr>hi_point = p, hi_features = features,
           hi_layerLabel = layerLabelForFeature (first_of features),
           hi_selectedIndex = 0, hi_isPinned = True, hi_lngLat = Some lngLat\<rparr>\<rparr>))"

definition on_click :: "rendered \<Rightarrow> point \<Rightarrow> point \<Rightarrow> pointer \<Rightarrow> pointer" where
  "on_click m p lngLat s =
     (if pt_layers s = [] then s
      else if pt_suppress s then s\<lparr>pt_suppress := False\<rparr>
      else handleMapClick m p lngLat
        (s\<lparr>pt_selections := pt_selections s @ [queryRenderedSelectionFeatures m p (pt_layers s)]\<rparr>))"

definition on_mousedown :: "point \<Rightarrow> point \<Rightarrow> pointer \<Rightarrow> pointer" where
  "on_mousedown p lngLat s =
     (if pt_layers s = [] \<or> \<not> pt_active s then s
      else s\<lparr>pt_start := Some p, pt_startLngLat := Some lngLat, pt_box := Some (selectionBoxFeature lngLat lngLat),
        pt_crosshair := True, pt_dragPan := False\<rparr>)"

text \<open>The two \<open>mousemove\<close> handlers in their order: the hover popup, then the box.\<close>

definition hover_move :: "rendered \<Rightarrow> point \<Rightarrow> pointer \<Rightarrow> pointer" where
  "hover_move m p s =
     (if pt_layers s = [] then s
      else
        (let features = at_point m p (pt_layers s) in
         if features = [] then s\<lparr>pt_hover := None\<rparr>
         else s\<lparr>pt_hover := Some \<lparr>hi_point = p, hi_features = features,
           hi_layerLabel = layerLabelForFeature (first_of features),
           hi_selectedIndex = 0, hi_isPinned = False, hi_lngLat = None\<rparr>\<rparr>))"

definition box_move :: "point \<Rightarrow> pointer \<Rightarrow> pointer" where
  "box_move lngLat s =
     (case (pt_start s, pt_startLngLat s) of
        (Some p, Some start) \<Rightarrow> s\<lparr>pt_box := Some (selectionBoxFeature start lngLat)\<rparr>
      | _ \<Rightarrow> s)"

definition on_mouseup :: "rendered \<Rightarrow> point \<Rightarrow> point \<Rightarrow> pointer \<Rightarrow> pointer" where
  "on_mouseup m p lngLat s =
     (case pt_start s of
        None \<Rightarrow> s
      | Some start \<Rightarrow>
          (let s1 = s\<lparr>pt_start := None, pt_startLngLat := None, pt_dragPan := True, pt_crosshair := pt_active s\<rparr> in
           if \<not> isSelectionDrag start p then s1\<lparr>pt_box := None\<rparr>
           else
             s1\<lparr>pt_box := (case pt_startLngLat s of None \<Rightarrow> pt_box s | Some l \<Rightarrow> Some (selectionBoxFeature l lngLat)),
               pt_suppress := True, pt_timers := Suc (pt_timers s),
               pt_selections := pt_selections s @ [queryRenderedBoxFeatures m start p (pt_layers s)]\<rparr>))"

definition pointer_step :: "rendered \<Rightarrow> pointer_event \<Rightarrow> pointer \<Rightarrow> pointer" where
  "pointer_step m e s =
     (case e of
        MouseDown p l \<Rightarrow> on_mousedown p l s
      | MouseMove p l \<Rightarrow> box_move l (hover_move m p s)
      | MouseUp p l \<Rightarrow> on_mouseup m p l s
      | Click p l \<Rightarrow> on_click m p l s
      | Timer \<Rightarrow> if pt_timers s = 0 then s else s\<lparr>pt_suppress := False, pt_timers := pt_timers s - 1\<rparr>
      | SelectionActive b \<Rightarrow>
          (let s' = s\<lparr>pt_active := b\<rparr> in if pt_start s = None then s'\<lparr>pt_crosshair := b\<rparr> else s')
      | InteractiveLayers ids \<Rightarrow> s\<lparr>pt_layers := ids\<rparr>
      | ClearSelectionBox \<Rightarrow> s\<lparr>pt_start := None, pt_startLngLat := None, pt_box := None\<rparr>)"

definition pointer_run :: "rendered \<Rightarrow> pointer_event list \<Rightarrow> pointer \<Rightarrow> pointer" where
  "pointer_run m es s = fold (pointer_step m) es s"

fun is_move :: "pointer_event \<Rightarrow> bool" where
  "is_move (MouseMove p l) = True"
| "is_move e = False"

text \<open>Moving changes the hover popup and the box only.\<close>

lemma moves_keep:
  assumes "list_all is_move es"
  shows "\<exists>h b. pointer_run m es s = s\<lparr>pt_hover := h, pt_box := b\<rparr>"
  using assms
proof (induction es arbitrary: s)
  case Nil
  show ?case by (rule exI [of _ "pt_hover s"], rule exI [of _ "pt_box s"]) (simp add: pointer_run_def)
next
  case (Cons e es)
  then obtain p l where e: "e = MouseMove p l" by (cases e) auto
  have "\<exists>h b. pointer_step m e s = s\<lparr>pt_hover := h, pt_box := b\<rparr>"
  proof -
    have "\<exists>h. hover_move m p s = s\<lparr>pt_hover := h\<rparr>"
      by (rule exI [of _ "pt_hover (hover_move m p s)"]) (simp add: hover_move_def Let_def)
    then obtain h where h: "hover_move m p s = s\<lparr>pt_hover := h\<rparr>" by blast
    have "box_move l (s\<lparr>pt_hover := h\<rparr>) = s\<lparr>pt_hover := h, pt_box := pt_box (box_move l (s\<lparr>pt_hover := h\<rparr>))\<rparr>"
      by (simp add: box_move_def split: option.split)
    with h e show ?thesis by (intro exI) (simp add: pointer_step_def)
  qed
  then obtain h b where step: "pointer_step m e s = s\<lparr>pt_hover := h, pt_box := b\<rparr>" by blast
  have "list_all is_move es" using Cons.prems by simp
  from Cons.IH [OF this, of "pointer_step m e s"] obtain h' b' where
    "pointer_run m es (pointer_step m e s) = (pointer_step m e s)\<lparr>pt_hover := h', pt_box := b'\<rparr>" by blast
  then show ?case by (intro exI [of _ h'] exI [of _ b']) (simp add: pointer_run_def step)
qed

text \<open>
  C22: dragging a box selects once: pressing, any movement and releasing reports the features in the
  rectangle of the two points if they are far enough apart, shows that rectangle and makes the click
  that follows select nothing; otherwise nothing is reported, the box is hidden and the click selects
  at its point. Either way panning is on again and nothing of the drag is left.
\<close>

theorem drag_selects_once:
  assumes "pt_active s" and "pt_layers s \<noteq> []" and "\<not> pt_suppress s" and "list_all is_move moves"
    and "s' = pointer_run m (MouseDown p l # moves @ [MouseUp q k]) s"
  shows "pt_start s' = None \<and> pt_startLngLat s' = None \<and> pt_dragPan s' \<and> pt_crosshair s' \<and>
    (if isSelectionDrag p q
     then pt_selections s' = pt_selections s @ [in_box m (selectionScreenBounds p q) (pt_layers s)] \<and>
       pt_box s' = Some (selectionBoxFeature l k) \<and>
       pt_selections (pointer_step m (Click c k') s') = pt_selections s' \<and>
       \<not> pt_suppress (pointer_step m (Click c k') s') \<and> \<not> pt_suppress (pointer_step m Timer s')
     else pt_box s' = None \<and> pt_selections s' = pt_selections s \<and>
       pt_selections (pointer_step m (Click c k') s') = pt_selections s @ [at_point m c (pt_layers s)])"
proof -
  define s1 where "s1 = pointer_step m (MouseDown p l) s"
  have s1: "s1 = s\<lparr>pt_start := Some p, pt_startLngLat := Some l, pt_box := Some (selectionBoxFeature l l),
      pt_crosshair := True, pt_dragPan := False\<rparr>"
    using assms(1,2) by (simp add: s1_def pointer_step_def on_mousedown_def)
  obtain h b where moved: "pointer_run m moves s1 = s1\<lparr>pt_hover := h, pt_box := b\<rparr>"
    using moves_keep [OF assms(4)] by blast
  have s': "s' = on_mouseup m q k (s1\<lparr>pt_hover := h, pt_box := b\<rparr>)"
    using moved by (simp add: assms(5) pointer_run_def s1_def pointer_step_def)
  show ?thesis
    using assms(1-3)
    by (simp add: s' s1 on_mouseup_def pointer_step_def on_click_def handleMapClick_def Let_def
        queryRenderedBoxFeatures_def queryRenderedSelectionFeatures_def selectionScreenBounds_def)
qed

text \<open>
  Clearing the box while it is drawn leaves panning off: no later event of that drag turns it on, since
  \<open>mouseup\<close> only does so when a drag is under way.
\<close>

lemma cleared_drag_keeps_map_frozen:
  assumes "pt_active s" "pt_layers s \<noteq> []"
  shows "\<not> pt_dragPan (pointer_run m [MouseDown p l, ClearSelectionBox, MouseUp q k, Click c k', Timer] s)"
  using assms
  by (simp add: pointer_run_def pointer_step_def on_mousedown_def on_mouseup_def on_click_def handleMapClick_def Let_def)

definition demo_rendered :: rendered where
  "demo_rendered = \<lparr>at_point = (\<lambda>p ids. []), in_box = (\<lambda>b ids.
     [\<lparr>fe_id = Some (JStr ''f''), fe_source = ''s'', fe_sourceLayer = Some ''l'', fe_layerSourceLayer = None\<rparr>])\<rparr>"

definition demo_pointer :: pointer where
  "demo_pointer = \<lparr>pt_active = True, pt_layers = [''a''], pt_popups = True, pt_start = None, pt_startLngLat = None,
     pt_suppress = False, pt_timers = 0, pt_dragPan = True, pt_crosshair = True, pt_box = None, pt_selections = [],
     pt_hover = None, pt_pinned = None\<rparr>"

theorem drag_selects_once_witness:
  "pt_selections (pointer_run demo_rendered [MouseDown (0, 0) (1, 1), MouseMove (5, 5) (2, 2), MouseUp (9, 9) (3, 3)] demo_pointer) =
     [in_box demo_rendered ((0, 0), (9, 9)) [''a'']]"
proof -
  have drag: "isSelectionDrag (0, 0) (9, 9)" by (simp add: isSelectionDrag_def MIN_SELECTION_DRAG_DISTANCE_def)
  have "pointer_run demo_rendered ([MouseDown (0, 0) (1, 1)] @ [MouseMove (5, 5) (2, 2)] @ [MouseUp (9, 9) (3, 3)]) demo_pointer =
      pointer_run demo_rendered (MouseDown (0, 0) (1, 1) # [MouseMove (5, 5) (2, 2)] @ [MouseUp (9, 9) (3, 3)]) demo_pointer"
    by simp
  from drag_selects_once [OF _ _ _ _ this, of "(0, 0)" "(3, 3)"] drag show ?thesis
    by (simp add: demo_pointer_def selectionScreenBounds_def)
qed

section \<open>The pinned popup\<close>

text \<open>\<open>extent\<close> is the popup's width or height, \<open>room\<close> that of its parent; without a parent nothing is clamped.\<close>

definition popup_offset :: "rat \<Rightarrow> rat \<Rightarrow> rat option \<Rightarrow> rat" where
  "popup_offset x extent room =
     (case room of None \<Rightarrow> x + 12 | Some r \<Rightarrow> max 8 (min (x + 12) (r - extent - 8)))"

definition syncPinnedPopupPosition ::
  "(point \<Rightarrow> point) \<Rightarrow> point option \<Rightarrow> (rat \<times> rat) option \<Rightarrow> (rat \<times> rat) option \<Rightarrow> (rat \<times> rat) option" where
  "syncPinnedPopupPosition project lngLat element parent =
     (case (lngLat, element) of
        (Some l, Some (width, height)) \<Rightarrow>
          Some (popup_offset (fst (project l)) width (map_option fst parent),
            popup_offset (snd (project l)) height (map_option snd parent))
      | _ \<Rightarrow> None)"

lemma popup_stays_inside:
  assumes "syncPinnedPopupPosition project lngLat (Some (w, h)) (Some (pw, ph)) = Some (x, y)"
    and "w + 16 \<le> pw" and "h + 16 \<le> ph"
  shows "8 \<le> x \<and> x + w + 8 \<le> pw \<and> 8 \<le> y \<and> y + h + 8 \<le> ph"
  using assms by (auto simp: syncPinnedPopupPosition_def popup_offset_def split: option.splits)

section \<open>The hovered feature\<close>

text \<open>\<open>hoveredFeatureRef\<close> and the features whose state on the map has \<open>hover\<close> set.\<close>

type_synonym feature_key = "string \<times> string \<times> json"

record hovering =
  hv_map :: bool
  hv_ref :: "feature_key option"
  hv_hovered :: "feature_key list"

definition clearHoverFeature :: "hovering \<Rightarrow> hovering" where
  "clearHoverFeature h =
     (case hv_ref h of
        Some k \<Rightarrow> if hv_map h then h\<lparr>hv_ref := None, hv_hovered := filter (\<lambda>x. x \<noteq> k) (hv_hovered h)\<rparr> else h
      | None \<Rightarrow> h)"

definition hover_key :: "map_feature \<Rightarrow> feature_key option" where
  "hover_key f =
     (case (renderedSourceLayer f, fe_id f) of
        (Some l, Some i) \<Rightarrow> if l = [] \<or> i = JNull then None else Some (mapSourceForFeature f, l, i)
      | _ \<Rightarrow> None)"

definition setHoverFeature :: "map_feature option \<Rightarrow> hovering \<Rightarrow> hovering" where
  "setHoverFeature f h =
     (case Option.bind f hover_key of
        None \<Rightarrow> h
      | Some k \<Rightarrow>
          if \<not> hv_map h \<or> hv_ref h = Some k then h
          else (let h' = clearHoverFeature h in h'\<lparr>hv_hovered := set_add k (hv_hovered h'), hv_ref := Some k\<rparr>))"

definition hover_inv :: "hovering \<Rightarrow> bool" where
  "hover_inv h \<longleftrightarrow> hv_hovered h = (case hv_ref h of None \<Rightarrow> [] | Some k \<Rightarrow> [k])"

lemma one_feature_hovered:
  assumes "hover_inv h"
  shows "hover_inv (clearHoverFeature h) \<and> hover_inv (setHoverFeature f h)"
  using assms
  by (auto simp: hover_inv_def clearHoverFeature_def setHoverFeature_def set_add_def Let_def split: option.splits)

end
