(* ===== verification/JsSchema.thy ===== *)
theory JsSchema
  imports JsJson "HOL-Library.Monad_Syntax"
begin

text \<open>
  What the source uses of zod: parsers of JSON values built from parsers of their members, \<open>None\<close> when the
  value is refused; and the reference to a source of a query, which the agents' tools write and the
  query API (\<open>webapp/src/lib/query-api.ts\<close>) reads.
\<close>

section \<open>Parsers\<close>

text \<open>Members of an object, required and optional; a strict object has no others.\<close>

definition req :: "(string \<times> json) list \<Rightarrow> string \<Rightarrow> (json \<Rightarrow> 'a option) \<Rightarrow> 'a option" where
  "req ms k f = Option.bind (map_of ms k) f"

definition opt :: "(string \<times> json) list \<Rightarrow> string \<Rightarrow> (json \<Rightarrow> 'a option) \<Rightarrow> 'a option option" where
  "opt ms k f = (case map_of ms k of None \<Rightarrow> Some None | Some j \<Rightarrow> map_option Some (f j))"

definition strict :: "string list \<Rightarrow> json \<Rightarrow> (string \<times> json) list option" where
  "strict names j =
     (case j of JObj ms \<Rightarrow> if list_all (\<lambda>m. fst m \<in> set names) ms then Some ms else None | _ \<Rightarrow> None)"

definition such_that :: "('a \<Rightarrow> bool) \<Rightarrow> (json \<Rightarrow> 'a option) \<Rightarrow> json \<Rightarrow> 'a option" where
  "such_that P f j = (case f j of None \<Rightarrow> None | Some x \<Rightarrow> if P x then Some x else None)"

definition j_text :: "json \<Rightarrow> string option" where
  "j_text j = (case j of JStr s \<Rightarrow> Some s | _ \<Rightarrow> None)"

definition j_text1 :: "json \<Rightarrow> string option" where
  "j_text1 = such_that (\<lambda>s. s \<noteq> []) j_text"

definition j_bool :: "json \<Rightarrow> bool option" where
  "j_bool j = (case j of JBool b \<Rightarrow> Some b | _ \<Rightarrow> None)"

definition j_finite :: "json \<Rightarrow> rat option" where
  "j_finite j = (case j of JNum (JsFin r) \<Rightarrow> Some r | _ \<Rightarrow> None)"

text \<open>\<open>z.number().int()\<close> takes safe integers only.\<close>

definition j_int :: "json \<Rightarrow> int option" where
  "j_int j =
     (case j of
        JNum (JsFin r) \<Rightarrow> (case quotient_of r of (p, q) \<Rightarrow> if q = 1 \<and> \<bar>p\<bar> \<le> 9007199254740991 then Some p else None)
      | _ \<Rightarrow> None)"

definition j_list :: "(json \<Rightarrow> 'a option) \<Rightarrow> json \<Rightarrow> 'a list option" where
  "j_list f j = (case j of JArr xs \<Rightarrow> those (map f xs) | _ \<Rightarrow> None)"

definition j_nonneg :: "json \<Rightarrow> int option" where
  "j_nonneg = such_that (\<lambda>i. 0 \<le> i) j_int"

definition with_default :: "'a \<Rightarrow> 'a option \<Rightarrow> 'a" where
  "with_default d x = (case x of None \<Rightarrow> d | Some y \<Rightarrow> y)"

section \<open>References to query sources\<close>

text \<open>\<open>/^[A-Za-z_][A-Za-z0-9_]{0,62}$/\<close>.\<close>

definition is_word_start :: "char \<Rightarrow> bool" where
  "is_word_start c \<longleftrightarrow> is_lower_alpha c \<or> is_upper_alpha c \<or> c = CHR ''_''"

definition is_alias :: "string \<Rightarrow> bool" where
  "is_alias s \<longleftrightarrow> s \<noteq> [] \<and> length s \<le> 63 \<and> is_word_start (hd s) \<and> list_all (\<lambda>c. is_word_start c \<or> is_digit c) (tl s)"

record source_ref =
  sr_alias :: string
  sr_collection_slug :: string
  sr_dataset_slug :: string
  sr_file_slug :: string
  sr_version :: string
  sr_asset_key :: string
  sr_storage_location_slug :: "string option"

definition QuerySourceRefSchema :: "json \<Rightarrow> source_ref option" where
  "QuerySourceRefSchema j =
     do {
       ms \<leftarrow> strict [''alias'', ''collection_slug'', ''dataset_slug'', ''file_slug'', ''version'', ''asset_key'',
         ''storage_location_slug''] j;
       alias \<leftarrow> req ms ''alias'' (such_that is_alias j_text);
       collection \<leftarrow> req ms ''collection_slug'' j_text1;
       dataset \<leftarrow> req ms ''dataset_slug'' j_text1;
       slug \<leftarrow> req ms ''file_slug'' j_text1;
       version \<leftarrow> req ms ''version'' j_text1;
       key \<leftarrow> req ms ''asset_key'' j_text1;
       location \<leftarrow> opt ms ''storage_location_slug'' j_text1;
       Some \<lparr>sr_alias = alias, sr_collection_slug = collection, sr_dataset_slug = dataset, sr_file_slug = slug,
         sr_version = version, sr_asset_key = key, sr_storage_location_slug = location\<rparr>
     }"

definition opt_member :: "string \<Rightarrow> string option \<Rightarrow> (string \<times> json) list" where
  "opt_member k x = (case x of None \<Rightarrow> [] | Some s \<Rightarrow> [(k, JStr s)])"

definition j_of_int :: "int \<Rightarrow> json" where
  "j_of_int i = JNum (JsFin (of_int i))"

definition source_ref_json :: "source_ref \<Rightarrow> json" where
  "source_ref_json s =
     JObj ([(''alias'', JStr (sr_alias s)), (''collection_slug'', JStr (sr_collection_slug s)),
            (''dataset_slug'', JStr (sr_dataset_slug s)), (''file_slug'', JStr (sr_file_slug s)),
            (''version'', JStr (sr_version s)), (''asset_key'', JStr (sr_asset_key s))]
           @ opt_member ''storage_location_slug'' (sr_storage_location_slug s))"

section \<open>Reading what was written\<close>

lemma such_that_Some [simp]: "such_that P f j = Some x \<longleftrightarrow> f j = Some x \<and> P x"
  by (auto simp: such_that_def split: option.splits)

lemma such_that_text [simp]: "such_that P j_text (JStr s) = (if P s then Some s else None)"
  by (simp add: such_that_def j_text_def)

lemma j_text1_JStr [simp]: "j_text1 (JStr s) = (if s \<noteq> [] then Some s else None)"
  by (simp add: j_text1_def)

lemma j_text1_not_Nil: "j_text1 j \<noteq> Some []"
  by (simp add: j_text1_def)

lemma opt_Some: "opt ms k f = Some (Some x) \<Longrightarrow> \<exists>j. f j = Some x"
  by (auto simp: opt_def split: option.splits)

lemma bind_Some: "Option.bind x f = Some y \<longleftrightarrow> (\<exists>z. x = Some z \<and> f z = Some y)"
  by (cases x) simp_all

lemma j_int_of_int: "j_int (j_of_int i) = (if \<bar>i\<bar> \<le> 9007199254740991 then Some i else None)"
  by (simp add: j_int_def j_of_int_def)

lemma j_int_safe: "j_int j = Some i \<Longrightarrow> \<bar>i\<bar> \<le> 9007199254740991"
  by (auto simp: j_int_def split: json.splits js_number.splits prod.splits if_splits)

lemma those_Some_list_all:
  assumes "those (map f xs) = Some ys" "\<And>x y. f x = Some y \<Longrightarrow> P y"
  shows "list_all P ys"
  using assms(1)
proof (induction xs arbitrary: ys)
  case (Cons x xs)
  then show ?case using assms(2) by (auto split: option.splits)
qed simp

lemma those_map_id: "list_all (\<lambda>x. f (g x) = Some x) xs \<Longrightarrow> those (map f (map g xs)) = Some xs"
  by (induction xs) auto

definition source_ref_ok :: "source_ref \<Rightarrow> bool" where
  "source_ref_ok s \<longleftrightarrow>
     is_alias (sr_alias s) \<and> sr_collection_slug s \<noteq> [] \<and> sr_dataset_slug s \<noteq> [] \<and> sr_file_slug s \<noteq> [] \<and>
     sr_version s \<noteq> [] \<and> sr_asset_key s \<noteq> [] \<and> sr_storage_location_slug s \<noteq> Some []"

lemma source_ref_schema_ok:
  assumes "QuerySourceRefSchema j = Some s"
  shows "source_ref_ok s"
proof -
  have "opt ms k j_text1 \<noteq> Some (Some [])" for ms k
    using j_text1_not_Nil by (auto simp: opt_def split: option.split)
  then show ?thesis
    using assms j_text1_not_Nil
    unfolding QuerySourceRefSchema_def bind_Some req_def source_ref_ok_def
    by (clarsimp simp: such_that_Some) metis
qed

lemma source_ref_roundtrip: "source_ref_ok s \<Longrightarrow> QuerySourceRefSchema (source_ref_json s) = Some s"
  by (cases "sr_storage_location_slug s")
    (auto simp: QuerySourceRefSchema_def source_ref_json_def source_ref_ok_def strict_def req_def opt_def opt_member_def)

lemma clean_source_ref: "json_clean (source_ref_json s)"
  by (cases "sr_storage_location_slug s") (simp_all add: source_ref_json_def opt_member_def)

end
