(* ===== verification/QueryApi.thy ===== *)
theory QueryApi
  imports JsBytes JsSchema MapLayers
begin

text \<open>
  SQL queries: the schemas and the client of \<open>webapp/src/lib/query-api.ts\<close>, the proxy routes
  \<open>/api/queries\<close>, \<open>/api/queries/{id}/pages\<close> and \<open>/api/queries/{id}/bounds\<close>, and the pages of a result as
  \<open>components/map/queryResults.ts\<close> keeps them. The query service, \<open>fetch\<close> and \<open>new URL\<close> are parameters.
\<close>

section \<open>Schemas\<close>

definition j_page_size :: "json \<Rightarrow> int option" where
  "j_page_size = such_that (\<lambda>i. 0 < i \<and> i \<le> 1000) j_int"

definition MAX_QUERY_SQL_BYTES :: nat where "MAX_QUERY_SQL_BYTES = 8 * 1024"

definition MAX_QUERY_BODY_BYTES :: nat where "MAX_QUERY_BODY_BYTES = 64 * 1024"

definition utf8ByteLength :: "string \<Rightarrow> nat" where
  "utf8ByteLength s = length (utf8_encode s)"

text \<open>\<open>/^[A-Za-z0-9_-]{20,64}$/\<close> and \<open>/^\S+$/\<close> with at most 8192 characters.\<close>

definition QueryIdSchema :: "string \<Rightarrow> bool" where
  "QueryIdSchema s \<longleftrightarrow> 20 \<le> length s \<and> length s \<le> 64 \<and> list_all b64_token_char s"

definition QueryTokenSchema :: "string \<Rightarrow> bool" where
  "QueryTokenSchema s \<longleftrightarrow> s \<noteq> [] \<and> length s \<le> 8192 \<and> list_all (\<lambda>c. \<not> is_space c) s"

subsection \<open>Requests\<close>

record query_request =
  qr_sources :: "source_ref list"
  qr_sql :: string
  qr_limit :: int
  qr_geometry_column :: "string option"
  qr_result_crs :: "string option"

definition QueryRequestSchema :: "json \<Rightarrow> query_request option" where
  "QueryRequestSchema j =
     do {
       ms \<leftarrow> strict [''sources'', ''sql'', ''limit'', ''geometry_column'', ''result_crs''] j;
       sources \<leftarrow> req ms ''sources'' (such_that (\<lambda>xs. 1 \<le> length xs \<and> length xs \<le> 8) (j_list QuerySourceRefSchema));
       sql \<leftarrow> req ms ''sql'' (such_that (\<lambda>s. s \<noteq> [] \<and> length s \<le> MAX_QUERY_SQL_BYTES \<and>
         utf8ByteLength s \<le> MAX_QUERY_SQL_BYTES) j_text);
       limit \<leftarrow> opt ms ''limit'' j_page_size;
       geometry \<leftarrow> opt ms ''geometry_column'' j_text1;
       crs \<leftarrow> opt ms ''result_crs'' j_text1;
       Some \<lparr>qr_sources = sources, qr_sql = sql, qr_limit = with_default 100 limit,
         qr_geometry_column = geometry, qr_result_crs = crs\<rparr>
     }"

record page_request =
  pr_offset :: int
  pr_page_size :: int

definition QueryPageRequestSchema :: "json \<Rightarrow> page_request option" where
  "QueryPageRequestSchema j =
     do {
       ms \<leftarrow> strict [''offset'', ''page_size''] j;
       offset \<leftarrow> req ms ''offset'' j_nonneg;
       size \<leftarrow> opt ms ''page_size'' j_page_size;
       Some \<lparr>pr_offset = offset, pr_page_size = with_default 100 size\<rparr>
     }"

text \<open>What \<open>JSON.stringify\<close> writes of a parsed request; zod gives the members in the order of the schema.\<close>

definition query_request_json :: "query_request \<Rightarrow> json" where
  "query_request_json r =
     JObj ([(''sources'', JArr (map source_ref_json (qr_sources r))), (''sql'', JStr (qr_sql r)),
            (''limit'', j_of_int (qr_limit r))]
           @ opt_member ''geometry_column'' (qr_geometry_column r) @ opt_member ''result_crs'' (qr_result_crs r))"

definition page_request_json :: "page_request \<Rightarrow> json" where
  "page_request_json r = JObj [(''offset'', j_of_int (pr_offset r)), (''page_size'', j_of_int (pr_page_size r))]"

subsection \<open>Results\<close>

text \<open>A tuple of four numbers, and the summary objects that stand for geometries and long values.\<close>

definition j_four :: "json \<Rightarrow> (rat \<times> rat \<times> rat \<times> rat) option" where
  "j_four j = (case j_list j_finite j of Some [a, b, c, d] \<Rightarrow> Some (a, b, c, d) | _ \<Rightarrow> None)"

definition geometrySummarySchema :: "json \<Rightarrow> bool" where
  "geometrySummarySchema j \<longleftrightarrow>
     do {
       ms \<leftarrow> strict [''$type'', ''geometry_type'', ''byte_length'', ''bounds''] j;
       t \<leftarrow> req ms ''$type'' (such_that (\<lambda>s. s = ''geometry'') j_text);
       g \<leftarrow> opt ms ''geometry_type'' j_text1;
       n \<leftarrow> req ms ''byte_length'' j_nonneg;
       opt ms ''bounds'' j_four
     } \<noteq> None"

definition truncatedValueSchema :: "json \<Rightarrow> bool" where
  "truncatedValueSchema j \<longleftrightarrow>
     do {
       ms \<leftarrow> strict [''$type'', ''byte_length''] j;
       t \<leftarrow> req ms ''$type'' (such_that (\<lambda>s. s = ''truncated'') j_text);
       req ms ''byte_length'' j_nonneg
     } \<noteq> None"

definition raw_value :: "(string \<times> json) list \<Rightarrow> bool" where
  "raw_value ms \<longleftrightarrow> map_of ms ''$type'' = Some (JStr ''binary'') \<or>
     ''type'' \<in> fst ` set ms \<and> ''coordinates'' \<in> fst ` set ms"

fun QueryCellSchema :: "json \<Rightarrow> bool" where
  "QueryCellSchema (JNum n) = isFinite n"
| "QueryCellSchema (JArr xs) = (\<forall>x \<in> set xs. QueryCellSchema x)"
| "QueryCellSchema (JObj ms) =
     (geometrySummarySchema (JObj ms) \<or> truncatedValueSchema (JObj ms) \<or>
      (\<forall>m \<in> set ms. QueryCellSchema (snd m)) \<and> \<not> raw_value ms)"
| "QueryCellSchema j = True"

definition QueryRowSchema :: "json \<Rightarrow> (string \<times> json) list option" where
  "QueryRowSchema j =
     (case j of JObj ms \<Rightarrow> if list_all (\<lambda>m. QueryCellSchema (snd m)) ms then Some ms else None | _ \<Rightarrow> None)"

record service_column =
  co_name :: string
  co_type :: string
  co_nullable :: bool

definition QueryColumnSchema :: "json \<Rightarrow> service_column option" where
  "QueryColumnSchema j =
     do {
       ms \<leftarrow> strict [''name'', ''type'', ''nullable''] j;
       name \<leftarrow> req ms ''name'' j_text1;
       type \<leftarrow> req ms ''type'' j_text1;
       nullable \<leftarrow> req ms ''nullable'' j_bool;
       Some \<lparr>co_name = name, co_type = type, co_nullable = nullable\<rparr>
     }"

text \<open>The members of a \<open>URL\<close> object that the schema looks at.\<close>

record full_url =
  fu_protocol :: string
  fu_username :: string
  fu_password :: string
  fu_pathname :: string
  fu_search :: string
  fu_hash :: string

type_synonym new_url = "string \<Rightarrow> full_url option"

definition httpUrlSchema :: "new_url \<Rightarrow> string \<Rightarrow> bool" where
  "httpUrlSchema url v \<longleftrightarrow>
     (case url v of None \<Rightarrow> False | Some u \<Rightarrow> fu_protocol u = ''http:'' \<or> fu_protocol u = ''https:'')"

text \<open>\<open>/^\/api\/queries\/([A-Za-z0-9_-]{20,64})\/tiles\/\{z\}\/\{x\}\/\{y\}\.mvt$/\<close>: the id of a match.\<close>

definition queryTilePathPattern :: "string \<Rightarrow> string option" where
  "queryTilePathPattern path =
     (if \<not> startsWith path ''/api/queries/'' then None
      else
        (let rest = drop 13 path; i = takeWhile b64_token_char rest in
         if QueryIdSchema i \<and> dropWhile b64_token_char rest = ''/tiles/{z}/{x}/{y}.mvt'' then Some i else None))"

definition queryTileId :: "new_url \<Rightarrow> string \<Rightarrow> string option" where
  "queryTileId url v =
     Option.bind (url v) (\<lambda>u. Option.bind (decodeURIComponent (fu_pathname u)) queryTilePathPattern)"

definition decodedPath :: "new_url \<Rightarrow> string \<Rightarrow> string" where
  "decodedPath url v = with_default [] (Option.bind (url v) (\<lambda>u. decodeURIComponent (fu_pathname u)))"

definition bare_url :: "full_url \<Rightarrow> bool" where
  "bare_url u \<longleftrightarrow> fu_username u = [] \<and> fu_password u = [] \<and> fu_search u = [] \<and> fu_hash u = []"

definition tile_url_ok :: "new_url \<Rightarrow> string \<Rightarrow> bool" where
  "tile_url_ok url v \<longleftrightarrow> httpUrlSchema url v \<and>
     (case url v of None \<Rightarrow> False | Some u \<Rightarrow> bare_url u \<and> queryTilePathPattern (decodedPath url v) \<noteq> None)"

definition worker_url_ok :: "new_url \<Rightarrow> string \<Rightarrow> bool" where
  "worker_url_ok url v \<longleftrightarrow> httpUrlSchema url v \<and>
     (case url v of None \<Rightarrow> False
      | Some u \<Rightarrow> bare_url u \<and> fu_pathname u \<in> {''/assets/maplibre-gl-worker.mjs'', ''/assets/maplibre-gl-worker.cjs''})"

record query_map_configuration =
  mc_tile_url :: string
  mc_worker_url :: string
  mc_source_layer :: string
  mc_geometry_column :: string
  mc_result_crs :: string
  mc_initial_bounds :: "(rat \<times> rat \<times> rat \<times> rat) option"

definition QueryMapConfigurationSchema :: "new_url \<Rightarrow> json \<Rightarrow> query_map_configuration option" where
  "QueryMapConfigurationSchema url j =
     do {
       ms \<leftarrow> strict [''tile_url'', ''worker_url'', ''source_layer'', ''geometry_column'', ''result_crs'', ''initial_bounds''] j;
       tile \<leftarrow> req ms ''tile_url'' (such_that (tile_url_ok url) j_text);
       worker \<leftarrow> req ms ''worker_url'' (such_that (worker_url_ok url) j_text);
       layer \<leftarrow> req ms ''source_layer'' j_text1;
       geometry \<leftarrow> req ms ''geometry_column'' j_text1;
       crs \<leftarrow> req ms ''result_crs'' j_text1;
       bounds \<leftarrow> opt ms ''initial_bounds'' j_four;
       Some \<lparr>mc_tile_url = tile, mc_worker_url = worker, mc_source_layer = layer, mc_geometry_column = geometry,
         mc_result_crs = crs, mc_initial_bounds = bounds\<rparr>
     }"

text \<open>Bounds of a result: \<open>[minX, minY, maxX, maxY]\<close> within the world and ordered.\<close>

definition QueryBoundsResultSchema :: "json \<Rightarrow> (rat \<times> rat \<times> rat \<times> rat) option" where
  "QueryBoundsResultSchema j =
     do {
       ms \<leftarrow> strict [''bounds''] j;
       req ms ''bounds'' (such_that (\<lambda>(minX, minY, maxX, maxY).
         \<bar>minX\<bar> \<le> 180 \<and> \<bar>minY\<bar> \<le> 90 \<and> \<bar>maxX\<bar> \<le> 180 \<and> \<bar>maxY\<bar> \<le> 90 \<and> minX \<le> maxX \<and> minY \<le> maxY) j_four)
     }"

datatype service_status = RowsReturned | EmptyResult | EmptyPage | Indeterminate

definition j_result_status :: "json \<Rightarrow> service_status option" where
  "j_result_status j =
     (case j of
        JStr s \<Rightarrow>
          if s = ''rows_returned'' then Some RowsReturned else if s = ''empty_result'' then Some EmptyResult
          else if s = ''empty_page'' then Some EmptyPage else if s = ''indeterminate'' then Some Indeterminate else None
      | _ \<Rightarrow> None)"

type_synonym query_row = "(string \<times> json) list"

record public_page =
  pg_columns :: "service_column list"
  pg_rows :: "query_row list"
  pg_offset :: int
  pg_limit :: int
  pg_returned_count :: int
  pg_result_status :: "service_status option"
  pg_has_more :: bool
  pg_next_offset :: "int option"
  pg_warnings :: "string list"
  pg_elapsed_ms :: rat
  pg_bytes_read :: int
  pg_files_read :: int
  pg_response_truncated :: bool
  pg_deterministic_order :: bool
  pg_query_id :: string
  pg_map_configuration :: "query_map_configuration option"

record service_page = public_page +
  pg_query_token :: string

text \<open>\<open>in\<close> also finds the members that every object inherits.\<close>

definition INHERITED :: "string list" where
  "INHERITED = [''__defineGetter__'', ''__defineSetter__'', ''__lookupGetter__'', ''__lookupSetter__'', ''__proto__'',
     ''constructor'', ''hasOwnProperty'', ''isPrototypeOf'', ''propertyIsEnumerable'', ''toLocaleString'', ''toString'',
     ''valueOf'']"

definition row_fits :: "string list \<Rightarrow> query_row \<Rightarrow> bool" where
  "row_fits columnNames row \<longleftrightarrow>
     (\<forall>c \<in> set columnNames. c \<in> fst ` set row \<or> c \<in> set INHERITED) \<and> (\<forall>k \<in> fst ` set row. k \<in> set columnNames)"

definition page_consistent :: "new_url \<Rightarrow> service_page \<Rightarrow> bool" where
  "page_consistent url page \<longleftrightarrow>
     pg_has_more page = (pg_next_offset page \<noteq> None) \<and>
     (\<forall>row \<in> set (pg_rows page). row_fits (map co_name (pg_columns page)) row) \<and>
     (case pg_map_configuration page of None \<Rightarrow> True
      | Some m \<Rightarrow> queryTileId url (mc_tile_url m) = Some (pg_query_id page))"

definition QueryPageSchema :: "new_url \<Rightarrow> json \<Rightarrow> service_page option" where
  "QueryPageSchema url j =
     do {
       ms \<leftarrow> strict [''columns'', ''rows'', ''offset'', ''limit'', ''returned_count'', ''result_status'', ''has_more'',
         ''next_offset'', ''warnings'', ''elapsed_ms'', ''bytes_read'', ''files_read'', ''response_truncated'',
         ''deterministic_order'', ''query_id'', ''query_token'', ''map_configuration''] j;
       columns \<leftarrow> req ms ''columns'' (j_list QueryColumnSchema);
       rows \<leftarrow> req ms ''rows'' (j_list QueryRowSchema);
       offset \<leftarrow> req ms ''offset'' j_nonneg;
       limit \<leftarrow> req ms ''limit'' j_page_size;
       returned \<leftarrow> req ms ''returned_count'' j_nonneg;
       status \<leftarrow> opt ms ''result_status'' j_result_status;
       has_more \<leftarrow> req ms ''has_more'' j_bool;
       next_offset \<leftarrow> opt ms ''next_offset'' j_nonneg;
       warnings \<leftarrow> req ms ''warnings'' (j_list j_text);
       elapsed \<leftarrow> req ms ''elapsed_ms'' (such_that (\<lambda>r. 0 \<le> r) j_finite);
       bytes \<leftarrow> req ms ''bytes_read'' j_nonneg;
       files \<leftarrow> req ms ''files_read'' j_nonneg;
       truncated \<leftarrow> req ms ''response_truncated'' j_bool;
       deterministic \<leftarrow> req ms ''deterministic_order'' j_bool;
       query_id \<leftarrow> req ms ''query_id'' (such_that QueryIdSchema j_text);
       token \<leftarrow> req ms ''query_token'' (such_that QueryTokenSchema j_text);
       configuration \<leftarrow> opt ms ''map_configuration'' (QueryMapConfigurationSchema url);
       page \<leftarrow> Some \<lparr>pg_columns = columns, pg_rows = rows, pg_offset = offset, pg_limit = limit,
         pg_returned_count = returned, pg_result_status = status, pg_has_more = has_more, pg_next_offset = next_offset,
         pg_warnings = warnings, pg_elapsed_ms = elapsed, pg_bytes_read = bytes, pg_files_read = files,
         pg_response_truncated = truncated, pg_deterministic_order = deterministic, pg_query_id = query_id,
         pg_map_configuration = configuration, pg_query_token = token\<rparr>;
       if page_consistent url page then Some page else None
     }"

section \<open>The client\<close>

text \<open>A request of \<open>fetch\<close> and what comes of it: an exception by name, or a response.\<close>

record query_call =
  ca_method :: string
  ca_url :: string
  ca_headers :: "(string \<times> string) list"
  ca_body :: "string option"

record http_response =
  hr_status :: nat
  hr_contentType :: "string option"
  hr_text :: string

type_synonym fetcher = "query_call \<Rightarrow> string + http_response"

datatype query_failure = QueryApiError nat string string | FetchError string

definition QueryErrorSchema :: "json \<Rightarrow> (string \<times> string) option" where
  "QueryErrorSchema j =
     do {
       ms \<leftarrow> strict [''code'', ''message''] j;
       code \<leftarrow> req ms ''code'' j_text1;
       message \<leftarrow> req ms ''message'' j_text1;
       Some (code, message)
     }"

definition response_ok :: "http_response \<Rightarrow> bool" where
  "response_ok r \<longleftrightarrow> 200 \<le> hr_status r \<and> hr_status r \<le> 299"

definition parseResponse :: "(json \<Rightarrow> 'a option) \<Rightarrow> http_response \<Rightarrow> query_failure + 'a" where
  "parseResponse schema response =
     (case json_parse (hr_text response) of
        None \<Rightarrow> Inl (QueryApiError (hr_status response) ''invalid_response'' ''The query service returned invalid JSON.'')
      | Some payload \<Rightarrow>
          if \<not> response_ok response then
            (case QueryErrorSchema payload of
               None \<Rightarrow> Inl (QueryApiError (hr_status response) ''invalid_response''
                 ''The query service returned an invalid error response.'')
             | Some (code, message) \<Rightarrow> Inl (QueryApiError (hr_status response) code message))
          else
            (case schema payload of
               None \<Rightarrow> Inl (QueryApiError (hr_status response) ''invalid_response''
                 ''The query service returned an invalid response.'')
             | Some x \<Rightarrow> Inr x))"

definition requestQueryResponse :: "fetcher \<Rightarrow> query_call \<Rightarrow> (json \<Rightarrow> 'a option) \<Rightarrow> query_failure + 'a" where
  "requestQueryResponse fetcher c schema =
     (case fetcher c of Inl name \<Rightarrow> Inl (FetchError name) | Inr response \<Rightarrow> parseResponse schema response)"

definition invalid_input :: query_failure where
  "invalid_input = QueryApiError 400 ''invalid_request'' ''The query request is invalid.''"

definition json_header :: "string \<times> string" where
  "json_header = (''Content-Type'', ''application/json'')"

definition QUERY_TOKEN_HEADER :: string where "QUERY_TOKEN_HEADER = ''X-HIFLD-Query-Token''"

definition create_call :: "query_request \<Rightarrow> query_call" where
  "create_call request =
     \<lparr>ca_method = ''POST'', ca_url = ''/api/queries'', ca_headers = [json_header],
      ca_body = Some (json_stringify (query_request_json request))\<rparr>"

definition createQuery :: "new_url \<Rightarrow> fetcher \<Rightarrow> json \<Rightarrow> query_failure + service_page" where
  "createQuery url fetcher input =
     (case QueryRequestSchema input of
        None \<Rightarrow> Inl invalid_input
      | Some request \<Rightarrow> requestQueryResponse fetcher (create_call request) (QueryPageSchema url))"

definition page_call :: "string \<Rightarrow> page_request \<Rightarrow> string \<Rightarrow> query_call" where
  "page_call queryId request token =
     \<lparr>ca_method = ''POST'', ca_url = ''/api/queries/'' @ encodeURIComponent queryId @ ''/pages'',
      ca_headers = [json_header, (QUERY_TOKEN_HEADER, token)], ca_body = Some (json_stringify (page_request_json request))\<rparr>"

definition getQueryPage :: "new_url \<Rightarrow> fetcher \<Rightarrow> string \<Rightarrow> json \<Rightarrow> string \<Rightarrow> query_failure + service_page" where
  "getQueryPage url fetcher queryId input token =
     (case (if QueryIdSchema queryId then QueryPageRequestSchema input else None) of
        None \<Rightarrow> Inl invalid_input
      | Some request \<Rightarrow>
          if \<not> QueryTokenSchema token then Inl invalid_input
          else requestQueryResponse fetcher (page_call queryId request token) (QueryPageSchema url))"

definition bounds_call :: "string \<Rightarrow> string \<Rightarrow> query_call" where
  "bounds_call queryId token =
     \<lparr>ca_method = ''GET'', ca_url = ''/api/queries/'' @ encodeURIComponent queryId @ ''/bounds'',
      ca_headers = [(QUERY_TOKEN_HEADER, token)], ca_body = None\<rparr>"

definition getQueryBounds :: "fetcher \<Rightarrow> string \<Rightarrow> string \<Rightarrow> query_failure + rat \<times> rat \<times> rat \<times> rat" where
  "getQueryBounds fetcher queryId token =
     (if \<not> QueryIdSchema queryId \<or> \<not> QueryTokenSchema token then Inl invalid_input
      else requestQueryResponse fetcher (bounds_call queryId token) QueryBoundsResultSchema)"

section \<open>The proxy routes\<close>

text \<open>
  A request to the server: its headers, the chunks of its body (bytes, \<open>None\<close> for no stream) and the
  id that the proxy gives it.
\<close>

record proxy_request =
  rq_contentLength :: "string option"
  rq_token :: "string option"
  rq_chunks :: "string list option"
  rq_requestId :: string

fun read_chunks :: "nat \<Rightarrow> nat \<Rightarrow> string list \<Rightarrow> string option" where
  "read_chunks maxBytes totalBytes [] = Some []"
| "read_chunks maxBytes totalBytes (c # cs) =
     (if maxBytes < totalBytes + length c then None
      else map_option ((@) c) (read_chunks maxBytes (totalBytes + length c) cs))"

definition declared_ok :: "string option \<Rightarrow> nat \<Rightarrow> bool" where
  "declared_ok contentLength maxBytes =
     (case contentLength of
        None \<Rightarrow> True
      | Some s \<Rightarrow> (case js_Number_string s of JsFin n \<Rightarrow> 0 \<le> n \<and> n \<le> of_nat maxBytes | _ \<Rightarrow> False))"

text \<open>The bytes of the body, before \<open>TextDecoder\<close>.\<close>

definition readBoundedRequestBody :: "nat \<Rightarrow> proxy_request \<Rightarrow> string option" where
  "readBoundedRequestBody maxBytes request =
     (if \<not> declared_ok (rq_contentLength request) maxBytes then None
      else (case rq_chunks request of None \<Rightarrow> Some [] | Some chunks \<Rightarrow> read_chunks maxBytes 0 chunks))"

text \<open>
  What a handler does: the calls it makes and its response, or the abort that it passes on. A body that
  decodes to characters outside the model has no outcome.
\<close>

datatype proxy_reply =
    ProblemReply nat string string
  | UpstreamReply http_response "(string \<times> string) list"
  | AbortRethrown

type_synonym proxy_outcome = "query_call list \<times> proxy_reply"

definition invalidRequest :: "string \<Rightarrow> proxy_reply" where
  "invalidRequest message = ProblemReply 400 ''invalid_request'' message"

definition upstreamUnavailable :: proxy_reply where
  "upstreamUnavailable = ProblemReply 503 ''upstream_unavailable'' ''The query service is unavailable.''"

definition responseFromUpstream :: "(string \<times> string) list \<Rightarrow> http_response \<Rightarrow> proxy_reply" where
  "responseFromUpstream extra upstream =
     UpstreamReply upstream ((''Content-Type'', with_default ''application/json'' (hr_contentType upstream)) # extra)"

definition forward :: "fetcher \<Rightarrow> (string \<times> string) list \<Rightarrow> query_call \<Rightarrow> proxy_outcome" where
  "forward fetcher extra c =
     ([c], case fetcher c of
        Inl name \<Rightarrow> if name = ''AbortError'' then AbortRethrown else upstreamUnavailable
      | Inr upstream \<Rightarrow> responseFromUpstream extra upstream)"

text \<open>\<open>baseUrl.replace(/\/$/, "")\<close>.\<close>

definition without_slash :: "string \<Rightarrow> string" where
  "without_slash base = (if base \<noteq> [] \<and> last base = CHR ''/'' then butlast base else base)"

text \<open>The body parsed by a schema: \<open>None\<close> outside the model, the left for an invalid one.\<close>

definition parsed_body :: "(json \<Rightarrow> 'a option) \<Rightarrow> proxy_request \<Rightarrow> (unit + 'a) option" where
  "parsed_body schema request =
     (case readBoundedRequestBody MAX_QUERY_BODY_BYTES request of
        None \<Rightarrow> Some (Inl ())
      | Some bytes \<Rightarrow>
          (case utf8_decode bytes of
             None \<Rightarrow> None
           | Some body \<Rightarrow>
               (case Option.bind (json_parse body) schema of None \<Rightarrow> Some (Inl ()) | Some x \<Rightarrow> Some (Inr x))))"

definition queryCreateHandler :: "fetcher \<Rightarrow> string option \<Rightarrow> proxy_request \<Rightarrow> proxy_outcome option" where
  "queryCreateHandler fetcher baseUrl request =
     (case parsed_body QueryRequestSchema request of
        None \<Rightarrow> None
      | Some (Inl u) \<Rightarrow> Some ([], invalidRequest ''The query request is invalid.'')
      | Some (Inr payload) \<Rightarrow>
          (case baseUrl of
             None \<Rightarrow> Some ([], upstreamUnavailable)
           | Some base \<Rightarrow> Some (forward fetcher []
               \<lparr>ca_method = ''POST'', ca_url = without_slash base @ ''/api/queries'',
                ca_headers = [json_header, (''X-Request-ID'', rq_requestId request)],
                ca_body = Some (json_stringify (query_request_json payload))\<rparr>)))"

definition credentials_ok :: "string \<Rightarrow> string option \<Rightarrow> bool" where
  "credentials_ok queryId token \<longleftrightarrow>
     QueryIdSchema queryId \<and> (case token of None \<Rightarrow> False | Some t \<Rightarrow> QueryTokenSchema t)"

definition queryPageHandler :: "fetcher \<Rightarrow> string option \<Rightarrow> string \<Rightarrow> proxy_request \<Rightarrow> proxy_outcome option" where
  "queryPageHandler fetcher baseUrl queryId request =
     (if \<not> credentials_ok queryId (rq_token request)
      then Some ([], invalidRequest ''A query ID and query token are required.'')
      else
        (case parsed_body QueryPageRequestSchema request of
           None \<Rightarrow> None
         | Some (Inl u) \<Rightarrow> Some ([], invalidRequest ''The query page request is invalid.'')
         | Some (Inr payload) \<Rightarrow>
             (case baseUrl of
                None \<Rightarrow> Some ([], upstreamUnavailable)
              | Some base \<Rightarrow> Some (forward fetcher []
                  \<lparr>ca_method = ''POST'',
                   ca_url = without_slash base @ ''/api/queries/'' @ encodeURIComponent queryId @ ''/pages'',
                   ca_headers = [json_header, (QUERY_TOKEN_HEADER, the (rq_token request)),
                     (''X-Request-ID'', rq_requestId request)],
                   ca_body = Some (json_stringify (page_request_json payload))\<rparr>))))"

definition queryBoundsHandler :: "fetcher \<Rightarrow> string option \<Rightarrow> string \<Rightarrow> proxy_request \<Rightarrow> proxy_outcome" where
  "queryBoundsHandler fetcher baseUrl queryId request =
     (if \<not> credentials_ok queryId (rq_token request)
      then ([], invalidRequest ''A query ID and query token are required.'')
      else
        (case baseUrl of
           None \<Rightarrow> ([], upstreamUnavailable)
         | Some base \<Rightarrow> forward fetcher [(''Cache-Control'', ''private, no-store''), (''Vary'', QUERY_TOKEN_HEADER)]
             \<lparr>ca_method = ''GET'',
              ca_url = without_slash base @ ''/api/queries/'' @ encodeURIComponent queryId @ ''/bounds'',
              ca_headers = [(QUERY_TOKEN_HEADER, the (rq_token request)), (''X-Request-ID'', rq_requestId request)],
              ca_body = None\<rparr>))"

section \<open>Pages of a result, \<open>queryResults.ts\<close>\<close>

record query_result_state =
  rs_page :: public_page
  rs_sourceAliases :: "string list"
  rs_layerId :: "string option"
  rs_ready :: bool
  rs_errorMessage :: "string option"

definition canSetQueryResultPage :: "public_page \<Rightarrow> bool" where
  "canSetQueryResultPage page \<longleftrightarrow> pg_has_more page \<or> 0 < pg_offset page"

definition publicQueryPage :: "service_page \<Rightarrow> public_page" where
  "publicQueryPage page = public_page.truncate page"

definition appendQueryPage :: "public_page \<Rightarrow> public_page \<Rightarrow> public_page" where
  "appendQueryPage current nxt =
     (if pg_query_id current \<noteq> pg_query_id nxt \<or> pg_offset nxt \<noteq> pg_offset current + int (length (pg_rows current))
      then nxt
      else nxt\<lparr>pg_offset := pg_offset current, pg_rows := pg_rows current @ pg_rows nxt,
        pg_returned_count := pg_returned_count current + pg_returned_count nxt\<rparr>)"

definition scalarFields :: "service_column list \<Rightarrow> string \<Rightarrow> query_field list" where
  "scalarFields columns geometryColumn =
     map (\<lambda>c. \<lparr>qf_name = co_name c, qf_logicalType = co_type c, qf_nullable = co_nullable c, qf_min = None, qf_max = None\<rparr>)
       (filter (\<lambda>c. co_name c \<noteq> geometryColumn \<and> toLowerCase (co_type c) \<noteq> ''geometry'' \<and>
          \<not> isQueryMvtReservedProperty (co_name c)) columns)"

definition queryLayerFromResult :: "service_page \<Rightarrow> string list \<Rightarrow> (string + loaded_layer) option" where
  "queryLayerFromResult result sourceAliases =
     map_option (\<lambda>m. buildQueryMvtLayer
       \<lparr>qi_queryId = pg_query_id result, qi_label = ''Query '' @ take 8 (pg_query_id result),
        qi_sourceAliases = sourceAliases, qi_geometryColumn = mc_geometry_column m, qi_tileTemplate = mc_tile_url m,
        qi_sourceLayerId = Some (mc_source_layer m),
        qi_scalarFields = Some (scalarFields (pg_columns result) (mc_geometry_column m)),
        qi_bounds = mc_initial_bounds m, qi_status = Some QueryReady\<rparr>) (pg_map_configuration result)"

definition queryResultState :: "service_page \<Rightarrow> string list \<Rightarrow> string option \<Rightarrow> query_result_state" where
  "queryResultState result sourceAliases layerId =
     \<lparr>rs_page = publicQueryPage result, rs_sourceAliases = sourceAliases, rs_layerId = layerId, rs_ready = True,
      rs_errorMessage = None\<rparr>"

section \<open>Requests arrive as they were made\<close>

lemma j_page_size_of_int: "0 < i \<Longrightarrow> i \<le> 1000 \<Longrightarrow> j_page_size (j_of_int i) = Some i"
  by (simp add: j_page_size_def j_int_of_int)

lemma j_page_size_range: "j_page_size j = Some i \<Longrightarrow> 0 < i \<and> i \<le> 1000"
  by (simp add: j_page_size_def)

definition query_request_ok :: "query_request \<Rightarrow> bool" where
  "query_request_ok r \<longleftrightarrow>
     1 \<le> length (qr_sources r) \<and> length (qr_sources r) \<le> 8 \<and> list_all source_ref_ok (qr_sources r) \<and>
     qr_sql r \<noteq> [] \<and> length (qr_sql r) \<le> MAX_QUERY_SQL_BYTES \<and> utf8ByteLength (qr_sql r) \<le> MAX_QUERY_SQL_BYTES \<and>
     0 < qr_limit r \<and> qr_limit r \<le> 1000 \<and> qr_geometry_column r \<noteq> Some [] \<and> qr_result_crs r \<noteq> Some []"

lemma query_request_schema_ok:
  assumes "QueryRequestSchema j = Some r"
  shows "query_request_ok r"
proof -
  have nonempty: "opt ms k j_text1 \<noteq> Some (Some [])" for ms k
    using j_text1_not_Nil by (auto simp: opt_def split: option.split)
  have limit: "0 < with_default 100 l \<and> with_default 100 l \<le> 1000" if "opt ms k j_page_size = Some l" for ms k l
    using that j_page_size_range by (cases l) (auto simp: with_default_def dest!: opt_Some)
  have sources: "list_all source_ref_ok ss" if "j_list QuerySourceRefSchema v = Some ss" for v ss
    using that source_ref_schema_ok
    by (auto simp: j_list_def split: json.splits intro: those_Some_list_all)
  show ?thesis
    using assms limit sources
    unfolding QueryRequestSchema_def bind_Some req_def query_request_ok_def
    by (clarsimp simp: such_that_Some) (auto simp: nonempty)
qed

lemma query_request_roundtrip:
  assumes "query_request_ok r"
  shows "QueryRequestSchema (query_request_json r) = Some r"
proof -
  have "j_list QuerySourceRefSchema (JArr (map source_ref_json (qr_sources r))) = Some (qr_sources r)"
    using assms unfolding query_request_ok_def j_list_def json.case
    by (intro those_map_id) (auto simp: list_all_iff source_ref_roundtrip)
  note sources = this
  have limit: "j_page_size (j_of_int (qr_limit r)) = Some (qr_limit r)"
    using assms by (simp add: query_request_ok_def j_page_size_of_int)
  show ?thesis
    using assms sources limit
    by (cases "qr_geometry_column r"; cases "qr_result_crs r")
      (simp_all add: QueryRequestSchema_def query_request_json_def query_request_ok_def strict_def req_def opt_def
        opt_member_def with_default_def such_that_def j_text_def)
qed

lemma clean_query_request: "json_clean (query_request_json r)"
  by (cases "qr_geometry_column r"; cases "qr_result_crs r")
    (simp_all add: query_request_json_def opt_member_def clean_source_ref j_of_int_def)

lemma read_chunks_concat:
  "read_chunks maxBytes totalBytes chunks =
     (if chunks = [] \<or> totalBytes + length (concat chunks) \<le> maxBytes then Some (concat chunks) else None)"
  by (induction chunks arbitrary: totalBytes) auto


definition demo_service :: fetcher where
  "demo_service c = Inr \<lparr>hr_status = 200, hr_contentType = None, hr_text = ''{}''\<rparr>"

definition demo_source :: source_ref where
  "demo_source = \<lparr>sr_alias = ''a'', sr_collection_slug = ''c'', sr_dataset_slug = ''d'', sr_file_slug = ''f'', sr_version = ''1'',
     sr_asset_key = ''k'', sr_storage_location_slug = None\<rparr>"

definition demo_query_request :: query_request where
  "demo_query_request = \<lparr>qr_sources = [demo_source], qr_sql = ''select 1'', qr_limit = 10, qr_geometry_column = None,
     qr_result_crs = None\<rparr>"

definition demo_proxy_request :: proxy_request where
  "demo_proxy_request = \<lparr>rq_contentLength = None, rq_token = None,
     rq_chunks = Some [utf8_encode (json_stringify (query_request_json demo_query_request))], rq_requestId = ''i''\<rparr>"

lemma demo_query_request_ok: "query_request_ok demo_query_request"
  by (simp add: query_request_ok_def demo_query_request_def source_ref_ok_def demo_source_def is_alias_def is_word_start_def
      is_lower_alpha_def MAX_QUERY_SQL_BYTES_def utf8ByteLength_def utf8_encode_def utf8_char_def)

lemma demo_body_length: "length (utf8_encode (json_stringify (query_request_json demo_query_request))) = 142"
  by code_simp


section \<open>What the proxy forwards\<close>

lemma forward_calls [simp]: "fst (forward fetcher extra c) = [c]"
  by (simp add: forward_def)

lemma unreserved_id: "QueryIdSchema s \<Longrightarrow> encodeURIComponent s = s"
proof -
  have "percent_char c = [c]" if "b64_token_char c" for c
    using that by (auto simp: percent_char_def uri_unreserved_def b64_token_char_def Let_def)
  then have "concat (map percent_char s) = s" if "list_all b64_token_char s"
    using that by (induction s) auto
  then show "QueryIdSchema s \<Longrightarrow> encodeURIComponent s = s" by (simp add: QueryIdSchema_def encodeURIComponent_def)
qed

lemma page_request_roundtrip:
  assumes "QueryPageRequestSchema j = Some r"
  shows "QueryPageRequestSchema (page_request_json r) = Some r"
proof -
  obtain ms o' s where parts: "req ms ''offset'' j_nonneg = Some o'" "opt ms ''page_size'' j_page_size = Some s"
    "r = \<lparr>pr_offset = o', pr_page_size = with_default 100 s\<rparr>"
    using assms by (auto simp: QueryPageRequestSchema_def bind_Some)
  have "0 \<le> o'" "\<bar>o'\<bar> \<le> 9007199254740991" using parts(1) j_int_safe by (auto simp: req_def bind_Some j_nonneg_def)
  then have "j_nonneg (j_of_int o') = Some o'" by (simp add: j_nonneg_def j_int_of_int)
  moreover have "0 < with_default 100 s \<and> with_default 100 s \<le> 1000"
    using parts(2) j_page_size_range by (cases s) (auto simp: with_default_def dest!: opt_Some)
  ultimately show ?thesis
    by (simp add: QueryPageRequestSchema_def page_request_json_def strict_def req_def opt_def parts(3) j_page_size_of_int
        with_default_def)
qed

lemma parsed_body_Inr:
  assumes "parsed_body schema request = Some (Inr x)"
  shows "\<exists>bytes body j. readBoundedRequestBody MAX_QUERY_BODY_BYTES request = Some bytes \<and> utf8_decode bytes = Some body \<and>
    json_parse body = Some j \<and> schema j = Some x \<and> length bytes \<le> MAX_QUERY_BODY_BYTES"
proof -
  obtain bytes body j where parts: "readBoundedRequestBody MAX_QUERY_BODY_BYTES request = Some bytes"
    "utf8_decode bytes = Some body" "json_parse body = Some j" "schema j = Some x"
    using assms by (auto simp: parsed_body_def bind_Some split: option.splits)
  have "length bytes \<le> MAX_QUERY_BODY_BYTES"
    using parts(1) by (auto simp: readBoundedRequestBody_def read_chunks_concat split: if_splits option.splits)
  with parts show ?thesis by blast
qed

text \<open>
  C25: the page route calls the query service only for a well-formed query id, token and body: then the
  one call goes to the pages of exactly that id, carries that token in its header and nowhere else, and
  its body is the page request that was sent, within its limits; any other request is answered with 400,
  and with 503 when no service is configured, without any call.
\<close>

theorem page_route_forwards_valid_requests:
  assumes "queryPageHandler service base queryId request = Some (calls, reply)"
  shows "(calls = [] \<and> (\<exists>status code message. reply = ProblemReply status code message \<and>
        (status = 400 \<or> status = 503 \<and> base = None))) \<or>
    (\<exists>b token payload. base = Some b \<and> rq_token request = Some token \<and> QueryIdSchema queryId \<and> QueryTokenSchema token \<and>
       0 \<le> pr_offset payload \<and> 0 < pr_page_size payload \<and> pr_page_size payload \<le> 1000 \<and>
       parsed_body QueryPageRequestSchema request = Some (Inr payload) \<and>
       (\<exists>c. calls = [c] \<and> ca_url c = without_slash b @ ''/api/queries/'' @ queryId @ ''/pages'' \<and>
         ca_headers c = [(''Content-Type'', ''application/json''), (''X-HIFLD-Query-Token'', token),
           (''X-Request-ID'', rq_requestId request)] \<and>
         Option.bind (Option.bind (ca_body c) json_parse) QueryPageRequestSchema = Some payload))"
proof (cases "credentials_ok queryId (rq_token request)")
  case False
  with assms show ?thesis by (auto simp: queryPageHandler_def invalidRequest_def)
next
  case True
  then obtain token where token: "rq_token request = Some token" "QueryTokenSchema token" "QueryIdSchema queryId"
    by (auto simp: credentials_ok_def split: option.splits)
  obtain outcome where body: "parsed_body QueryPageRequestSchema request = Some outcome"
    using assms True by (auto simp: queryPageHandler_def split: option.splits)
  show ?thesis
  proof (cases outcome)
    case (Inl u)
    with assms True body show ?thesis by (auto simp: queryPageHandler_def invalidRequest_def)
  next
    case (Inr payload)
    show ?thesis
    proof (cases base)
      case None
      with assms True body Inr show ?thesis by (auto simp: queryPageHandler_def upstreamUnavailable_def)
    next
      case (Some b)
      obtain j where j: "QueryPageRequestSchema j = Some payload"
        using parsed_body_Inr [of QueryPageRequestSchema request payload] body Inr by auto
      have clean: "json_clean (page_request_json payload)" by (simp add: page_request_json_def j_of_int_def)
      have ranges: "0 \<le> pr_offset payload \<and> 0 < pr_page_size payload \<and> pr_page_size payload \<le> 1000"
        using j j_page_size_range
        by (auto simp: QueryPageRequestSchema_def bind_Some req_def j_nonneg_def with_default_def
            split: option.splits dest!: opt_Some)
      define c where "c = \<lparr>ca_method = ''POST'', ca_url = without_slash b @ ''/api/queries/'' @ queryId @ ''/pages'',
          ca_headers = [(''Content-Type'', ''application/json''), (''X-HIFLD-Query-Token'', token),
            (''X-Request-ID'', rq_requestId request)], ca_body = Some (json_stringify (page_request_json payload))\<rparr>"
      have "calls = [c]"
        using assms True body Inr Some token
        by (auto simp: queryPageHandler_def forward_def json_header_def QUERY_TOKEN_HEADER_def unreserved_id c_def)
      moreover have "Option.bind (Option.bind (ca_body c) json_parse) QueryPageRequestSchema = Some payload"
        using json_parse_stringify [OF clean] page_request_roundtrip [OF j] by (simp add: c_def)
      ultimately show ?thesis
        using token body Inr Some ranges
        by (intro disjI2 exI [of _ b] exI [of _ token] exI [of _ payload] exI [of _ c] conjI) (simp_all add: c_def)
    qed
  qed
qed

section \<open>What a page can hold\<close>

text \<open>An object anywhere in a value that is binary or has the members of a raw geometry.\<close>

fun holds_raw :: "json \<Rightarrow> bool" where
  "holds_raw (JArr xs) = (\<exists>x \<in> set xs. holds_raw x)"
| "holds_raw (JObj ms) = (raw_value ms \<or> (\<exists>m \<in> set ms. holds_raw (snd m)))"
| "holds_raw j = False"

lemma holds_raw_scalar:
  "j_text j = Some s \<Longrightarrow> \<not> holds_raw j" "j_int j = Some i \<Longrightarrow> \<not> holds_raw j" "j_finite j = Some r \<Longrightarrow> \<not> holds_raw j"
  by (cases j; simp add: j_text_def j_int_def j_finite_def)+

lemma those_member: "those (map f xs) = Some ys \<Longrightarrow> x \<in> set xs \<Longrightarrow> \<exists>y. f x = Some y"
  by (induction xs arbitrary: ys) (auto split: option.splits)

lemma holds_raw_four:
  assumes "j_four j = Some b"
  shows "\<not> holds_raw j"
proof -
  obtain xs ys where j: "j = JArr xs" "those (map j_finite xs) = Some ys"
    using assms by (auto simp: j_four_def j_list_def split: json.splits option.splits)
  show ?thesis using those_member [OF j(2)] holds_raw_scalar(3) by (auto simp: j(1))
qed

lemma strict_members: "strict names (JObj ms) = Some ms' \<Longrightarrow> ms' = ms \<and> fst ` set ms \<subseteq> set names"
  by (auto simp: strict_def list_all_iff split: if_splits)

lemma opt_present: "opt ms k f = Some x \<Longrightarrow> map_of ms k = Some j \<Longrightarrow> \<exists>y. f j = Some y"
  by (auto simp: opt_def split: option.splits)

lemma geometry_summary_not_raw:
  assumes "geometrySummarySchema (JObj ms)" "distinct (map fst ms)"
  shows "\<not> holds_raw (JObj ms)"
proof -
  obtain t g n b where keys: "fst ` set ms \<subseteq> set [''$type'', ''geometry_type'', ''byte_length'', ''bounds'']"
    and type: "map_of ms ''$type'' = Some t" "j_text t = Some ''geometry''"
    and geometry: "opt ms ''geometry_type'' j_text1 = Some g"
    and len: "req ms ''byte_length'' j_nonneg = Some n" and bounds: "opt ms ''bounds'' j_four = Some b"
    using assms(1) by (auto simp: geometrySummarySchema_def bind_Some req_def dest!: strict_members split: bind_splits)
  have "\<not> holds_raw j" if "(k, j) \<in> set ms" for k j
  proof -
    have j: "map_of ms k = Some j" using that assms(2) by simp
    have "k \<in> set [''$type'', ''geometry_type'', ''byte_length'', ''bounds'']" using keys that by force
    then consider "k = ''$type''" | "k = ''geometry_type''" | "k = ''byte_length''" | "k = ''bounds''" by auto
    then show ?thesis
    proof cases
      case 1
      then show ?thesis using type j holds_raw_scalar(1) by simp
    next
      case 2
      then show ?thesis using opt_present [OF geometry] j holds_raw_scalar(1) by (auto simp: j_text1_def)
    next
      case 3
      then show ?thesis using len j holds_raw_scalar(2) by (auto simp: req_def j_nonneg_def)
    next
      case 4
      then show ?thesis using opt_present [OF bounds] j holds_raw_four by auto
    qed
  qed
  moreover have "\<not> raw_value ms"
    using type keys by (cases t) (auto simp: raw_value_def j_text_def)
  ultimately show ?thesis by auto
qed

lemma truncated_value_not_raw:
  assumes "truncatedValueSchema (JObj ms)" "distinct (map fst ms)"
  shows "\<not> holds_raw (JObj ms)"
proof -
  obtain t n where keys: "fst ` set ms \<subseteq> set [''$type'', ''byte_length'']"
    and type: "map_of ms ''$type'' = Some t" "j_text t = Some ''truncated''"
    and len: "req ms ''byte_length'' j_nonneg = Some n"
    using assms(1) by (auto simp: truncatedValueSchema_def bind_Some req_def dest!: strict_members split: bind_splits)
  have "\<not> holds_raw j" if "(k, j) \<in> set ms" for k j
  proof -
    have j: "map_of ms k = Some j" using that assms(2) by simp
    have "k \<in> set [''$type'', ''byte_length'']" using keys that by force
    then consider "k = ''$type''" | "k = ''byte_length''" by auto
    then show ?thesis
      using type len j holds_raw_scalar(1,2) by cases (auto simp: req_def j_nonneg_def)
  qed
  moreover have "\<not> raw_value ms"
    using type keys by (cases t) (auto simp: raw_value_def j_text_def)
  ultimately show ?thesis by auto
qed

text \<open>What \<open>JSON.parse\<close> gives has no key of an object twice.\<close>

fun json_keyed :: "json \<Rightarrow> bool" where
  "json_keyed (JArr xs) = (\<forall>x \<in> set xs. json_keyed x)"
| "json_keyed (JObj ms) = (distinct (map fst ms) \<and> (\<forall>m \<in> set ms. json_keyed (snd m)))"
| "json_keyed j = True"

lemma cell_not_raw: "QueryCellSchema j \<Longrightarrow> json_keyed j \<Longrightarrow> \<not> holds_raw j"
proof (induction j rule: QueryCellSchema.induct)
  case (3 ms)
  show ?case
  proof (cases "geometrySummarySchema (JObj ms) \<or> truncatedValueSchema (JObj ms)")
    case True
    then show ?thesis using 3(3) geometry_summary_not_raw truncated_value_not_raw by auto
  next
    case False
    then show ?thesis using 3 by auto
  qed
qed auto

lemma keyed_from_entries:
  assumes "\<forall>m \<in> set ms. json_keyed (snd m)"
  shows "json_keyed (JObj (map_from_entries ms))"
proof -
  have "json_keyed (JObj (fold (\<lambda>(k, v). map_set k v) ms acc))" if "json_keyed (JObj acc)" for acc
    using that assms
  proof (induction ms arbitrary: acc)
    case (Cons m ms)
    obtain k v where m: "m = (k, v)" by fastforce
    have "json_keyed (JObj (map_set k v acc))"
    proof -
      have "\<forall>x \<in> set (map_set k v acc). json_keyed (snd x)"
        using Cons.prems m by (induction acc) (auto split: if_splits)
      then show ?thesis using Cons.prems by auto
    qed
    then show ?case using Cons m by simp
  qed simp
  from this [of "[]"] show ?thesis by (simp add: map_from_entries_def)
qed

lemma json_value_keyed:
  "json_value n s = Some (j, r) \<Longrightarrow> json_keyed j"
  "json_elements n s = Some (xs, r) \<Longrightarrow> \<forall>x \<in> set xs. json_keyed x"
  "json_members n s = Some (ms, r) \<Longrightarrow> \<forall>m \<in> set ms. json_keyed (snd m)"
proof (induction n s and n s and n s arbitrary: j r and xs r and ms r rule: json_value_json_elements_json_members.induct)
  case (2 n s)
  then show ?case
    by (auto simp: json_literal_def split: list.splits if_splits dest!: keyed_from_entries)
next
  case (4 n s)
  then show ?case by (auto split: option.splits prod.splits list.splits if_splits)
next
  case (6 n s)
  from 6(3) obtain u k r' w v t d x where parts: "json_ws s = CHR 34 # u" "json_string u = Some (k, r')"
    "json_ws r' = CHR '':'' # w" "json_value n w = Some (v, t)" "json_ws t = d # x"
    and rest: "d = CHR '','' \<and> (\<exists>ms'. json_members n x = Some (ms', r) \<and> ms = (k, v) # ms') \<or> ms = [(k, v)]"
    by (auto split: option.splits prod.splits list.splits if_splits)
  have "json_keyed v" using 6(1) parts by simp
  moreover have "\<forall>m \<in> set ms'. json_keyed (snd m)" if "d = CHR '',''" "json_members n x = Some (ms', r)" for ms'
    using 6(2) parts that by simp
  ultimately show ?case using rest by (elim disjE conjE exE) simp_all
qed simp_all

lemma json_parse_keyed: "json_parse s = Some j \<Longrightarrow> json_keyed j"
  using json_value_keyed(1) by (auto simp: json_parse_def split: option.splits prod.splits if_splits)

lemma request_Inr:
  assumes "requestQueryResponse service c schema = Inr x"
  shows "\<exists>(response :: http_response) payload. json_parse (hr_text response) = Some payload \<and> schema payload = Some x"
proof -
  obtain response where r: "parseResponse schema response = Inr x"
    using assms by (auto simp: requestQueryResponse_def split: sum.splits)
  show ?thesis
  proof (cases "json_parse (hr_text response)")
    case (Some payload)
    with r have "schema payload = Some x" by (auto simp: parseResponse_def split: option.splits if_splits)
    with Some show ?thesis by blast
  qed (use r in \<open>simp add: parseResponse_def\<close>)
qed

lemma those_from: "those (map f xs) = Some ys \<Longrightarrow> y \<in> set ys \<Longrightarrow> \<exists>x \<in> set xs. f x = Some y"
  by (induction xs arbitrary: ys) (auto split: option.splits)

text \<open>
  C24: a page that the client accepts is a table that is safe to show: every row has the declared columns
  and no other (columns with the name of an inherited member apart, which are never missed), no value
  holds a binary object or a raw geometry at any depth, another page is announced exactly when its offset
  is given, and a map configuration names the tiles of this very query.
\<close>

theorem accepted_pages_are_tables:
  assumes "requestQueryResponse service c (QueryPageSchema url) = Inr page"
  shows "(\<forall>row \<in> set (pg_rows page).
      fst ` set row \<subseteq> co_name ` set (pg_columns page) \<and>
      co_name ` set (pg_columns page) \<subseteq> fst ` set row \<union> set INHERITED \<and>
      (\<forall>m \<in> set row. \<not> holds_raw (snd m))) \<and>
    (pg_has_more page \<longleftrightarrow> pg_next_offset page \<noteq> None) \<and>
    (\<forall>m. pg_map_configuration page = Some m \<longrightarrow> queryTileId url (mc_tile_url m) = Some (pg_query_id page)) \<and>
    QueryTokenSchema (pg_query_token page)"
proof -
  obtain payload and response :: http_response where response: "json_parse (hr_text response) = Some payload" "QueryPageSchema url payload = Some page"
    using request_Inr [OF assms] by blast
  obtain ms rows where ms: "payload = JObj ms" and rows: "map_of ms ''rows'' = Some rows"
    "j_list QueryRowSchema rows = Some (pg_rows page)" and ok: "page_consistent url page" "QueryTokenSchema (pg_query_token page)"
    using response(2)
    by (cases payload) (auto simp: QueryPageSchema_def bind_Some req_def strict_def split: if_splits bind_splits)
  obtain xs where xs: "rows = JArr xs" "those (map QueryRowSchema xs) = Some (pg_rows page)"
    using rows(2) by (auto simp: j_list_def split: json.splits)
  have keyed: "\<forall>x \<in> set xs. json_keyed x"
    using json_parse_keyed [OF response(1)] map_of_SomeD [OF rows(1)] by (force simp: ms xs(1))
  have "\<not> holds_raw (snd m)" if row: "row \<in> set (pg_rows page)" and m: "m \<in> set row" for row m
  proof -
    obtain x where x: "x \<in> set xs" "QueryRowSchema x = Some row" using those_from [OF xs(2) row] by blast
    then have "x = JObj row" "QueryCellSchema (snd m)"
      using m by (auto simp: QueryRowSchema_def list_all_iff split: json.splits if_splits)
    moreover have "json_keyed (snd m)" using keyed x(1) \<open>x = JObj row\<close> m by auto
    ultimately show ?thesis using cell_not_raw by blast
  qed
  then show ?thesis
    using ok by (auto simp: page_consistent_def row_fits_def)
qed

section \<open>Appending pages\<close>

text \<open>Each page starts where the one before it ends, in the same result.\<close>

fun consecutive :: "public_page \<Rightarrow> public_page list \<Rightarrow> bool" where
  "consecutive p [] = True"
| "consecutive p (q # qs) =
     (pg_query_id q = pg_query_id p \<and> pg_offset q = pg_offset p + int (length (pg_rows p)) \<and> consecutive q qs)"

definition page_of_rows :: "query_row list \<Rightarrow> public_page \<Rightarrow> bool" where
  "page_of_rows rows p \<longleftrightarrow> 0 \<le> pg_offset p \<and> prefix (pg_rows p) (drop (nat (pg_offset p)) rows)"

definition append_pages :: "public_page \<Rightarrow> public_page list \<Rightarrow> public_page" where
  "append_pages p ps = fold (\<lambda>q acc. appendQueryPage acc q) ps p"

lemma append_consecutive:
  assumes "consecutive q ps" "pg_query_id acc = pg_query_id q"
    "pg_offset acc + int (length (pg_rows acc)) = pg_offset q + int (length (pg_rows q))"
  shows "append_pages acc ps =
    (if ps = [] then acc
     else (last ps)\<lparr>pg_offset := pg_offset acc, pg_rows := pg_rows acc @ concat (map pg_rows ps),
       pg_returned_count := pg_returned_count acc + sum_list (map pg_returned_count ps)\<rparr>)"
  using assms
proof (induction ps arbitrary: q acc)
  case (Cons p ps)
  have step: "appendQueryPage acc p = p\<lparr>pg_offset := pg_offset acc, pg_rows := pg_rows acc @ pg_rows p,
      pg_returned_count := pg_returned_count acc + pg_returned_count p\<rparr>"
    using Cons.prems by (simp add: appendQueryPage_def)
  have "append_pages (appendQueryPage acc p) ps =
      (if ps = [] then appendQueryPage acc p
       else (last ps)\<lparr>pg_offset := pg_offset (appendQueryPage acc p),
         pg_rows := pg_rows (appendQueryPage acc p) @ concat (map pg_rows ps),
         pg_returned_count := pg_returned_count (appendQueryPage acc p) + sum_list (map pg_returned_count ps)\<rparr>)"
    using Cons.prems by (intro Cons.IH [of p]) (simp_all add: step)
  then show ?case by (simp add: append_pages_def step add.assoc)
qed (simp add: append_pages_def)

lemma window_concat:
  assumes "consecutive p ps" "\<forall>q \<in> set (p # ps). page_of_rows rows q"
  shows "prefix (concat (map pg_rows (p # ps))) (drop (nat (pg_offset p)) rows)"
  using assms
proof (induction ps arbitrary: p)
  case Nil
  then show ?case by (simp add: page_of_rows_def)
next
  case (Cons q qs)
  obtain rest where rest: "drop (nat (pg_offset p)) rows = pg_rows p @ rest" and offset: "0 \<le> pg_offset p"
    using Cons.prems(2) by (auto simp: page_of_rows_def prefix_def)
  have "nat (pg_offset q) = length (pg_rows p) + nat (pg_offset p)" using Cons.prems(1) offset by simp
  then have "drop (nat (pg_offset q)) rows = drop (length (pg_rows p)) (drop (nat (pg_offset p)) rows)" by simp
  then have "drop (nat (pg_offset q)) rows = rest" unfolding rest by simp
  then have "prefix (concat (map pg_rows (q # qs))) rest" using Cons.IH [of q] Cons.prems by simp
  then show ?case unfolding rest by simp
qed

text \<open>
  However many pages of a result are appended, what is shown is one window of it: pages that follow
  each other give exactly the rows from the offset of the first on, without a gap or a repetition, the
  count of all of them, and the paging members of the last one.
\<close>

theorem appended_pages_are_one_window:
  assumes "consecutive p ps" and "\<forall>q \<in> set (p # ps). page_of_rows rows q"
  shows "pg_rows (append_pages p ps) = concat (map pg_rows (p # ps)) \<and>
    prefix (pg_rows (append_pages p ps)) (drop (nat (pg_offset p)) rows) \<and>
    pg_offset (append_pages p ps) = pg_offset p \<and>
    pg_returned_count (append_pages p ps) = sum_list (map pg_returned_count (p # ps)) \<and>
    pg_has_more (append_pages p ps) = pg_has_more (last (p # ps)) \<and>
    pg_next_offset (append_pages p ps) = pg_next_offset (last (p # ps))"
proof -
  have "append_pages p ps =
    (if ps = [] then p
     else (last ps)\<lparr>pg_offset := pg_offset p, pg_rows := pg_rows p @ concat (map pg_rows ps),
       pg_returned_count := pg_returned_count p + sum_list (map pg_returned_count ps)\<rparr>)"
    by (rule append_consecutive [OF assms(1)]) simp_all
  with window_concat [OF assms] show ?thesis by (cases "ps = []") simp_all
qed

text \<open>The layer of a result never offers its geometry column or a reserved property as a field.\<close>

lemma query_layer_fields:
  assumes "queryLayerFromResult result aliases = Some (Inr layer)" and "ll_kind layer = QueryMvt q"
    and "f \<in> set (qp_scalarFields q)"
  shows "qf_name f \<noteq> qp_geometryColumn q \<and> \<not> isQueryMvtReservedProperty (qf_name f) \<and>
    qf_name f \<in> co_name ` set (pg_columns result)"
  using assms
  by (auto simp: queryLayerFromResult_def buildQueryMvtLayer_def scalarFields_def Let_def split: if_splits)

section \<open>Examples\<close>

definition demo_id :: string where "demo_id = ''abcdefghij0123456789''"

definition demo_page_json :: json where
  "demo_page_json = JObj
     [(''columns'', JArr [JObj [(''name'', JStr ''a''), (''type'', JStr ''INTEGER''), (''nullable'', JBool True)]]),
      (''rows'', JArr [JObj [(''a'', j_of_int 7)]]), (''offset'', j_of_int 0), (''limit'', j_of_int 1),
      (''returned_count'', j_of_int 1), (''has_more'', JBool True), (''next_offset'', j_of_int 1), (''warnings'', JArr []),
      (''elapsed_ms'', j_of_int 3), (''bytes_read'', j_of_int 9), (''files_read'', j_of_int 1),
      (''response_truncated'', JBool False), (''deterministic_order'', JBool True), (''query_id'', JStr demo_id),
      (''query_token'', JStr ''t'')]"

definition demo_page :: service_page where
  "demo_page = the (QueryPageSchema (\<lambda>s. None) demo_page_json)"

definition demo_page_service :: fetcher where
  "demo_page_service c = Inr \<lparr>hr_status = 200, hr_contentType = None, hr_text = json_stringify demo_page_json\<rparr>"

lemma demo_page_parsed: "QueryPageSchema (\<lambda>s. None) demo_page_json = Some demo_page"
  by code_simp

lemma demo_page_clean: "json_clean demo_page_json"
  by code_simp

lemma demo_page_answer:
  "requestQueryResponse demo_page_service (bounds_call demo_id ''t'') (QueryPageSchema (\<lambda>s. None)) = Inr demo_page"
  by (simp add: requestQueryResponse_def demo_page_service_def parseResponse_def json_parse_stringify [OF demo_page_clean]
      response_ok_def demo_page_parsed)

theorem accepted_pages_are_tables_witness:
  "QueryTokenSchema (pg_query_token demo_page) \<and> (pg_has_more demo_page \<longleftrightarrow> pg_next_offset demo_page \<noteq> None)"
  using accepted_pages_are_tables [OF demo_page_answer] by blast

definition demo_page_request :: proxy_request where
  "demo_page_request = \<lparr>rq_contentLength = None, rq_token = Some ''t'',
     rq_chunks = Some [json_stringify (JObj [(''offset'', j_of_int 0)])], rq_requestId = ''i''\<rparr>"

lemma demo_page_body:
  "json_stringify (JObj [(''offset'', j_of_int 0)]) = [CHR ''{'', CHR 34] @ ''offset'' @ [CHR 34, CHR '':'', CHR ''0'', CHR ''}'']"
  "utf8_decode (json_stringify (JObj [(''offset'', j_of_int 0)])) = Some (json_stringify (JObj [(''offset'', j_of_int 0)]))"
  "QueryPageRequestSchema (JObj [(''offset'', j_of_int 0)]) = Some \<lparr>pr_offset = 0, pr_page_size = 100\<rparr>"
  "json_clean (JObj [(''offset'', j_of_int 0)])"
  by code_simp+

lemma demo_page_parsed_body:
  "parsed_body QueryPageRequestSchema demo_page_request = Some (Inr \<lparr>pr_offset = 0, pr_page_size = 100\<rparr>)"
proof -
  have "readBoundedRequestBody MAX_QUERY_BODY_BYTES demo_page_request = Some (json_stringify (JObj [(''offset'', j_of_int 0)]))"
    by (simp add: readBoundedRequestBody_def demo_page_request_def declared_ok_def read_chunks_concat
        MAX_QUERY_BODY_BYTES_def demo_page_body(1) del: json_stringify.simps)
  then show ?thesis
    by (simp add: parsed_body_def demo_page_body(2,3) json_parse_stringify [OF demo_page_body(4)] del: json_stringify.simps)
qed

lemma demo_credentials: "credentials_ok demo_id (rq_token demo_page_request)"
  by (simp add: credentials_ok_def QueryIdSchema_def QueryTokenSchema_def demo_id_def demo_page_request_def
      b64_token_char_def is_lower_alpha_def is_upper_alpha_def is_digit_def is_space_def)

theorem page_route_forwards_valid_requests_witness:
  "\<exists>c. fst (the (queryPageHandler demo_service (Some ''http://q/'') demo_id demo_page_request)) = [c] \<and>
     ca_url c = ''http://q/api/queries/abcdefghij0123456789/pages''"
proof -
  obtain calls reply where handled: "queryPageHandler demo_service (Some ''http://q/'') demo_id demo_page_request = Some (calls, reply)"
    "calls \<noteq> []"
    by (simp add: queryPageHandler_def demo_credentials demo_page_parsed_body forward_def)
  have base: "without_slash ''http://q/'' = ''http://q''" by (simp add: without_slash_def)
  from page_route_forwards_valid_requests [OF handled(1)] handled show ?thesis
    by (auto simp: base demo_id_def)
qed

definition demo_public :: public_page where
  "demo_public = publicQueryPage demo_page"

theorem appended_pages_are_one_window_witness:
  "pg_rows (append_pages demo_public [demo_public\<lparr>pg_offset := 1\<rparr>]) =
     [[(''a'', j_of_int 7)], [(''a'', j_of_int 7)]]"
proof -
  have rows: "pg_rows demo_public = [[(''a'', j_of_int 7)]]" "pg_offset demo_public = 0" by code_simp+
  show ?thesis
    using appended_pages_are_one_window [of demo_public "[demo_public\<lparr>pg_offset := 1\<rparr>]"
        "[[(''a'', j_of_int 7)], [(''a'', j_of_int 7)]]"]
    by (simp add: rows page_of_rows_def)
qed

end
