(* ===== verification/CatalogTools.thy ===== *)
theory CatalogTools
  imports JsSchema CatalogListing WebMcpResult DatasetSources
begin

text \<open>
  The catalogue tools that a browsing agent calls, \<open>webapp/src/lib/webmcp/catalogTools.ts\<close>: the schemas of
  their inputs, the documents they fetch from the API and check, and the six tools. \<open>fetch\<close> and
  \<open>new URL\<close> are parameters.

  Members of an object keep the order in which the document lists them; JavaScript moves the keys
  that are array indices to the front.
\<close>

section \<open>Inputs\<close>

definition MAX_SEARCH_LIMIT :: int where "MAX_SEARCH_LIMIT = 20"
definition MAX_SCHEMA_LIMIT :: int where "MAX_SCHEMA_LIMIT = 50"

text \<open>\<open>/^[a-z0-9][a-z0-9_-]*$/\<close>.\<close>

definition slug_start :: "char \<Rightarrow> bool" where
  "slug_start c \<longleftrightarrow> is_lower_alpha c \<or> is_digit c"

definition is_slug :: "string \<Rightarrow> bool" where
  "is_slug s \<longleftrightarrow> s \<noteq> [] \<and> slug_start (hd s) \<and> list_all (\<lambda>c. slug_start c \<or> c = CHR ''_'' \<or> c = CHR ''-'') s"

definition j_slug :: "json \<Rightarrow> string option" where
  "j_slug = such_that is_slug j_text"

definition j_upto :: "nat \<Rightarrow> json \<Rightarrow> string option" where
  "j_upto n = such_that (\<lambda>s. length s \<le> n) j_text"

definition j_between :: "nat \<Rightarrow> nat \<Rightarrow> json \<Rightarrow> string option" where
  "j_between m n = such_that (\<lambda>s. m \<le> length s \<and> length s \<le> n) j_text"

definition j_limit :: "int \<Rightarrow> json \<Rightarrow> int option" where
  "j_limit n = such_that (\<lambda>i. 0 < i \<and> i \<le> n) j_int"

text \<open>A record of tags: every value is a text or a list of texts; \<open>ok\<close> says which texts and keys.\<close>

definition tag_json :: "(string \<Rightarrow> bool) \<Rightarrow> json \<Rightarrow> bool" where
  "tag_json ok j =
     (case j of JStr s \<Rightarrow> ok s
      | JArr xs \<Rightarrow> list_all (\<lambda>x. case x of JStr s \<Rightarrow> ok s | _ \<Rightarrow> False) xs
      | _ \<Rightarrow> False)"

definition j_tags :: "(string \<Rightarrow> bool) \<Rightarrow> (string \<Rightarrow> bool) \<Rightarrow> json \<Rightarrow> (string \<times> json) list option" where
  "j_tags key_ok ok j =
     (case j of JObj ms \<Rightarrow> if list_all (\<lambda>m. key_ok (fst m) \<and> tag_json ok (snd m)) ms then Some ms else None
      | _ \<Rightarrow> None)"

definition tagFilters :: "json \<Rightarrow> (string \<times> json) list option" where
  "tagFilters = j_tags (\<lambda>k. 1 \<le> length k \<and> length k \<le> 100) (\<lambda>s. length s \<le> 200)"

record search_request =
  se_query :: "string option"
  se_tag_filters :: "(string \<times> json) list option"
  se_offset :: "int option"
  se_limit :: "int option"

definition searchFields :: "(string \<times> json) list \<Rightarrow> search_request option" where
  "searchFields ms =
     do {
       query \<leftarrow> opt ms ''query'' (j_upto 200);
       tags \<leftarrow> opt ms ''tag_filters'' tagFilters;
       offset \<leftarrow> opt ms ''offset'' j_nonneg;
       limit \<leftarrow> opt ms ''limit'' (j_limit MAX_SEARCH_LIMIT);
       Some \<lparr>se_query = query, se_tag_filters = tags, se_offset = offset, se_limit = limit\<rparr>
     }"

definition searchInput :: "json \<Rightarrow> (string \<times> search_request) option" where
  "searchInput j =
     do {
       ms \<leftarrow> strict [''collection'', ''query'', ''tag_filters'', ''offset'', ''limit''] j;
       collection \<leftarrow> req ms ''collection'' j_slug;
       search \<leftarrow> searchFields ms;
       Some (collection, search)
     }"

record collection_request = search_request +
  ci_slug :: string
  ci_tag_key :: "string option"
  ci_tag_value :: "string option"

definition collectionInput :: "json \<Rightarrow> collection_request option" where
  "collectionInput j =
     do {
       ms \<leftarrow> strict [''query'', ''tag_filters'', ''offset'', ''limit'', ''slug'', ''tag_key'', ''tag_value''] j;
       search \<leftarrow> searchFields ms;
       slug \<leftarrow> req ms ''slug'' j_slug;
       key \<leftarrow> opt ms ''tag_key'' (j_between 1 100);
       val \<leftarrow> opt ms ''tag_value'' (j_upto 200);
       Some (search_request.extend search \<lparr>ci_slug = slug, ci_tag_key = key, ci_tag_value = val\<rparr>)
     }"

record file_request =
  nm_collection :: string
  nm_dataset :: string
  nm_file :: string

definition fileFields :: "(string \<times> json) list \<Rightarrow> file_request option" where
  "fileFields ms =
     do {
       collection \<leftarrow> req ms ''collection'' j_slug;
       dataset \<leftarrow> req ms ''dataset'' j_slug;
       slug \<leftarrow> req ms ''file'' j_slug;
       Some \<lparr>nm_collection = collection, nm_dataset = dataset, nm_file = slug\<rparr>
     }"

definition datasetInput :: "json \<Rightarrow> (string \<times> string) option" where
  "datasetInput j =
     do {
       ms \<leftarrow> strict [''collection'', ''dataset''] j;
       collection \<leftarrow> req ms ''collection'' j_slug;
       dataset \<leftarrow> req ms ''dataset'' j_slug;
       Some (collection, dataset)
     }"

definition fileInput :: "json \<Rightarrow> file_request option" where
  "fileInput j = Option.bind (strict [''collection'', ''dataset'', ''file''] j) fileFields"

record schema_request = file_request +
  sc_version :: "string option"
  sc_offset :: "int option"
  sc_limit :: "int option"

text \<open>A version is a text of 1 to 100 characters or a number; the tool only uses its text.\<close>

definition j_version :: "json \<Rightarrow> string option" where
  "j_version j =
     (case j of JStr s \<Rightarrow> if 1 \<le> length s \<and> length s \<le> 100 then Some s else None
      | JNum (JsFin r) \<Rightarrow> Some (show_rat r)
      | _ \<Rightarrow> None)"

definition schemaInput :: "json \<Rightarrow> schema_request option" where
  "schemaInput j =
     do {
       ms \<leftarrow> strict [''collection'', ''dataset'', ''file'', ''version'', ''offset'', ''limit''] j;
       names \<leftarrow> fileFields ms;
       version \<leftarrow> opt ms ''version'' j_version;
       offset \<leftarrow> opt ms ''offset'' j_nonneg;
       limit \<leftarrow> opt ms ''limit'' (j_limit MAX_SCHEMA_LIMIT);
       Some (file_request.extend names \<lparr>sc_version = version, sc_offset = offset, sc_limit = limit\<rparr>)
     }"

section \<open>Documents of the API\<close>

definition j_object :: "json \<Rightarrow> (string \<times> json) list option" where
  "j_object j = (case j of JObj ms \<Rightarrow> Some ms | _ \<Rightarrow> None)"

definition j_literal :: "string \<Rightarrow> json \<Rightarrow> string option" where
  "j_literal t = such_that (\<lambda>s. s = t) j_text"

record link =
  ln_rel :: string
  ln_href :: string
  ln_title :: "string option"

definition linkSchema :: "json \<Rightarrow> link option" where
  "linkSchema j =
     do {
       ms \<leftarrow> j_object j;
       rel \<leftarrow> req ms ''rel'' j_text;
       href \<leftarrow> req ms ''href'' j_text;
       title \<leftarrow> opt ms ''title'' j_text;
       type \<leftarrow> opt ms ''type'' j_text;
       Some \<lparr>ln_rel = rel, ln_href = href, ln_title = title\<rparr>
     }"

record catalog_doc =
  ca_id :: string
  ca_title :: "string option"
  ca_description :: "string option"
  ca_keywords :: "string list option"
  ca_links :: "link list"

definition catalogSchema :: "json \<Rightarrow> catalog_doc option" where
  "catalogSchema j =
     do {
       ms \<leftarrow> j_object j;
       type \<leftarrow> req ms ''type'' (j_literal ''Catalog'');
       stac_version \<leftarrow> req ms ''stac_version'' j_text;
       i \<leftarrow> req ms ''id'' j_text1;
       title \<leftarrow> opt ms ''title'' j_text;
       description \<leftarrow> opt ms ''description'' j_text;
       keywords \<leftarrow> opt ms ''keywords'' (j_list j_text);
       links \<leftarrow> req ms ''links'' (j_list linkSchema);
       Some \<lparr>ca_id = i, ca_title = title, ca_description = description, ca_keywords = keywords, ca_links = links\<rparr>
     }"

text \<open>
  A column keeps the members that its schema names, in the order of the schema. \<open>nullable_of\<close> takes
  \<open>null\<close> or a value of the given kind.
\<close>

definition is_text :: "json \<Rightarrow> bool" where "is_text j \<longleftrightarrow> j_text j \<noteq> None"
definition is_number :: "json \<Rightarrow> bool" where "is_number j \<longleftrightarrow> j_finite j \<noteq> None"
definition is_bool :: "json \<Rightarrow> bool" where "is_bool j \<longleftrightarrow> j_bool j \<noteq> None"
definition is_texts :: "json \<Rightarrow> bool" where "is_texts j \<longleftrightarrow> j_list j_text j \<noteq> None"
definition number_or_text :: "json \<Rightarrow> bool" where "number_or_text j \<longleftrightarrow> is_number j \<or> is_text j"
definition nullable_of :: "(json \<Rightarrow> bool) \<Rightarrow> json \<Rightarrow> bool" where "nullable_of P j \<longleftrightarrow> j = JNull \<or> P j"

definition column_members :: "(string \<times> bool \<times> (json \<Rightarrow> bool)) list" where
  "column_members =
     [(''name'', True, is_text), (''type'', True, is_text), (''description'', False, nullable_of is_text),
      (''nullable'', False, is_bool), (''num_null_values'', False, nullable_of is_number),
      (''num_unique_values'', False, nullable_of is_number), (''example_values'', False, nullable_of is_texts),
      (''min'', False, nullable_of number_or_text), (''max'', False, nullable_of number_or_text),
      (''length'', False, nullable_of is_number), (''possible_values'', False, nullable_of is_texts)]"

text \<open>One member of the schema: \<open>(name, required, check)\<close>.\<close>

definition keep_member ::
  "(string \<times> json) list \<Rightarrow> string \<times> bool \<times> (json \<Rightarrow> bool) \<Rightarrow> (string \<times> json) list option" where
  "keep_member ms m =
     (case map_of ms (fst m) of
        None \<Rightarrow> if fst (snd m) then None else Some []
      | Some j \<Rightarrow> if snd (snd m) j then Some [(fst m, j)] else None)"

definition tableColumnSchema :: "json \<Rightarrow> json option" where
  "tableColumnSchema j =
     do {
       ms \<leftarrow> j_object j;
       kept \<leftarrow> those (map (keep_member ms) column_members);
       Some (JObj (concat kept))
     }"

record asset_doc =
  as_format_key :: "string option"
  as_storage_location_slug :: "string option"

definition stacAssetSchema :: "json \<Rightarrow> asset_doc option" where
  "stacAssetSchema j =
     do {
       ms \<leftarrow> j_object j;
       href \<leftarrow> req ms ''href'' j_text;
       title \<leftarrow> opt ms ''title'' j_text;
       type \<leftarrow> opt ms ''type'' j_text;
       roles \<leftarrow> opt ms ''roles'' (j_list j_text);
       format_key \<leftarrow> opt ms ''hifld:format_key'' j_text;
       sha \<leftarrow> opt ms ''hifld:sha256'' j_text;
       location \<leftarrow> opt ms ''hifld:storage_location_slug'' j_text;
       Some \<lparr>as_format_key = format_key, as_storage_location_slug = location\<rparr>
     }"

definition j_record :: "(json \<Rightarrow> 'a option) \<Rightarrow> json \<Rightarrow> (string \<times> 'a) list option" where
  "j_record f j =
     Option.bind (j_object j) (\<lambda>ms. those (map (\<lambda>m. map_option (Pair (fst m)) (f (snd m))) ms))"

record stac_doc =
  st_id :: string
  st_title :: "string option"
  st_assets :: "(string \<times> asset_doc) list"
  st_columns :: "json list option"

definition stacCollectionSchema :: "json \<Rightarrow> stac_doc option" where
  "stacCollectionSchema j =
     do {
       ms \<leftarrow> j_object j;
       type \<leftarrow> req ms ''type'' (j_literal ''Collection'');
       stac_version \<leftarrow> req ms ''stac_version'' j_text;
       i \<leftarrow> req ms ''id'' j_text1;
       title \<leftarrow> opt ms ''title'' j_text;
       description \<leftarrow> opt ms ''description'' j_text;
       links \<leftarrow> req ms ''links'' (j_list linkSchema);
       assets \<leftarrow> req ms ''assets'' (j_record stacAssetSchema);
       columns \<leftarrow> opt ms ''table:columns'' (j_list tableColumnSchema);
       Some \<lparr>st_id = i, st_title = title, st_assets = assets, st_columns = columns\<rparr>
     }"

record dataset_page =
  dp_datasets :: "catalog_doc list"
  dp_total :: int
  dp_limit :: int
  dp_offset :: int

definition pageSchema :: "json \<Rightarrow> dataset_page option" where
  "pageSchema j =
     do {
       ms \<leftarrow> strict [''datasets'', ''total'', ''limit'', ''offset'', ''links''] j;
       datasets \<leftarrow> req ms ''datasets'' (j_list catalogSchema);
       total \<leftarrow> req ms ''total'' j_nonneg;
       limit \<leftarrow> req ms ''limit'' (such_that (\<lambda>i. 0 < i) j_int);
       offset \<leftarrow> req ms ''offset'' j_nonneg;
       links \<leftarrow> opt ms ''links'' (j_record j_text);
       Some \<lparr>dp_datasets = datasets, dp_total = total, dp_limit = limit, dp_offset = offset\<rparr>
     }"

definition tagsSchema :: "json \<Rightarrow> (string \<times> json) list option" where
  "tagsSchema j = Option.bind (j_object j) (\<lambda>ms. req ms ''tags'' (j_tags (\<lambda>k. True) (\<lambda>s. True)))"

section \<open>Requests\<close>

text \<open>
  What a request gives: \<open>fetch\<close> rejects, or a status and the JSON of the body (\<open>None\<close> when the body is
  not JSON). Failures are the two of \<open>CatalogRequestError\<close> and any other error.
\<close>

datatype catalog_reply = RequestFails | Reply nat "json option"

datatype catalog_failure = CatalogNotFound | CatalogUnavailable | OtherFailure

type_synonym catalog_fetch = "string \<Rightarrow> catalog_reply"

definition getJson :: "catalog_fetch \<Rightarrow> string \<Rightarrow> (json \<Rightarrow> 'a option) \<Rightarrow> catalog_failure + 'a" where
  "getJson fetch path schema =
     (case fetch path of
        RequestFails \<Rightarrow> Inl OtherFailure
      | Reply status body \<Rightarrow>
          if status = 404 then Inl CatalogNotFound
          else if status < 200 \<or> 300 \<le> status then Inl CatalogUnavailable
          else (case body of
             None \<Rightarrow> Inl OtherFailure
           | Some j \<Rightarrow> (case schema j of None \<Rightarrow> Inl CatalogUnavailable | Some x \<Rightarrow> Inr x)))"

definition failed :: "catalog_failure \<Rightarrow> tool_result" where
  "failed e =
     (case e of
        CatalogNotFound \<Rightarrow> failure NotFound ''The requested catalog item was not found.''
      | CatalogUnavailable \<Rightarrow> failure UpstreamUnavailable ''The catalog service is temporarily unavailable.''
      | OtherFailure \<Rightarrow> failure InternalError DEFAULT_INTERNAL_ERROR)"

text \<open>
  \<open>Promise.all\<close>: \<open>arrival\<close> is the order in which the answers arrive; the first failure to arrive is the
  failure of all.
\<close>

definition first_failure :: "nat list \<Rightarrow> 'e option list \<Rightarrow> 'e option" where
  "first_failure arrival es =
     (case filter (\<lambda>i. i < length es \<and> es ! i \<noteq> None) arrival of [] \<Rightarrow> None | i # is \<Rightarrow> es ! i)"

fun error_of :: "'e + 'a \<Rightarrow> 'e option" where
  "error_of (Inl e) = Some e"
| "error_of (Inr x) = None"

fun values_of :: "('e + 'a) list \<Rightarrow> 'a list" where
  "values_of [] = []"
| "values_of (Inr x # rs) = x # values_of rs"
| "values_of (Inl e # rs) = values_of rs"

definition promise_all :: "nat list \<Rightarrow> ('e + 'a) list \<Rightarrow> 'e + 'a list" where
  "promise_all arrival rs =
     (case first_failure arrival (map error_of rs) of None \<Rightarrow> Inr (values_of rs) | Some e \<Rightarrow> Inl e)"

definition tags_text :: "(string \<times> json) list \<Rightarrow> string" where
  "tags_text tags = json_stringify (JObj tags)"

definition queryString :: "search_request \<Rightarrow> string" where
  "queryString p =
     form_serialize
       (set_number ''offset'' (se_offset p)
         (set_number ''limit'' (map_option (\<lambda>n. min n MAX_SEARCH_LIMIT) (se_limit p))
           (set_text ''tag_filters''
             (case se_tag_filters p of None \<Rightarrow> None | Some tags \<Rightarrow> if tags = [] then None else Some (tags_text tags))
             (set_text ''query'' (map_option trim (se_query p)) []))))"

definition with_query :: "string \<Rightarrow> string \<Rightarrow> string" where
  "with_query path qs = path @ (if qs = [] then [] else CHR ''?'' # qs)"

definition collection_path :: "string \<Rightarrow> string" where
  "collection_path c = ''/api/collections/'' @ enc c"

definition dataset_path :: "string \<Rightarrow> string \<Rightarrow> string" where
  "dataset_path c d = collection_path c @ ''/datasets/'' @ enc d"

definition file_path :: "string \<Rightarrow> string \<Rightarrow> string \<Rightarrow> string" where
  "file_path c d f = dataset_path c d @ ''/files/'' @ enc f"

section \<open>Shaping the answers\<close>

text \<open>The slug of a child link: the last but one segment of the path of a \<open>.json\<close> document.\<close>

definition child_segment :: "string \<Rightarrow> string option" where
  "child_segment pathname =
     (let parts = filter (\<lambda>s. s \<noteq> []) (split_on CHR ''/'' pathname) in
      if length parts < 2 \<or> \<not> endsWith (last parts) ''.json'' then None else Some (parts ! (length parts - 2)))"

definition childSlug :: "url_library \<Rightarrow> string \<Rightarrow> string option" where
  "childSlug lib href =
     do {
       base \<leftarrow> parse_url lib ''https://invalid.local/'';
       url \<leftarrow> resolve_url lib href base;
       segment \<leftarrow> child_segment (wu_pathname url);
       s \<leftarrow> decodeURIComponent segment;
       (if is_slug s then Some s else None)
     }"

definition datasetSummary :: "catalog_doc \<Rightarrow> string \<Rightarrow> catalog_failure + json" where
  "datasetSummary item c =
     (let dataset = last (split_on CHR ''/'' (ca_id item)) in
      if ca_id item \<noteq> c @ ''/'' @ dataset \<or> \<not> is_slug dataset then Inl CatalogUnavailable
      else Inr (JObj
        [(''id'', JStr (ca_id item)), (''slug'', JStr dataset),
         (''name'', JStr (with_default dataset (ca_title item))),
         (''tags'', JObj (case ca_keywords item of None \<Rightarrow> [] | Some ks \<Rightarrow> [(''keywords'', JArr (map JStr ks))])),
         (''link'', JStr (dataset_path c dataset))]))"

text \<open>\<open>xs.map(f)\<close> where \<open>f\<close> may throw.\<close>

fun map_or_throw :: "('a \<Rightarrow> 'e + 'b) \<Rightarrow> 'a list \<Rightarrow> 'e + 'b list" where
  "map_or_throw f [] = Inr []"
| "map_or_throw f (x # xs) =
     (case f x of Inl e \<Rightarrow> Inl e
      | Inr y \<Rightarrow> (case map_or_throw f xs of Inl e \<Rightarrow> Inl e | Inr ys \<Rightarrow> Inr (y # ys)))"

definition child_links :: "link list \<Rightarrow> link list" where
  "child_links ls = filter (\<lambda>l. ln_rel l = ''child'') ls"

definition or_null :: "string option \<Rightarrow> json" where
  "or_null x = (case x of None \<Rightarrow> JNull | Some s \<Rightarrow> JStr s)"

definition child_entry :: "string \<Rightarrow> string \<Rightarrow> string option \<Rightarrow> json" where
  "child_entry i name description =
     JObj [(''id'', JStr i), (''slug'', JStr i), (''name'', JStr name), (''description'', or_null description),
       (''link'', JStr (collection_path i))]"

text \<open>One child; a link that is no slug has failed before any answer arrives.\<close>

definition list_child :: "url_library \<Rightarrow> catalog_fetch \<Rightarrow> link \<Rightarrow> catalog_failure + json" where
  "list_child lib fetch l =
     (case childSlug lib (ln_href l) of
        None \<Rightarrow> Inl CatalogUnavailable
      | Some i \<Rightarrow>
          if truthy (ln_title l) then Inr (child_entry i (the (ln_title l)) None)
          else (case getJson fetch (collection_path i) catalogSchema of
             Inl e \<Rightarrow> Inl e
           | Inr child \<Rightarrow>
               if ca_id child \<noteq> i then Inl CatalogUnavailable
               else Inr (child_entry i (with_default i (ca_title child)) (ca_description child))))"

definition listChildren :: "url_library \<Rightarrow> catalog_fetch \<Rightarrow> nat list \<Rightarrow> catalog_doc \<Rightarrow> catalog_failure + json list" where
  "listChildren lib fetch arrival doc =
     (let ls = child_links (ca_links doc) in
      if list_ex (\<lambda>l. childSlug lib (ln_href l) = None) ls then Inl CatalogUnavailable
      else promise_all arrival (map (list_child lib fetch) ls))"

record file_child =
  fc_slug :: string
  fc_name :: string

definition file_child :: "url_library \<Rightarrow> link \<Rightarrow> catalog_failure + file_child" where
  "file_child lib l =
     (case childSlug lib (ln_href l) of
        None \<Rightarrow> Inl CatalogUnavailable
      | Some f \<Rightarrow> Inr \<lparr>fc_slug = f, fc_name = with_default f (ln_title l)\<rparr>)"

text \<open>The filter with its set \<open>seen\<close>.\<close>

fun first_of_slug :: "string list \<Rightarrow> file_child list \<Rightarrow> file_child list" where
  "first_of_slug seen [] = []"
| "first_of_slug seen (f # fs) =
     (if fc_slug f \<in> set seen then first_of_slug seen fs else f # first_of_slug (seen @ [fc_slug f]) fs)"

definition file_entry :: "string \<Rightarrow> string \<Rightarrow> file_child \<Rightarrow> json" where
  "file_entry c d f =
     JObj [(''id'', JStr (c @ ''/'' @ d @ ''/'' @ fc_slug f)), (''slug'', JStr (fc_slug f)),
       (''name'', JStr (fc_name f)), (''link'', JStr (file_path c d (fc_slug f)))]"

definition fileChildren :: "url_library \<Rightarrow> catalog_doc \<Rightarrow> string \<Rightarrow> string \<Rightarrow> catalog_failure + json list" where
  "fileChildren lib item c d =
     (if ca_id item \<noteq> c @ ''/'' @ d then Inl CatalogUnavailable
      else (case map_or_throw (file_child lib) (child_links (ca_links item)) of
         Inl e \<Rightarrow> Inl e
       | Inr fs \<Rightarrow> Inr (map (file_entry c d) (first_of_slug [] fs))))"

definition selectedVersion :: "stac_doc \<Rightarrow> string \<Rightarrow> string \<Rightarrow> string \<Rightarrow> catalog_failure + string" where
  "selectedVersion item c d f =
     (let prefix = c @ ''/'' @ d @ ''/'' @ f @ ''/''; version = drop (length prefix) (st_id item) in
      if \<not> startsWith (st_id item) prefix \<or> version = [] then Inl CatalogUnavailable else Inr version)"

definition asset_format :: "string \<times> asset_doc \<Rightarrow> string" where
  "asset_format a =
     (case as_format_key (snd a) of Some k \<Rightarrow> k | None \<Rightarrow> hd (split_on CHR ''-'' (fst a)))"

text \<open>The query source of an asset, when \<open>n\<close> query sources were found before it.\<close>

definition query_source :: "file_request \<Rightarrow> string \<Rightarrow> nat \<Rightarrow> string \<times> asset_doc \<Rightarrow> source_ref option" where
  "query_source names version n a =
     (if asset_format a = ''geoparquet''
      then Some \<lparr>sr_alias = ''source_'' @ show_nat n, sr_collection_slug = nm_collection names,
        sr_dataset_slug = nm_dataset names, sr_file_slug = nm_file names, sr_version = version,
        sr_asset_key = fst a,
        sr_storage_location_slug = (if truthy (as_storage_location_slug (snd a))
          then as_storage_location_slug (snd a) else None)\<rparr>
      else None)"

definition asset_source :: "string \<Rightarrow> string \<times> asset_doc \<Rightarrow> source_ref option \<Rightarrow> json" where
  "asset_source version a q =
     JObj [(''asset_key'', JStr (fst a)), (''version'', JStr version), (''source_type'', JStr ''file''),
       (''summary'', JNull), (''query_source'', case q of None \<Rightarrow> JNull | Some s \<Rightarrow> source_ref_json s)]"

text \<open>The loop over the assets with its map \<open>formats\<close> and its list \<open>querySources\<close>.\<close>

type_synonym shape_state = "(string \<times> json list) list \<times> source_ref list"

definition shape_asset :: "file_request \<Rightarrow> string \<Rightarrow> shape_state \<Rightarrow> string \<times> asset_doc \<Rightarrow> shape_state" where
  "shape_asset names version st a =
     (let (formats, queries) = st;
          q = query_source names version (length queries) a;
          format = asset_format a;
          sources = with_default [] (map_of formats format)
      in (map_set format (sources @ [asset_source version a q]) formats,
          case q of None \<Rightarrow> queries | Some s \<Rightarrow> queries @ [s]))"

definition named_format :: "string \<times> json list \<Rightarrow> json" where
  "named_format f = JObj [(''format_type'', JStr (fst f)), (''name'', JStr (fst f)), (''sources'', JArr (snd f))]"

definition self_link :: "string \<Rightarrow> string \<times> json" where
  "self_link path = (''links'', JObj [(''self'', JStr path)])"

definition fileShape :: "stac_doc \<Rightarrow> file_request \<Rightarrow> catalog_failure + json" where
  "fileShape item names =
     (let c = nm_collection names; d = nm_dataset names; f = nm_file names in
      case selectedVersion item c d f of
        Inl e \<Rightarrow> Inl e
      | Inr version \<Rightarrow>
          (case foldl (shape_asset names version) ([], []) (st_assets item) of
             (formats, queries) \<Rightarrow>
               Inr (JObj
                 [(''collection'', JObj [(''slug'', JStr c), (''name'', JStr c), self_link (collection_path c)]),
                  (''dataset'', JObj [(''slug'', JStr d), (''name'', JStr d), (''tags'', JObj []),
                    self_link (dataset_path c d)]),
                  (''file'', JObj [(''slug'', JStr f), (''name'', JStr (with_default f (st_title item))),
                    (''layer_name'', JNull), (''summary'', JNull), self_link (file_path c d f)]),
                  (''formats'', JArr (map named_format formats)),
                  (''query_sources'', JArr (map source_ref_json queries)),
                  self_link (file_path c d f)])))"

section \<open>Tools\<close>

definition tool_answer :: "string \<Rightarrow> catalog_failure + json \<Rightarrow> tool_result" where
  "tool_answer summary r = (case r of Inl e \<Rightarrow> failed e | Inr data \<Rightarrow> success summary data)"

definition listCollections_tool :: "url_library \<Rightarrow> catalog_fetch \<Rightarrow> nat list \<Rightarrow> tool_result" where
  "listCollections_tool lib fetch arrival =
     tool_answer ''Loaded collections.''
       (case getJson fetch ''/api/collections'' catalogSchema of
          Inl e \<Rightarrow> Inl e
        | Inr doc \<Rightarrow> map_sum id (\<lambda>cs. JObj [(''collections'', JArr cs)]) (listChildren lib fetch arrival doc))"

definition page_members :: "dataset_page \<Rightarrow> json list \<Rightarrow> (string \<times> json) list" where
  "page_members page ds =
     [(''datasets'', JArr ds), (''total'', j_of_int (dp_total page)), (''limit'', j_of_int (dp_limit page)),
      (''offset'', j_of_int (dp_offset page))]"

text \<open>The search of \<open>get_collection\<close>; \<open>tag_key\<close> with \<open>tag_value\<close> replaces the other tag filters.\<close>

definition collection_search :: "collection_request \<Rightarrow> search_request" where
  "collection_search input =
     (case (ci_tag_key input, ci_tag_value input) of
        (Some k, Some v) \<Rightarrow> (search_request.truncate input)\<lparr>se_tag_filters := Some [(k, JStr v)]\<rparr>
      | _ \<Rightarrow> search_request.truncate input)"

definition collection_answer ::
  "collection_request \<Rightarrow> catalog_doc \<Rightarrow> dataset_page \<Rightarrow> (string \<times> json) list \<Rightarrow> catalog_failure + json" where
  "collection_answer input doc page tags =
     (let c = ci_slug input in
      if ca_id doc \<noteq> c then Inl CatalogUnavailable
      else map_sum id
        (\<lambda>ds. JObj
          ((''collection'', JObj [(''id'', JStr (ca_id doc)), (''slug'', JStr c),
              (''name'', JStr (with_default c (ca_title doc))), (''description'', or_null (ca_description doc)),
              (''link'', JStr (collection_path c))])
           # page_members page ds @ [(''tags'', JObj tags)]))
        (map_or_throw (\<lambda>x. datasetSummary x c) (dp_datasets page)))"

definition getCollection_tool :: "catalog_fetch \<Rightarrow> nat list \<Rightarrow> collection_request \<Rightarrow> tool_result" where
  "getCollection_tool fetch arrival input =
     (let qs = queryString (collection_search input);
          base = collection_path (ci_slug input);
          catalog = getJson fetch base catalogSchema;
          page = getJson fetch (with_query (base @ ''/datasets'') qs) pageSchema;
          tags = getJson fetch (base @ ''/datasets/tags'') tagsSchema
      in tool_answer ''Loaded collection.''
        (case (catalog, page, tags) of
           (Inr doc, Inr p, Inr ts) \<Rightarrow> collection_answer input doc p ts
         | _ \<Rightarrow> (case first_failure arrival [error_of catalog, error_of page, error_of tags] of
                    Some e \<Rightarrow> Inl e | None \<Rightarrow> Inl OtherFailure)))"

text \<open>
  The visible search that the tool writes into the page's URL; \<open>navigate\<close> says whether the navigation
  succeeds. The tool gives its calls of the navigation and its result.
\<close>

record search_url =
  su_query :: "string option"
  su_tag_filters :: "string option"
  su_offset :: "int option"
  su_limit :: "int option"

definition visible_search :: "search_request \<Rightarrow> search_url" where
  "visible_search input =
     \<lparr>su_query = se_query input, su_tag_filters = map_option tags_text (se_tag_filters input),
      su_offset = se_offset input, su_limit = se_limit input\<rparr>"

definition searchDatasets_tool ::
  "catalog_fetch \<Rightarrow> (string \<Rightarrow> search_url \<Rightarrow> bool) \<Rightarrow> string \<times> search_request \<Rightarrow> (string \<times> search_url) list \<times> tool_result" where
  "searchDatasets_tool fetch navigate input =
     (let c = fst input; qs = queryString (snd input); nav = visible_search (snd input) in
      case getJson fetch (with_query (collection_path c @ ''/datasets'') qs) pageSchema of
        Inl e \<Rightarrow> ([], failed e)
      | Inr page \<Rightarrow>
          ([(c, nav)],
           if \<not> navigate c nav then failed OtherFailure
           else tool_answer ''Updated the visible dataset search.''
             (map_sum id (\<lambda>ds. JObj (page_members page ds))
               (map_or_throw (\<lambda>x. datasetSummary x c) (dp_datasets page)))))"

definition getDataset_tool :: "url_library \<Rightarrow> catalog_fetch \<Rightarrow> string \<times> string \<Rightarrow> tool_result" where
  "getDataset_tool lib fetch input =
     (let c = fst input; d = snd input in
      tool_answer ''Loaded dataset.''
        (case getJson fetch (dataset_path c d) catalogSchema of
           Inl e \<Rightarrow> Inl e
         | Inr item \<Rightarrow>
             (case datasetSummary item c of
                Inl e \<Rightarrow> Inl e
              | Inr summary \<Rightarrow>
                  map_sum id (\<lambda>fs. JObj [(''dataset'', summary), (''files'', JArr fs)]) (fileChildren lib item c d))))"

definition getFile_tool :: "catalog_fetch \<Rightarrow> file_request \<Rightarrow> tool_result" where
  "getFile_tool fetch input =
     tool_answer ''Loaded dataset file.''
       (case getJson fetch (file_path (nm_collection input) (nm_dataset input) (nm_file input)) stacCollectionSchema of
          Inl e \<Rightarrow> Inl e
        | Inr item \<Rightarrow> fileShape item (file_request.truncate input))"

text \<open>One page of the columns of a version.\<close>

definition column_page :: "json list \<Rightarrow> int \<Rightarrow> int \<Rightarrow> json list" where
  "column_page cols offset limit = take (nat limit) (drop (nat offset) cols)"

definition schema_data :: "schema_request \<Rightarrow> stac_doc \<Rightarrow> string \<Rightarrow> json" where
  "schema_data input item version =
     (let c = nm_collection input; d = nm_dataset input; f = nm_file input; base = file_path c d f;
          cols = with_default [] (st_columns item); offset = with_default 0 (sc_offset input);
          limit = min (with_default MAX_SCHEMA_LIMIT (sc_limit input)) MAX_SCHEMA_LIMIT;
          columns = column_page cols offset limit
      in JObj
        [(''selected_version'', JStr version), (''versions'', JArr [JStr version]),
         (''file'', JObj [(''slug'', JStr f), (''name'', JStr (with_default f (st_title item))), (''layer_name'', JNull)]),
         (''dataset'', JObj [(''slug'', JStr d), (''name'', JStr d), (''tags'', JObj [])]),
         (''collection'', JObj [(''slug'', JStr c), (''name'', JStr c)]),
         (''links'', JObj [(''self'', JStr base), (''file'', JStr base)]),
         (''schema'', JObj
           [(''version'', JStr version), (''format_type'', JStr ''geoparquet''), (''format_name'', JStr ''GeoParquet''),
            (''source_id'', JStr (st_id item @ ''/geoparquet'')), (''summary'', JNull), (''columns'', JArr columns),
            (''total_columns'', j_of_int (int (length cols))), (''column_offset'', j_of_int offset),
            (''column_limit'', j_of_int limit),
            (''has_more'', JBool (offset + int (length columns) < int (length cols)))])])"

definition getSchema_tool :: "catalog_fetch \<Rightarrow> schema_request \<Rightarrow> tool_result" where
  "getSchema_tool fetch input =
     (let c = nm_collection input; d = nm_dataset input; f = nm_file input;
          qs = form_serialize (set_value ''version'' (sc_version input) [])
      in tool_answer ''Loaded dataset file schema.''
        (case getJson fetch (with_query (file_path c d f) qs) stacCollectionSchema of
           Inl e \<Rightarrow> Inl e
         | Inr item \<Rightarrow>
             (case selectedVersion item c d f of
                Inl e \<Rightarrow> Inl e
              | Inr version \<Rightarrow> Inr (schema_data input item version))))"

section \<open>The search arrives at the listing\<close>

lemma form_serialize_Nil: "form_serialize ps = [] \<longleftrightarrow> ps = []"
proof (cases ps)
  case (Cons p qs)
  have "form_pair r \<noteq> []" for r by (simp add: form_pair_def)
  then show ?thesis using join_not_Nil [of "map form_pair ps" "''&''"] Cons by (simp add: form_serialize_def)
qed (simp add: form_serialize_def)

lemma with_query_href: "with_query path (form_serialize ps) = url_href path ps"
  by (simp add: with_query_def url_href_def form_serialize_Nil)

lemma enc_no_special:
  assumes "c \<in> {CHR ''?'', CHR ''#'', CHR ''/''}"
  shows "c \<notin> set (enc s)"
  using encodeURIComponent_chars [of c s] assms
  by (auto simp: is_digit_def is_lower_alpha_def is_upper_alpha_def uri_unreserved_def)

lemma collection_path_plain:
  assumes "c \<in> {CHR ''?'', CHR ''#''}"
  shows "c \<notin> set (collection_path s @ ''/datasets'')"
  using enc_no_special [of c s] assms by (auto simp: collection_path_def)

text \<open>The parameters that \<open>queryString\<close> writes.\<close>

definition search_pairs :: "search_request \<Rightarrow> search_params" where
  "search_pairs p =
     set_number ''offset'' (se_offset p)
       (set_number ''limit'' (map_option (\<lambda>n. min n MAX_SEARCH_LIMIT) (se_limit p))
         (set_text ''tag_filters''
           (case se_tag_filters p of None \<Rightarrow> None | Some tags \<Rightarrow> if tags = [] then None else Some (tags_text tags))
           (set_text ''query'' (map_option trim (se_query p)) [])))"

lemma queryString_pairs: "queryString p = form_serialize (search_pairs p)"
  by (simp only: queryString_def search_pairs_def)

lemma search_url_params:
  "url_params (with_query (collection_path c @ ''/datasets'') (queryString p)) = Some (search_pairs p)"
  unfolding queryString_pairs with_query_href
  by (rule url_params_href) (rule collection_path_plain, simp)+

lemma tags_text_not_Nil [simp]: "tags_text tags \<noteq> []"
  by (simp add: tags_text_def)

definition sent_tags :: "search_request \<Rightarrow> string option" where
  "sent_tags p = (case se_tag_filters p of None \<Rightarrow> None | Some tags \<Rightarrow> if tags = [] then None else Some (tags_text tags))"

lemma search_pairs_get:
  "map_of (search_pairs p) ''query'' = nonempty (map_option trim (se_query p))"
  "map_of (search_pairs p) ''search'' = None"
  "map_of (search_pairs p) ''omit'' = None"
  "map_of (search_pairs p) ''include_urls'' = None"
  "map_of (search_pairs p) ''offset'' = map_option show_int (se_offset p)"
  "map_of (search_pairs p) ''limit'' = map_option (\<lambda>n. show_int (min n MAX_SEARCH_LIMIT)) (se_limit p)"
  "map_of (search_pairs p) ''tag_filters'' = sent_tags p"
  unfolding search_pairs_def sent_tags_def [symmetric]
  by (simp_all add: set_text_get set_number_get comp_def option.map_comp)
    (auto simp: sent_tags_def nonempty_def split: option.split)

lemma tag_json_read: "tag_json ok j \<Longrightarrow> tag_filter_value j \<noteq> None"
proof (cases j)
  case (JArr xs)
  assume "tag_json ok j"
  then have "list_all (\<lambda>x. case x of JStr s \<Rightarrow> ok s | _ \<Rightarrow> False) xs"
    by (simp add: tag_json_def JArr)
  then have "list_all (\<lambda>x. json_text x \<noteq> None) xs"
    by (rule list.pred_mono_strong) (simp split: json.splits)
  then have "those (map json_text xs) \<noteq> None" by (induction xs) auto
  then show ?thesis by (simp add: tag_filter_value_def JArr)
qed (auto simp: tag_json_def tag_filter_value_def)

lemma tagFilters_read: "tagFilters j = Some ms \<Longrightarrow> \<exists>fs. tagFiltersSchema (JObj ms) = Some fs"
proof -
  assume "tagFilters j = Some ms"
  then have "list_all (\<lambda>m. tag_json (\<lambda>s. length s \<le> 200) (snd m)) ms"
    by (auto simp: tagFilters_def j_tags_def list_all_iff split: json.splits if_splits)
  then have "list_all (\<lambda>m. tag_filter_value (snd m) \<noteq> None) ms"
    by (rule list.pred_mono_strong) (rule tag_json_read)
  then have "those (map (\<lambda>(k, v). map_option (Pair k) (tag_filter_value v)) ms) \<noteq> None"
    by (induction ms) auto
  then show ?thesis by (auto simp: tagFiltersSchema_def)
qed

lemma tagFilters_clean:
  assumes "tagFilters j = Some ms" and "json_clean j"
  shows "json_clean (JObj ms)"
  using assms by (auto simp: tagFilters_def j_tags_def split: json.splits if_splits)

lemma map_of_clean: "json_clean (JObj ms) \<Longrightarrow> map_of ms k = Some v \<Longrightarrow> json_clean v"
  by (auto dest!: map_of_SomeD)

lemma searchFields_ok:
  assumes "searchFields ms = Some p" and "json_clean (JObj ms)"
  shows "case se_tag_filters p of None \<Rightarrow> True
     | Some tags \<Rightarrow> json_clean (JObj tags) \<and> (\<exists>fs. tagFiltersSchema (JObj tags) = Some fs)"
    "\<And>n. se_limit p = Some n \<Longrightarrow> 0 < n \<and> n \<le> MAX_SEARCH_LIMIT" "\<And>n. se_offset p = Some n \<Longrightarrow> 0 \<le> n"
proof -
  obtain q t off lim where o: "opt ms ''query'' (j_upto 200) = Some q" "opt ms ''tag_filters'' tagFilters = Some t"
      "opt ms ''offset'' j_nonneg = Some off" "opt ms ''limit'' (j_limit MAX_SEARCH_LIMIT) = Some lim"
    and p: "p = \<lparr>se_query = q, se_tag_filters = t, se_offset = off, se_limit = lim\<rparr>"
    using assms(1) by (auto simp: searchFields_def bind_Some)
  show "case se_tag_filters p of None \<Rightarrow> True
     | Some tags \<Rightarrow> json_clean (JObj tags) \<and> (\<exists>fs. tagFiltersSchema (JObj tags) = Some fs)"
  proof (cases t)
    case (Some tags)
    then obtain j where "map_of ms ''tag_filters'' = Some j" "tagFilters j = Some tags"
      using o(2) by (auto simp: opt_def split: option.splits)
    then show ?thesis
      using tagFilters_clean tagFilters_read map_of_clean [OF assms(2)] by (simp add: p Some)
  qed (simp add: p)
  show "\<And>n. se_limit p = Some n \<Longrightarrow> 0 < n \<and> n \<le> MAX_SEARCH_LIMIT"
    using o(4) by (auto simp: p j_limit_def dest!: opt_Some)
  show "\<And>n. se_offset p = Some n \<Longrightarrow> 0 \<le> n"
    using o(3) by (auto simp: p j_nonneg_def dest!: opt_Some)
qed

text \<open>The listing query that a search stands for.\<close>

definition listing_query :: "search_request \<Rightarrow> api_query" where
  "listing_query p =
     \<lparr>aq_search = nonempty (map_option trim (se_query p)),
      aq_tagFilters = (case se_tag_filters p of None \<Rightarrow> None
        | Some tags \<Rightarrow> if tags = [] then None else tagFiltersSchema (JObj tags)),
      aq_tagFiltersParam = sent_tags p, aq_omit = None, aq_includeUrls = False,
      aq_limit = with_default DEFAULT_COLLECTION_PAGE_SIZE (se_limit p),
      aq_offset = with_default 0 (se_offset p)\<rparr>"

lemma sent_tags_parsed:
  assumes "case se_tag_filters p of None \<Rightarrow> True
     | Some tags \<Rightarrow> json_clean (JObj tags) \<and> (\<exists>fs. tagFiltersSchema (JObj tags) = Some fs)"
  shows "parseTagFilters (sent_tags p) = Inr (aq_tagFilters (listing_query p))"
proof (cases "se_tag_filters p")
  case (Some tags)
  then obtain fs where "json_parse (tags_text tags) = Some (JObj tags)" "tagFiltersSchema (JObj tags) = Some fs"
    using assms json_parse_stringify [of "JObj tags"] by (auto simp: tags_text_def simp del: json_stringify.simps)
  then show ?thesis by (simp add: Some sent_tags_def parseTagFilters_def listing_query_def)
qed (simp add: sent_tags_def parseTagFilters_def listing_query_def)

lemma read_search:
  assumes "searchFields ms = Some p" and "json_clean (JObj ms)"
  shows "parseCollectionApiQuery (search_pairs p) = Inr (listing_query p)"
proof -
  note ok = searchFields_ok [OF assms]
  have limit: "parsePositiveLimit (map_option (\<lambda>n. show_int (min n MAX_SEARCH_LIMIT)) (se_limit p))
      = Inr (with_default DEFAULT_COLLECTION_PAGE_SIZE (se_limit p))"
    using ok(2) by (cases "se_limit p") (auto simp: parsePositiveLimit_def with_default_def parseInt_show_int)
  have offset: "parseNonNegativeOffset (map_option show_int (se_offset p)) = Inr (with_default 0 (se_offset p))"
    using ok(3) by (cases "se_offset p") (auto simp: parseNonNegativeOffset_def with_default_def parseInt_show_int)
  have query: "map_option trim (nonempty (map_option trim (se_query p))) = nonempty (map_option trim (se_query p))"
    by (cases "se_query p") (auto simp: nonempty_def trim_trim)
  have "nonempty (map_option trim (se_query p)) \<noteq> Some []" by (auto simp: nonempty_def)
  then show ?thesis
    unfolding parseCollectionApiQuery_def Let_def search_pairs_get limit offset sent_tags_parsed [OF ok(1)]
    by (simp add: query) (simp add: listing_query_def)
qed

text \<open>
  C20: a search arrives at the API's listing as the agent made it: the URL that the tools fetch for an accepted
  search of a collection carries parameters that the listing route accepts, and it reads from them the
  trimmed query, the tag filters, the page size (the route's own default when the agent gave none) and the
  offset of the search.
\<close>

theorem agent_search_reaches_listing:
  assumes "searchInput j = Some (c, p)" and "json_clean j"
  shows "Option.bind (url_params (with_query (collection_path c @ ''/datasets'') (queryString p)))
      (\<lambda>ps. case parseCollectionApiQuery ps of Inl e \<Rightarrow> None | Inr q \<Rightarrow> Some q) = Some (listing_query p)"
proof -
  obtain ms where "j = JObj ms" "searchFields ms = Some p"
    using assms(1) by (auto simp: searchInput_def bind_Some strict_def split: json.splits if_splits)
  then show ?thesis using assms(2) by (simp add: search_url_params read_search)
qed

section \<open>The sources of a file\<close>

text \<open>
  The closed form of the loop over the assets: one group per format in the order of first appearance,
  with the assets of the format in order, and the query sources numbered through.
\<close>

definition assets_of :: "string \<Rightarrow> (string \<times> asset_doc) list \<Rightarrow> (string \<times> asset_doc) list" where
  "assets_of k as = filter (\<lambda>a. asset_format a = k) as"

definition numbered_sources :: "file_request \<Rightarrow> string \<Rightarrow> (string \<times> asset_doc) list \<Rightarrow> json list" where
  "numbered_sources names version as =
     map (\<lambda>(i, a). asset_source version a (query_source names version i a)) (List.enumerate 0 as)"

definition format_groups :: "file_request \<Rightarrow> string \<Rightarrow> (string \<times> asset_doc) list \<Rightarrow> (string \<times> json list) list" where
  "format_groups names version as =
     map (\<lambda>k. (k, numbered_sources names version (assets_of k as))) (set_from_list (map asset_format as))"

definition file_queries :: "file_request \<Rightarrow> string \<Rightarrow> (string \<times> asset_doc) list \<Rightarrow> source_ref list" where
  "file_queries names version as =
     map (\<lambda>(i, a). the (query_source names version i a)) (List.enumerate 0 (assets_of ''geoparquet'' as))"

lemma set_from_list_snoc: "set_from_list (xs @ [x]) = set_add x (set_from_list xs)"
  by (simp add: set_from_list_def)

lemma map_set_map_keys:
  assumes "distinct ks"
  shows "map_set k v (map (\<lambda>x. (x, f x)) ks) = map (\<lambda>x. (x, (f(k := v)) x)) (set_add k ks)"
  using assms
proof (induction ks)
  case (Cons x ks)
  then show ?case by (auto simp: set_add_def)
qed (simp add: set_add_def)

lemma length_file_queries [simp]: "length (file_queries names version as) = length (assets_of ''geoparquet'' as)"
  by (simp add: file_queries_def)

lemma numbered_sources_snoc:
  "numbered_sources names version (as @ [a]) =
     numbered_sources names version as @ [asset_source version a (query_source names version (length as) a)]"
  by (simp add: numbered_sources_def enumerate_append_eq)

lemma query_source_other: "asset_format a \<noteq> ''geoparquet'' \<Longrightarrow> query_source names version n a = None"
  by (simp add: query_source_def)

lemma shape_assets:
  "foldl (shape_asset names version) ([], []) as = (format_groups names version as, file_queries names version as)"
proof (induction as rule: rev_induct)
  case (snoc a as)
  let ?k = "asset_format a" and ?n = "length (assets_of ''geoparquet'' as)"
  let ?sources = "\<lambda>as k. numbered_sources names version (assets_of k as)"
  let ?new = "?sources as ?k @ [asset_source version a (query_source names version ?n a)]"
  have split: "assets_of k (as @ [a]) = (if k = ?k then assets_of k as @ [a] else assets_of k as)" for k
    by (simp add: assets_of_def)
  have old: "with_default [] (map_of (format_groups names version as) ?k) = ?sources as ?k"
  proof (cases "?k \<in> asset_format ` set as")
    case True
    then show ?thesis by (simp add: format_groups_def with_default_def map_of_map_restrict restrict_map_def)
  next
    case False
    then have "assets_of ?k as = []" unfolding assets_of_def filter_empty_conv by (metis imageI)
    then show ?thesis using False
      by (simp add: format_groups_def with_default_def map_of_map_restrict restrict_map_def numbered_sources_def)
  qed
  have "query_source names version ?n a = query_source names version (length (assets_of ?k as)) a"
    by (cases "?k = ''geoparquet''") (simp_all add: query_source_other)
  then have added: "?sources (as @ [a]) x = ((?sources as)(?k := ?new)) x" for x
    by (simp add: split numbered_sources_snoc)
  have "format_groups names version (as @ [a]) =
      map (\<lambda>x. (x, ((?sources as)(?k := ?new)) x)) (set_add ?k (set_from_list (map asset_format as)))"
    unfolding format_groups_def by (simp add: set_from_list_snoc) (simp add: added)
  also have "\<dots> = map_set ?k ?new (format_groups names version as)"
    by (simp add: format_groups_def map_set_map_keys)
  finally have groups: "format_groups names version (as @ [a]) = map_set ?k ?new (format_groups names version as)" .
  have queries: "file_queries names version (as @ [a]) = file_queries names version as @
      (case query_source names version ?n a of None \<Rightarrow> [] | Some s \<Rightarrow> [s])"
    by (cases "?k = ''geoparquet''")
      (auto simp: file_queries_def split enumerate_append_eq query_source_other split: option.split,
        simp add: query_source_def)
  show ?case using snoc old by (simp add: shape_asset_def Let_def groups queries split: option.split)
qed (simp add: format_groups_def file_queries_def assets_of_def set_from_list_def)

lemma show_nat_length: "n < 10 ^ Suc k \<Longrightarrow> length (show_nat n) \<le> Suc k"
proof (induction k arbitrary: n)
  case (Suc k)
  then show ?case by (subst show_nat.simps) auto
qed (subst show_nat.simps, simp)

lemma alias_ok:
  assumes "n < 10 ^ 50"
  shows "is_alias (''source_'' @ show_nat n)"
proof -
  have "length (show_nat n) \<le> 50" using show_nat_length [of n 49] assms by simp
  moreover have "list_all is_digit (show_nat n)" by (rule show_nat_digits)
  then have "list_all (\<lambda>c. is_word_start c \<or> is_digit c) (show_nat n)" by (auto simp: list_all_iff)
  ultimately show ?thesis by (simp add: is_alias_def) (simp add: is_word_start_def is_lower_alpha_def)
qed

lemma enumerate_nth: "(i, a) \<in> set (List.enumerate 0 xs) \<Longrightarrow> i < length xs \<and> a \<in> set xs"
  by (auto simp: in_set_enumerate_eq)

lemma file_queries_ok:
  assumes "is_slug (nm_collection names)" "is_slug (nm_dataset names)" "is_slug (nm_file names)" "version \<noteq> []"
    and "list_all (\<lambda>a. fst a \<noteq> []) as" and "length as < 10 ^ 50" and r: "r \<in> set (file_queries names version as)"
  shows "source_ref_ok r \<and> sr_collection_slug r = nm_collection names \<and> sr_dataset_slug r = nm_dataset names \<and>
     sr_file_slug r = nm_file names \<and> sr_version r = version"
proof -
  obtain i a where ia: "(i, a) \<in> set (List.enumerate 0 (assets_of ''geoparquet'' as))"
      and ra: "r = the (query_source names version i a)"
    using r by (auto simp: file_queries_def)
  have "a \<in> set as" "asset_format a = ''geoparquet''"
    using enumerate_nth [OF ia] by (auto simp: assets_of_def)
  moreover have "i < length as"
    using enumerate_nth [OF ia] length_filter_le [of "\<lambda>a. asset_format a = ''geoparquet''" as]
    unfolding assets_of_def by linarith
  moreover from this have "is_alias (''source_'' @ show_nat i)" using assms(6) by (intro alias_ok) simp
  ultimately show ?thesis
    using assms by (auto simp: ra query_source_def source_ref_ok_def is_slug_def list_all_iff truthy_def)
qed

lemma file_queries_alias: "map sr_alias (file_queries names version as)
    = map (\<lambda>i. ''source_'' @ show_nat i) [0..<length (assets_of ''geoparquet'' as)]"
proof (rule nth_equalityI)
  fix i assume "i < length (map sr_alias (file_queries names version as))"
  then have i: "i < length (assets_of ''geoparquet'' as)" by simp
  then have "assets_of ''geoparquet'' as ! i \<in> set (assets_of ''geoparquet'' as)" by simp
  then have "asset_format (assets_of ''geoparquet'' as ! i) = ''geoparquet''" by (simp add: assets_of_def)
  then show "map sr_alias (file_queries names version as) ! i
      = map (\<lambda>i. ''source_'' @ show_nat i) [0..<length (assets_of ''geoparquet'' as)] ! i"
    using i by (simp add: file_queries_def nth_enumerate_eq query_source_def)
qed simp

lemma file_queries_keys: "map sr_asset_key (file_queries names version as) = map fst (assets_of ''geoparquet'' as)"
proof (rule nth_equalityI)
  fix i assume "i < length (map sr_asset_key (file_queries names version as))"
  then have i: "i < length (assets_of ''geoparquet'' as)" by simp
  then have "assets_of ''geoparquet'' as ! i \<in> set (assets_of ''geoparquet'' as)" by simp
  then have "asset_format (assets_of ''geoparquet'' as ! i) = ''geoparquet''" by (simp add: assets_of_def)
  then show "map sr_asset_key (file_queries names version as) ! i = map fst (assets_of ''geoparquet'' as) ! i"
    using i by (simp add: file_queries_def nth_enumerate_eq query_source_def)
qed simp

lemma fileInput_slugs:
  "fileInput j = Some names \<Longrightarrow> is_slug (nm_collection names) \<and> is_slug (nm_dataset names) \<and> is_slug (nm_file names)"
  by (auto simp: fileInput_def fileFields_def bind_Some req_def j_slug_def)

lemma selectedVersion_id:
  assumes "selectedVersion item c d f = Inr version"
  shows "st_id item = c @ ''/'' @ d @ ''/'' @ f @ ''/'' @ version \<and> version \<noteq> []"
proof -
  define p where "p = c @ ''/'' @ d @ ''/'' @ f @ ''/''"
  have s: "startsWith (st_id item) p" and v: "version = drop (length p) (st_id item)" "drop (length p) (st_id item) \<noteq> []"
    using assms unfolding selectedVersion_def Let_def p_def [symmetric] by (auto simp del: drop_eq_Nil split: if_splits)
  from s obtain r where "st_id item = p @ r" by (auto simp: startsWith_iff)
  with v have "st_id item = p @ version" "version \<noteq> []" by simp_all
  then show ?thesis by (simp add: p_def)
qed


section \<open>Other answers\<close>

text \<open>
  A page of columns is followed by the page at its offset plus its length, and \<open>has_more\<close> says whether that
  page has any.
\<close>

lemma column_pages_continue:
  assumes "0 \<le> offset" and "offset \<le> int (length cols)"
  shows "column_page cols offset limit @ drop (nat (offset + int (length (column_page cols offset limit)))) cols
      = drop (nat offset) cols"
    "offset + int (length (column_page cols offset limit)) < int (length cols) \<longleftrightarrow>
     drop (nat (offset + int (length (column_page cols offset limit)))) cols \<noteq> []"
proof -
  let ?o = "nat offset" and ?l = "nat limit"
  have "drop (?o + length (take ?l (drop ?o cols))) cols = drop (length (take ?l (drop ?o cols))) (drop ?o cols)"
    by (simp add: add.commute)
  also have "\<dots> = drop ?l (drop ?o cols)" by (cases "?l \<le> length (drop ?o cols)") simp_all
  finally show "column_page cols offset limit @ drop (nat (offset + int (length (column_page cols offset limit)))) cols
      = drop (nat offset) cols"
    using assms(1) by (simp only: column_page_def nat_add_distrib of_nat_0_le_iff nat_int append_take_drop_id)
  show "offset + int (length (column_page cols offset limit)) < int (length cols) \<longleftrightarrow>
     drop (nat (offset + int (length (column_page cols offset limit)))) cols \<noteq> []"
    using assms(1) by (simp only: drop_eq_Nil) linarith
qed

lemma first_of_slug_ok:
  "set (map fc_slug (first_of_slug seen fs)) = set (map fc_slug fs) - set seen \<and>
   distinct (map fc_slug (first_of_slug seen fs))"
  by (induction seen fs rule: first_of_slug.induct) auto

text \<open>A dataset lists every file once, and no file is lost.\<close>

lemma files_listed_once:
  assumes "fileChildren lib item c d = Inr js"
  shows "\<exists>fs found. map_or_throw (file_child lib) (child_links (ca_links item)) = Inr found \<and> js = map (file_entry c d) fs \<and>
     distinct (map fc_slug fs) \<and> set (map fc_slug fs) = set (map fc_slug found)"
proof -
  obtain found where "map_or_throw (file_child lib) (child_links (ca_links item)) = Inr found"
      "js = map (file_entry c d) (first_of_slug [] found)"
    using assms by (auto simp: fileChildren_def split: if_splits sum.splits)
  then show ?thesis using first_of_slug_ok [of "[]" found]
    by (intro exI [of _ "first_of_slug [] found"] exI [of _ found]) auto
qed

text \<open>
  The search tool navigates before it has checked the datasets of the page: with one of them outside the collection
  it reports a failure although the visible search has changed.
\<close>

definition stray_page :: json where
  "stray_page = JObj
     [(''datasets'', JArr [JObj [(''type'', JStr ''Catalog''), (''stac_version'', JStr ''1''), (''id'', JStr ''b/x''), (''links'', JArr [])]]),
      (''total'', j_of_int 1), (''limit'', j_of_int 20), (''offset'', j_of_int 0)]"

lemma failed_search_moves_the_page:
  "searchDatasets_tool (\<lambda>url. Reply 200 (Some stray_page)) (\<lambda>c n. True)
     (''a'', \<lparr>se_query = Some ''x'', se_tag_filters = None, se_offset = None, se_limit = None\<rparr>) =
   ([(''a'', \<lparr>su_query = Some ''x'', su_tag_filters = None, su_offset = None, su_limit = None\<rparr>)],
    failed CatalogUnavailable)"
  by code_simp

section \<open>Examples\<close>

definition sample_search :: json where
  "sample_search = JObj [(''collection'', JStr ''roads''), (''query'', JStr '' a b''),
     (''tag_filters'', JObj [(''t'', JArr [JStr ''x'', JStr ''y''])]), (''limit'', j_of_int 5)]"

theorem agent_search_reaches_listing_witness:
  "Option.bind (url_params (with_query (collection_path ''roads'' @ ''/datasets'')
      (queryString \<lparr>se_query = Some '' a b'', se_tag_filters = Some [(''t'', JArr [JStr ''x'', JStr ''y''])],
        se_offset = None, se_limit = Some 5\<rparr>)))
      (\<lambda>ps. case parseCollectionApiQuery ps of Inl e \<Rightarrow> None | Inr q \<Rightarrow> Some q) =
   Some \<lparr>aq_search = Some ''a b'', aq_tagFilters = Some [(''t'', Many [''x'', ''y''])],
     aq_tagFiltersParam = Some (json_stringify (JObj [(''t'', JArr [JStr ''x'', JStr ''y''])])), aq_omit = None,
     aq_includeUrls = False, aq_limit = 5, aq_offset = 0\<rparr>"
proof -
  let ?p = "\<lparr>se_query = Some '' a b'', se_tag_filters = Some [(''t'', JArr [JStr ''x'', JStr ''y''])],
        se_offset = None, se_limit = Some 5\<rparr>"
  have "searchInput sample_search = Some (''roads'', ?p)" by code_simp
  moreover have "json_clean sample_search" by code_simp
  moreover have "listing_query ?p = \<lparr>aq_search = Some ''a b'', aq_tagFilters = Some [(''t'', Many [''x'', ''y''])],
     aq_tagFiltersParam = Some (json_stringify (JObj [(''t'', JArr [JStr ''x'', JStr ''y''])])), aq_omit = None,
     aq_includeUrls = False, aq_limit = 5, aq_offset = 0\<rparr>" by code_simp
  ultimately show ?thesis using agent_search_reaches_listing [of sample_search "''roads''" ?p] by simp
qed

definition sample_names :: file_request where
  "sample_names = \<lparr>nm_collection = ''c'', nm_dataset = ''d'', nm_file = ''f''\<rparr>"

definition sample_item :: stac_doc where
  "sample_item = \<lparr>st_id = ''c/d/f/2'', st_title = None,
     st_assets = [(''geoparquet-a'', \<lparr>as_format_key = None, as_storage_location_slug = Some ''us''\<rparr>),
                  (''tiles'', \<lparr>as_format_key = Some ''pmtiles'', as_storage_location_slug = None\<rparr>),
                  (''geoparquet-b'', \<lparr>as_format_key = None, as_storage_location_slug = Some []\<rparr>)],
     st_columns = None\<rparr>"


end
