(* ===== verification/TileSources.thy ===== *)
theory TileSources
  imports JsSchema FeatureSelection
begin

text \<open>
  The tile sources of the dataset MCP map widget and what it tells the host: \<open>dataset-mcp/ui/src/components/\<close>
  \<open>tileSources.ts\<close> (public tile URLs, tile metadata, resolution of a source) and \<open>mapStyle.ts\<close> (colours and sizes
  by a property), \<open>dataset-mcp/ui/src/mcp/highlightContext.ts\<close> and \<open>mapStatus.ts\<close> (the texts for the agent). \<open>new URL\<close>,
  \<open>ipaddr.js\<close>, \<open>fetch\<close> and the PMTiles archives are parameters.
\<close>

section \<open>Public tile URLs\<close>

record public_url =
  pu_origin :: string
  pu_protocol :: string
  pu_hostname :: string
  pu_username :: string
  pu_password :: string
  pu_pathname :: string
  pu_hash :: string

record web_library =
  wl_url :: "string \<Rightarrow> public_url option"
  wl_is_ip :: "string \<Rightarrow> bool"
  wl_ip_range :: "string \<Rightarrow> string"

text \<open>\<open>toLowerCase()\<close>, then \<open>replace(/^\[|\]$/g, "")\<close> and \<open>replace(/\.$/, "")\<close>.\<close>

definition drop_last_char :: "char \<Rightarrow> string \<Rightarrow> string" where
  "drop_last_char c s = (if s \<noteq> [] \<and> last s = c then butlast s else s)"

definition normal_host :: "string \<Rightarrow> string" where
  "normal_host hostname =
     (let s = toLowerCase hostname;
          unopened = (if startsWith s ''['' then tl s else s)
      in drop_last_char (CHR ''.'') (drop_last_char (CHR '']'') unopened))"

definition private_host :: "web_library \<Rightarrow> string \<Rightarrow> bool" where
  "private_host lib host \<longleftrightarrow>
     \<not> wl_is_ip lib host \<and> \<not> str_includes host ''.'' \<or> endsWith host ''.localhost'' \<or> endsWith host ''.local'' \<or>
     endsWith host ''.internal'' \<or> wl_is_ip lib host \<and> wl_ip_range lib host \<noteq> ''unicast''"

definition public_tile_url :: "web_library \<Rightarrow> public_url \<Rightarrow> bool" where
  "public_tile_url lib url \<longleftrightarrow>
     pu_protocol url = ''https:'' \<and> pu_username url = [] \<and> pu_password url = [] \<and> pu_hash url = [] \<and>
     \<not> private_host lib (normal_host (pu_hostname url))"

text \<open>Errors: a message of the source, the \<open>TypeError\<close> of \<open>new URL\<close>, a refused schema, or what a library threw.\<close>

datatype tile_error = TileMessage string | BadUrl | BadMetadata | Thrown string

definition validatePublicTileUrl :: "web_library \<Rightarrow> string \<Rightarrow> tile_error + string" where
  "validatePublicTileUrl lib v =
     (case wl_url lib v of
        None \<Rightarrow> Inl BadUrl
      | Some url \<Rightarrow>
          if public_tile_url lib url then Inr v
          else Inl (TileMessage ''Tile sources must use public HTTPS URLs without credentials or fragments.''))"

text \<open>\<open>tiles.forEach(validatePublicTileUrl)\<close>: the first error, if any.\<close>

fun first_tile_error :: "web_library \<Rightarrow> string list \<Rightarrow> tile_error option" where
  "first_tile_error lib [] = None"
| "first_tile_error lib (t # ts) = (case validatePublicTileUrl lib t of Inl e \<Rightarrow> Some e | Inr _ \<Rightarrow> first_tile_error lib ts)"

lemma first_tile_error_None:
  "first_tile_error lib ts = None \<longleftrightarrow> list_all (\<lambda>t. validatePublicTileUrl lib t = Inr t) ts"
  by (induction ts) (auto simp: validatePublicTileUrl_def split: option.splits if_splits)

section \<open>Tile metadata\<close>

record tile_layer =
  vl_id :: string
  vl_fields :: "(string \<times> string) list option"

record tile_metadata =
  tm_tiles :: "string list option"
  tm_minzoom :: "int option"
  tm_maxzoom :: "int option"
  tm_bounds :: "map_bounds option"
  tm_attribution :: "string option"
  tm_scheme :: "string option"
  tm_vector_layers :: "tile_layer list option"

definition has_placeholders :: "string \<Rightarrow> bool" where
  "has_placeholders url \<longleftrightarrow> list_all (str_includes url) [''{z}'', ''{x}'', ''{y}'']"

definition zoom_ok :: "int option \<Rightarrow> bool" where
  "zoom_ok z \<longleftrightarrow> (case z of None \<Rightarrow> True | Some n \<Rightarrow> 0 \<le> n \<and> n \<le> 22)"

text \<open>The checks of the schema on the members, with those of \<open>superRefine\<close>.\<close>

definition bounds_ok :: "map_bounds \<Rightarrow> bool" where
  "bounds_ok b \<longleftrightarrow>
     (case b of (w, s, e, n) \<Rightarrow>
        - 180 \<le> w \<and> w \<le> 180 \<and> - 90 \<le> s \<and> s \<le> 90 \<and> - 180 \<le> e \<and> e \<le> 180 \<and> - 90 \<le> n \<and> n \<le> 90 \<and> w < e \<and> s < n)"

definition metadata_ok :: "tile_metadata \<Rightarrow> bool" where
  "metadata_ok m \<longleftrightarrow>
     (case tm_tiles m of None \<Rightarrow> True | Some ts \<Rightarrow> ts \<noteq> [] \<and> list_all has_placeholders ts) \<and>
     zoom_ok (tm_minzoom m) \<and> zoom_ok (tm_maxzoom m) \<and>
     (case tm_bounds m of None \<Rightarrow> True | Some b \<Rightarrow> bounds_ok b) \<and>
     (case tm_vector_layers m of None \<Rightarrow> True | Some ls \<Rightarrow> list_all (\<lambda>l. vl_id l \<noteq> []) ls) \<and>
     with_default 0 (tm_minzoom m) \<le> with_default 22 (tm_maxzoom m)"

definition j_tuple4 :: "json \<Rightarrow> map_bounds option" where
  "j_tuple4 j = (case j_list j_finite j of Some [a, b, c, d] \<Rightarrow> Some (a, b, c, d) | _ \<Rightarrow> None)"

definition j_scheme :: "json \<Rightarrow> string option" where
  "j_scheme = such_that (\<lambda>s. s = ''xyz'' \<or> s = ''tms'') j_text"

definition j_fields :: "json \<Rightarrow> (string \<times> string) list option" where
  "j_fields j =
     (case j of JObj ms \<Rightarrow> those (map (\<lambda>m. map_option (Pair (fst m)) (j_text (snd m))) ms) | _ \<Rightarrow> None)"

definition j_vector_layer :: "json \<Rightarrow> tile_layer option" where
  "j_vector_layer j =
     (case j of JObj ms \<Rightarrow>
        do {
          i \<leftarrow> req ms ''id'' j_text;
          fields \<leftarrow> opt ms ''fields'' j_fields;
          Some \<lparr>vl_id = i, vl_fields = fields\<rparr>
        }
      | _ \<Rightarrow> None)"

definition TileMetadataSchema :: "json \<Rightarrow> tile_metadata option" where
  "TileMetadataSchema j =
     (case j of JObj ms \<Rightarrow>
        do {
          tiles \<leftarrow> opt ms ''tiles'' (j_list j_text);
          minzoom \<leftarrow> opt ms ''minzoom'' j_int;
          maxzoom \<leftarrow> opt ms ''maxzoom'' j_int;
          bounds \<leftarrow> opt ms ''bounds'' j_tuple4;
          attribution \<leftarrow> opt ms ''attribution'' j_text;
          scheme \<leftarrow> opt ms ''scheme'' j_scheme;
          layers \<leftarrow> opt ms ''vector_layers'' (j_list j_vector_layer);
          let m = \<lparr>tm_tiles = tiles, tm_minzoom = minzoom, tm_maxzoom = maxzoom, tm_bounds = bounds,
            tm_attribution = attribution, tm_scheme = scheme, tm_vector_layers = layers\<rparr>;
          (if metadata_ok m then Some m else None)
        }
      | _ \<Rightarrow> None)"

section \<open>Resolving a source\<close>

datatype external_tile_source =
    PmtilesSource string "string option"
  | TileJsonSource string "string option"
  | VectorTiles "string list" string "int option" "int option" "map_bounds option"

text \<open>The specification of a MapLibre vector source, and a resolved source with its columns.\<close>

record tile_source_spec =
  ss_tiles :: "string list"
  ss_minzoom :: int
  ss_maxzoom :: int
  ss_bounds :: "map_bounds option"
  ss_attribution :: "string option"
  ss_scheme :: "string option"

record tile_column =
  tc_name :: string
  tc_type :: string
  tc_nullable :: bool

record resolved_source =
  re_source :: tile_source_spec
  re_sourceLayer :: string
  re_columns :: "tile_column list"

text \<open>
  \<open>fetch\<close> of a TileJSON document: it rejects, or gives a status and the JSON of the body. An archive
  tells whether its tiles are vector tiles, and its TileJSON.
\<close>

datatype tile_reply = FetchRejects string | TileReply nat "json option"

record tile_services =
  ts_fetch :: "string \<Rightarrow> tile_reply"
  ts_archive_is_mvt :: "string \<Rightarrow> string + bool"
  ts_archive_json :: "string \<Rightarrow> string + json"

definition fetchTileJson :: "tile_services \<Rightarrow> string \<Rightarrow> tile_error + json" where
  "fetchTileJson sv url =
     (case ts_fetch sv url of
        FetchRejects m \<Rightarrow> Inl (Thrown m)
      | TileReply status body \<Rightarrow>
          if status < 200 \<or> 300 \<le> status
          then Inl (TileMessage (''TileJSON request failed (HTTP '' @ show_nat status @ '').''))
          else (case body of None \<Rightarrow> Inl (Thrown ''not JSON'') | Some j \<Rightarrow> Inr j))"

definition source_metadata :: "external_tile_source \<Rightarrow> tile_metadata" where
  "source_metadata s =
     (case s of
        VectorTiles tiles layer minz maxz b \<Rightarrow>
          \<lparr>tm_tiles = Some tiles, tm_minzoom = minz, tm_maxzoom = maxz, tm_bounds = b, tm_attribution = None,
           tm_scheme = None, tm_vector_layers = None\<rparr>
      | _ \<Rightarrow> \<lparr>tm_tiles = None, tm_minzoom = None, tm_maxzoom = None, tm_bounds = None, tm_attribution = None,
           tm_scheme = None, tm_vector_layers = None\<rparr>)"

definition resolveVectorTiles ::
  "web_library \<Rightarrow> string list \<Rightarrow> string \<Rightarrow> int option \<Rightarrow> int option \<Rightarrow> map_bounds option \<Rightarrow> tile_error + resolved_source" where
  "resolveVectorTiles lib tiles layer minz maxz b =
     (if \<not> metadata_ok (source_metadata (VectorTiles tiles layer minz maxz b)) then Inl BadMetadata
      else (case first_tile_error lib tiles of
         Some e \<Rightarrow> Inl e
       | None \<Rightarrow>
           if list_ex (\<lambda>url. \<not> has_placeholders url) tiles
           then Inl (TileMessage ''Vector tile URLs must contain {z}, {x}, and {y} placeholders.'')
           else Inr \<lparr>re_source = \<lparr>ss_tiles = tiles, ss_minzoom = with_default 0 minz, ss_maxzoom = with_default 22 maxz,
               ss_bounds = b, ss_attribution = None, ss_scheme = None\<rparr>, re_sourceLayer = layer, re_columns = []\<rparr>))"

definition layer_names :: "tile_metadata \<Rightarrow> string list" where
  "layer_names m = map vl_id (with_default [] (tm_vector_layers m))"

text \<open>\<open>source.source_layer ?? (names.length === 1 ? names[0] : undefined)\<close>, then the checks on it.\<close>

definition chosen_layer :: "string option \<Rightarrow> string list \<Rightarrow> tile_error + string" where
  "chosen_layer wanted names =
     (case (case wanted of Some w \<Rightarrow> Some w | None \<Rightarrow> if length names = 1 then Some (hd names) else None) of
        None \<Rightarrow> Inl (TileMessage (''Specify source_layer; available vector layers: '' @
            (if names = [] then ''not declared in metadata'' else join '', '' names) @ ''.''))
      | Some layer \<Rightarrow>
          if layer = [] then Inl (TileMessage (''Specify source_layer; available vector layers: '' @
            (if names = [] then ''not declared in metadata'' else join '', '' names) @ ''.''))
          else if names \<noteq> [] \<and> layer \<notin> set names
          then Inl (TileMessage (''Unknown source_layer '' @ [CHR 39] @ layer @ [CHR 39] @ ''; available vector layers: '' @
            join '', '' names @ ''.''))
          else Inr layer)"

definition tile_column_of :: "string \<times> string \<Rightarrow> tile_column" where
  "tile_column_of f =
     \<lparr>tc_name = fst f, tc_type = (if toLowerCase (snd f) = ''number'' then ''DOUBLE'' else snd f), tc_nullable = True\<rparr>"

definition layer_fields :: "tile_metadata \<Rightarrow> string \<Rightarrow> (string \<times> string) list" where
  "layer_fields m layer =
     (case List.find (\<lambda>l. vl_id l = layer) (with_default [] (tm_vector_layers m)) of
        None \<Rightarrow> [] | Some l \<Rightarrow> with_default [] (vl_fields l))"

text \<open>An empty attribution is left out.\<close>

definition described_source ::
  "web_library \<Rightarrow> bool \<Rightarrow> string option \<Rightarrow> tile_metadata \<Rightarrow> tile_error + resolved_source" where
  "described_source lib archive wanted m =
     (case chosen_layer wanted (layer_names m) of
        Inl e \<Rightarrow> Inl e
      | Inr layer \<Rightarrow>
          (let tiles = with_default [] (tm_tiles m) in
           if tiles = [] then Inl (TileMessage ''Tile metadata does not declare any vector tile URLs.'')
           else (case (if archive then None else first_tile_error lib tiles) of
              Some e \<Rightarrow> Inl e
            | None \<Rightarrow>
                Inr \<lparr>re_source = \<lparr>ss_tiles = tiles, ss_minzoom = with_default 0 (tm_minzoom m),
                    ss_maxzoom = with_default 22 (tm_maxzoom m), ss_bounds = tm_bounds m,
                    ss_attribution = (if truthy (tm_attribution m) then tm_attribution m else None),
                    ss_scheme = tm_scheme m\<rparr>,
                  re_sourceLayer = layer, re_columns = map tile_column_of (layer_fields m layer)\<rparr>)))"

definition read_metadata :: "tile_error + json \<Rightarrow> tile_error + tile_metadata" where
  "read_metadata r =
     (case r of Inl e \<Rightarrow> Inl e
      | Inr j \<Rightarrow> (case TileMetadataSchema j of None \<Rightarrow> Inl BadMetadata | Some m \<Rightarrow> Inr m))"

text \<open>\<open>resolveTileSource\<close>; a PMTiles archive that is resolved is added to the protocol.\<close>

definition resolveTileSource :: "web_library \<Rightarrow> tile_services \<Rightarrow> external_tile_source \<Rightarrow> tile_error + resolved_source" where
  "resolveTileSource lib sv source =
     (case source of
        VectorTiles tiles layer minz maxz b \<Rightarrow> resolveVectorTiles lib tiles layer minz maxz b
      | TileJsonSource url wanted \<Rightarrow>
          (case validatePublicTileUrl lib url of
             Inl e \<Rightarrow> Inl e
           | Inr _ \<Rightarrow>
               (case read_metadata (fetchTileJson sv url) of
                  Inl e \<Rightarrow> Inl e | Inr m \<Rightarrow> described_source lib False wanted m))
      | PmtilesSource url wanted \<Rightarrow>
          (case validatePublicTileUrl lib url of
             Inl e \<Rightarrow> Inl e
           | Inr _ \<Rightarrow>
               (case ts_archive_is_mvt sv url of
                  Inl m \<Rightarrow> Inl (Thrown m)
                | Inr mvt \<Rightarrow>
                    if \<not> mvt then Inl (TileMessage ''PMTiles source must contain vector (MVT) tiles, not raster tiles.'')
                    else (case read_metadata (map_sum Thrown id (ts_archive_json sv url)) of
                       Inl e \<Rightarrow> Inl e | Inr m \<Rightarrow> described_source lib True wanted m))))"

section \<open>Resolved sources are public\<close>

definition public_url_text :: "web_library \<Rightarrow> string \<Rightarrow> bool" where
  "public_url_text lib t \<longleftrightarrow> (case wl_url lib t of None \<Rightarrow> False | Some u \<Rightarrow> public_tile_url lib u)"

lemma validate_ok: "validatePublicTileUrl lib t = Inr v \<longleftrightarrow> v = t \<and> public_url_text lib t"
  by (auto simp: validatePublicTileUrl_def public_url_text_def split: option.splits)

lemma no_tile_error: "first_tile_error lib ts = None \<longleftrightarrow> list_all (public_url_text lib) ts"
  by (simp add: first_tile_error_None validate_ok)

lemma TileMetadataSchema_ok: "TileMetadataSchema j = Some m \<Longrightarrow> metadata_ok m"
  by (auto simp: TileMetadataSchema_def bind_Some Let_def split: json.splits if_splits)

lemma chosen_layer_ok:
  "chosen_layer wanted names = Inr layer \<Longrightarrow>
   layer \<noteq> [] \<and> (names = [] \<or> layer \<in> set names) \<and> (case wanted of None \<Rightarrow> names = [layer] | Some w \<Rightarrow> layer = w)"
  by (cases names) (auto simp: chosen_layer_def split: option.splits if_splits)

text \<open>What holds of every resolved source.\<close>

definition source_ok :: "tile_source_spec \<Rightarrow> bool" where
  "source_ok s \<longleftrightarrow>
     ss_tiles s \<noteq> [] \<and> list_all has_placeholders (ss_tiles s) \<and> 0 \<le> ss_minzoom s \<and> ss_minzoom s \<le> ss_maxzoom s \<and>
     ss_maxzoom s \<le> 22 \<and> (case ss_bounds s of None \<Rightarrow> True | Some b \<Rightarrow> bounds_ok b)"

lemma described_source_ok:
  assumes "described_source lib archive wanted m = Inr r" and "metadata_ok m"
  shows "source_ok (re_source r) \<and> (\<not> archive \<longrightarrow> list_all (public_url_text lib) (ss_tiles (re_source r))) \<and>
     re_sourceLayer r \<noteq> [] \<and> (layer_names m = [] \<or> re_sourceLayer r \<in> set (layer_names m))"
proof -
  obtain layer where l: "chosen_layer wanted (layer_names m) = Inr layer"
    using assms(1) by (auto simp: described_source_def split: sum.splits)
  let ?tiles = "with_default [] (tm_tiles m)"
  have t: "?tiles \<noteq> []" and e: "(if archive then None else first_tile_error lib ?tiles) = None"
    using assms(1) by (auto simp: described_source_def l Let_def split: option.splits if_splits)
  have r: "ss_tiles (re_source r) = ?tiles" "ss_minzoom (re_source r) = with_default 0 (tm_minzoom m)"
      "ss_maxzoom (re_source r) = with_default 22 (tm_maxzoom m)" "ss_bounds (re_source r) = tm_bounds m"
      "re_sourceLayer r = layer"
    using assms(1) t e by (auto simp: described_source_def l Let_def split: option.splits if_splits)
  have "list_all has_placeholders ?tiles"
    using assms(2) t by (auto simp: metadata_ok_def with_default_def split: option.splits)
  moreover have "0 \<le> with_default 0 (tm_minzoom m)" "with_default 22 (tm_maxzoom m) \<le> 22"
    using assms(2) by (auto simp: metadata_ok_def with_default_def zoom_ok_def split: option.splits)
  ultimately show ?thesis
    using assms(2) t e chosen_layer_ok [OF l] unfolding source_ok_def r no_tile_error [symmetric]
    by (auto simp: metadata_ok_def)
qed


section \<open>Colours and sizes by a property\<close>

text \<open>
  The values of a property in the loaded tiles: the properties of every feature of the source layer, in
  order. A value that is no text, number or boolean is skipped; at most 5000 are kept.
\<close>

definition sampled_value :: "json option \<Rightarrow> category_value option" where
  "sampled_value v =
     (case v of Some (JStr s) \<Rightarrow> Some (CatString s) | Some (JNum n) \<Rightarrow> Some (CatNumber n)
      | Some (JBool b) \<Rightarrow> Some (CatBool b) | _ \<Rightarrow> None)"

definition sampledValues :: "(string \<times> json) list list \<Rightarrow> string \<Rightarrow> category_value list" where
  "sampledValues features property =
     take 5000 (List.map_filter (\<lambda>ps. sampled_value (map_of ps property)) features)"

definition finite_numbers :: "category_value list \<Rightarrow> rat list" where
  "finite_numbers values =
     List.map_filter (\<lambda>v. case category_number v of JsFin r \<Rightarrow> Some r | _ \<Rightarrow> None) values"

text \<open>\<open>/^(?:U?(?:TINY|SMALL|BIG|HUGE)?INT|FLOAT|DOUBLE|DECIMAL|REAL)/i\<close>.\<close>

definition numeric_type_names :: "string list" where
  "numeric_type_names =
     concat (map (\<lambda>u. map (\<lambda>size. u @ size @ ''int'') [[], ''tiny'', ''small'', ''big'', ''huge'']) [[], ''u''])
     @ [''float'', ''double'', ''decimal'', ''real'']"

definition isNumericTileColumn :: "string \<Rightarrow> bool" where
  "isNumericTileColumn logicalType \<longleftrightarrow> list_ex (startsWith (toLowerCase (trim logicalType))) numeric_type_names"

datatype size_scale = LinearScale | SqrtScale | LogScale

text \<open>\<open>Math.sqrt\<close> and \<open>Math.log\<close> of a number in their range; \<open>1e-6\<close> is the literal of the source.\<close>

record math_library =
  math_sqrt :: "rat \<Rightarrow> rat"
  math_log :: "rat \<Rightarrow> rat"

definition applyScale :: "math_library \<Rightarrow> rat \<Rightarrow> size_scale \<Rightarrow> rat" where
  "applyScale ml v scale =
     (case scale of LinearScale \<Rightarrow> v | SqrtScale \<Rightarrow> math_sqrt ml (max 0 v) | LogScale \<Rightarrow> math_log ml (max (1 / 1000000) v))"

abbreviation j_rat :: "rat \<Rightarrow> json" where "j_rat r \<equiv> JNum (JsFin r)"

definition number_of :: "string \<Rightarrow> json" where
  "number_of property = JArr [JStr ''to-number'', JArr [JStr ''get'', JStr property]]"

definition scaled_input :: "string \<Rightarrow> size_scale \<Rightarrow> json" where
  "scaled_input property scale =
     (case scale of
        SqrtScale \<Rightarrow> JArr [JStr ''sqrt'', JArr [JStr ''max'', number_of property, j_rat 0]]
      | LogScale \<Rightarrow> JArr [JStr ''ln'', JArr [JStr ''max'', number_of property, j_rat (1 / 1000000)]]
      | LinearScale \<Rightarrow> number_of property)"

definition dataDrivenSize ::
  "math_library \<Rightarrow> (string \<times> json) list list \<Rightarrow> string option \<Rightarrow> size_scale \<Rightarrow> rat \<Rightarrow> rat \<Rightarrow> json" where
  "dataDrivenSize ml features property scale baseValue minimumValue =
     (if \<not> truthy property then j_rat baseValue
      else
        (let p = the property;
             values = map (\<lambda>v. applyScale ml v scale) (finite_numbers (sampledValues features p));
             (minimum, maximum) = getValueRange values
         in if values = [] \<or> minimum = maximum then j_rat baseValue
            else JArr [JStr ''interpolate'', JArr [JStr ''linear''], scaled_input p scale,
              j_rat minimum, j_rat (max minimumValue (baseValue / 2)),
              j_rat maximum, j_rat (max minimumValue (baseValue * 2))]))"

text \<open>The labels of a legend; the source writes the relations with signs outside Latin-1.\<close>

datatype legend_label = LabelText string | LabelAtMost rat | LabelBetween rat rat | LabelAbove rat

record data_color =
  dc_paint :: json
  dc_legendItems :: "(string \<times> legend_label) list"

definition solid :: "string \<Rightarrow> string \<Rightarrow> data_color" where
  "solid color label = \<lparr>dc_paint = JStr color, dc_legendItems = [(color, LabelText label)]\<rparr>"

definition color_at :: "string list \<Rightarrow> string \<Rightarrow> nat \<Rightarrow> string" where
  "color_at colors fallback i = (if i < length colors then colors ! i else fallback)"

definition break_label :: "rat list \<Rightarrow> nat \<Rightarrow> nat \<Rightarrow> legend_label" where
  "break_label breaks n i =
     (if i = 0 then LabelAtMost (hd breaks) else if i = n - 1 then LabelAbove (last breaks)
      else LabelBetween (breaks ! (i - 1)) (breaks ! i))"

definition numericColor :: "string \<Rightarrow> string \<Rightarrow> rat list \<Rightarrow> string \<Rightarrow> data_color" where
  "numericColor property scheme breaks solidColor =
     (if breaks = [] then solid solidColor property
      else
        (let colors = getColorRamp scheme (int (length breaks) + 1) in
         \<lparr>dc_paint = JArr ([JStr ''step'', number_of property, JStr (color_at colors solidColor 0)] @
            concat (map (\<lambda>(i, b). [j_rat b, JStr (color_at colors solidColor (i + 1))]) (List.enumerate 0 breaks))),
          dc_legendItems = map (\<lambda>(i, c). (c, break_label breaks (length colors) i)) (List.enumerate 0 colors)\<rparr>))"

definition categoryColor :: "(string \<Rightarrow> string \<Rightarrow> int) \<Rightarrow> string \<Rightarrow> string \<Rightarrow> category_value list \<Rightarrow> string \<Rightarrow> data_color" where
  "categoryColor lc property scheme values solidColor =
     (let categories = take 8 (sort_by lc (set_from_list (map category_string values))) in
      if categories = [] then solid solidColor property
      else
        (let colors = getColorRamp scheme (int (length categories)) in
         \<lparr>dc_paint = JArr ([JStr ''match'', JArr [JStr ''to-string'', JArr [JStr ''get'', JStr property]]] @
            concat (map (\<lambda>(i, c). [JStr c, JStr (color_at colors solidColor i)]) (List.enumerate 0 categories)) @
            [JStr solidColor]),
          dc_legendItems = map (\<lambda>(i, c). (color_at colors solidColor i, LabelText c)) (List.enumerate 0 categories)\<rparr>))"

definition dataDrivenColor ::
  "(string \<Rightarrow> string \<Rightarrow> int) \<Rightarrow> (string \<times> json) list list \<Rightarrow> tile_column list \<Rightarrow> string option \<Rightarrow> string \<Rightarrow> rat list option
   \<Rightarrow> string \<Rightarrow> data_color" where
  "dataDrivenColor lc features columns property scheme configuredBreaks solidColor =
     (if \<not> truthy property then solid solidColor ''All values''
      else
        (let p = the property; values = sampledValues features p;
             numeric = (case List.find (\<lambda>c. tc_name c = p) columns of None \<Rightarrow> False | Some c \<Rightarrow> isNumericTileColumn (tc_type c))
         in if numeric
            then numericColor p scheme
              (if with_default [] configuredBreaks \<noteq> [] then the configuredBreaks
               else computeQuantileBreaks (finite_numbers values) 5) solidColor
            else categoryColor lc p scheme values solidColor))"

section \<open>Texts for the agent\<close>

text \<open>The snapshot of highlighted features, \<open>MapHighlightSnapshot\<close>.\<close>

record snapshot_feature =
  sf_id :: string
  sf_query_id :: "string option"
  sf_layer_id :: "string option"
  sf_layer_name :: string
  sf_source_layer_id :: string
  sf_feature_id :: string
  sf_centroid :: "(rat \<times> rat) option"
  sf_properties :: "(string \<times> string) list"

record highlight_snapshot =
  hs_map_title :: string
  hs_count :: nat
  hs_was_capped :: bool
  hs_selection_bounds :: "map_bounds option"
  hs_features :: "snapshot_feature list"

text \<open>\<open>replaceAll\<close> of \<open><\<close>, \<open>>\<close> and \<open>&\<close> by their JSON escapes; no escape has one of the three in it.\<close>

definition escape_markup :: "string \<Rightarrow> string" where
  "escape_markup s =
     concat (map (\<lambda>c. if c = CHR ''<'' then CHR 92 # ''u003c'' else if c = CHR ''>'' then CHR 92 # ''u003e''
       else if c = CHR ''&'' then CHR 92 # ''u0026'' else [c]) s)"

definition serializedUntrustedProperties :: "(string \<times> string) list \<Rightarrow> string" where
  "serializedUntrustedProperties ps = escape_markup (json_stringify (JObj (map (apsnd JStr) ps)))"

definition number_list :: "rat list \<Rightarrow> string" where
  "number_list rs = ''['' @ join '', '' (map show_rat rs) @ '']''"

definition quoted_line :: "string \<Rightarrow> string \<Rightarrow> string" where
  "quoted_line name v = name @ '': '' @ json_quote v"

definition OPEN_PROPERTIES :: string where
  "OPEN_PROPERTIES = ''  <untrusted-map-properties encoding='' @ [CHR 34] @ ''json'' @ [CHR 34] @ ''>''"

definition CLOSE_PROPERTIES :: string where
  "CLOSE_PROPERTIES = ''  </untrusted-map-properties>''"

definition optional_line :: "string \<Rightarrow> string option \<Rightarrow> string list" where
  "optional_line name v = (case v of None \<Rightarrow> [] | Some s \<Rightarrow> [quoted_line name s])"

definition feature_lines :: "snapshot_feature \<Rightarrow> string list" where
  "feature_lines f =
     [''- selected_feature:'', quoted_line ''  id'' (sf_id f)]
     @ optional_line ''  query_id'' (sf_query_id f) @ optional_line ''  layer_id'' (sf_layer_id f)
     @ [quoted_line ''  layer_name'' (sf_layer_name f), quoted_line ''  source_layer_id'' (sf_source_layer_id f),
        quoted_line ''  feature_id'' (sf_feature_id f),
        ''  centroid: '' @ (case sf_centroid f of None \<Rightarrow> ''null'' | Some (x, y) \<Rightarrow> number_list [x, y]),
        OPEN_PROPERTIES, ''  '' @ serializedUntrustedProperties (sf_properties f), CLOSE_PROPERTIES]"

definition snapshot_lines :: "highlight_snapshot \<Rightarrow> string list" where
  "snapshot_lines s =
     [''Map highlight selection: '' @ show_nat (hs_count s) @ (if hs_count s = 1 then '' feature'' else '' features'') @
        '' selected.'', quoted_line ''map_title'' (hs_map_title s)]
     @ (if hs_was_capped s then [''The selection was capped at 100 features per map layer.''] else [])
     @ (case hs_selection_bounds s of None \<Rightarrow> []
        | Some (a, b, c, d) \<Rightarrow> [''Selection bounds: '' @ number_list [a, b, c, d] @ ''.''])
     @ concat (map feature_lines (hs_features s))"

definition newline :: char where "newline = CHR 10"

definition highlightContextText :: "highlight_snapshot \<Rightarrow> string" where
  "highlightContextText s = join [newline] (snapshot_lines s)"

text \<open>
  The calls to the host: its capability to take a text and structured content, \<open>None\<close> without an
  app or the capability; \<open>accepts\<close> says whether the call succeeds. The answer comes with the call that was made.
\<close>

record context_capability =
  cc_text :: bool
  cc_structured :: bool

datatype context_status = Updated | Unsupported | Rejected

record 'a context_call =
  cx_text :: "string option"
  cx_structured :: "'a option"

definition context_update ::
  "context_capability option \<Rightarrow> string \<Rightarrow> 'a \<Rightarrow> bool \<Rightarrow> 'a context_call option \<times> context_status" where
  "context_update capability text structured accepts =
     (case capability of
        None \<Rightarrow> (None, Unsupported)
      | Some c \<Rightarrow>
          if \<not> cc_text c \<and> \<not> cc_structured c then (None, Unsupported)
          else (Some \<lparr>cx_text = (if cc_text c then Some text else None),
                     cx_structured = (if cc_structured c then Some structured else None)\<rparr>,
                if accepts then Updated else Rejected))"

definition updateHighlightContext ::
  "context_capability option \<Rightarrow> highlight_snapshot \<Rightarrow> bool \<Rightarrow> highlight_snapshot context_call option \<times> context_status" where
  "updateHighlightContext capability snapshot accepts =
     context_update capability (highlightContextText snapshot) snapshot accepts"

datatype layer_load_status = StatusPreparing | StatusLoading | StatusLoaded | StatusFailed | StatusHidden | StatusEmptyResult

record layer_status =
  ls_layer_name :: string
  ls_status :: layer_load_status
  ls_error :: "string option"

datatype overall_status = MapLoading | MapLoaded | MapPartial | MapFailed

record map_status =
  mst_title :: "string option"
  mst_status :: overall_status
  mst_scope :: bool
  mst_layers :: "layer_status list"
  mst_error :: "string option"

fun layer_status_name :: "layer_load_status \<Rightarrow> string" where
  "layer_status_name StatusPreparing = ''preparing''"
| "layer_status_name StatusLoading = ''loading''"
| "layer_status_name StatusLoaded = ''loaded''"
| "layer_status_name StatusFailed = ''failed''"
| "layer_status_name StatusHidden = ''hidden''"
| "layer_status_name StatusEmptyResult = ''empty_result''"

fun overall_name :: "overall_status \<Rightarrow> string" where
  "overall_name MapLoading = ''loading''"
| "overall_name MapLoaded = ''loaded''"
| "overall_name MapPartial = ''partial''"
| "overall_name MapFailed = ''failed''"

definition layer_status_json :: "layer_status \<Rightarrow> json" where
  "layer_status_json l =
     JObj ([(''layer_name'', JStr (ls_layer_name l)), (''status'', JStr (layer_status_name (ls_status l)))]
       @ opt_member ''error'' (ls_error l))"

text \<open>The members in the order in which the map writes them; without a map, the status comes first.\<close>

definition map_status_json :: "map_status \<Rightarrow> json" where
  "map_status_json s =
     (let layers = (''layers'', JArr (map layer_status_json (mst_layers s)));
          status = (''status'', JStr (overall_name (mst_status s)))
      in JObj (opt_member ''map_title'' (mst_title s)
        @ (if mst_scope s then [(''scope'', JStr ''current_viewport''), layers, status] else [status, layers])
        @ opt_member ''error'' (mst_error s)))"

definition publishMapStatus ::
  "context_capability option \<Rightarrow> map_status \<Rightarrow> bool \<Rightarrow> map_status context_call option \<times> context_status" where
  "publishMapStatus capability snapshot accepts =
     context_update capability
       (''Map runtime status (loaded means current viewport only): '' @ json_stringify (map_status_json snapshot)) snapshot accepts"

section \<open>Untrusted properties stay quoted\<close>

lemma escape_markup_append: "escape_markup (s @ t) = escape_markup s @ escape_markup t"
  by (simp add: escape_markup_def)

lemma escape_markup_chars: "c \<in> set (escape_markup s) \<Longrightarrow> c \<notin> {CHR ''<'', CHR ''>'', CHR ''&''}"
  by (auto simp: escape_markup_def split: if_splits)

lemma escape_markup_id: "\<forall>c \<in> set s. c \<notin> {CHR ''<'', CHR ''>'', CHR ''&''} \<Longrightarrow> escape_markup s = s"
  by (induction s) (simp_all add: escape_markup_def)

lemma escape_markup_newline: "newline \<in> set (escape_markup s) \<Longrightarrow> newline \<in> set s"
  by (auto simp: escape_markup_def newline_def split: if_splits)

lemma digit_char_code: "d < 16 \<Longrightarrow> (of_char (digit_char d) :: nat) = (if d < 10 then 48 + d else 87 + d)"
  by (simp add: digit_char_def)

lemma digit_char_plain:
  assumes "d < 16" and "c \<in> {CHR 10, CHR ''<'', CHR ''>'', CHR ''&''}"
  shows "digit_char d \<noteq> c"
proof
  assume "digit_char d = c"
  then have "(of_char c :: nat) = (if d < 10 then 48 + d else 87 + d)" using digit_char_code [OF assms(1)] by simp
  then show False using assms by (auto split: if_splits)
qed

lemma escape_char_newline: "newline \<notin> set (json_escape_char c)"
proof (cases "code_unit c < (32 :: nat)")
  case True
  then have "digit_char (code_unit c div 16) \<noteq> CHR 10 \<and> digit_char (code_unit c mod 16) \<noteq> CHR 10"
    using digit_char_plain [of "code_unit c div 16" "CHR 10"] digit_char_plain [of "code_unit c mod 16" "CHR 10"] by simp
  then show ?thesis by (auto simp: json_escape_char.simps newline_def)
qed (auto simp: json_escape_char.simps newline_def)

lemma json_quote_newline: "newline \<notin> set (json_quote s)"
  using escape_char_newline by (auto simp: json_quote_def newline_def)

lemma stringify_texts_newline: "newline \<notin> set (stringify_members (map (apsnd JStr) ps))"
proof (induction ps rule: induct_list012)
  case (2 p)
  then show ?case using json_quote_newline by (cases p) (auto simp: newline_def)
next
  case (3 p q ps)
  then show ?case using json_quote_newline by (cases p) (auto simp: stringify_members_Cons newline_def)
qed simp

text \<open>Reading the escaped text gives the properties back.\<close>

lemma byte_half: "(of_char c :: nat) div 16 < 16"
proof -
  define n where "n = (of_char c :: nat)"
  have "n < 256" by (simp add: n_def)
  then have "n div 16 < 16" by linarith
  then show ?thesis by (simp add: n_def)
qed

lemma json_string_markup:
  "json_string (escape_markup (json_escape_char c) @ t) = map_option (apfst ((#) c)) (json_string t)"
proof -
  consider "c \<in> {CHR ''<'', CHR ''>'', CHR ''&''}" | "c \<notin> {CHR ''<'', CHR ''>'', CHR ''&''}" by blast
  then show ?thesis
  proof cases
    case 1
    have "json_escape_char (CHR ''<'') = ''<''" "json_escape_char (CHR ''>'') = ''>''" "json_escape_char (CHR ''&'') = ''&''"
      by code_simp+
    moreover have "hex4 (CHR ''0'') (CHR ''0'') (CHR ''3'') (CHR ''c'') = Some 60"
      "hex4 (CHR ''0'') (CHR ''0'') (CHR ''3'') (CHR ''e'') = Some 62"
      "hex4 (CHR ''0'') (CHR ''0'') (CHR ''2'') (CHR ''6'') = Some 38" by code_simp+
    moreover have "char_of (60 :: nat) = CHR ''<''" "char_of (62 :: nat) = CHR ''>''" "char_of (38 :: nat) = CHR ''&''"
      by code_simp+
    ultimately show ?thesis using 1 by (auto simp: escape_markup_def json_string.simps)
  next
    case 2
    have "escape_markup (json_escape_char c) = json_escape_char c"
    proof -
      have "d \<notin> {CHR ''<'', CHR ''>'', CHR ''&''}" if "d \<in> set (json_escape_char c)" for d
        using that 2 byte_half [of c] digit_char_plain [of "code_unit c div 16" d] digit_char_plain [of "code_unit c mod 16" d]
        by (auto simp: json_escape_char.simps split: if_splits)
      then show ?thesis by (intro escape_markup_id) simp
    qed
    then show ?thesis by (simp only: json_string_escape)
  qed
qed

lemma json_string_quoted_markup:
  "json_string (escape_markup (concat (map json_escape_char s)) @ CHR 34 # r) = Some (s, r)"
proof (induction s)
  case Nil
  show ?case by (simp add: escape_markup_def json_string.simps)
next
  case (Cons c s)
  then show ?case by (simp add: escape_markup_append json_string_markup)
qed

lemma quote_markup: "escape_markup (json_quote s) = CHR 34 # escape_markup (concat (map json_escape_char s)) @ [CHR 34]"
  by (simp add: json_quote_def escape_markup_append) (simp add: escape_markup_def)

lemma json_members_markup:
  assumes "ps \<noteq> []" and "2 * length ps \<le> n"
  shows "json_members n (escape_markup (stringify_members (map (apsnd JStr) ps)) @ CHR ''}'' # r) = Some (map (apsnd JStr) ps, r)"
  using assms
proof (induction ps arbitrary: n)
  case (Cons p ps)
  obtain k v where p: "p = (k, v)" by force
  obtain m where n: "n = Suc (Suc m)" "2 * length ps \<le> m" using Cons.prems(2) by (cases n; cases "n - 1") auto
  have m: "2 * length ps \<le> Suc m" using n(2) by simp
  show ?case
  proof (cases "ps = []")
    case True
    then have "escape_markup (stringify_members (map (apsnd JStr) (p # ps))) =
        escape_markup (json_quote k) @ '':'' @ escape_markup (json_quote v)"
      by (simp add: p escape_markup_append flip: append_Cons) (simp add: escape_markup_def)
    then show ?thesis using True
      by (simp add: p n(1) quote_markup json_string_quoted_markup)
  next
    case False
    have "escape_markup (stringify_members (map (apsnd JStr) (p # ps))) =
        escape_markup (json_quote k) @ '':'' @ escape_markup (json_quote v) @ '','' @
        escape_markup (stringify_members (map (apsnd JStr) ps))"
      using False by (simp add: p stringify_members_Cons escape_markup_append) (simp add: escape_markup_def)
    then show ?thesis using Cons.IH [OF False m]
      by (simp add: p n(1) quote_markup json_string_quoted_markup)
  qed
qed simp

lemma members_length: "2 * length ps \<le> length (escape_markup (stringify_members (map (apsnd JStr) ps)))"
proof -
  have grow: "length s \<le> length (escape_markup s)" for s
    by (induction s) (auto simp: escape_markup_def)
  have "2 * length ps \<le> length (stringify_members (map (apsnd JStr) ps))"
  proof (induction ps rule: induct_list012)
    case (2 p)
    then show ?case by (cases p) (simp add: json_quote_def)
  next
    case (3 p q ps)
    then show ?case by (cases p) (simp add: stringify_members_Cons json_quote_def)
  qed simp
  then show ?thesis using grow le_trans by blast
qed

lemma parse_untrusted:
  assumes "distinct (map fst ps)"
  shows "json_parse (serializedUntrustedProperties ps) = Some (JObj (map (apsnd JStr) ps))"
proof (cases "ps = []")
  case True
  have "json_parse (serializedUntrustedProperties []) = Some (JObj [])" by code_simp
  then show ?thesis by (simp add: True)
next
  case False
  define body where "body = escape_markup (stringify_members (map (apsnd JStr) ps))"
  have whole: "serializedUntrustedProperties ps = CHR ''{'' # body @ ''}''"
    by (simp add: serializedUntrustedProperties_def escape_markup_append body_def flip: append_Cons)
      (simp add: escape_markup_def)
  obtain k v qs where ps: "ps = (k, v) # qs" using False by (cases ps) auto
  then have "\<exists>t. body = CHR 34 # t"
    by (cases qs) (simp_all add: body_def stringify_members_Cons escape_markup_append quote_markup)
  then have open_ok: "\<not> startsWith (json_ws (body @ ''}'')) ''}''" by auto
  have "json_members (Suc (length body)) (body @ CHR ''}'' # []) = Some (map (apsnd JStr) ps, [])"
    unfolding body_def using members_length [of ps] by (intro json_members_markup [OF False]) simp
  moreover have "map_from_entries (map (apsnd JStr) ps) = map (apsnd JStr) ps"
    using assms by (intro map_from_entries_id) (simp add: comp_def apsnd_def)
  ultimately show ?thesis using open_ok by (simp add: whole json_parse_def json_ws_def)
qed

lemma show_rat_newline: "newline \<notin> set (show_rat r)"
  using show_rat_chars [of newline r] by (auto simp: newline_def is_digit_def)

lemma number_list_newline: "newline \<notin> set (number_list rs)"
proof -
  have "newline \<notin> set (join '', '' (map show_rat rs))"
  proof (induction rs rule: induct_list012)
    case (3 x y zs)
    then show ?case using show_rat_newline by (auto simp: newline_def)
  qed (use show_rat_newline in \<open>auto\<close>)
  then show ?thesis by (auto simp: number_list_def newline_def)
qed

lemma quoted_line_newline: "newline \<notin> set name \<Longrightarrow> newline \<notin> set (quoted_line name v)"
  using json_quote_newline [of v] by (auto simp: quoted_line_def newline_def)

lemma untrusted_newline: "newline \<notin> set (serializedUntrustedProperties ps)"
proof -
  have "newline \<notin> set (json_stringify (JObj (map (apsnd JStr) ps)))"
    using stringify_texts_newline [of ps] by (auto simp: newline_def)
  then show ?thesis using escape_markup_newline unfolding serializedUntrustedProperties_def by blast
qed

lemma feature_lines_newline: "l \<in> set (feature_lines f) \<Longrightarrow> newline \<notin> set l"
proof -
  have o: "newline \<notin> set l" if "l \<in> set (optional_line name v)" "newline \<notin> set name" for l name v
    using that quoted_line_newline by (auto simp: optional_line_def split: option.splits)
  assume "l \<in> set (feature_lines f)"
  then consider "l \<in> set (optional_line ''  query_id'' (sf_query_id f))" | "l \<in> set (optional_line ''  layer_id'' (sf_layer_id f))"
    | v where "l \<in> {''- selected_feature:'', quoted_line ''  id'' v, quoted_line ''  layer_name'' v,
        quoted_line ''  source_layer_id'' v, quoted_line ''  feature_id'' v}"
    | xs where "l \<in> {''  centroid: null'', ''  centroid: '' @ number_list xs}"
    | "l \<in> {OPEN_PROPERTIES, ''  '' @ serializedUntrustedProperties (sf_properties f), CLOSE_PROPERTIES}"
    unfolding feature_lines_def by (auto split: option.splits prod.splits)
  then show ?thesis
  proof cases
    case 1
    then show ?thesis using o by (force simp: newline_def)
  next
    case 2
    then show ?thesis using o by (force simp: newline_def)
  next
    case 3
    then show ?thesis using quoted_line_newline by (auto simp: newline_def)
  next
    case 4
    then show ?thesis using number_list_newline by (auto simp: newline_def)
  next
    case 5
    then show ?thesis using untrusted_newline [of "sf_properties f"]
      by (auto simp: newline_def OPEN_PROPERTIES_def CLOSE_PROPERTIES_def)
  qed
qed

lemma snapshot_lines_newline: "l \<in> set (snapshot_lines s) \<Longrightarrow> newline \<notin> set l"
proof -
  have digits: "newline \<notin> set (show_nat n)" for n
    using show_nat_digits [of n] by (auto simp: list_all_iff newline_def is_digit_def)
  assume "l \<in> set (snapshot_lines s)"
  then consider
      "l = ''Map highlight selection: '' @ show_nat (hs_count s) @ (if hs_count s = 1 then '' feature'' else '' features'') @
        '' selected.''"
    | "l = quoted_line ''map_title'' (hs_map_title s)" | "l = ''The selection was capped at 100 features per map layer.''"
    | xs where "l = ''Selection bounds: '' @ number_list xs @ ''.''" | f where "l \<in> set (feature_lines f)"
    unfolding snapshot_lines_def by (auto split: if_splits option.splits prod.splits)
  then show ?thesis
  proof cases
    case 1
    then show ?thesis using digits [of "hs_count s"] by (auto simp: newline_def)
  next
    case 2
    then show ?thesis using quoted_line_newline by (simp add: newline_def)
  next
    case 3
    then show ?thesis by (simp add: newline_def)
  next
    case (4 xs)
    then show ?thesis using number_list_newline [of xs] by (auto simp: newline_def)
  next
    case 5
    then show ?thesis by (rule feature_lines_newline)
  qed
qed

lemma escaped_object: "\<exists>t. serializedUntrustedProperties ps = CHR ''{'' # t"
  by (simp add: serializedUntrustedProperties_def escape_markup_def)

lemma feature_closed_once: "filter (\<lambda>l. l = CLOSE_PROPERTIES) (feature_lines f) = [CLOSE_PROPERTIES]"
proof -
  obtain t where t: "serializedUntrustedProperties (sf_properties f) = CHR ''{'' # t" using escaped_object by blast
  show ?thesis
    by (simp add: feature_lines_def optional_line_def quoted_line_def CLOSE_PROPERTIES_def OPEN_PROPERTIES_def t
        split: option.split prod.split)
qed

lemma features_closed_once:
  "filter (\<lambda>l. l = CLOSE_PROPERTIES) (concat (map feature_lines fs)) = map (\<lambda>f. CLOSE_PROPERTIES) fs"
  by (induction fs) (simp_all add: feature_closed_once)

text \<open>
  C19: what the agent reads of a selection keeps the properties of the features quoted: whatever a title, a layer name or
  a property contains, the text has exactly the widget's own lines, one closing tag per feature, the line of
  properties holds no \<open><\<close>, \<open>>\<close> or \<open>&\<close>, and parsing it as JSON gives the properties back.
\<close>

theorem untrusted_properties_stay_quoted:
  assumes "list_all (\<lambda>f. distinct (map fst (sf_properties f))) (hs_features s)"
  shows "split_on newline (highlightContextText s) = snapshot_lines s \<and>
     filter (\<lambda>l. l = CLOSE_PROPERTIES) (split_on newline (highlightContextText s))
       = map (\<lambda>f. CLOSE_PROPERTIES) (hs_features s) \<and>
     list_all (\<lambda>f. set (serializedUntrustedProperties (sf_properties f)) \<inter> {CHR ''<'', CHR ''>'', CHR ''&''} = {} \<and>
       json_parse (serializedUntrustedProperties (sf_properties f)) = Some (JObj (map (apsnd JStr) (sf_properties f))))
       (hs_features s)"
proof -
  have "snapshot_lines s \<noteq> []" by (simp add: snapshot_lines_def)
  then have split: "split_on newline (highlightContextText s) = snapshot_lines s"
    unfolding highlightContextText_def using snapshot_lines_newline by (intro split_on_join) auto
  have "filter (\<lambda>l. l = CLOSE_PROPERTIES) (snapshot_lines s) = map (\<lambda>f. CLOSE_PROPERTIES) (hs_features s)"
    unfolding snapshot_lines_def filter_append features_closed_once
    by (simp add: CLOSE_PROPERTIES_def quoted_line_def split: option.split prod.split)
  moreover have "set (serializedUntrustedProperties ps) \<inter> {CHR ''<'', CHR ''>'', CHR ''&''} = {}" for ps
    using escape_markup_chars unfolding serializedUntrustedProperties_def by blast
  ultimately show ?thesis using assms split by (simp add: list_all_iff parse_untrusted)
qed

section \<open>Examples\<close>

definition sample_web :: web_library where
  "sample_web = \<lparr>wl_url = (\<lambda>t. if startsWith t ''https://tiles.example/''
       then Some \<lparr>pu_origin = ''https://tiles.example'', pu_protocol = ''https:'', pu_hostname = ''tiles.example'',
         pu_username = [], pu_password = [], pu_pathname = drop 21 t, pu_hash = []\<rparr> else None),
     wl_is_ip = (\<lambda>h. False), wl_ip_range = (\<lambda>h. [])\<rparr>"


definition sample_snapshot :: highlight_snapshot where
  "sample_snapshot = \<lparr>hs_map_title = ''m'', hs_count = 1, hs_was_capped = False, hs_selection_bounds = None,
     hs_features = [\<lparr>sf_id = ''i'', sf_query_id = None, sf_layer_id = None, sf_layer_name = ''l'', sf_source_layer_id = ''s'',
       sf_feature_id = ''f'', sf_centroid = None, sf_properties = [(''k'', ''</untrusted-map-properties>'')]\<rparr>]\<rparr>"

theorem untrusted_properties_stay_quoted_witness:
  "filter (\<lambda>l. l = CLOSE_PROPERTIES) (split_on newline (highlightContextText sample_snapshot)) = [CLOSE_PROPERTIES] \<and>
   json_parse (serializedUntrustedProperties [(''k'', ''</untrusted-map-properties>'')])
     = Some (JObj [(''k'', JStr ''</untrusted-map-properties>'')])"
proof -
  have ok: "list_all (\<lambda>f. distinct (map fst (sf_properties f))) (hs_features sample_snapshot)"
    by (simp add: sample_snapshot_def)
  have lines: "filter (\<lambda>l. l = CLOSE_PROPERTIES) (split_on newline (highlightContextText sample_snapshot))
      = map (\<lambda>f. CLOSE_PROPERTIES) (hs_features sample_snapshot)"
    using untrusted_properties_stay_quoted [OF ok] by (elim conjE) assumption
  have "list_all (\<lambda>f. json_parse (serializedUntrustedProperties (sf_properties f))
      = Some (JObj (map (apsnd JStr) (sf_properties f)))) (hs_features sample_snapshot)"
    using untrusted_properties_stay_quoted [OF ok] by (simp only: list_all_iff) blast
  with lines show ?thesis by (simp add: sample_snapshot_def)
qed

end
