(* ===== verification/WidgetConfig.thy ===== *)
theory WidgetConfig
  imports TileSources JsBytes
begin

text \<open>
  The configuration that the map of the dataset MCP widget accepts, \<open>dataset-mcp/ui/src/mcp/contracts.ts\<close>, and
  the requests that it sends for tiles (\<open>normalizeMapConfiguration\<close> and \<open>mapTileRequest\<close> of
  \<open>components/MapView.tsx\<close>): a query token goes only to the tiles of its own query. \<open>new URL\<close> is a parameter.
\<close>

section \<open>Configurations\<close>

record layer_style_config =
  ly_color :: "string option"
  ly_color_property :: "string option"
  ly_color_scheme :: "string option"
  ly_breaks :: "rat list option"
  ly_opacity :: "rat option"
  ly_point_radius :: "rat option"
  ly_point_radius_property :: "string option"
  ly_point_radius_scale :: "size_scale option"
  ly_line_width :: "rat option"
  ly_line_width_property :: "string option"
  ly_line_width_scale :: "size_scale option"

definition opt_ok :: "('a \<Rightarrow> bool) \<Rightarrow> 'a option \<Rightarrow> bool" where
  "opt_ok P x \<longleftrightarrow> (case x of None \<Rightarrow> True | Some v \<Rightarrow> P v)"

definition is_hex_digit :: "char \<Rightarrow> bool" where
  "is_hex_digit c \<longleftrightarrow> hex_value c \<noteq> None"

definition is_hex_color :: "string \<Rightarrow> bool" where
  "is_hex_color s \<longleftrightarrow> length s = 7 \<and> hd s = CHR ''#'' \<and> list_all is_hex_digit (tl s)"

text \<open>\<open>z.string().trim().min(1).max(200)\<close>: the check is on the trimmed text.\<close>

definition name_ok :: "string \<Rightarrow> bool" where
  "name_ok s \<longleftrightarrow> 1 \<le> length (trim s) \<and> length (trim s) \<le> 200"

definition widget_schemes :: "string list" where
  "widget_schemes = [''blues'', ''greens'', ''oranges'', ''purples'', ''viridis'', ''plasma'', ''rdyblu'', ''rdyg'']"

definition style_config_ok :: "layer_style_config \<Rightarrow> bool" where
  "style_config_ok s \<longleftrightarrow>
     opt_ok is_hex_color (ly_color s) \<and> opt_ok name_ok (ly_color_property s) \<and>
     opt_ok (\<lambda>c. c \<in> set widget_schemes) (ly_color_scheme s) \<and> opt_ok (\<lambda>bs. length bs \<le> 8) (ly_breaks s) \<and>
     opt_ok (\<lambda>r. 0 \<le> r \<and> r \<le> 1) (ly_opacity s) \<and> opt_ok (\<lambda>r. 0 < r \<and> r \<le> 50) (ly_point_radius s) \<and>
     opt_ok name_ok (ly_point_radius_property s) \<and> opt_ok (\<lambda>r. 0 < r \<and> r \<le> 20) (ly_line_width s) \<and>
     opt_ok name_ok (ly_line_width_property s)"

definition trimmed_style :: "layer_style_config \<Rightarrow> layer_style_config" where
  "trimmed_style s = s\<lparr>ly_color_property := map_option trim (ly_color_property s),
     ly_point_radius_property := map_option trim (ly_point_radius_property s),
     ly_line_width_property := map_option trim (ly_line_width_property s)\<rparr>"

record map_camera =
  mcam_bounds :: "map_bounds option"
  mcam_center :: "(rat \<times> rat) option"
  mcam_zoom :: "rat option"
  mcam_bearing :: "rat option"
  mcam_pitch :: "rat option"
  mcam_padding :: "rat option"

definition in_range :: "rat \<Rightarrow> rat \<Rightarrow> rat \<Rightarrow> bool" where
  "in_range lo hi r \<longleftrightarrow> lo \<le> r \<and> r \<le> hi"

definition map_camera_ok :: "map_camera \<Rightarrow> bool" where
  "map_camera_ok c \<longleftrightarrow>
     opt_ok (\<lambda>(x, y). in_range (- 180) 180 x \<and> in_range (- 90) 90 y) (mcam_center c) \<and> opt_ok (in_range 0 22) (mcam_zoom c) \<and>
     opt_ok (in_range (- 180) 180) (mcam_bearing c) \<and> opt_ok (in_range 0 85) (mcam_pitch c) \<and>
     opt_ok (in_range 0 256) (mcam_padding c) \<and>
     \<not> (mcam_bounds c \<noteq> None \<and> mcam_center c \<noteq> None) \<and>
     opt_ok (\<lambda>(w, s, e, n). w < e \<and> s < n) (mcam_bounds c) \<and>
     \<not> (mcam_bounds c \<noteq> None \<and> mcam_zoom c \<noteq> None) \<and> \<not> (mcam_zoom c \<noteq> None \<and> mcam_center c = None)"

text \<open>The three kinds of layers, with the members that the map reads.\<close>

datatype preparation = PrepPreparing | PrepFailed

record query_config =
  qc_query_id :: string
  qc_query_token :: string
  qc_layer_name :: string
  qc_tile_url :: string
  qc_source_layer :: string
  qc_columns :: "tile_column list"
  qc_result_status :: "string option"
  qc_style :: "layer_style_config option"
  qc_visible :: bool
  qc_initial_bounds :: "map_bounds option"

record external_config =
  ec_layer_id :: string
  ec_layer_name :: string
  ec_source :: external_tile_source
  ec_style :: "layer_style_config option"
  ec_visible :: bool

record pending_config =
  pc_layer_id :: string
  pc_layer_name :: string
  pc_preparation :: preparation
  pc_error :: "string option"
  pc_style :: "layer_style_config option"
  pc_visible :: bool

datatype config_layer = QueryLayer query_config | ExternalLayer external_config | PendingLayer pending_config

record widget_config =
  cf_title :: string
  cf_basemap :: basemap_mode
  cf_worker_url :: string
  cf_camera :: "map_camera option"
  cf_layers :: "config_layer list"

definition is_query_id :: "string \<Rightarrow> bool" where
  "is_query_id s \<longleftrightarrow> 20 \<le> length s \<and> length s \<le> 64 \<and> list_all b64_token_char s"

definition numbered_id :: "string \<Rightarrow> string \<Rightarrow> bool" where
  "numbered_id start s \<longleftrightarrow>
     startsWith s start \<and> drop (length start) s \<noteq> [] \<and> list_all is_digit (drop (length start) s)"

definition external_source_ok :: "external_tile_source \<Rightarrow> bool" where
  "external_source_ok s \<longleftrightarrow>
     (case s of
        PmtilesSource url layer \<Rightarrow> layer \<noteq> Some []
      | TileJsonSource url layer \<Rightarrow> layer \<noteq> Some []
      | VectorTiles tiles layer minz maxz b \<Rightarrow>
          1 \<le> length tiles \<and> length tiles \<le> 8 \<and> layer \<noteq> [] \<and> zoom_ok minz \<and> zoom_ok maxz)"

fun config_layer_ok :: "config_layer \<Rightarrow> bool" where
  "config_layer_ok (QueryLayer q) \<longleftrightarrow>
     is_query_id (qc_query_id q) \<and> qc_query_token q \<noteq> [] \<and> name_ok (qc_layer_name q) \<and>
     list_all (\<lambda>c. tc_name c \<noteq> [] \<and> tc_type c \<noteq> []) (qc_columns q) \<and>
     opt_ok (\<lambda>s. s \<in> {''rows_returned'', ''empty_result'', ''empty_page'', ''indeterminate''}) (qc_result_status q) \<and>
     opt_ok style_config_ok (qc_style q)"
| "config_layer_ok (ExternalLayer e) \<longleftrightarrow>
     numbered_id ''external-'' (ec_layer_id e) \<and> name_ok (ec_layer_name e) \<and> external_source_ok (ec_source e) \<and>
     opt_ok style_config_ok (ec_style e)"
| "config_layer_ok (PendingLayer p) \<longleftrightarrow>
     numbered_id ''preparing-'' (pc_layer_id p) \<and> name_ok (pc_layer_name p) \<and> opt_ok style_config_ok (pc_style p)"

fun config_layer_id :: "config_layer \<Rightarrow> string" where
  "config_layer_id (QueryLayer q) = qc_query_id q"
| "config_layer_id (ExternalLayer e) = ec_layer_id e"
| "config_layer_id (PendingLayer p) = pc_layer_id p"

fun config_layer_name :: "config_layer \<Rightarrow> string" where
  "config_layer_name (QueryLayer q) = qc_layer_name q"
| "config_layer_name (ExternalLayer e) = ec_layer_name e"
| "config_layer_name (PendingLayer p) = pc_layer_name p"

fun trimmed_layer :: "config_layer \<Rightarrow> config_layer" where
  "trimmed_layer (QueryLayer q) =
     QueryLayer (q\<lparr>qc_layer_name := trim (qc_layer_name q), qc_style := map_option trimmed_style (qc_style q)\<rparr>)"
| "trimmed_layer (ExternalLayer e) =
     ExternalLayer (e\<lparr>ec_layer_name := trim (ec_layer_name e), ec_style := map_option trimmed_style (ec_style e)\<rparr>)"
| "trimmed_layer (PendingLayer p) =
     PendingLayer (p\<lparr>pc_layer_name := trim (pc_layer_name p), pc_style := map_option trimmed_style (pc_style p)\<rparr>)"

text \<open>\<open>MapConfigurationSchema\<close>: the parsed configuration has trimmed texts; the names are compared in lower case.\<close>

definition MapConfigurationSchema :: "widget_config \<Rightarrow> widget_config option" where
  "MapConfigurationSchema c =
     (let parsed = c\<lparr>cf_title := trim (cf_title c), cf_layers := map trimmed_layer (cf_layers c)\<rparr> in
      if name_ok (cf_title c) \<and> opt_ok map_camera_ok (cf_camera c) \<and> 1 \<le> length (cf_layers c) \<and>
         length (cf_layers c) \<le> 8 \<and> list_all config_layer_ok (cf_layers c) \<and>
         distinct (map config_layer_id (cf_layers parsed)) \<and>
         distinct (map (toLowerCase \<circ> config_layer_name) (cf_layers parsed))
      then Some parsed else None)"

section \<open>Tile requests\<close>

definition parsedHttpUrl :: "web_library \<Rightarrow> string \<Rightarrow> public_url option" where
  "parsedHttpUrl lib v =
     (case wl_url lib v of None \<Rightarrow> None
      | Some u \<Rightarrow> if pu_protocol u = ''http:'' \<or> pu_protocol u = ''https:'' then Some u else None)"

text \<open>
  \<open>QUERY_TILE_PATH\<close>, the query id of a match: the last five segments of the path are \<open>tiles\<close>, the id, and
  the coordinates, which are numbers or placeholders.
\<close>

definition tile_number :: "string \<Rightarrow> string \<Rightarrow> bool" where
  "tile_number placeholder s \<longleftrightarrow> s = placeholder \<or> s \<noteq> [] \<and> list_all is_digit s"

definition widget_tile_path :: "string \<Rightarrow> string option" where
  "widget_tile_path path =
     (case rev (split_on CHR ''/'' path) of
        y # x # z # i # t # before # rest \<Rightarrow>
          if t = ''tiles'' \<and> is_query_id i \<and> tile_number ''{z}'' z \<and> tile_number ''{x}'' x \<and> endsWith y ''.mvt'' \<and>
             tile_number ''{y}'' (take (length y - 4) y)
          then Some i else None
      | _ \<Rightarrow> None)"

text \<open>A path that does not decode is a \<open>URIError\<close> of \<open>decodeURIComponent\<close>: the outer \<open>None\<close>.\<close>

definition tileQueryId :: "web_library \<Rightarrow> string \<Rightarrow> string option option" where
  "tileQueryId lib v =
     (case parsedHttpUrl lib v of
        None \<Rightarrow> Some None
      | Some u \<Rightarrow> (case decodeURIComponent (pu_pathname u) of None \<Rightarrow> None | Some path \<Rightarrow> Some (widget_tile_path path)))"

definition external_urls_ok :: "web_library \<Rightarrow> external_tile_source \<Rightarrow> bool" where
  "external_urls_ok lib s \<longleftrightarrow>
     (case s of VectorTiles tiles layer minz maxz b \<Rightarrow> first_tile_error lib tiles = None
      | PmtilesSource url layer \<Rightarrow> public_url_text lib url
      | TileJsonSource url layer \<Rightarrow> public_url_text lib url)"

text \<open>The loop over the layers: \<open>None\<close> is a \<open>URIError\<close>, otherwise whether every layer passes.\<close>

fun layers_pass :: "web_library \<Rightarrow> config_layer list \<Rightarrow> bool option" where
  "layers_pass lib [] = Some True"
| "layers_pass lib (l # ls) =
     (case l of
        PendingLayer p \<Rightarrow> layers_pass lib ls
      | ExternalLayer e \<Rightarrow> if external_urls_ok lib (ec_source e) then layers_pass lib ls else Some False
      | QueryLayer q \<Rightarrow>
          if parsedHttpUrl lib (qc_tile_url q) = None then Some False
          else (case tileQueryId lib (qc_tile_url q) of
             None \<Rightarrow> None
           | Some i \<Rightarrow> if i = Some (qc_query_id q) then layers_pass lib ls else Some False))"

definition normalizeMapConfiguration :: "web_library \<Rightarrow> widget_config \<Rightarrow> widget_config option option" where
  "normalizeMapConfiguration lib c =
     (case MapConfigurationSchema c of
        None \<Rightarrow> Some None
      | Some parsed \<Rightarrow>
          if parsedHttpUrl lib (cf_worker_url parsed) = None then Some None
          else map_option (\<lambda>ok. if ok then Some parsed else None) (layers_pass lib (cf_layers parsed)))"

text \<open>\<open>tiles.some(...)\<close>: a tile of the same origin and query; \<open>None\<close> when a tile before it does not decode.\<close>

fun some_trusted :: "web_library \<Rightarrow> string option \<Rightarrow> string option \<Rightarrow> string list \<Rightarrow> bool option" where
  "some_trusted lib origin queryId [] = Some False"
| "some_trusted lib origin queryId (t # ts) =
     (if map_option pu_origin (parsedHttpUrl lib t) \<noteq> origin then some_trusted lib origin queryId ts
      else (case tileQueryId lib t of
         None \<Rightarrow> None
       | Some i \<Rightarrow> if i = queryId then Some True else some_trusted lib origin queryId ts))"

record widget_request =
  wr_url :: string
  wr_token :: "string option"

definition mapTileRequest ::
  "web_library \<Rightarrow> string \<Rightarrow> (string \<times> string) list \<Rightarrow> string list option \<Rightarrow> widget_request option" where
  "mapTileRequest lib url queryTokens trustedTileUrls =
     (case tileQueryId lib url of
        None \<Rightarrow> None
      | Some queryId \<Rightarrow>
          (case (case trustedTileUrls of None \<Rightarrow> Some True
                 | Some ts \<Rightarrow> some_trusted lib (map_option pu_origin (parsedHttpUrl lib url)) queryId ts) of
             None \<Rightarrow> None
           | Some trusted \<Rightarrow>
               (let token = (if trusted then Option.bind queryId (map_of queryTokens) else None) in
                Some \<lparr>wr_url = url, wr_token = (if truthy token then token else None)\<rparr>)))"

lemma some_trusted_True:
  "some_trusted lib origin queryId ts = Some True \<Longrightarrow>
   \<exists>t \<in> set ts. map_option pu_origin (parsedHttpUrl lib t) = origin \<and> tileQueryId lib t = Some queryId"
  by (induction ts) (auto split: if_splits option.splits)

lemma layers_pass_query:
  "layers_pass lib ls = Some True \<Longrightarrow> QueryLayer q \<in> set ls \<Longrightarrow>
   tileQueryId lib (qc_tile_url q) = Some (Some (qc_query_id q))"
  by (induction ls) (auto split: config_layer.splits if_splits option.splits)

definition config_tile_urls :: "config_layer list \<Rightarrow> string list" where
  "config_tile_urls ls =
     concat (map (\<lambda>l. case l of QueryLayer q \<Rightarrow> if qc_tile_url q = [] then [] else [qc_tile_url q] | _ \<Rightarrow> []) ls)"

text \<open>
  C17: the widget sends a query token only to the tiles it belongs to: of an accepted configuration, a request carries a
  token only when its URL has the origin of the tile URL of one of the query layers and names the query of
  that layer, and the token is the one held for that query.
\<close>

theorem widget_tokens_reach_own_tiles:
  assumes "normalizeMapConfiguration lib c = Some (Some parsed)"
    and "mapTileRequest lib url tokens (Some (config_tile_urls (cf_layers parsed))) = Some r"
    and "wr_token r = Some token"
  shows "\<exists>q. QueryLayer q \<in> set (cf_layers parsed) \<and> map_of tokens (qc_query_id q) = Some token \<and>
     tileQueryId lib url = Some (Some (qc_query_id q)) \<and>
     map_option pu_origin (parsedHttpUrl lib url) = map_option pu_origin (parsedHttpUrl lib (qc_tile_url q)) \<and>
     wr_url r = url"
proof -
  obtain queryId where q: "tileQueryId lib url = Some queryId"
    using assms(2) by (auto simp: mapTileRequest_def split: option.splits)
  obtain trusted where t: "some_trusted lib (map_option pu_origin (parsedHttpUrl lib url)) queryId
      (config_tile_urls (cf_layers parsed)) = Some trusted"
    using assms(2) by (auto simp: mapTileRequest_def q split: option.splits)
  have r: "r = (let token = (if trusted then Option.bind queryId (map_of tokens) else None) in
      \<lparr>wr_url = url, wr_token = (if truthy token then token else None)\<rparr>)"
    using assms(2) by (simp add: mapTileRequest_def q t Let_def split: if_splits)
  then have "trusted" and b: "Option.bind queryId (map_of tokens) = Some token"
    using assms(3) by (auto simp: Let_def split: if_splits)
  obtain i where i: "queryId = Some i" "map_of tokens i = Some token" using b by (cases queryId) auto
  obtain u where u: "u \<in> set (config_tile_urls (cf_layers parsed))" "tileQueryId lib u = Some queryId"
      "map_option pu_origin (parsedHttpUrl lib u) = map_option pu_origin (parsedHttpUrl lib url)"
    using some_trusted_True t \<open>trusted\<close> by metis
  obtain l where "QueryLayer l \<in> set (cf_layers parsed)" "u = qc_tile_url l"
    using u(1) by (auto simp: config_tile_urls_def split: config_layer.splits if_splits)
  moreover have "layers_pass lib (cf_layers parsed) = Some True"
    using assms(1) by (auto simp: normalizeMapConfiguration_def split: option.splits if_splits)
  ultimately show ?thesis using layers_pass_query u i q r by (auto simp: Let_def)
qed

section \<open>Example\<close>

definition sample_query :: query_config where
  "sample_query = \<lparr>qc_query_id = replicate 20 CHR ''a'', qc_query_token = ''k'', qc_layer_name = ''l'',
     qc_tile_url = ''https://tiles.example/tiles/'' @ replicate 20 CHR ''a'' @ ''/{z}/{x}/{y}.mvt'', qc_source_layer = ''l'',
     qc_columns = [], qc_result_status = None, qc_style = None, qc_visible = True, qc_initial_bounds = None\<rparr>"

definition sample_widget_config :: widget_config where
  "sample_widget_config = \<lparr>cf_title = ''t'', cf_basemap = Street, cf_worker_url = ''https://tiles.example/w'', cf_camera = None,
     cf_layers = [QueryLayer sample_query]\<rparr>"

theorem widget_tokens_reach_own_tiles_witness:
  "\<exists>q. QueryLayer q \<in> set (cf_layers sample_widget_config) \<and> map_of [(replicate 20 CHR ''a'', ''k'')] (qc_query_id q) = Some ''k''"
proof -
  let ?url = "''https://tiles.example/tiles/'' @ replicate 20 CHR ''a'' @ ''/3/1/2.mvt''"
  let ?tokens = "[(replicate 20 CHR ''a'', ''k'')]"
  have config: "normalizeMapConfiguration sample_web sample_widget_config = Some (Some sample_widget_config)" by code_simp
  have request: "mapTileRequest sample_web ?url ?tokens (Some (config_tile_urls (cf_layers sample_widget_config))) =
      Some \<lparr>wr_url = ?url, wr_token = Some ''k''\<rparr>" by code_simp
  have token: "wr_token \<lparr>wr_url = ?url, wr_token = Some ''k''\<rparr> = Some ''k''" by simp
  show ?thesis using widget_tokens_reach_own_tiles [OF config request token] by blast
qed

end
