(* ===== verification/WidgetMap.thy ===== *)
theory WidgetMap
  imports WidgetConfig
begin

text \<open>
  The running map of the dataset MCP widget, \<open>dataset-mcp/ui/src/components/MapView.tsx\<close>: its layers and their paint,
  and one step per event: sources that resolve, statuses and the reports to the host, tokens that expire, changes of the
  configuration, the user's toggles. MapLibre and the tile sources are parameters and events.
\<close>

section \<open>Layers of the map\<close>

record render_layer =
  rl_id :: string
  rl_layer_name :: string
  rl_visible :: bool
  rl_style :: "layer_style_config option"
  rl_columns :: "tile_column list"
  rl_source_layer :: string
  rl_initial_bounds :: "map_bounds option"
  rl_result_status :: "string option"
  rl_query_id :: "string option"
  rl_query_token :: "string option"
  rl_tile_url :: "string option"
  rl_source :: "external_tile_source option"
  rl_preparation :: "preparation option"
  rl_preparation_error :: "string option"

record render_config =
  rc_title :: string
  rc_basemap :: basemap_mode
  rc_worker_url :: string
  rc_camera :: "map_camera option"
  rc_layers :: "render_layer list"

definition source_layer_of :: "external_tile_source \<Rightarrow> string option" where
  "source_layer_of s =
     (case s of PmtilesSource u l \<Rightarrow> l | TileJsonSource u l \<Rightarrow> l | VectorTiles t l a b c \<Rightarrow> Some l)"

fun render_layer_of :: "config_layer \<Rightarrow> render_layer" where
  "render_layer_of (QueryLayer q) =
     \<lparr>rl_id = qc_query_id q, rl_layer_name = qc_layer_name q, rl_visible = qc_visible q, rl_style = qc_style q,
      rl_columns = qc_columns q, rl_source_layer = qc_source_layer q, rl_initial_bounds = qc_initial_bounds q,
      rl_result_status = qc_result_status q, rl_query_id = Some (qc_query_id q), rl_query_token = Some (qc_query_token q),
      rl_tile_url = Some (qc_tile_url q), rl_source = None, rl_preparation = None, rl_preparation_error = None\<rparr>"
| "render_layer_of (ExternalLayer e) =
     \<lparr>rl_id = ec_layer_id e, rl_layer_name = ec_layer_name e, rl_visible = ec_visible e, rl_style = ec_style e,
      rl_columns = [], rl_source_layer = with_default [] (source_layer_of (ec_source e)), rl_initial_bounds = None,
      rl_result_status = None, rl_query_id = None, rl_query_token = None, rl_tile_url = None,
      rl_source = Some (ec_source e), rl_preparation = None, rl_preparation_error = None\<rparr>"
| "render_layer_of (PendingLayer p) =
     \<lparr>rl_id = pc_layer_id p, rl_layer_name = pc_layer_name p, rl_visible = pc_visible p, rl_style = pc_style p,
      rl_columns = [], rl_source_layer = [], rl_initial_bounds = None, rl_result_status = None, rl_query_id = None,
      rl_query_token = None, rl_tile_url = None, rl_source = None, rl_preparation = Some (pc_preparation p),
      rl_preparation_error = pc_error p\<rparr>"

definition renderConfiguration :: "widget_config \<Rightarrow> render_config" where
  "renderConfiguration c =
     \<lparr>rc_title = cf_title c, rc_basemap = cf_basemap c, rc_worker_url = cf_worker_url c, rc_camera = cf_camera c,
      rc_layers = map render_layer_of (cf_layers c)\<rparr>"

text \<open>Two configurations have one life cycle when these members are equal.\<close>

definition mapLifecycleKey :: "render_config \<Rightarrow> string \<times> string \<times> map_camera option" where
  "mapLifecycleKey c = (rc_worker_url c, rc_title c, rc_camera c)"

definition merge_bounds :: "map_bounds \<Rightarrow> map_bounds \<Rightarrow> map_bounds" where
  "merge_bounds r b =
     (case (r, b) of ((w, s, e, n), (w', s', e', n')) \<Rightarrow> (min w w', min s s', max e e', max n n'))"

definition combinedBounds :: "render_layer list \<Rightarrow> map_bounds option" where
  "combinedBounds ls =
     (case List.map_filter rl_initial_bounds ls of [] \<Rightarrow> None | b # bs \<Rightarrow> Some (foldl merge_bounds b (b # bs)))"

datatype map_view = ViewBounds map_bounds rat | ViewCenter "rat \<times> rat" "rat option"

record initial_view =
  iv_view :: map_view
  iv_bearing :: "rat option"
  iv_pitch :: "rat option"

definition initialMapView :: "render_config \<Rightarrow> initial_view" where
  "initialMapView c =
     (let camera = rc_camera c;
          padding = with_default 24 (Option.bind camera mcam_padding);
          view = (case Option.bind camera mcam_bounds of
              Some b \<Rightarrow> ViewBounds b padding
            | None \<Rightarrow>
                (case Option.bind camera mcam_center of
                   Some p \<Rightarrow> ViewCenter p (Option.bind camera mcam_zoom)
                 | None \<Rightarrow>
                     (case combinedBounds (rc_layers c) of
                        Some b \<Rightarrow> ViewBounds b padding | None \<Rightarrow> ViewCenter (0, 0) (Some 1))))
      in \<lparr>iv_view = view, iv_bearing = Option.bind camera mcam_bearing, iv_pitch = Option.bind camera mcam_pitch\<rparr>)"

definition querySourceId :: "string \<Rightarrow> string" where
  "querySourceId queryId = ''hifld-query-'' @ queryId"

definition queryRenderLayerIds :: "string \<Rightarrow> string list" where
  "queryRenderLayerIds queryId =
     [querySourceId queryId @ ''-polygons'', querySourceId queryId @ ''-lines'', querySourceId queryId @ ''-points'']"

definition DEFAULT_QUERY_COLOR :: string where "DEFAULT_QUERY_COLOR = ''#440154''"
definition OUTLINE_COLOR :: string where "OUTLINE_COLOR = ''#bbfeab''"

record layer_style_state =
  lst_color :: string
  lst_colorProperty :: "string option"
  lst_colorScheme :: string
  lst_breaks :: "rat list option"
  lst_opacity :: rat
  lst_pointRadius :: rat
  lst_pointRadiusProperty :: "string option"
  lst_pointRadiusScale :: size_scale
  lst_lineWidth :: rat
  lst_lineWidthProperty :: "string option"
  lst_lineWidthScale :: size_scale

definition style_member :: "render_layer \<Rightarrow> (layer_style_config \<Rightarrow> 'a option) \<Rightarrow> 'a option" where
  "style_member l f = Option.bind (rl_style l) f"

definition initialLayerStyle :: "render_layer \<Rightarrow> layer_style_state" where
  "initialLayerStyle l =
     \<lparr>lst_color = with_default DEFAULT_QUERY_COLOR (style_member l ly_color),
      lst_colorProperty = style_member l ly_color_property,
      lst_colorScheme = with_default ''viridis'' (style_member l ly_color_scheme),
      lst_breaks = style_member l ly_breaks,
      lst_opacity = with_default (7 / 10) (style_member l ly_opacity),
      lst_pointRadius = with_default 4 (style_member l ly_point_radius),
      lst_pointRadiusProperty = style_member l ly_point_radius_property,
      lst_pointRadiusScale = with_default LinearScale (style_member l ly_point_radius_scale),
      lst_lineWidth = with_default 2 (style_member l ly_line_width),
      lst_lineWidthProperty = style_member l ly_line_width_property,
      lst_lineWidthScale = with_default LinearScale (style_member l ly_line_width_scale)\<rparr>"

text \<open>A layer of the map's style, and the three that draw the polygons, lines and points of a layer.\<close>

record style_layer =
  yl_id :: string
  yl_type :: string
  yl_source :: "string option"

record overlay_layer = style_layer +
  ov_source_layer :: string
  ov_geometry :: string
  ov_paint :: "(string \<times> json) list"

definition paint_opacity :: "bool \<Rightarrow> rat \<Rightarrow> json" where
  "paint_opacity visible opacity = j_rat (if visible then opacity else 0)"

definition overlay :: "string \<Rightarrow> render_layer \<Rightarrow> nat \<Rightarrow> string \<Rightarrow> string \<Rightarrow> (string \<times> json) list \<Rightarrow> overlay_layer" where
  "overlay queryId l i type geometry props =
     \<lparr>yl_id = queryRenderLayerIds queryId ! i, yl_type = type, yl_source = Some (querySourceId queryId),
      ov_source_layer = rl_source_layer l, ov_geometry = geometry, ov_paint = props\<rparr>"

definition layersForQuery :: "string \<Rightarrow> render_layer \<Rightarrow> overlay_layer list" where
  "layersForQuery queryId l =
     (let style = initialLayerStyle l; color = JStr (lst_color style);
          opacity = paint_opacity (rl_visible l) (lst_opacity style)
      in [overlay queryId l 0 ''fill'' ''Polygon''
            [(''fill-color'', color), (''fill-opacity'', opacity), (''fill-outline-color'', JStr OUTLINE_COLOR)],
          overlay queryId l 1 ''line'' ''LineString''
            [(''line-color'', color), (''line-opacity'', opacity), (''line-width'', j_rat (lst_lineWidth style))],
          overlay queryId l 2 ''circle'' ''Point''
            [(''circle-color'', color), (''circle-opacity'', opacity),
             (''circle-stroke-opacity'', paint_opacity (rl_visible l) 1),
             (''circle-radius'', j_rat (lst_pointRadius style)), (''circle-stroke-color'', JStr OUTLINE_COLOR),
             (''circle-stroke-width'', j_rat 1)]])"

text \<open>\<open>applyLayerStyle\<close>: the paint properties it sets, as layer, property and value, and the legend.\<close>

definition applyLayerStyle ::
  "(string \<Rightarrow> string \<Rightarrow> int) \<Rightarrow> math_library \<Rightarrow> (string \<times> json) list list \<Rightarrow> render_layer \<Rightarrow> string \<Rightarrow> layer_style_state
   \<Rightarrow> (string \<times> string \<times> json) list \<times> (string \<times> legend_label) list" where
  "applyLayerStyle lc ml features l queryId style =
     (let driven = dataDrivenColor lc features (rl_columns l) (lst_colorProperty style) (lst_colorScheme style)
            (lst_breaks style) (lst_color style);
          ids = queryRenderLayerIds queryId; polygons = ids ! 0; lines = ids ! 1; points = ids ! 2;
          opacity = paint_opacity (rl_visible l) (lst_opacity style)
      in ([(polygons, ''fill-color'', dc_paint driven), (lines, ''line-color'', dc_paint driven),
           (points, ''circle-color'', dc_paint driven), (polygons, ''fill-opacity'', opacity),
           (lines, ''line-opacity'', opacity), (points, ''circle-opacity'', opacity),
           (points, ''circle-stroke-opacity'', paint_opacity (rl_visible l) 1),
           (points, ''circle-radius'', dataDrivenSize ml features (lst_pointRadiusProperty style)
              (lst_pointRadiusScale style) (lst_pointRadius style) 2),
           (lines, ''line-width'', dataDrivenSize ml features (lst_lineWidthProperty style)
              (lst_lineWidthScale style) (lst_lineWidth style) 1)],
          dc_legendItems driven))"

definition allQueryRenderLayerIds :: "render_config \<Rightarrow> string list" where
  "allQueryRenderLayerIds c = concat (map (\<lambda>l. queryRenderLayerIds (rl_id l)) (filter rl_visible (rc_layers c)))"

definition highlightedLayers :: "render_config \<Rightarrow> highlight_layer list" where
  "highlightedLayers c =
     map (\<lambda>l. \<lparr>hl_mapSourceId = querySourceId (rl_id l), hl_queryId = rl_query_id l, hl_layerId = rl_id l,
       hl_layerName = rl_layer_name l, hl_sourceLayerId = rl_source_layer l\<rparr>) (rc_layers c)"

section \<open>The running map\<close>

text \<open>
  The state of one map: the closure variables of the effect that made it, the refs and React state that it shares,
  and the style of the MapLibre map (\<open>wd_style\<close> in drawing order, \<open>wd_sources\<close> the sources of layers). An
  active layer carries a number that stands for the identity of its object; \<open>wd_resolving\<close> are the sources that are
  being resolved, \<open>wd_errors\<close> the errors whose details are read, \<open>wd_queue\<close> the reports that wait for the host.
\<close>

record widget =
  wd_disposed :: bool
  wd_ready :: bool
  wd_config :: render_config
  wd_tokens :: "(string \<times> string) list"
  wd_names :: "(string \<times> bool) list"
  wd_statuses :: "(string \<times> layer_status) list"
  wd_active :: "(string \<times> nat \<times> render_layer) list"
  wd_next :: nat
  wd_resolving :: "(string \<times> nat) list"
  wd_idle :: "(string \<times> nat) list"
  wd_renewing :: "string list"
  wd_errors :: "(nat \<times> render_layer option) list"
  wd_style :: "style_layer list"
  wd_sources :: "(string \<times> tile_source_spec) list"
  wd_basemap :: "basemap_mode option"
  wd_shown :: "(string \<times> bool) list"
  wd_awaiting :: bool
  wd_fits :: "map_bounds list"
  wd_globalError :: "string option"
  wd_lastStatus :: "map_status option"
  wd_queue :: "map_status list"
  wd_delivered :: "map_status list"
  wd_message :: "string option"
  wd_loading :: bool

definition config_layer_named :: "string \<Rightarrow> widget \<Rightarrow> render_layer option" where
  "config_layer_named i s = List.find (\<lambda>l. rl_id l = i) (rc_layers (wd_config s))"

definition set_config_layer :: "render_layer \<Rightarrow> render_config \<Rightarrow> render_config" where
  "set_config_layer l c = c\<lparr>rc_layers := map (\<lambda>x. if rl_id x = rl_id l then l else x) (rc_layers c)\<rparr>"

subsection \<open>Reports\<close>

definition is_failed :: "layer_status \<Rightarrow> bool" where
  "is_failed l \<longleftrightarrow> ls_status l = StatusFailed"

definition is_unfinished :: "layer_status \<Rightarrow> bool" where
  "is_unfinished l \<longleftrightarrow> ls_status l = StatusLoading \<or> ls_status l = StatusPreparing"

definition overall :: "string option \<Rightarrow> layer_status list \<Rightarrow> overall_status" where
  "overall globalError layers =
     (let failures = length (filter is_failed layers) in
      if truthy globalError then MapFailed
      else if failures \<noteq> 0 then (if failures = length layers then MapFailed else MapPartial)
      else if list_ex is_unfinished layers then MapLoading else MapLoaded)"

definition snapshot_of :: "widget \<Rightarrow> map_status" where
  "snapshot_of s =
     (let layers = map snd (wd_statuses s) in
      \<lparr>mst_title = Some (rc_title (wd_config s)), mst_status = overall (wd_globalError s) layers, mst_scope = True,
       mst_layers = layers, mst_error = (if truthy (wd_globalError s) then wd_globalError s else None)\<rparr>)"

definition report :: "widget \<Rightarrow> widget" where
  "report s =
     (if wd_lastStatus s = Some (snapshot_of s) then s
      else s\<lparr>wd_lastStatus := Some (snapshot_of s), wd_queue := wd_queue s @ [snapshot_of s]\<rparr>)"

text \<open>The chain of promises that brings the reports to the host, one after the other.\<close>

definition deliver :: "widget \<Rightarrow> widget" where
  "deliver s =
     (case wd_queue s of [] \<Rightarrow> s
      | r # rs \<Rightarrow> s\<lparr>wd_queue := rs, wd_delivered := (if wd_disposed s then wd_delivered s else wd_delivered s @ [r])\<rparr>)"

definition set_status :: "string \<Rightarrow> layer_status \<Rightarrow> widget \<Rightarrow> widget" where
  "set_status i st s = s\<lparr>wd_statuses := map_set i st (wd_statuses s)\<rparr>"

definition failLayer :: "string \<Rightarrow> string \<Rightarrow> widget \<Rightarrow> widget" where
  "failLayer i error s =
     report (case map_of (wd_statuses s) i of None \<Rightarrow> s
       | Some l \<Rightarrow> set_status i (l\<lparr>ls_status := StatusFailed, ls_error := Some error\<rparr>) s)"

definition say :: "string \<Rightarrow> widget \<Rightarrow> widget" where
  "say m s = s\<lparr>wd_message := Some m\<rparr>"

definition preparation_load :: "preparation \<Rightarrow> layer_load_status" where
  "preparation_load p = (case p of PrepPreparing \<Rightarrow> StatusPreparing | PrepFailed \<Rightarrow> StatusFailed)"

definition is_empty :: "render_layer \<Rightarrow> bool" where
  "is_empty l \<longleftrightarrow> rl_result_status l = Some ''empty_result''"

definition shown_error :: "render_layer \<Rightarrow> string option" where
  "shown_error l = (if truthy (rl_preparation_error l) then rl_preparation_error l else None)"

text \<open>The statuses with which the effect starts.\<close>

definition first_status :: "render_layer \<Rightarrow> layer_status" where
  "first_status l =
     \<lparr>ls_layer_name = rl_layer_name l,
      ls_status = (if \<not> rl_visible l then StatusHidden else if is_empty l then StatusEmptyResult
        else case rl_preparation l of Some p \<Rightarrow> preparation_load p | None \<Rightarrow> StatusLoading),
      ls_error = shown_error l\<rparr>"

definition open_map :: "(string \<times> bool) list \<Rightarrow> (string \<times> string) list \<Rightarrow> render_config \<Rightarrow> widget" where
  "open_map names tokens c =
     report \<lparr>wd_disposed = False, wd_ready = False, wd_config = c, wd_tokens = tokens, wd_names = names,
       wd_statuses = map (\<lambda>l. (rl_id l, first_status l)) (rc_layers c), wd_active = [], wd_next = 0, wd_resolving = [],
       wd_idle = [], wd_renewing = [], wd_errors = [], wd_style = [], wd_sources = [], wd_basemap = None, wd_shown = [],
       wd_awaiting = (rc_camera c = None \<and> combinedBounds (rc_layers c) = None), wd_fits = [], wd_globalError = None,
       wd_lastStatus = None, wd_queue = [], wd_delivered = [], wd_message = None, wd_loading = True\<rparr>"

subsection \<open>The basemap\<close>

definition SATELLITE_SOURCE_ID :: string where "SATELLITE_SOURCE_ID = ''esri-world-imagery''"
definition SATELLITE_LAYER_ID :: string where "SATELLITE_LAYER_ID = ''satellite-base''"

definition isStreetBasemapLayer :: "style_layer \<Rightarrow> bool" where
  "isStreetBasemapLayer l \<longleftrightarrow>
     (if truthy (yl_source l) then the (yl_source l) \<in> {''openmaptiles'', ''openfreemap''} else yl_type l = ''background'')"

definition satellite_base :: style_layer where
  "satellite_base = \<lparr>yl_id = SATELLITE_LAYER_ID, yl_type = ''raster'', yl_source = Some SATELLITE_SOURCE_ID\<rparr>"

definition has_layer :: "string \<Rightarrow> style_layer list \<Rightarrow> bool" where
  "has_layer i st \<longleftrightarrow> i \<in> yl_id ` set st"

text \<open>The satellite layer goes below the first layer; \<open>wd_shown\<close> is the visibility that was set.\<close>

definition configureBasemap :: "basemap_mode \<Rightarrow> widget \<Rightarrow> widget" where
  "configureBasemap b s =
     (let st = (if has_layer SATELLITE_LAYER_ID (wd_style s) then wd_style s else satellite_base # wd_style s);
          shown = foldl (\<lambda>m l. if isStreetBasemapLayer l then map_set (yl_id l) (b = Street) m else m) (wd_shown s) st
      in s\<lparr>wd_style := st, wd_shown := map_set SATELLITE_LAYER_ID (b = Satellite) shown, wd_basemap := Some b\<rparr>)"

subsection \<open>Drawing a layer\<close>

text \<open>\<open>map.addLayer(layer, before)\<close>.\<close>

fun insert_before :: "string \<Rightarrow> style_layer \<Rightarrow> style_layer list \<Rightarrow> style_layer list" where
  "insert_before a l [] = [l]"
| "insert_before a l (x # xs) = (if yl_id x = a then l # x # xs else x # insert_before a l xs)"

definition add_layer :: "string option \<Rightarrow> style_layer list \<Rightarrow> style_layer \<Rightarrow> style_layer list" where
  "add_layer before st l = (case before of None \<Rightarrow> st @ [l] | Some a \<Rightarrow> insert_before a l st)"

definition first_label :: "style_layer list \<Rightarrow> string option" where
  "first_label st = map_option yl_id (List.find (\<lambda>l. yl_type l = ''symbol'') st)"

text \<open>The layers after the one of that id, and the first of their layers that the map has.\<close>

definition later_layers :: "string \<Rightarrow> render_layer list \<Rightarrow> render_layer list" where
  "later_layers i ls = drop 1 (dropWhile (\<lambda>l. rl_id l \<noteq> i) ls)"

definition before_layer :: "string \<Rightarrow> render_layer list \<Rightarrow> style_layer list \<Rightarrow> string option" where
  "before_layer i ls st =
     List.find (\<lambda>r. has_layer r st) (concat (map (\<lambda>l. queryRenderLayerIds (rl_id l)) (later_layers i ls)))"

definition addLayerOverlay :: "render_layer \<Rightarrow> tile_source_spec \<Rightarrow> string option \<Rightarrow> widget \<Rightarrow> widget" where
  "addLayerOverlay l spec before s =
     (let anchor = (case before of Some a \<Rightarrow> Some a | None \<Rightarrow> first_label (wd_style s)) in
      s\<lparr>wd_sources := map_set (rl_id l) spec (wd_sources s),
        wd_style := foldl (add_layer anchor) (wd_style s) (map style_layer.truncate (layersForQuery (rl_id l) l))\<rparr>)"

text \<open>The paint that \<open>updateStyle\<close> sets, now and at the next idle event, is not part of the state.\<close>

definition addReadyLayer :: "render_layer \<Rightarrow> nat \<Rightarrow> tile_source_spec \<Rightarrow> widget \<Rightarrow> widget" where
  "addReadyLayer l g spec s =
     (if wd_disposed s \<or> map_option fst (map_of (wd_active s) (rl_id l)) \<noteq> Some g then s
      else
        (let s1 = addLayerOverlay l spec (before_layer (rl_id l) (rc_layers (wd_config s)) (wd_style s)) s
         in s1\<lparr>wd_idle := wd_idle s1 @ [(rl_id l, g)]\<rparr>))"

subsection \<open>Reconciling the map with its configuration\<close>

definition same_layer :: "render_layer \<Rightarrow> render_layer \<Rightarrow> bool" where
  "same_layer a b \<longleftrightarrow>
     rl_source a = rl_source b \<and> rl_tile_url a = rl_tile_url b \<and> rl_query_token a = rl_query_token b \<and>
     rl_result_status a = rl_result_status b \<and> rl_preparation a = rl_preparation b"

definition kept_layer :: "widget \<Rightarrow> string \<Rightarrow> render_layer \<Rightarrow> bool" where
  "kept_layer s i previous \<longleftrightarrow>
     (case config_layer_named i s of None \<Rightarrow> False | Some next \<Rightarrow> same_layer previous next)"

definition drop_layer :: "string \<Rightarrow> widget \<Rightarrow> widget" where
  "drop_layer i s =
     s\<lparr>wd_style := filter (\<lambda>l. yl_id l \<notin> set (queryRenderLayerIds i)) (wd_style s),
       wd_sources := map_delete i (wd_sources s), wd_active := map_delete i (wd_active s),
       wd_statuses := map_delete i (wd_statuses s)\<rparr>"

definition drop_stale :: "widget \<Rightarrow> widget" where
  "drop_stale s =
     (let s1 = foldl (\<lambda>t (i, g, previous). if kept_layer s i previous then t else drop_layer i t) s (wd_active s)
      in s1\<lparr>wd_statuses := filter (\<lambda>(i, st). config_layer_named i s \<noteq> None) (wd_statuses s1)\<rparr>)"

definition second_status :: "render_layer \<Rightarrow> layer_status" where
  "second_status l =
     \<lparr>ls_layer_name = rl_layer_name l,
      ls_status = (if \<not> rl_visible l then StatusHidden
        else case rl_preparation l of Some p \<Rightarrow> preparation_load p
          | None \<Rightarrow> if is_empty l then StatusEmptyResult else StatusLoading),
      ls_error = shown_error l\<rparr>"

definition query_source_spec :: "string \<Rightarrow> tile_source_spec" where
  "query_source_spec url =
     \<lparr>ss_tiles = [url], ss_minzoom = 0, ss_maxzoom = 22, ss_bounds = None, ss_attribution = None, ss_scheme = None\<rparr>"

text \<open>A layer that stays keeps its resolved source layer and columns.\<close>

definition keep_active :: "render_layer \<Rightarrow> nat \<Rightarrow> render_layer \<Rightarrow> widget \<Rightarrow> widget" where
  "keep_active l g previous s =
     (let l' = l\<lparr>rl_source_layer := rl_source_layer previous, rl_columns := rl_columns previous\<rparr> in
      s\<lparr>wd_config := set_config_layer l' (wd_config s), wd_active := map_set (rl_id l) (g, l') (wd_active s)\<rparr>)"

definition start_layer :: "render_layer \<Rightarrow> widget \<Rightarrow> widget" where
  "start_layer l s =
     (let g = wd_next s;
          s1 = set_status (rl_id l) (second_status l)
            (s\<lparr>wd_active := map_set (rl_id l) (g, l) (wd_active s), wd_next := Suc g\<rparr>)
      in if rl_preparation l \<noteq> None
         then (if rl_preparation l = Some PrepFailed \<and> truthy (rl_preparation_error l)
               then say (rl_layer_name l @ '': '' @ the (rl_preparation_error l)) s1 else s1)
         else if is_empty l then s1
         else if rl_source l \<noteq> None then s1\<lparr>wd_resolving := wd_resolving s1 @ [(rl_id l, g)]\<rparr>
         else if truthy (rl_tile_url l) then addReadyLayer l g (query_source_spec (the (rl_tile_url l))) s1
         else s1)"

definition reconcile_layer :: "widget \<Rightarrow> string \<Rightarrow> widget" where
  "reconcile_layer s i =
     (case config_layer_named i s of None \<Rightarrow> s
      | Some l \<Rightarrow>
          (case map_of (wd_active s) i of
             Some (g, previous) \<Rightarrow> keep_active l g previous s
           | None \<Rightarrow> start_layer l s))"

text \<open>\<open>initializeQueryLayers\<close>; the operations of MapLibre do not throw.\<close>

definition fit_initial_bounds :: "widget \<Rightarrow> widget" where
  "fit_initial_bounds s =
     (case (if wd_awaiting s then combinedBounds (rc_layers (wd_config s)) else None) of
        None \<Rightarrow> s | Some b \<Rightarrow> s\<lparr>wd_fits := wd_fits s @ [b], wd_awaiting := False\<rparr>)"

definition initializeQueryLayers :: "widget \<Rightarrow> widget" where
  "initializeQueryLayers s =
     (if wd_disposed s then s
      else
        (let s1 = fit_initial_bounds s;
             s2 = (if wd_basemap s1 = None then configureBasemap (rc_basemap (wd_config s1)) s1 else s1);
             s3 = drop_stale s2;
             s4 = foldl reconcile_layer s3 (map rl_id (rc_layers (wd_config s3)))
         in (report s4)\<lparr>wd_loading := False\<rparr>))"

text \<open>\<open>style.load\<close> with the layers of the style.\<close>

definition on_style_load :: "style_layer list \<Rightarrow> widget \<Rightarrow> widget" where
  "on_style_load base s =
     (if wd_ready s then s else initializeQueryLayers (s\<lparr>wd_ready := True, wd_style := base\<rparr>))"

text \<open>
  A new configuration of the same life cycle: the visibility that the user set stays with the name of a layer,
  and a changed basemap is taken over once the map has its satellite layer.
\<close>

definition apply_names :: "(string \<times> bool) list \<Rightarrow> render_config \<Rightarrow> render_config" where
  "apply_names names c =
     c\<lparr>rc_layers := map (\<lambda>l. l\<lparr>rl_visible := with_default (rl_visible l) (map_of names (rl_layer_name l))\<rparr>) (rc_layers c)\<rparr>"

definition configure :: "(string \<times> string) list \<Rightarrow> render_config \<Rightarrow> widget \<Rightarrow> widget" where
  "configure tokens c s =
     (let names = filter (\<lambda>(n, v). n \<in> rl_layer_name ` set (rc_layers c)) (wd_names s);
          s1 = s\<lparr>wd_config := apply_names names c, wd_names := names, wd_tokens := tokens\<rparr>;
          s2 = (if rc_basemap (wd_config s) \<noteq> rc_basemap c \<and> wd_basemap s \<noteq> None then configureBasemap (rc_basemap c) s1
                else s1)
      in if wd_ready s2 then initializeQueryLayers s2 else s2)"

subsection \<open>Events\<close>

text \<open>\<open>render\<close> and \<open>idle\<close>: \<open>loaded\<close> are the sources whose tiles have arrived.\<close>

definition loaded_status :: "(string \<Rightarrow> bool) \<Rightarrow> widget \<Rightarrow> string \<times> layer_status \<Rightarrow> string \<times> layer_status" where
  "loaded_status loaded s e =
     (if ls_status (snd e) \<noteq> StatusLoading \<or> fst e \<in> set (wd_renewing s) then e
      else if fst e \<in> fst ` set (wd_sources s) \<and> loaded (fst e) then (fst e, (snd e)\<lparr>ls_status := StatusLoaded\<rparr>)
      else e)"

definition reportLoadedSources :: "(string \<Rightarrow> bool) \<Rightarrow> widget \<Rightarrow> widget" where
  "reportLoadedSources loaded s =
     (if wd_disposed s then s else report (s\<lparr>wd_statuses := map (loaded_status loaded s) (wd_statuses s)\<rparr>))"

definition on_idle :: "(string \<Rightarrow> bool) \<Rightarrow> widget \<Rightarrow> widget" where
  "on_idle loaded s = (reportLoadedSources loaded s)\<lparr>wd_idle := []\<rparr>"

definition on_sourcedataloading :: "string \<Rightarrow> widget \<Rightarrow> widget" where
  "on_sourcedataloading sourceId s =
     report (s\<lparr>wd_statuses := map (\<lambda>(i, st). (i, if querySourceId i = sourceId \<and> ls_status st = StatusLoaded
         then st\<lparr>ls_status := StatusLoading\<rparr> else st)) (wd_statuses s)\<rparr>)"

definition SOURCE_METADATA_FAILED :: string where
  "SOURCE_METADATA_FAILED = ''source_metadata_failed: verify the tile URL is reachable, allows cross-origin requests, and names a valid vector layer.''"

text \<open>The answer of \<open>resolveTileSource\<close> for the layer object \<open>(i, g)\<close>; the left is the message of the error.\<close>

definition on_resolved :: "string \<times> nat \<Rightarrow> string + resolved_source \<Rightarrow> widget \<Rightarrow> widget" where
  "on_resolved k r s =
     (if k \<notin> set (wd_resolving s) then s
      else
        (let s1 = s\<lparr>wd_resolving := removeAll k (wd_resolving s)\<rparr>; i = fst k; g = snd k in
         case map_of (wd_active s1) i of
           None \<Rightarrow> s1
         | Some (g', l) \<Rightarrow>
             if wd_disposed s1 \<or> g' \<noteq> g then s1
             else (case r of
               Inl m \<Rightarrow> say (rl_layer_name l @ '': '' @ m) (failLayer i SOURCE_METADATA_FAILED s1)
             | Inr x \<Rightarrow>
                 (let layer = re_sourceLayer x; columns = re_columns x;
                      visible = (case config_layer_named i s1 of None \<Rightarrow> rl_visible l | Some c \<Rightarrow> rl_visible c);
                      l' = l\<lparr>rl_source_layer := layer, rl_columns := columns, rl_visible := visible\<rparr>;
                      conf = (case config_layer_named i s1 of None \<Rightarrow> wd_config s1
                        | Some c \<Rightarrow> set_config_layer (c\<lparr>rl_source_layer := layer, rl_columns := columns\<rparr>) (wd_config s1))
                  in addReadyLayer l' g (re_source x)
                       (s1\<lparr>wd_active := map_set i (g, l') (wd_active s1), wd_config := conf\<rparr>)))))"

text \<open>
  An error of MapLibre: the layer of its source is found at once, the details come later. The details are the message,
  the code of the tile server and, for a failed request, the HTTP status.
\<close>

record error_details =
  ed_message :: string
  ed_code :: "string option"
  ed_http_status :: "nat option"

definition on_map_error :: "string option \<Rightarrow> widget \<Rightarrow> widget" where
  "on_map_error sourceId s =
     (if wd_disposed s then s
      else s\<lparr>wd_errors := wd_errors s @ [(wd_next s, List.find (\<lambda>l. Some (querySourceId (rl_id l)) = sourceId) (rc_layers (wd_config s)))],
             wd_next := Suc (wd_next s)\<rparr>)"

text \<open>
  The error of an event: the answer of a failed request, with its status and body (\<open>None\<close> when it cannot be read), another
  \<open>Error\<close>, or neither.
\<close>

datatype map_failure = RequestFailed string nat "string option" | OtherError string | NotAnError

definition TileErrorSchema :: "json \<Rightarrow> (string \<times> string) option" where
  "TileErrorSchema j =
     do {
       ms \<leftarrow> strict [''code'', ''message''] j;
       code \<leftarrow> req ms ''code'' j_text;
       message \<leftarrow> req ms ''message'' j_text;
       Some (code, message)
     }"

definition plain_message :: "string \<Rightarrow> string" where
  "plain_message m =
     (if str_includes (toLowerCase m) ''dense'' then ''This tile is too dense. Filter, aggregate, or zoom in.'' else m)"

definition mapErrorDetails :: "map_failure \<Rightarrow> error_details" where
  "mapErrorDetails f =
     (case f of
        RequestFailed m status body \<Rightarrow>
          (case Option.bind (Option.bind body json_parse) TileErrorSchema of
             Some (code, message) \<Rightarrow>
               \<lparr>ed_message = message @ '' ('' @ code @ '')'', ed_code = Some code, ed_http_status = Some status\<rparr>
           | None \<Rightarrow> \<lparr>ed_message = plain_message m, ed_code = None, ed_http_status = Some status\<rparr>)
      | OtherError m \<Rightarrow> \<lparr>ed_message = plain_message m, ed_code = None, ed_http_status = None\<rparr>
      | NotAnError \<Rightarrow> \<lparr>ed_message = ''Map rendering is unavailable.'', ed_code = None, ed_http_status = None\<rparr>)"

definition error_suffix :: "error_details \<Rightarrow> string" where
  "error_suffix d = (case ed_http_status d of None \<Rightarrow> [] | Some n \<Rightarrow> '' HTTP status '' @ show_nat n @ ''.'')"

definition report_error :: "render_layer option \<Rightarrow> error_details \<Rightarrow> widget \<Rightarrow> widget" where
  "report_error layer d s =
     (let s1 = (case layer of
          Some l \<Rightarrow> failLayer (rl_id l) (''tile_load_failed:'' @ error_suffix d @
            '' Check tile access, CORS, query expiry, or server errors. Other layers may still load.'') s
        | None \<Rightarrow> report (s\<lparr>wd_globalError := Some (''map_resource_failed:'' @ error_suffix d @
            '' Check basemap, worker, and network access.'')\<rparr>))
      in say (ed_message d) (s1\<lparr>wd_loading := False\<rparr>))"

text \<open>The layer with the token that failed, when the error says that a query token has expired; the widget passes \<open>onTokenExpired\<close>.\<close>

definition expired_token :: "render_layer option \<Rightarrow> error_details \<Rightarrow> (render_layer \<times> string \<times> string) option" where
  "expired_token layer d =
     (case layer of None \<Rightarrow> None
      | Some l \<Rightarrow>
          if ed_code d = Some ''query_token_expired'' \<and> truthy (rl_query_id l) \<and> truthy (rl_query_token l)
          then Some (l, the (rl_query_id l), the (rl_query_token l)) else None)"

text \<open>\<open>visible\<close> is the member \<open>visible\<close> of the layer's object by the time the details are read; the user may have changed it.\<close>

definition handleError :: "nat \<Rightarrow> bool \<Rightarrow> error_details \<Rightarrow> widget \<Rightarrow> widget" where
  "handleError k visible d s =
     (case map_of (wd_errors s) k of
        None \<Rightarrow> s
      | Some layer \<Rightarrow>
          (let s1 = s\<lparr>wd_errors := map_delete k (wd_errors s)\<rparr> in
           if wd_disposed s1 then s1
           else (case expired_token layer d of
             None \<Rightarrow> report_error layer d s1
           | Some (l, queryId, token) \<Rightarrow>
               if map_of (wd_tokens s1) queryId \<noteq> Some token \<or> rl_id l \<in> set (wd_renewing s1) then s1
               else report (set_status (rl_id l)
                 \<lparr>ls_layer_name = rl_layer_name l,
                  ls_status = (if visible then StatusLoading else StatusHidden), ls_error = None\<rparr>
                 (s1\<lparr>wd_renewing := wd_renewing s1 @ [rl_id l]\<rparr>)))))"

definition RENEWAL_FAILED :: string where
  "RENEWAL_FAILED = ''Could not renew the expired query token. Reopen the map to retry.''"

text \<open>The end of a renewal.\<close>

definition on_renewed :: "string \<Rightarrow> bool \<Rightarrow> widget \<Rightarrow> widget" where
  "on_renewed i ok s =
     (if i \<notin> set (wd_renewing s) then s
      else
        (let s1 = (if ok \<or> wd_disposed s then s
             else say RENEWAL_FAILED (failLayer i (''query_token_refresh_failed: '' @ RENEWAL_FAILED) s))
         in s1\<lparr>wd_renewing := removeAll i (wd_renewing s1)\<rparr>))"

text \<open>The user shows or hides a layer.\<close>

definition toggled_status :: "widget \<Rightarrow> string \<Rightarrow> bool \<Rightarrow> layer_status \<Rightarrow> layer_status" where
  "toggled_status s i visible st =
     \<lparr>ls_layer_name = ls_layer_name st,
      ls_status = (let c = config_layer_named i s in
        if \<not> visible then StatusHidden
        else if (case c of None \<Rightarrow> False | Some l \<Rightarrow> is_empty l) then StatusEmptyResult
        else case Option.bind c rl_preparation of Some p \<Rightarrow> preparation_load p
          | None \<Rightarrow> if truthy (ls_error st) then StatusFailed else StatusLoading),
      ls_error = (if truthy (ls_error st) then ls_error st else None)\<rparr>"

definition changeLayerVisibility :: "string \<Rightarrow> bool \<Rightarrow> widget \<Rightarrow> widget" where
  "changeLayerVisibility i visible s =
     (let s1 = (if wd_disposed s then s
          else report (case map_of (wd_statuses s) i of None \<Rightarrow> s | Some st \<Rightarrow> set_status i (toggled_status s i visible st) s))
      in case config_layer_named i s1 of
           None \<Rightarrow> s1
         | Some l \<Rightarrow> s1\<lparr>wd_config := set_config_layer (l\<lparr>rl_visible := visible\<rparr>) (wd_config s1),
             wd_names := map_set (rl_layer_name l) visible (wd_names s1)\<rparr>)"

text \<open>The user chooses a basemap; before the style is there the map refuses it.\<close>

definition changeBasemap :: "basemap_mode \<Rightarrow> widget \<Rightarrow> widget" where
  "changeBasemap b s = (if wd_disposed s \<or> \<not> wd_ready s then s else configureBasemap b s)"

definition dispose :: "widget \<Rightarrow> widget" where
  "dispose s = s\<lparr>wd_disposed := True\<rparr>"

datatype widget_event =
    StyleLoad "style_layer list"
  | Configure "(string \<times> string) list" render_config
  | Rendered "string \<Rightarrow> bool"
  | Idle "string \<Rightarrow> bool"
  | SourceDataLoading string
  | Resolved string nat "string + resolved_source"
  | MapError "string option"
  | ErrorRead nat bool map_failure
  | Renewed string bool
  | Toggle string bool
  | ChangeBasemap basemap_mode
  | Deliver
  | Dispose

fun widget_step :: "widget_event \<Rightarrow> widget \<Rightarrow> widget" where
  "widget_step (StyleLoad base) s = on_style_load base s"
| "widget_step (Configure tokens c) s = configure tokens c s"
| "widget_step (Rendered loaded) s = reportLoadedSources loaded s"
| "widget_step (Idle loaded) s = on_idle loaded s"
| "widget_step (SourceDataLoading sourceId) s = on_sourcedataloading sourceId s"
| "widget_step (Resolved i g r) s = on_resolved (i, g) r s"
| "widget_step (MapError sourceId) s = on_map_error sourceId s"
| "widget_step (ErrorRead k visible f) s = handleError k visible (mapErrorDetails f) s"
| "widget_step (Renewed i ok) s = on_renewed i ok s"
| "widget_step (Toggle i visible) s = changeLayerVisibility i visible s"
| "widget_step (ChangeBasemap b) s = changeBasemap b s"
| "widget_step Deliver s = deliver s"
| "widget_step Dispose s = dispose s"

end
