(* ===== verification/WidgetLayout.thy ===== *)
theory WidgetLayout
  imports WidgetMap
begin

text \<open>
  What holds in every run of the widget's map (\<open>dataset-mcp/ui/src/components/MapView.tsx\<close>): the overlays of its layers
  are drawn in the order of the configuration and below the labels, whatever the order of the events.
\<close>

section \<open>The overlays of the map\<close>

lemma render_ids_disjoint:
  assumes "i \<noteq> j" shows "set (queryRenderLayerIds i) \<inter> set (queryRenderLayerIds j) = {}"
proof -
  have "querySourceId a @ ''-polygons'' \<noteq> querySourceId b @ ''-lines''" "querySourceId a @ ''-polygons'' \<noteq> querySourceId b @ ''-points''"
    "querySourceId a @ ''-lines'' \<noteq> querySourceId b @ ''-points''" for a b
    by (auto dest!: arg_cong [where f = "\<lambda>s. take 3 (rev s)"])
  moreover have "querySourceId a \<noteq> querySourceId b" if "a \<noteq> b" for a b using that by (simp add: querySourceId_def)
  ultimately show ?thesis using assms by (auto simp: queryRenderLayerIds_def)
qed

lemma render_ids_distinct: "distinct (queryRenderLayerIds i)"
  by (auto simp: queryRenderLayerIds_def)

lemma concat_render_ids_distinct: "distinct is \<Longrightarrow> distinct (concat (map queryRenderLayerIds is))"
proof (induction "is")
  case (Cons i js)
  have "set (queryRenderLayerIds i) \<inter> set (queryRenderLayerIds j) = {}" if "j \<in> set js" for j
    using Cons.prems that by (intro render_ids_disjoint) auto
  then have "set (queryRenderLayerIds i) \<inter> (\<Union>j\<in>set js. set (queryRenderLayerIds j)) = {}" by blast
  then show ?case using Cons by (simp add: render_ids_distinct)
qed simp

definition is_overlay :: "style_layer \<Rightarrow> bool" where
  "is_overlay l \<longleftrightarrow> startsWith (yl_id l) ''hifld-query-''"

definition is_label :: "style_layer \<Rightarrow> bool" where
  "is_label l \<longleftrightarrow> yl_type l = ''symbol''"

definition overlay_ids :: "style_layer list \<Rightarrow> string list" where
  "overlay_ids st = map yl_id (filter is_overlay st)"

text \<open>No overlay lies above a label.\<close>

fun labels_above :: "style_layer list \<Rightarrow> bool" where
  "labels_above [] \<longleftrightarrow> True"
| "labels_above (x # xs) \<longleftrightarrow> (is_label x \<longrightarrow> list_all (\<lambda>y. \<not> is_overlay y) (x # xs)) \<and> labels_above xs"

lemma render_id_overlay: "yl_id l \<in> set (queryRenderLayerIds i) \<Longrightarrow> is_overlay l"
  by (auto simp: is_overlay_def queryRenderLayerIds_def querySourceId_def startsWith_def)

lemma set_insert_before: "set (insert_before a l st) = insert l (set st)"
  by (induction st) auto

lemma distinct_insert_before:
  "distinct (map yl_id (insert_before a l st)) \<longleftrightarrow> yl_id l \<notin> yl_id ` set st \<and> distinct (map yl_id st)"
  by (induction st) (auto simp: set_insert_before)

lemma set_add_layer: "set (add_layer a st l) = insert l (set st)"
  by (cases a) (auto simp: add_layer_def set_insert_before)

lemma distinct_add_layer:
  "distinct (map yl_id (add_layer a st l)) \<longleftrightarrow> yl_id l \<notin> yl_id ` set st \<and> distinct (map yl_id st)"
  by (cases a) (auto simp: add_layer_def distinct_insert_before)

text \<open>
  A place for the next overlay: below the overlay \<open>a\<close>, or below the first label, or on top when there is no label.
  \<open>lower\<close> and \<open>upper\<close> are the overlays below and above that place.
\<close>

definition place_ok :: "string option \<Rightarrow> string list \<Rightarrow> string list \<Rightarrow> style_layer list \<Rightarrow> bool" where
  "place_ok anchor lower upper st \<longleftrightarrow>
     overlay_ids st = lower @ upper \<and> distinct (map yl_id st) \<and> labels_above st \<and>
     (case upper of a # u \<Rightarrow> anchor = Some a | [] \<Rightarrow> anchor = first_label st)"

lemma labels_above_insert_overlay:
  assumes "labels_above st" and "a \<in> set (overlay_ids st)" and "distinct (map yl_id st)" and "\<not> is_label l" "is_overlay l"
  shows "labels_above (insert_before a l st) \<and>
     (\<exists>lower upper. overlay_ids st = lower @ a # upper \<and> overlay_ids (insert_before a l st) = lower @ yl_id l # a # upper)"
  using assms
proof (induction st)
  case (Cons x xs)
  show ?case
  proof (cases "yl_id x = a")
    case True
    have "is_overlay x"
      using Cons.prems(2,3) True by (force simp: overlay_ids_def)
    then show ?thesis using Cons.prems True by (auto simp: overlay_ids_def)
  next
    case False
    then have a: "a \<in> set (overlay_ids xs)" using Cons.prems(2) by (auto simp: overlay_ids_def split: if_splits)
    then have "\<not> is_label x" using Cons.prems(1) by (auto simp: overlay_ids_def list_all_iff)
    moreover obtain lower upper where "overlay_ids xs = lower @ a # upper"
        "overlay_ids (insert_before a l xs) = lower @ yl_id l # a # upper" and "labels_above (insert_before a l xs)"
      using Cons.IH a Cons.prems by auto
    ultimately show ?thesis using False
      by (cases "is_overlay x") (auto simp: overlay_ids_def intro: exI [of _ "yl_id x # lower"])
  qed
qed (simp add: overlay_ids_def)

lemma labels_above_insert_label:
  assumes "labels_above st" and "first_label st = Some a" and "distinct (map yl_id st)" and "\<not> is_label l" "is_overlay l"
  shows "labels_above (insert_before a l st) \<and> overlay_ids (insert_before a l st) = overlay_ids st @ [yl_id l] \<and>
     first_label (insert_before a l st) = Some a"
  using assms
proof (induction st)
  case (Cons x xs)
  show ?case
  proof (cases "is_label x")
    case True
    then have "yl_id x = a" "\<not> is_overlay x" "filter is_overlay xs = []" using Cons.prems(1,2)
      by (auto simp: first_label_def is_label_def list_all_iff filter_empty_conv)
    then show ?thesis using Cons.prems True by (simp add: overlay_ids_def first_label_def is_label_def)
  next
    case False
    then have "first_label xs = Some a" using Cons.prems(2) by (auto simp: first_label_def is_label_def)
    moreover from this have "yl_id x \<noteq> a" using Cons.prems(3) by (auto simp: first_label_def find_Some_iff)
    ultimately show ?thesis using Cons.IH Cons.prems False by (auto simp: overlay_ids_def first_label_def is_label_def)
  qed
qed (simp add: first_label_def)

lemma first_label_None: "first_label st = None \<longleftrightarrow> list_all (\<lambda>l. \<not> is_label l) st"
  by (auto simp: first_label_def find_None_iff is_label_def list_all_iff)

lemma labels_above_top:
  "list_all (\<lambda>l. \<not> is_label l) st \<Longrightarrow> \<not> is_label l \<Longrightarrow> labels_above (st @ [l])"
  by (induction st) auto

lemma add_at_place:
  assumes "place_ok anchor lower upper st" and "\<not> is_label l" "is_overlay l" and "yl_id l \<notin> yl_id ` set st"
  shows "place_ok anchor (lower @ [yl_id l]) upper (add_layer anchor st l)"
proof -
  note st = assms(1) [unfolded place_ok_def]
  have dist: "distinct (map yl_id (add_layer anchor st l))" using st assms(4) by (simp add: distinct_add_layer)
  show ?thesis
  proof (cases upper)
    case (Cons a u)
    then have anchor: "anchor = Some a" and ids: "overlay_ids st = lower @ a # u" using st by auto
    then have "a \<in> set (overlay_ids st)" by simp
    then obtain lower' u' where r: "labels_above (insert_before a l st)" "overlay_ids st = lower' @ a # u'"
        "overlay_ids (insert_before a l st) = lower' @ yl_id l # a # u'"
      using labels_above_insert_overlay [of st a l] st assms(2,3) by blast
    have "distinct (overlay_ids st)" unfolding overlay_ids_def using st by (intro distinct_map_filter) simp
    then have "lower' = lower" "u' = u" using ids r(2) append_Cons_eq_iff [of a lower u lower' u'] by auto
    then show ?thesis using r dist by (simp add: place_ok_def add_layer_def anchor Cons)
  next
    case Nil
    then have ids: "overlay_ids st = lower" and anchor: "anchor = first_label st" using st by auto
    show ?thesis
    proof (cases anchor)
      case None
      then have "list_all (\<lambda>l. \<not> is_label l) st" using anchor first_label_None by metis
      moreover from this have "first_label (st @ [l]) = None" using assms(2) by (simp add: first_label_None)
      ultimately show ?thesis using dist ids assms(2,3) labels_above_top
        by (simp add: place_ok_def Nil None add_layer_def overlay_ids_def)
    next
      case (Some a)
      then show ?thesis using labels_above_insert_label [of st a l] dist ids anchor st assms(2,3)
        by (simp add: place_ok_def Nil add_layer_def)
    qed
  qed
qed

lemma add_all_at_place:
  assumes "place_ok anchor lower upper st" and "list_all (\<lambda>l. \<not> is_label l \<and> is_overlay l) ls"
    and "distinct (map yl_id ls)" and "yl_id ` set ls \<inter> yl_id ` set st = {}"
  shows "place_ok anchor (lower @ map yl_id ls) upper (foldl (add_layer anchor) st ls)"
  using assms
proof (induction ls arbitrary: lower st)
  case (Cons l ls)
  have "place_ok anchor (lower @ [yl_id l]) upper (add_layer anchor st l)"
    using Cons.prems by (intro add_at_place) auto
  then show ?case
    using Cons.IH [of "lower @ [yl_id l]" "add_layer anchor st l"] Cons.prems by (auto simp: set_add_layer)
qed simp

lemma overlay_parts:
  "map yl_id (map style_layer.truncate (layersForQuery i l)) = queryRenderLayerIds i"
  "list_all (\<lambda>x. \<not> is_label x \<and> is_overlay x) (map style_layer.truncate (layersForQuery i l))"
  by (simp_all add: layersForQuery_def overlay_def Let_def style_layer.truncate_def queryRenderLayerIds_def
      is_label_def is_overlay_def querySourceId_def startsWith_def)

section \<open>The layout invariant\<close>

definition layer_ids :: "widget \<Rightarrow> string list" where
  "layer_ids s = map rl_id (rc_layers (wd_config s))"

definition source_ids :: "widget \<Rightarrow> string set" where
  "source_ids s = fst ` set (wd_sources s)"

definition drawn :: "widget \<Rightarrow> string list" where
  "drawn s = filter (\<lambda>i. i \<in> source_ids s) (layer_ids s)"

text \<open>
  The layers that have a source are drawn in the order of the configuration, below the labels; every layer that has a source or
  is being resolved is active, and a layer that is being resolved is not drawn yet.
\<close>

definition generation :: "widget \<Rightarrow> string \<Rightarrow> nat option" where
  "generation s i = map_option fst (map_of (wd_active s) i)"

definition resolving_ok :: "widget \<Rightarrow> bool" where
  "resolving_ok s \<longleftrightarrow>
     list_all (\<lambda>(i, g). g < wd_next s \<and> (i \<in> source_ids s \<longrightarrow> generation s i \<noteq> Some g)) (wd_resolving s)"

definition layout_ok :: "widget \<Rightarrow> bool" where
  "layout_ok s \<longleftrightarrow>
     distinct (layer_ids s) \<and> distinct (map yl_id (wd_style s)) \<and> labels_above (wd_style s) \<and>
     overlay_ids (wd_style s) = concat (map queryRenderLayerIds (drawn s)) \<and>
     source_ids s \<subseteq> fst ` set (wd_active s) \<and> fst ` set (wd_active s) \<subseteq> set (layer_ids s) \<and>
     distinct (map fst (wd_active s)) \<and>
     list_all (\<lambda>(i, g, l). rl_id l = i \<and> g < wd_next s) (wd_active s) \<and> resolving_ok s"

lemma has_overlay_iff:
  assumes "layout_ok s" and "r \<in> set (queryRenderLayerIds i)" "i \<in> set (layer_ids s)"
  shows "has_layer r (wd_style s) \<longleftrightarrow> i \<in> source_ids s"
proof -
  have "has_layer r (wd_style s) \<longleftrightarrow> r \<in> set (overlay_ids (wd_style s))"
    using render_id_overlay assms(2) by (fastforce simp: has_layer_def overlay_ids_def)
  also have "\<dots> \<longleftrightarrow> (\<exists>j \<in> set (drawn s). r \<in> set (queryRenderLayerIds j))"
    using assms(1) by (simp add: layout_ok_def)
  also have "\<dots> \<longleftrightarrow> i \<in> set (drawn s)"
    using render_ids_disjoint [of i] assms(2) by (metis disjoint_iff)
  finally show ?thesis using assms(3) by (simp add: drawn_def)
qed

definition resolving_fresh :: "string \<Rightarrow> widget \<Rightarrow> bool" where
  "resolving_fresh i s \<longleftrightarrow> list_all (\<lambda>(j, g). j = i \<longrightarrow> generation s i \<noteq> Some g) (wd_resolving s)"

lemma later_ids:
  assumes "map rl_id ls = pre @ i # post" and "i \<notin> set pre"
  shows "map rl_id (later_layers i ls) = post"
proof -
  obtain as b cs where ls: "ls = as @ b # cs" "map rl_id as = pre" "rl_id b = i" "map rl_id cs = post"
    using assms(1) by (auto simp: map_eq_append_conv map_eq_Cons_conv)
  then have "\<forall>a \<in> set as. rl_id a \<noteq> i" using assms(2) by (metis image_eqI set_map)
  then have "dropWhile (\<lambda>l. rl_id l \<noteq> i) ls = b # cs" using ls(3) by (simp add: ls(1) dropWhile_append2)
  then show ?thesis by (simp add: later_layers_def ls(4))
qed

lemma find_render_id:
  assumes "\<And>j r. j \<in> set post \<Longrightarrow> r \<in> set (queryRenderLayerIds j) \<Longrightarrow> P r \<longleftrightarrow> j \<in> S"
  shows "List.find P (concat (map queryRenderLayerIds post)) =
     (case concat (map queryRenderLayerIds (filter (\<lambda>j. j \<in> S) post)) of [] \<Rightarrow> None | a # u \<Rightarrow> Some a)"
  using assms
proof (induction post)
  case (Cons j post)
  have "\<And>r. r \<in> set (queryRenderLayerIds j) \<Longrightarrow> P r \<longleftrightarrow> j \<in> S" using Cons.prems by simp
  then show ?case using Cons by (cases "j \<in> S") (simp_all add: queryRenderLayerIds_def)
qed simp

lemma addLayerOverlay_ok:
  assumes "layout_ok s" and "i \<in> fst ` set (wd_active s)" and "i \<notin> source_ids s" and "rl_id l = i" and "resolving_fresh i s"
  shows "layout_ok (addLayerOverlay l spec (before_layer i (rc_layers (wd_config s)) (wd_style s)) s)"
proof -
  note ok = assms(1) [unfolded layout_ok_def]
  let ?S = "source_ids s" and ?st = "wd_style s"
  let ?before = "before_layer i (rc_layers (wd_config s)) ?st"
  let ?anchor = "case ?before of Some a \<Rightarrow> Some a | None \<Rightarrow> first_label ?st"
  let ?new = "map style_layer.truncate (layersForQuery i l)"
  let ?t = "addLayerOverlay l spec ?before s"
  have i: "i \<in> set (layer_ids s)" using ok assms(2) by auto
  then obtain pre post where ids: "layer_ids s = pre @ i # post" by (auto dest: split_list)
  with ok have fresh: "i \<notin> set pre" "i \<notin> set post" by auto
  let ?part = "\<lambda>js. concat (map queryRenderLayerIds (filter (\<lambda>j. j \<in> ?S) js))"
  have post: "map rl_id (later_layers i (rc_layers (wd_config s))) = post"
    using later_ids ids fresh(1) by (simp add: layer_ids_def)
  have "?before = List.find (\<lambda>r. has_layer r ?st) (concat (map queryRenderLayerIds post))"
    unfolding post [symmetric] by (simp add: before_layer_def comp_def)
  also have "\<dots> = (case ?part post of [] \<Rightarrow> None | a # u \<Rightarrow> Some a)"
    using has_overlay_iff [OF assms(1)] ids by (intro find_render_id) auto
  finally have before: "?before = (case ?part post of [] \<Rightarrow> None | a # u \<Rightarrow> Some a)" .
  have "overlay_ids ?st = ?part pre @ ?part post" using ok ids assms(3) by (simp add: drawn_def)
  then have "place_ok ?anchor (?part pre) (?part post) ?st"
    using ok before by (cases "?part post") (simp_all add: place_ok_def del: concat_eq_Nil_conv)
  moreover have "yl_id ` set ?new \<inter> yl_id ` set ?st = {}"
  proof -
    have "yl_id ` set ?new = set (queryRenderLayerIds i)" using overlay_parts(1) [of i l] by (metis set_map)
    then show ?thesis using has_overlay_iff [OF assms(1) _ i] assms(3) by (auto simp: has_layer_def)
  qed
  moreover have "distinct (map yl_id ?new)" unfolding overlay_parts(1) by (rule render_ids_distinct)
  ultimately have "place_ok ?anchor (?part pre @ queryRenderLayerIds i) (?part post) (foldl (add_layer ?anchor) ?st ?new)"
    using add_all_at_place [OF _ overlay_parts(2)] overlay_parts(1) [of i l] by metis
  moreover have t: "wd_style ?t = foldl (add_layer ?anchor) ?st ?new" "source_ids ?t = insert i ?S"
      "layer_ids ?t = layer_ids s" "wd_active ?t = wd_active s" "wd_next ?t = wd_next s" "wd_resolving ?t = wd_resolving s"
    using assms(4) by (simp_all add: addLayerOverlay_def Let_def source_ids_def layer_ids_def set_keys_map_set)
  moreover have "drawn ?t = filter (\<lambda>j. j \<in> ?S) pre @ i # filter (\<lambda>j. j \<in> ?S) post"
  proof -
    have "filter (\<lambda>j. j = i \<or> j \<in> ?S) js = filter (\<lambda>j. j \<in> ?S) js" if "i \<notin> set js" for js
      using that by (intro filter_cong) auto
    then show ?thesis using fresh by (simp add: drawn_def t ids)
  qed
  ultimately show ?thesis
    using ok assms(2,5)
    by (auto simp: layout_ok_def place_ok_def resolving_fresh_def resolving_ok_def generation_def list_all_iff)
qed

text \<open>What the reports, messages and statuses leave alone.\<close>

definition layout :: "widget \<Rightarrow> string list \<times> (string \<times> nat \<times> render_layer) list \<times> nat \<times> (string \<times> nat) list \<times>
  style_layer list \<times> (string \<times> tile_source_spec) list" where
  "layout s = (layer_ids s, wd_active s, wd_next s, wd_resolving s, wd_style s, wd_sources s)"

lemma layout_ok_cong: "layout s = layout t \<Longrightarrow> layout_ok s = layout_ok t"
  by (simp add: layout_def layout_ok_def drawn_def source_ids_def resolving_ok_def generation_def)

lemma report_frame [simp]:
  "layout (report s) = layout s" "wd_ready (report s) = wd_ready s" "wd_disposed (report s) = wd_disposed s"
  "wd_statuses (report s) = wd_statuses s" "wd_config (report s) = wd_config s" "wd_tokens (report s) = wd_tokens s"
  "wd_active (report s) = wd_active s" "wd_sources (report s) = wd_sources s" "wd_resolving (report s) = wd_resolving s"
  "wd_renewing (report s) = wd_renewing s" "wd_errors (report s) = wd_errors s" "wd_style (report s) = wd_style s"
  "wd_basemap (report s) = wd_basemap s" "wd_next (report s) = wd_next s" "wd_globalError (report s) = wd_globalError s"
  by (simp_all add: report_def layout_def layer_ids_def)

lemma set_status_frame [simp]:
  "layout (set_status i st s) = layout s" "wd_ready (set_status i st s) = wd_ready s"
  "wd_disposed (set_status i st s) = wd_disposed s" "wd_config (set_status i st s) = wd_config s"
  "wd_tokens (set_status i st s) = wd_tokens s" "wd_active (set_status i st s) = wd_active s"
  "wd_sources (set_status i st s) = wd_sources s" "wd_resolving (set_status i st s) = wd_resolving s"
  "wd_renewing (set_status i st s) = wd_renewing s" "wd_errors (set_status i st s) = wd_errors s"
  "wd_statuses (set_status i st s) = map_set i st (wd_statuses s)"
  by (simp_all add: set_status_def layout_def layer_ids_def)

lemma failLayer_frame [simp]:
  "layout (failLayer i e s) = layout s" "wd_ready (failLayer i e s) = wd_ready s"
  "wd_disposed (failLayer i e s) = wd_disposed s" "wd_config (failLayer i e s) = wd_config s"
  "wd_tokens (failLayer i e s) = wd_tokens s" "wd_active (failLayer i e s) = wd_active s"
  "wd_sources (failLayer i e s) = wd_sources s" "wd_resolving (failLayer i e s) = wd_resolving s"
  "wd_renewing (failLayer i e s) = wd_renewing s" "wd_errors (failLayer i e s) = wd_errors s"
  by (simp_all add: failLayer_def split: option.split)

lemma say_frame [simp]:
  "layout (say m s) = layout s" "wd_ready (say m s) = wd_ready s" "wd_disposed (say m s) = wd_disposed s"
  "wd_statuses (say m s) = wd_statuses s" "wd_config (say m s) = wd_config s" "wd_tokens (say m s) = wd_tokens s"
  "wd_active (say m s) = wd_active s" "wd_sources (say m s) = wd_sources s" "wd_resolving (say m s) = wd_resolving s"
  "wd_renewing (say m s) = wd_renewing s" "wd_errors (say m s) = wd_errors s"
  by (simp_all add: say_def layout_def layer_ids_def)

lemma set_config_layer_ids [simp]: "map rl_id (rc_layers (set_config_layer l c)) = map rl_id (rc_layers c)"
  by (simp add: set_config_layer_def)

lemma configureBasemap_ok:
  assumes "layout_ok s" shows "layout_ok (configureBasemap b s)"
proof -
  have "\<not> is_overlay satellite_base" "\<not> is_label satellite_base"
    by (simp_all add: is_overlay_def is_label_def satellite_base_def SATELLITE_LAYER_ID_def startsWith_def)
  then show ?thesis using assms
    by (auto simp: layout_ok_def configureBasemap_def Let_def layer_ids_def drawn_def source_ids_def overlay_ids_def
        has_layer_def satellite_base_def resolving_ok_def generation_def)
qed

subsection \<open>Dropping stale layers\<close>

text \<open>The invariant up to a change of the configuration from the layers \<open>old\<close>.\<close>

definition same_order :: "string list \<Rightarrow> string list \<Rightarrow> bool" where
  "same_order old new \<longleftrightarrow> filter (\<lambda>i. i \<in> set new) old = filter (\<lambda>i. i \<in> set old) new"

definition carried :: "string list \<Rightarrow> widget \<Rightarrow> bool" where
  "carried old s \<longleftrightarrow>
     distinct old \<and> distinct (layer_ids s) \<and> same_order old (layer_ids s) \<and> distinct (map yl_id (wd_style s)) \<and>
     labels_above (wd_style s) \<and>
     overlay_ids (wd_style s) = concat (map queryRenderLayerIds (filter (\<lambda>i. i \<in> source_ids s) old)) \<and>
     source_ids s \<subseteq> fst ` set (wd_active s) \<and> fst ` set (wd_active s) \<subseteq> set old \<and> distinct (map fst (wd_active s)) \<and>
     list_all (\<lambda>(i, g, l). rl_id l = i \<and> g < wd_next s) (wd_active s) \<and> resolving_ok s"

definition stale :: "widget \<Rightarrow> (string \<times> nat \<times> render_layer) list \<Rightarrow> string set" where
  "stale s es = {i. \<exists>g l. (i, g, l) \<in> set es \<and> \<not> kept_layer s i l}"

lemma drop_fold:
  "foldl (\<lambda>t (i, g, previous). if kept_layer s i previous then t else drop_layer i t) t es =
   t\<lparr>wd_style := filter (\<lambda>l. \<forall>i \<in> stale s es. yl_id l \<notin> set (queryRenderLayerIds i)) (wd_style t),
     wd_sources := filter (\<lambda>(i, x). i \<notin> stale s es) (wd_sources t),
     wd_active := filter (\<lambda>(i, x). i \<notin> stale s es) (wd_active t),
     wd_statuses := filter (\<lambda>(i, x). i \<notin> stale s es) (wd_statuses t)\<rparr>"
proof (induction es arbitrary: t)
  case Nil
  have "filter (\<lambda>(i, x). i \<notin> stale s []) xs = xs" for xs :: "(string \<times> 'b) list"
    by (simp add: stale_def)
  then show ?case by (simp add: stale_def)
next
  case (Cons e es)
  obtain i g l where e: "e = (i, g, l)" by (cases e)
  show ?case
  proof (cases "kept_layer s i l")
    case True
    then have "stale s (e # es) = stale s es" by (auto simp: stale_def e)
    then show ?thesis using True Cons.IH [of t] by (simp add: e)
  next
    case False
    then have st: "stale s (e # es) = insert i (stale s es)" by (auto simp: stale_def e)
    have del: "filter (\<lambda>(j, x). j \<notin> stale s es) (map_delete i xs) = filter (\<lambda>(j, x). j \<notin> insert i (stale s es)) xs"
      for xs :: "(string \<times> 'b) list"
      by (simp add: AList.delete_eq filter_filter split_def) (intro filter_cong, auto)
    have "filter (\<lambda>x. (\<forall>j \<in> stale s es. yl_id x \<notin> set (queryRenderLayerIds j)) \<and> yl_id x \<notin> set (queryRenderLayerIds i)) ys
        = filter (\<lambda>x. \<forall>j \<in> insert i (stale s es). yl_id x \<notin> set (queryRenderLayerIds j)) ys" for ys
      by (intro filter_cong) auto
    then show ?thesis using False Cons.IH [of "drop_layer i t"] unfolding st
      by (simp add: e drop_layer_def del filter_filter)
  qed
qed

lemma labels_above_filter: "labels_above st \<Longrightarrow> labels_above (filter P st)"
  by (induction st) (auto simp: list_all_iff)

lemma filter_render_ids:
  "filter (\<lambda>r. \<forall>i \<in> D. r \<notin> set (queryRenderLayerIds i)) (concat (map queryRenderLayerIds js)) =
   concat (map queryRenderLayerIds (filter (\<lambda>j. j \<notin> D) js))"
proof (induction js)
  case (Cons j js)
  have "filter (\<lambda>r. \<forall>i \<in> D. r \<notin> set (queryRenderLayerIds i)) (queryRenderLayerIds j) = (if j \<in> D then [] else queryRenderLayerIds j)"
  proof (cases "j \<in> D")
    case False
    then have "\<forall>i \<in> D. set (queryRenderLayerIds j) \<inter> set (queryRenderLayerIds i) = {}"
      using render_ids_disjoint by (metis)
    then show ?thesis using False by (auto intro!: filter_True)
  qed (auto intro!: filter_False)
  then show ?case using Cons by simp
qed simp

lemma filter_same_order:
  assumes "same_order old new" and "S \<subseteq> set old" "S \<subseteq> set new"
  shows "filter (\<lambda>i. i \<in> S) old = filter (\<lambda>i. i \<in> S) new"
proof -
  have "filter (\<lambda>i. i \<in> S) xs = filter (\<lambda>i. i \<in> S) (filter (\<lambda>i. i \<in> set ys) xs)" if "S \<subseteq> set ys" for xs ys
    using that by (auto simp: filter_filter intro!: filter_cong)
  then show ?thesis using assms unfolding same_order_def by metis
qed

lemma map_of_filter_key: "map_of (filter (\<lambda>(i, x). i \<notin> D) xs) i = (if i \<in> D then None else map_of xs i)"
  by (induction xs) auto

lemma drop_stale_fields:
  "wd_style (drop_stale s) = filter (\<lambda>l. \<forall>i \<in> stale s (wd_active s). yl_id l \<notin> set (queryRenderLayerIds i)) (wd_style s)"
  "wd_sources (drop_stale s) = filter (\<lambda>(i, x). i \<notin> stale s (wd_active s)) (wd_sources s)"
  "wd_active (drop_stale s) = filter (\<lambda>(i, x). i \<notin> stale s (wd_active s)) (wd_active s)"
  "wd_statuses (drop_stale s) = filter (\<lambda>(i, x). config_layer_named i s \<noteq> None)
     (filter (\<lambda>(i, x). i \<notin> stale s (wd_active s)) (wd_statuses s))"
  "wd_config (drop_stale s) = wd_config s" "wd_next (drop_stale s) = wd_next s" "wd_resolving (drop_stale s) = wd_resolving s"
  "wd_disposed (drop_stale s) = wd_disposed s" "wd_ready (drop_stale s) = wd_ready s" "wd_tokens (drop_stale s) = wd_tokens s"
  "wd_renewing (drop_stale s) = wd_renewing s" "wd_errors (drop_stale s) = wd_errors s"
  by (simp_all add: drop_stale_def Let_def drop_fold)

lemma config_layer_ids: "config_layer_named i s \<noteq> None \<longleftrightarrow> i \<in> set (layer_ids s)"
  by (auto simp: config_layer_named_def layer_ids_def find_None_iff)

lemma config_layer_id_eq: "config_layer_named i s = Some l \<Longrightarrow> rl_id l = i"
  by (auto simp: config_layer_named_def find_Some_iff)

lemma drop_stale_kept: "i \<in> fst ` set (wd_active (drop_stale s)) \<Longrightarrow> i \<in> set (layer_ids s)"
proof -
  assume "i \<in> fst ` set (wd_active (drop_stale s))"
  then obtain g l where "(i, g, l) \<in> set (wd_active s)" "i \<notin> stale s (wd_active s)"
    by (auto simp: drop_stale_fields)
  then have "kept_layer s i l" by (auto simp: stale_def)
  then show ?thesis using config_layer_ids by (auto simp: kept_layer_def split: option.splits)
qed

lemma drop_stale_ok:
  assumes "carried old s" shows "layout_ok (drop_stale s)"
proof -
  note c = assms [unfolded carried_def]
  let ?D = "stale s (wd_active s)" and ?t = "drop_stale s"
  have ids: "layer_ids ?t = layer_ids s" by (simp add: layer_ids_def drop_stale_fields)
  have src: "source_ids ?t = source_ids s - ?D" by (auto simp: source_ids_def drop_stale_fields)
  have keys: "fst ` set (wd_active ?t) = fst ` set (wd_active s) - ?D" by (auto simp: drop_stale_fields)
  have sub: "source_ids ?t \<subseteq> set old" "source_ids ?t \<subseteq> set (layer_ids s)"
    using c drop_stale_kept [of _ s] unfolding src keys by blast+
  have "overlay_ids (wd_style ?t) = filter (\<lambda>r. \<forall>i \<in> ?D. r \<notin> set (queryRenderLayerIds i)) (overlay_ids (wd_style s))"
    unfolding drop_stale_fields overlay_ids_def filter_map comp_def filter_filter
    by (intro arg_cong [where f = "map yl_id"] filter_cong) auto
  also have "\<dots> = concat (map queryRenderLayerIds (filter (\<lambda>j. j \<notin> ?D) (filter (\<lambda>i. i \<in> source_ids s) old)))"
    using c by (simp only: filter_render_ids)
  also have "filter (\<lambda>j. j \<notin> ?D) (filter (\<lambda>i. i \<in> source_ids s) old) = filter (\<lambda>i. i \<in> source_ids ?t) old"
    by (auto simp: src intro!: filter_cong)
  also have "\<dots> = drawn ?t"
    using filter_same_order [OF _ sub] c by (simp add: drawn_def ids)
  finally have order: "overlay_ids (wd_style ?t) = concat (map queryRenderLayerIds (drawn ?t))" .
  have "distinct (map yl_id (wd_style ?t))" "distinct (map fst (wd_active ?t))"
    unfolding drop_stale_fields using c by (auto intro!: distinct_map_filter)
  moreover have "source_ids ?t \<subseteq> fst ` set (wd_active ?t)" using c unfolding src keys by blast
  moreover have "fst ` set (wd_active ?t) \<subseteq> set (layer_ids ?t)" using drop_stale_kept ids by auto
  moreover have "labels_above (wd_style ?t)" unfolding drop_stale_fields using c labels_above_filter by blast
  moreover have "list_all (\<lambda>(i, g, l). rl_id l = i \<and> g < wd_next ?t) (wd_active ?t)"
    using c by (auto simp: drop_stale_fields list_all_iff)
  moreover have "resolving_ok ?t"
  proof -
    have "generation ?t i = generation s i" if "i \<notin> ?D" for i
      using that by (simp add: generation_def drop_stale_fields map_of_filter_key)
    moreover have "resolving_ok s" using c by blast
    ultimately show ?thesis unfolding resolving_ok_def src list_all_iff drop_stale_fields(6,7) by fastforce
  qed
  ultimately show ?thesis using c order by (simp add: layout_ok_def ids)
qed

lemma carried_refl:
  assumes "layout_ok s" shows "carried (layer_ids s) s"
  using assms by (simp add: carried_def layout_ok_def same_order_def drawn_def)

lemma resolving_ok_cong:
  assumes "wd_sources t = wd_sources s" "wd_active t = wd_active s" "wd_next t = wd_next s" "wd_resolving t = wd_resolving s"
  shows "resolving_ok t = resolving_ok s"
  unfolding resolving_ok_def source_ids_def generation_def assms by (rule refl)

lemma carried_frame:
  assumes "carried old s" and "layer_ids t = layer_ids s" "wd_style t = wd_style s" "wd_sources t = wd_sources s"
    "wd_active t = wd_active s" "wd_next t = wd_next s" "wd_resolving t = wd_resolving s"
  shows "carried old t"
proof -
  have "resolving_ok t = resolving_ok s" "source_ids t = source_ids s"
    using assms resolving_ok_cong [of t s] by (simp_all add: source_ids_def)
  then show ?thesis using assms(1) unfolding carried_def assms(2-7) by simp
qed

lemma basemap_style:
  assumes "distinct (map yl_id (wd_style s))" and "labels_above (wd_style s)"
  shows "distinct (map yl_id (wd_style (configureBasemap b s)))" "labels_above (wd_style (configureBasemap b s))"
    "overlay_ids (wd_style (configureBasemap b s)) = overlay_ids (wd_style s)"
proof -
  have "\<not> is_overlay satellite_base" "\<not> is_label satellite_base"
    by (simp_all add: is_overlay_def is_label_def satellite_base_def SATELLITE_LAYER_ID_def startsWith_def)
  then show "distinct (map yl_id (wd_style (configureBasemap b s)))" "labels_above (wd_style (configureBasemap b s))"
    "overlay_ids (wd_style (configureBasemap b s)) = overlay_ids (wd_style s)"
    using assms by (simp_all add: configureBasemap_def Let_def overlay_ids_def has_layer_def)
      (simp_all add: satellite_base_def)
qed

lemma configureBasemap_frame [simp]:
  "wd_sources (configureBasemap b s) = wd_sources s" "wd_active (configureBasemap b s) = wd_active s"
  "wd_next (configureBasemap b s) = wd_next s" "wd_resolving (configureBasemap b s) = wd_resolving s"
  "wd_config (configureBasemap b s) = wd_config s" "wd_statuses (configureBasemap b s) = wd_statuses s"
  "wd_ready (configureBasemap b s) = wd_ready s" "wd_disposed (configureBasemap b s) = wd_disposed s"
  "layer_ids (configureBasemap b s) = layer_ids s" "source_ids (configureBasemap b s) = source_ids s"
  by (simp_all add: configureBasemap_def Let_def layer_ids_def source_ids_def)

lemma configureBasemap_carried:
  assumes "carried old s" shows "carried old (configureBasemap b s)"
proof -
  have "resolving_ok (configureBasemap b s) = resolving_ok s" by (rule resolving_ok_cong) simp_all
  then show ?thesis using assms basemap_style [of s b] unfolding carried_def by simp
qed

subsection \<open>Reconciling the layers\<close>

text \<open>The objects of the active layers.\<close>

definition active_ok :: "nat \<Rightarrow> (string \<times> nat \<times> render_layer) list \<Rightarrow> bool" where
  "active_ok n xs \<longleftrightarrow> list_all (\<lambda>(i, g, l). rl_id l = i \<and> g < n) xs"

lemma active_ok_set:
  assumes "active_ok n xs" and "rl_id l = i" "g < n" shows "active_ok n (map_set i (g, l) xs)"
  using assms by (induction xs) (auto simp: active_ok_def)

lemma active_ok_Suc: "active_ok n xs \<Longrightarrow> active_ok (Suc n) xs"
  by (auto simp: active_ok_def list_all_iff)

lemma set_active_ok:
  assumes "layout_ok s" and "map_of (wd_active s) i = Some (g, previous)" and "rl_id l = i" and "layer_ids t = layer_ids s"
    and "wd_active t = map_set i (g, l) (wd_active s)"
    and "wd_style t = wd_style s" "wd_sources t = wd_sources s" "wd_next t = wd_next s" "wd_resolving t = wd_resolving s"
  shows "layout_ok t"
proof -
  note ok = assms(1) [unfolded layout_ok_def, folded active_ok_def]
  have key: "(i, g, previous) \<in> set (wd_active s)" using assms(2) by (rule map_of_SomeD)
  then have keys: "fst ` set (wd_active t) = fst ` set (wd_active s)" unfolding assms(5) set_keys_map_set by force
  have src: "source_ids t = source_ids s" "drawn t = drawn s"
    unfolding source_ids_def drawn_def assms(4,7) by (rule refl)+
  have "generation t = generation s" using assms(2) by (simp add: assms(5) generation_def fun_eq_iff)
  then have "resolving_ok t = resolving_ok s" unfolding resolving_ok_def src assms(8,9) by simp
  moreover have "g < wd_next s" using ok key by (auto simp: active_ok_def list_all_iff)
  then have "active_ok (wd_next t) (wd_active t)" unfolding assms(5,8) using ok assms(3) active_ok_set by blast
  moreover have "distinct (map fst (wd_active t))" unfolding assms(5) using ok distinct_keys_map_set by blast
  ultimately show ?thesis using ok unfolding layout_ok_def src keys assms(4,6,8) active_ok_def by blast
qed

lemma keep_active_ok:
  assumes "layout_ok s" and "map_of (wd_active s) (rl_id l) = Some (g, previous)"
  shows "layout_ok (keep_active l g previous s)"
  using assms
  by (rule set_active_ok [where l = "l\<lparr>rl_source_layer := rl_source_layer previous, rl_columns := rl_columns previous\<rparr>"])
    (simp_all add: keep_active_def Let_def layer_ids_def)

lemma activated_ok:
  assumes "layout_ok s" and "rl_id l = i" "i \<in> set (layer_ids s)" "i \<notin> fst ` set (wd_active s)"
  shows "layout_ok (s\<lparr>wd_active := map_set i (wd_next s, l) (wd_active s), wd_next := Suc (wd_next s)\<rparr>)" (is "layout_ok ?t")
proof -
  note ok = assms(1) [unfolded layout_ok_def, folded active_ok_def]
  have keys: "fst ` set (wd_active ?t) = insert i (fst ` set (wd_active s))" by (simp add: set_keys_map_set)
  have t: "layer_ids ?t = layer_ids s" "source_ids ?t = source_ids s" "drawn ?t = drawn s" "wd_style ?t = wd_style s"
    by (simp_all add: layer_ids_def source_ids_def drawn_def)
  have i: "i \<notin> source_ids s" using ok assms(4) by blast
  have "generation ?t j = generation s j" if "j \<in> source_ids s" for j
    using that i by (auto simp: generation_def)
  moreover have "resolving_ok s" using ok by blast
  ultimately have "resolving_ok ?t" unfolding resolving_ok_def t list_all_iff by auto
  moreover have "active_ok (wd_next ?t) (wd_active ?t)" using ok assms(2) by (simp add: active_ok_set active_ok_Suc)
  moreover have "distinct (map fst (wd_active ?t))" using ok by (auto intro: distinct_keys_map_set)
  ultimately show ?thesis using ok assms(3) unfolding layout_ok_def t keys active_ok_def by blast
qed

lemma resolving_more_ok:
  assumes "layout_ok s" and "i \<notin> source_ids s" "g < wd_next s"
  shows "layout_ok (s\<lparr>wd_resolving := wd_resolving s @ [(i, g)]\<rparr>)" (is "layout_ok ?t")
proof -
  note ok = assms(1) [unfolded layout_ok_def]
  have t: "layer_ids ?t = layer_ids s" "source_ids ?t = source_ids s" "drawn ?t = drawn s" "generation ?t = generation s"
    by (simp_all add: layer_ids_def source_ids_def drawn_def generation_def fun_eq_iff)
  have "resolving_ok ?t" using ok assms(2,3) unfolding resolving_ok_def t by simp
  then show ?thesis using ok unfolding layout_ok_def t by simp
qed

lemma addReadyLayer_ok:
  assumes "layout_ok s" and "rl_id l = i" "i \<notin> source_ids s"
    and "generation s i = Some g" "(i, g) \<notin> set (wd_resolving s)"
  shows "layout_ok (addReadyLayer l g spec s)"
proof (cases "wd_disposed s")
  case True
  then show ?thesis using assms(1) by (simp add: addReadyLayer_def)
next
  case False
  have "i \<in> fst ` set (wd_active s)"
    using assms(4) by (force simp: generation_def dest: map_of_SomeD)
  moreover have "resolving_fresh i s" using assms(4,5) by (auto simp: resolving_fresh_def list_all_iff)
  ultimately have "layout_ok (addLayerOverlay l spec (before_layer i (rc_layers (wd_config s)) (wd_style s)) s)"
    using assms(1-3) addLayerOverlay_ok by blast
  moreover have "layout (addReadyLayer l g spec s) =
      layout (addLayerOverlay l spec (before_layer i (rc_layers (wd_config s)) (wd_style s)) s)"
    using False assms(2,4) by (simp add: addReadyLayer_def generation_def Let_def layout_def layer_ids_def)
  ultimately show ?thesis using layout_ok_cong by blast
qed

lemma start_layer_ok:
  assumes "layout_ok s" and "rl_id l \<in> set (layer_ids s)" "rl_id l \<notin> fst ` set (wd_active s)"
  shows "layout_ok (start_layer l s)"
proof -
  let ?i = "rl_id l"
  let ?g = "wd_next s"
  let ?a = "s\<lparr>wd_active := map_set ?i (?g, l) (wd_active s), wd_next := Suc ?g\<rparr>"
  let ?s = "set_status ?i (second_status l) ?a"
  have eq: "layout ?s = layout ?a" by simp
  then have ok: "layout_ok ?s" using activated_ok [OF assms(1) refl assms(2,3)] layout_ok_cong by blast
  have src: "?i \<notin> source_ids ?s" using assms(1,3) by (auto simp: layout_ok_def source_ids_def set_status_def)
  have g: "generation ?s ?i = Some ?g" "?g < wd_next ?s" by (simp_all add: generation_def set_status_def)
  have "(?i, ?g) \<notin> set (wd_resolving ?s)"
    using assms(1) by (auto simp: layout_ok_def resolving_ok_def list_all_iff)
  then have ready: "layout_ok (addReadyLayer l ?g spec ?s)" for spec
    using addReadyLayer_ok [OF ok refl src g(1)] by blast
  have "layout (say m ?s) = layout ?s" for m by simp
  then have said: "layout_ok (say m ?s)" for m using ok layout_ok_cong by blast
  have "layout_ok (?s\<lparr>wd_resolving := wd_resolving ?s @ [(?i, ?g)]\<rparr>)"
    using resolving_more_ok [OF ok src g(2)] by blast
  then show ?thesis unfolding start_layer_def Let_def using ok ready said by (simp split: if_splits)
qed

lemma reconcile_layer_ok:
  assumes "layout_ok s" shows "layout_ok (reconcile_layer s i)"
proof (cases "config_layer_named i s")
  case (Some l)
  then have "rl_id l = i" "i \<in> set (layer_ids s)" using config_layer_id_eq config_layer_ids [of i s] by auto
  then show ?thesis
    using Some assms keep_active_ok [OF assms, of l] start_layer_ok [OF assms, of l]
    by (auto simp: reconcile_layer_def map_of_eq_None_iff split: option.splits)
qed (simp add: reconcile_layer_def assms)

lemma reconcile_all_ok: "layout_ok s \<Longrightarrow> layout_ok (foldl reconcile_layer s js)"
  by (induction js arbitrary: s) (simp_all add: reconcile_layer_ok)

lemma initialize_ok:
  assumes "carried old s" and "\<not> wd_disposed s"
  shows "layout_ok (initializeQueryLayers s)"
proof -
  let ?s1 = "fit_initial_bounds s"
  let ?s2 = "if wd_basemap ?s1 = None then configureBasemap (rc_basemap (wd_config ?s1)) ?s1 else ?s1"
  have "carried old ?s1"
    using assms(1) by (rule carried_frame) (simp_all add: fit_initial_bounds_def layer_ids_def split: option.split)
  then have "carried old ?s2" using configureBasemap_carried by simp
  then have "layout_ok (foldl reconcile_layer (drop_stale ?s2) (map rl_id (rc_layers (wd_config (drop_stale ?s2)))))"
    by (intro reconcile_all_ok drop_stale_ok)
  moreover have "layout ((report u)\<lparr>wd_loading := False\<rparr>) = layout u" for u
    using report_frame(1) [of u] by (simp add: layout_def layer_ids_def)
  then have "layout_ok ((report u)\<lparr>wd_loading := False\<rparr>) = layout_ok u" for u by (rule layout_ok_cong)
  ultimately show ?thesis unfolding initializeQueryLayers_def Let_def if_not_P [OF assms(2)] by blast
qed

section \<open>Runs of the map\<close>

text \<open>
  What the environment provides: the ids of a loaded style are distinct and none is an overlay's; a new configuration has distinct
  ids, has the life cycle of the old one, and keeps the order of the layers that stay.
\<close>

fun event_ok :: "widget_event \<Rightarrow> widget \<Rightarrow> bool" where
  "event_ok (StyleLoad base) s \<longleftrightarrow> distinct (map yl_id base) \<and> list_all (\<lambda>l. \<not> is_overlay l) base"
| "event_ok (Configure tokens c) s \<longleftrightarrow>
     distinct (map rl_id (rc_layers c)) \<and> mapLifecycleKey c = mapLifecycleKey (wd_config s) \<and>
     same_order (layer_ids s) (map rl_id (rc_layers c))"
| "event_ok _ s \<longleftrightarrow> True"

inductive widget_reachable :: "widget \<Rightarrow> bool" where
  opened: "distinct (map rl_id (rc_layers c)) \<Longrightarrow> widget_reachable (open_map names tokens c)"
| stepped: "widget_reachable s \<Longrightarrow> event_ok e s \<Longrightarrow> widget_reachable (widget_step e s)"

fun events_ok :: "widget_event list \<Rightarrow> widget \<Rightarrow> bool" where
  "events_ok [] s \<longleftrightarrow> True"
| "events_ok (e # es) s \<longleftrightarrow> event_ok e s \<and> events_ok es (widget_step e s)"

definition widget_run :: "widget_event list \<Rightarrow> widget \<Rightarrow> widget" where
  "widget_run es s = fold widget_step es s"

lemma run_reachable: "widget_reachable s \<Longrightarrow> events_ok es s \<Longrightarrow> widget_reachable (widget_run es s)"
  by (induction es arbitrary: s) (simp_all add: widget_run_def stepped)

lemma disposed_stays: "wd_disposed s \<Longrightarrow> wd_disposed (widget_step e s)"
  by (cases e) (auto simp: on_style_load_def initializeQueryLayers_def configure_def Let_def reportLoadedSources_def on_idle_def
      on_sourcedataloading_def on_resolved_def on_map_error_def handleError_def on_renewed_def changeLayerVisibility_def
      changeBasemap_def deliver_def dispose_def split: option.splits list.splits)

text \<open>Before the style has loaded, nothing is drawn.\<close>

definition unstarted :: "widget \<Rightarrow> bool" where
  "unstarted s \<longleftrightarrow> wd_active s = [] \<and> wd_sources s = [] \<and> wd_resolving s = [] \<and> wd_style s = [] \<and> wd_basemap s = None"

definition layout_inv :: "widget \<Rightarrow> bool" where
  "layout_inv s \<longleftrightarrow> wd_disposed s \<or> layout_ok s \<and> (wd_ready s \<or> unstarted s)"

lemma unstarted_ok: "unstarted s \<Longrightarrow> distinct (layer_ids s) \<Longrightarrow> layout_ok s"
  by (simp add: unstarted_def layout_ok_def source_ids_def drawn_def overlay_ids_def resolving_ok_def)

lemma initialize_ready [simp]:
  "wd_ready (initializeQueryLayers s) = wd_ready s" "wd_disposed (initializeQueryLayers s) = wd_disposed s"
proof -
  have start: "wd_ready (start_layer l t) = wd_ready t" "wd_disposed (start_layer l t) = wd_disposed t" for l t
    by (simp_all add: start_layer_def Let_def addReadyLayer_def addLayerOverlay_def)
  have rec: "wd_ready (reconcile_layer t i) = wd_ready t" "wd_disposed (reconcile_layer t i) = wd_disposed t" for t i
    by (simp_all add: reconcile_layer_def start keep_active_def Let_def split: option.splits prod.splits)
  have all: "wd_ready (foldl reconcile_layer t js) = wd_ready t" "wd_disposed (foldl reconcile_layer t js) = wd_disposed t" for t js
    by (induction js arbitrary: t) (simp_all add: rec)
  show "wd_ready (initializeQueryLayers s) = wd_ready s" "wd_disposed (initializeQueryLayers s) = wd_disposed s"
    by (simp_all add: initializeQueryLayers_def Let_def all drop_stale_fields fit_initial_bounds_def split: option.split)
qed

lemma style_load_inv:
  assumes "layout_inv s" and "event_ok (StyleLoad base) s" shows "layout_inv (on_style_load base s)"
proof (cases "wd_disposed s \<or> wd_ready s")
  case True
  then show ?thesis using assms(1) by (auto simp: layout_inv_def on_style_load_def)
next
  case False
  let ?s = "s\<lparr>wd_ready := True, wd_style := base\<rparr>"
  have "unstarted s" "distinct (layer_ids s)" using assms(1) False by (auto simp: layout_inv_def layout_ok_def)
  moreover have "labels_above base"
    using assms(2) by (induction base) (auto simp: list_all_iff)
  moreover have "overlay_ids base = []" using assms(2) by (simp add: overlay_ids_def list_all_iff)
  ultimately have "layout_ok ?s" using assms(2)
    by (simp add: unstarted_def layout_ok_def source_ids_def drawn_def resolving_ok_def layer_ids_def)
  then have "layout_ok (initializeQueryLayers ?s)" using False by (intro initialize_ok [OF carried_refl]) simp_all
  then show ?thesis using False by (simp add: layout_inv_def on_style_load_def)
qed

lemma apply_names_ids [simp]: "map rl_id (rc_layers (apply_names names c)) = map rl_id (rc_layers c)"
  by (simp add: apply_names_def)

lemma configure_inv:
  assumes "layout_inv s" and "event_ok (Configure tokens c) s" shows "layout_inv (configure tokens c s)"
proof (cases "wd_disposed s")
  case True
  then have "wd_disposed (configure tokens c s)" using disposed_stays [of s "Configure tokens c"] by simp
  then show ?thesis by (simp add: layout_inv_def)
next
  case False
  define names where "names = filter (\<lambda>(n, v). n \<in> rl_layer_name ` set (rc_layers c)) (wd_names s)"
  let ?s1 = "s\<lparr>wd_config := apply_names names c, wd_names := names, wd_tokens := tokens\<rparr>"
  let ?s2 = "if rc_basemap (wd_config s) \<noteq> rc_basemap c \<and> wd_basemap s \<noteq> None then configureBasemap (rc_basemap c) ?s1 else ?s1"
  have eq: "configure tokens c s = (if wd_ready ?s2 then initializeQueryLayers ?s2 else ?s2)"
    unfolding configure_def Let_def names_def by (rule refl)
  have ids: "layer_ids ?s1 = map rl_id (rc_layers c)" by (simp add: layer_ids_def)
  have ready: "wd_ready ?s2 = wd_ready s" "wd_disposed ?s2 = wd_disposed s" by simp_all
  have ok: "layout_ok s" using assms(1) False by (simp add: layout_inv_def)
  show ?thesis
  proof (cases "wd_ready s")
    case True
    have same: "resolving_ok ?s1 = resolving_ok s" by (rule resolving_ok_cong) simp_all
    have "carried (layer_ids s) ?s1"
      using carried_refl [OF ok] assms(2) unfolding carried_def same ids by (simp add: source_ids_def)
    then have "carried (layer_ids s) ?s2" using configureBasemap_carried by simp
    then have "layout_ok (initializeQueryLayers ?s2)" using initialize_ok ready(2) False by blast
    then show ?thesis unfolding eq ready(1) if_P [OF True] layout_inv_def using True ready(1) by simp
  next
    case nready: False
    then have un: "unstarted s" using assms(1) False by (simp add: layout_inv_def)
    then have "?s2 = ?s1" by (simp add: unstarted_def)
    moreover have "unstarted ?s1" using un by (simp add: unstarted_def)
    ultimately show ?thesis using unstarted_ok [of ?s1] assms(2) ids nready unfolding eq layout_inv_def by simp
  qed
qed

lemma resolved_inv:
  assumes "layout_inv s" shows "layout_inv (on_resolved k r s)"
proof (cases "k \<in> set (wd_resolving s) \<and> \<not> wd_disposed s")
  case False
  then show ?thesis using assms disposed_stays [of s "Resolved (fst k) (snd k) r"] by (auto simp: layout_inv_def on_resolved_def)
next
  case True
  obtain i g where k: "k = (i, g)" by (cases k)
  let ?s = "s\<lparr>wd_resolving := removeAll k (wd_resolving s)\<rparr>"
  have ok: "layout_ok s" and ready: "wd_ready s" using assms True by (auto simp: layout_inv_def unstarted_def)
  have t: "layer_ids ?s = layer_ids s" "source_ids ?s = source_ids s" "drawn ?s = drawn s" "generation ?s = generation s"
    by (simp_all add: layer_ids_def source_ids_def drawn_def generation_def fun_eq_iff)
  have "resolving_ok s" using ok by (simp add: layout_ok_def)
  then have "resolving_ok ?s" unfolding resolving_ok_def t by (auto simp: list_all_iff)
  then have ok1: "layout_ok ?s" using ok unfolding layout_ok_def t by simp
  then have done1: "layout_inv ?s" using ready by (simp add: layout_inv_def)
  show ?thesis
  proof (cases "generation s i = Some g")
    case False
    then have "on_resolved k r s = ?s"
      using True by (auto simp: on_resolved_def k generation_def Let_def split: option.split)
    then show ?thesis using done1 by simp
  next
    case gen: True
    then obtain l where l: "map_of (wd_active s) i = Some (g, l)" by (auto simp: generation_def)
    have undrawn: "i \<notin> source_ids s" using ok True gen by (auto simp: layout_ok_def resolving_ok_def list_all_iff k)
    show ?thesis
    proof (cases r)
      case (Inl m)
      then have "on_resolved k r s = say (rl_layer_name l @ '': '' @ m) (failLayer i SOURCE_METADATA_FAILED ?s)"
        using True l by (simp add: on_resolved_def k Let_def)
      then have same: "layout (on_resolved k r s) = layout ?s" and "wd_ready (on_resolved k r s)" using ready by simp_all
      then show ?thesis using ok1 unfolding layout_inv_def layout_ok_cong [OF same] by blast
    next
      case (Inr x)
      define l' where "l' = l\<lparr>rl_source_layer := re_sourceLayer x, rl_columns := re_columns x,
        rl_visible := (case config_layer_named i ?s of None \<Rightarrow> rl_visible l | Some c \<Rightarrow> rl_visible c)\<rparr>"
      define conf where "conf = (case config_layer_named i ?s of None \<Rightarrow> wd_config ?s
        | Some c \<Rightarrow> set_config_layer (c\<lparr>rl_source_layer := re_sourceLayer x, rl_columns := re_columns x\<rparr>) (wd_config ?s))"
      let ?u = "?s\<lparr>wd_active := map_set i (g, l') (wd_active ?s), wd_config := conf\<rparr>"
      have "(i, g, l) \<in> set (wd_active s)" using l by (rule map_of_SomeD)
      then have "rl_id l = i" using ok by (auto simp: layout_ok_def list_all_iff)
      then have id: "rl_id l' = i" by (simp add: l'_def)
      have ids: "layer_ids ?u = layer_ids ?s" by (simp add: layer_ids_def conf_def split: option.split)
      have la: "map_of (wd_active ?s) i = Some (g, l)" using l by simp
      have "layout_ok ?u" by (rule set_active_ok [OF ok1 la id ids]) simp_all
      then have "layout_ok (addReadyLayer l' g (re_source x) ?u)"
        using undrawn id k by (intro addReadyLayer_ok [where i = i]) (simp_all add: generation_def source_ids_def)
      moreover have "on_resolved k r s = addReadyLayer l' g (re_source x) ?u"
        unfolding on_resolved_def Let_def using True l Inr by (simp add: k l'_def conf_def)
      moreover have "wd_ready (addReadyLayer l' g (re_source x) ?u)"
        using ready by (simp add: addReadyLayer_def addLayerOverlay_def Let_def)
      ultimately show ?thesis by (simp add: layout_inv_def)
    qed
  qed
qed

lemma layout_inv_cong:
  assumes "layout t = layout s" "wd_ready t = wd_ready s" "wd_disposed s \<Longrightarrow> wd_disposed t" "wd_basemap t = wd_basemap s"
    and "layout_inv s"
  shows "layout_inv t"
proof -
  have "unstarted t = unstarted s" using assms(1,4) by (simp add: unstarted_def layout_def)
  then show ?thesis using assms layout_ok_cong [OF assms(1)] by (auto simp: layout_inv_def)
qed

lemma basemap_frames [simp]:
  "wd_basemap (set_status i st s) = wd_basemap s" "wd_basemap (say m s) = wd_basemap s"
  "wd_basemap (failLayer i e s) = wd_basemap s"
  by (simp_all add: set_status_def say_def failLayer_def split: option.split)

lemma layout_update [simp]:
  "layout (s\<lparr>wd_loading := b\<rparr>) = layout s" "layout (s\<lparr>wd_errors := es\<rparr>) = layout s"
  "layout (s\<lparr>wd_globalError := g\<rparr>) = layout s" "layout (s\<lparr>wd_renewing := r\<rparr>) = layout s"
  "layout (s\<lparr>wd_statuses := m\<rparr>) = layout s" "layout (s\<lparr>wd_idle := q\<rparr>) = layout s"
  "layout (s\<lparr>wd_names := ns\<rparr>) = layout s" "layout (s\<lparr>wd_queue := rs\<rparr>) = layout s"
  "layout (s\<lparr>wd_delivered := ds\<rparr>) = layout s"
  by (simp_all add: layout_def layer_ids_def)

lemma error_inv:
  assumes "layout_inv s" shows "layout_inv (handleError k visible d s)"
  by (rule layout_inv_cong [OF _ _ _ _ assms])
    (simp_all add: handleError_def report_error_def Let_def split: option.split)

lemma map_error_inv:
  assumes "layout_inv s" shows "layout_inv (on_map_error sourceId s)"
proof (cases "wd_disposed s")
  case False
  let ?t = "s\<lparr>wd_errors := wd_errors s @ [(wd_next s, List.find (\<lambda>l. Some (querySourceId (rl_id l)) = sourceId) (rc_layers (wd_config s)))],
    wd_next := Suc (wd_next s)\<rparr>"
  have t: "layer_ids ?t = layer_ids s" "source_ids ?t = source_ids s" "drawn ?t = drawn s" "generation ?t = generation s"
    by (simp_all add: layer_ids_def source_ids_def drawn_def generation_def fun_eq_iff)
  have "layout_ok ?t" if ok: "layout_ok s"
  proof -
    have "resolving_ok ?t" using ok unfolding layout_ok_def resolving_ok_def t by (auto simp: list_all_iff)
    moreover have "active_ok (Suc (wd_next s)) (wd_active s)"
      using ok by (simp add: layout_ok_def active_ok_Suc flip: active_ok_def)
    ultimately show ?thesis using ok unfolding layout_ok_def t active_ok_def by simp
  qed
  then show ?thesis using assms False by (auto simp: layout_inv_def on_map_error_def unstarted_def)
qed (simp add: on_map_error_def assms)

lemma toggle_inv:
  assumes "layout_inv s" shows "layout_inv (changeLayerVisibility i visible s)"
proof (rule layout_inv_cong [OF _ _ _ _ assms])
  define s1 where "s1 = (if wd_disposed s then s
    else report (case map_of (wd_statuses s) i of None \<Rightarrow> s | Some st \<Rightarrow> set_status i (toggled_status s i visible st) s))"
  have s1: "layout s1 = layout s" "wd_ready s1 = wd_ready s" "wd_disposed s1 = wd_disposed s" "wd_basemap s1 = wd_basemap s"
    by (simp_all add: s1_def split: option.split)
  have eq: "changeLayerVisibility i visible s =
    (case config_layer_named i s1 of None \<Rightarrow> s1
     | Some l \<Rightarrow> s1\<lparr>wd_config := set_config_layer (l\<lparr>rl_visible := visible\<rparr>) (wd_config s1),
         wd_names := map_set (rl_layer_name l) visible (wd_names s1)\<rparr>)"
    unfolding changeLayerVisibility_def s1_def Let_def by (rule refl)
  have "layout (s1\<lparr>wd_config := set_config_layer l (wd_config s1), wd_names := ns\<rparr>) = layout s1" for l ns
    by (simp add: layout_def layer_ids_def)
  then show "layout (changeLayerVisibility i visible s) = layout s" unfolding eq using s1(1) by (simp split: option.split)
  show "wd_ready (changeLayerVisibility i visible s) = wd_ready s" "wd_basemap (changeLayerVisibility i visible s) = wd_basemap s"
    "wd_disposed s \<Longrightarrow> wd_disposed (changeLayerVisibility i visible s)"
    unfolding eq using s1 by (simp_all split: option.split)
qed

lemma widget_step_inv:
  assumes "layout_inv s" and "event_ok e s" shows "layout_inv (widget_step e s)"
proof (cases e)
  case (StyleLoad base)
  then show ?thesis using style_load_inv assms by simp
next
  case (Configure tokens c)
  then show ?thesis using configure_inv assms by simp
next
  case (Resolved i g r)
  then show ?thesis using resolved_inv assms(1) by simp
next
  case (MapError sourceId)
  then show ?thesis using map_error_inv assms(1) by simp
next
  case (ErrorRead k visible d)
  then show ?thesis using error_inv assms(1) by simp
next
  case (Toggle i visible)
  then show ?thesis using toggle_inv assms(1) by simp
next
  case (ChangeBasemap b)
  then show ?thesis using assms(1) by (auto simp: changeBasemap_def layout_inv_def configureBasemap_ok)
next
  case (Rendered loaded)
  show ?thesis unfolding Rendered by (rule layout_inv_cong [OF _ _ _ _ assms(1)]) (simp_all add: reportLoadedSources_def)
next
  case (Idle loaded)
  show ?thesis unfolding Idle
    by (rule layout_inv_cong [OF _ _ _ _ assms(1)]) (simp_all add: on_idle_def reportLoadedSources_def)
next
  case (SourceDataLoading sourceId)
  show ?thesis unfolding SourceDataLoading
    by (rule layout_inv_cong [OF _ _ _ _ assms(1)]) (simp_all add: on_sourcedataloading_def)
next
  case (Renewed i ok)
  show ?thesis unfolding Renewed
    by (rule layout_inv_cong [OF _ _ _ _ assms(1)]) (simp_all add: on_renewed_def Let_def)
next
  case Deliver
  show ?thesis unfolding Deliver
    by (rule layout_inv_cong [OF _ _ _ _ assms(1)]) (simp_all add: deliver_def split: list.split)
next
  case Dispose
  then show ?thesis by (simp add: layout_inv_def dispose_def)
qed

lemma reachable_layout: "widget_reachable s \<Longrightarrow> layout_inv s"
proof (induction rule: widget_reachable.induct)
  case (opened c names tokens)
  have "unstarted (open_map names tokens c)" "layer_ids (open_map names tokens c) = map rl_id (rc_layers c)"
    by (simp_all add: open_map_def unstarted_def layer_ids_def)
  then show ?case using opened unstarted_ok by (simp add: layout_inv_def)
qed (simp add: widget_step_inv)

lemma accepted_ids_distinct:
  assumes "MapConfigurationSchema c = Some parsed" shows "distinct (map rl_id (rc_layers (renderConfiguration parsed)))"
proof -
  have "rl_id (render_layer_of l) = config_layer_id l" for l by (cases l) simp_all
  then have "map rl_id (rc_layers (renderConfiguration parsed)) = map config_layer_id (cf_layers parsed)"
    by (simp add: renderConfiguration_def)
  then show ?thesis using assms by (auto simp: MapConfigurationSchema_def Let_def split: if_splits)
qed


section \<open>Examples\<close>

definition sample_layer :: "string \<Rightarrow> render_layer" where
  "sample_layer i = \<lparr>rl_id = i, rl_layer_name = i, rl_visible = True, rl_style = None, rl_columns = [], rl_source_layer = [],
     rl_initial_bounds = None, rl_result_status = None, rl_query_id = None, rl_query_token = None, rl_tile_url = None,
     rl_source = Some (PmtilesSource [] None), rl_preparation = None, rl_preparation_error = None\<rparr>"

definition sample_config :: render_config where
  "sample_config = \<lparr>rc_title = ''t'', rc_basemap = Street, rc_worker_url = [], rc_camera = None,
     rc_layers = [sample_layer ''a'', sample_layer ''b'']\<rparr>"

definition sample_resolved :: resolved_source where
  "sample_resolved = \<lparr>re_source = query_source_spec [], re_sourceLayer = ''l'', re_columns = []\<rparr>"

text \<open>The second layer resolves before the first one, on a style with a background and a label.\<close>

definition sample_events :: "widget_event list" where
  "sample_events = [StyleLoad [\<lparr>yl_id = ''bg'', yl_type = ''background'', yl_source = None\<rparr>,
       \<lparr>yl_id = ''poi'', yl_type = ''symbol'', yl_source = Some ''m''\<rparr>],
     Resolved ''b'' 1 (Inr sample_resolved), Resolved ''a'' 0 (Inr sample_resolved)]"


end
