(* ===== verification/WidgetStatus.thy ===== *)
theory WidgetStatus
  imports WidgetLayout
begin

text \<open>
  What the widget's map reports (\<open>dataset-mcp/ui/src/components/MapView.tsx\<close>): every layer of the configuration has a
  status once the style has loaded, and a layer whose status is \<open>loaded\<close> has its source and overlays on the map.
\<close>

definition loaded_ok :: "(string \<times> layer_status) list \<Rightarrow> string set \<Rightarrow> bool" where
  "loaded_ok sts S \<longleftrightarrow> (\<forall>(i, st) \<in> set sts. ls_status st = StatusLoaded \<longrightarrow> i \<in> S)"

definition status_ok :: "widget \<Rightarrow> bool" where
  "status_ok s \<longleftrightarrow> loaded_ok (wd_statuses s) (source_ids s) \<and>
     (wd_ready s \<longrightarrow> set (layer_ids s) \<subseteq> fst ` set (wd_statuses s) \<and> set (layer_ids s) \<subseteq> fst ` set (wd_active s))"

lemma loaded_ok_mono: "loaded_ok sts S \<Longrightarrow> S \<subseteq> T \<Longrightarrow> loaded_ok sts T"
  by (auto simp: loaded_ok_def)

lemma loaded_ok_set: "loaded_ok sts S \<Longrightarrow> ls_status st \<noteq> StatusLoaded \<Longrightarrow> loaded_ok (map_set i st sts) S"
  using set_map_set_subset [of i st sts] by (fastforce simp: loaded_ok_def)

lemma loaded_ok_filter: "loaded_ok sts S \<Longrightarrow> loaded_ok (filter P sts) S"
  by (auto simp: loaded_ok_def)

section \<open>Reconciling\<close>

text \<open>What holds while the layers are reconciled.\<close>

definition partly_ok :: "widget \<Rightarrow> bool" where
  "partly_ok s \<longleftrightarrow> loaded_ok (wd_statuses s) (source_ids s) \<and> fst ` set (wd_active s) \<subseteq> fst ` set (wd_statuses s)"

lemma addReadyLayer_status:
  "wd_statuses (addReadyLayer l g spec s) = wd_statuses s" "wd_active (addReadyLayer l g spec s) = wd_active s"
  "source_ids s \<subseteq> source_ids (addReadyLayer l g spec s)" "layer_ids (addReadyLayer l g spec s) = layer_ids s"
  by (auto simp: addReadyLayer_def addLayerOverlay_def Let_def source_ids_def layer_ids_def set_keys_map_set)

lemma second_status_not_loaded [simp]: "ls_status (second_status l) \<noteq> StatusLoaded"
  by (simp add: second_status_def preparation_load_def split: option.split preparation.split)

lemma start_layer_status:
  "wd_statuses (start_layer l s) = map_set (rl_id l) (second_status l) (wd_statuses s)"
  "wd_active (start_layer l s) = map_set (rl_id l) (wd_next s, l) (wd_active s)"
  "layer_ids (start_layer l s) = layer_ids s"
  by (simp_all add: start_layer_def Let_def addReadyLayer_status) (simp_all add: set_status_def say_def layer_ids_def)

lemma start_layer_sources: "source_ids s \<subseteq> source_ids (start_layer l s)"
proof -
  let ?t = "set_status (rl_id l) (second_status l)
    (s\<lparr>wd_active := map_set (rl_id l) (wd_next s, l) (wd_active s), wd_next := Suc (wd_next s)\<rparr>)"
  have t: "source_ids ?t = source_ids s" by (simp add: source_ids_def set_status_def)
  moreover have "source_ids (say m u) = source_ids u" "source_ids (u\<lparr>wd_resolving := r\<rparr>) = source_ids u" for m r u
    by (simp_all add: source_ids_def say_def)
  moreover have "source_ids s \<subseteq> source_ids (addReadyLayer l (wd_next s) spec ?t)" for spec
    using addReadyLayer_status(3) t by metis
  ultimately show ?thesis unfolding start_layer_def Let_def by simp
qed

lemma start_layer_partly:
  assumes "partly_ok s" shows "partly_ok (start_layer l s)"
proof -
  have "loaded_ok (wd_statuses (start_layer l s)) (source_ids (start_layer l s))"
    unfolding start_layer_status using assms start_layer_sources [of s l]
    by (intro loaded_ok_set) (auto simp: partly_ok_def intro: loaded_ok_mono)
  then show ?thesis using assms by (auto simp: partly_ok_def start_layer_status set_keys_map_set)
qed

lemma keep_active_status:
  "wd_statuses (keep_active l g p s) = wd_statuses s" "source_ids (keep_active l g p s) = source_ids s"
  "fst ` set (wd_active (keep_active l g p s)) = insert (rl_id l) (fst ` set (wd_active s))"
  "layer_ids (keep_active l g p s) = layer_ids s"
  by (simp_all add: keep_active_def Let_def source_ids_def set_keys_map_set layer_ids_def)

lemma reconcile_step:
  assumes "partly_ok s" and "i \<in> set (layer_ids s)"
  shows "partly_ok (reconcile_layer s i) \<and> layer_ids (reconcile_layer s i) = layer_ids s \<and>
    insert i (fst ` set (wd_active s)) \<subseteq> fst ` set (wd_active (reconcile_layer s i))"
proof -
  obtain l where l: "config_layer_named i s = Some l" "rl_id l = i"
    using assms(2) config_layer_ids [of i s] config_layer_id_eq by fastforce
  show ?thesis
  proof (cases "map_of (wd_active s) i")
    case None
    then have "reconcile_layer s i = start_layer l s" using l by (simp add: reconcile_layer_def)
    then show ?thesis using start_layer_partly [OF assms(1)] l(2) by (simp add: start_layer_status set_keys_map_set)
  next
    case (Some p)
    obtain g previous where p: "p = (g, previous)" by (cases p)
    have "i \<in> fst ` set (wd_active s)" using Some by (force dest: map_of_SomeD)
    moreover have "reconcile_layer s i = keep_active l g previous s" using l Some p by (simp add: reconcile_layer_def)
    ultimately show ?thesis using assms(1) l(2) by (auto simp: partly_ok_def keep_active_status)
  qed
qed

lemma reconcile_all:
  assumes "partly_ok s" and "set js \<subseteq> set (layer_ids s)"
  shows "partly_ok (foldl reconcile_layer s js) \<and> layer_ids (foldl reconcile_layer s js) = layer_ids s \<and>
    set js \<union> fst ` set (wd_active s) \<subseteq> fst ` set (wd_active (foldl reconcile_layer s js))"
  using assms
proof (induction js arbitrary: s)
  case (Cons j js)
  have "j \<in> set (layer_ids s)" using Cons.prems by simp
  note step = reconcile_step [OF Cons.prems(1) this]
  then have "set js \<subseteq> set (layer_ids (reconcile_layer s j))" using Cons.prems(2) by simp
  note rest = Cons.IH [OF conjunct1 [OF step] this]
  have "set (j # js) \<union> fst ` set (wd_active s) \<subseteq> set js \<union> fst ` set (wd_active (reconcile_layer s j))"
    using step by auto
  then show ?case using step rest by (simp only: foldl.simps) (blast intro: subset_trans)
qed simp

lemma drop_stale_partly:
  assumes "loaded_ok (wd_statuses s) (source_ids s)" and "fst ` set (wd_active s) \<subseteq> fst ` set (wd_statuses s)"
  shows "partly_ok (drop_stale s)"
proof -
  have "source_ids (drop_stale s) = source_ids s - stale s (wd_active s)"
    by (auto simp: source_ids_def drop_stale_fields)
  then have "loaded_ok (wd_statuses (drop_stale s)) (source_ids (drop_stale s))"
    using assms(1) by (auto simp: loaded_ok_def drop_stale_fields)
  moreover have "i \<in> fst ` set (wd_statuses (drop_stale s))" if i: "i \<in> fst ` set (wd_active (drop_stale s))" for i
  proof -
    have "i \<in> fst ` set (wd_active s)" "i \<notin> stale s (wd_active s)" using i by (auto simp: drop_stale_fields)
    then have "i \<in> fst ` set (wd_statuses s)" "i \<notin> stale s (wd_active s)" using assms(2) by auto
    moreover have "config_layer_named i s \<noteq> None" using drop_stale_kept [OF i] config_layer_ids by blast
    ultimately show ?thesis by (force simp: drop_stale_fields)
  qed
  ultimately show ?thesis by (auto simp: partly_ok_def)
qed

lemma initialize_status:
  assumes "loaded_ok (wd_statuses s) (source_ids s)" and "fst ` set (wd_active s) \<subseteq> fst ` set (wd_statuses s)"
    and "\<not> wd_disposed s"
  shows "status_ok (initializeQueryLayers s)"
proof -
  let ?s1 = "fit_initial_bounds s"
  let ?s2 = "if wd_basemap ?s1 = None then configureBasemap (rc_basemap (wd_config ?s1)) ?s1 else ?s1"
  define u where "u = drop_stale ?s2"
  let ?s4 = "foldl reconcile_layer u (layer_ids u)"
  have s1: "wd_statuses ?s1 = wd_statuses s" "wd_active ?s1 = wd_active s" "source_ids ?s1 = source_ids s"
    by (simp_all add: fit_initial_bounds_def source_ids_def split: option.split)
  have "partly_ok u" unfolding u_def using assms(1,2) by (intro drop_stale_partly) (simp_all add: s1)
  then have four: "partly_ok ?s4" "set (layer_ids ?s4) \<subseteq> fst ` set (wd_active ?s4)"
    using reconcile_all [of u "layer_ids u"] by simp_all
  have "source_ids ((report v)\<lparr>wd_loading := False\<rparr>) = source_ids v" "layer_ids ((report v)\<lparr>wd_loading := False\<rparr>) = layer_ids v" for v
    by (simp_all add: source_ids_def layer_ids_def)
  then have "status_ok ((report ?s4)\<lparr>wd_loading := False\<rparr>)" using four by (auto simp: status_ok_def partly_ok_def)
  then show ?thesis
    unfolding initializeQueryLayers_def Let_def if_not_P [OF assms(3)] u_def layer_ids_def by blast
qed

section \<open>Runs\<close>

definition status_inv :: "widget \<Rightarrow> bool" where
  "status_inv s \<longleftrightarrow> wd_disposed s \<or> status_ok s"

lemma sources_frame [simp]: "source_ids (report s) = source_ids s" "source_ids (set_status i st s) = source_ids s"
  "source_ids (failLayer i e s) = source_ids s" "source_ids (say m s) = source_ids s"
  by (simp_all add: source_ids_def)

lemma ids_frame [simp]: "layer_ids (report s) = layer_ids s" "layer_ids (set_status i st s) = layer_ids s"
  "layer_ids (failLayer i e s) = layer_ids s" "layer_ids (say m s) = layer_ids s"
  by (simp_all add: layer_ids_def)

text \<open>A step that leaves the layers, sources and active layers alone and does not call a layer loaded.\<close>

lemma status_frame:
  assumes "status_inv s" and "layer_ids t = layer_ids s" "source_ids s \<subseteq> source_ids t" "fst ` set (wd_active t) = fst ` set (wd_active s)"
    "wd_ready t = wd_ready s" "wd_disposed s \<Longrightarrow> wd_disposed t"
    and "loaded_ok (wd_statuses s) (source_ids s) \<Longrightarrow> loaded_ok (wd_statuses t) (source_ids t)"
    and "fst ` set (wd_statuses s) \<subseteq> fst ` set (wd_statuses t)"
  shows "status_inv t"
  using assms by (auto simp: status_inv_def status_ok_def)

lemma fail_statuses:
  "loaded_ok (wd_statuses s) S \<Longrightarrow> loaded_ok (wd_statuses (failLayer i e s)) S"
  "fst ` set (wd_statuses s) \<subseteq> fst ` set (wd_statuses (failLayer i e s))"
  by (auto simp: failLayer_def set_keys_map_set intro: loaded_ok_set split: option.split)

lemma style_load_status:
  assumes "layout_inv s" and "status_inv s" shows "status_inv (on_style_load base s)"
proof (cases "wd_disposed s \<or> wd_ready s")
  case True
  then show ?thesis using assms(2) disposed_stays [of s "StyleLoad base"] by (auto simp: status_inv_def on_style_load_def)
next
  case False
  let ?s = "s\<lparr>wd_ready := True, wd_style := base\<rparr>"
  have "wd_active s = []" using assms(1) False by (simp add: layout_inv_def unstarted_def)
  moreover have "loaded_ok (wd_statuses ?s) (source_ids ?s)"
    using assms(2) False by (simp add: status_inv_def status_ok_def source_ids_def)
  ultimately have "status_ok (initializeQueryLayers ?s)" using False by (intro initialize_status) simp_all
  then show ?thesis using False by (simp add: status_inv_def on_style_load_def)
qed

lemma configure_status:
  assumes "layout_inv s" and "status_inv s" shows "status_inv (configure tokens c s)"
proof (cases "wd_disposed s")
  case True
  then show ?thesis using disposed_stays [of s "Configure tokens c"] by (simp add: status_inv_def)
next
  case False
  define names where "names = filter (\<lambda>(n, v). n \<in> rl_layer_name ` set (rc_layers c)) (wd_names s)"
  let ?s1 = "s\<lparr>wd_config := apply_names names c, wd_names := names, wd_tokens := tokens\<rparr>"
  let ?s2 = "if rc_basemap (wd_config s) \<noteq> rc_basemap c \<and> wd_basemap s \<noteq> None then configureBasemap (rc_basemap c) ?s1 else ?s1"
  have eq: "configure tokens c s = (if wd_ready ?s2 then initializeQueryLayers ?s2 else ?s2)"
    unfolding configure_def Let_def names_def by (rule refl)
  have s2: "wd_statuses ?s2 = wd_statuses s" "wd_active ?s2 = wd_active s" "source_ids ?s2 = source_ids s" "wd_ready ?s2 = wd_ready s"
    "wd_disposed ?s2 = wd_disposed s"
    by (simp_all add: source_ids_def)
  have ok: "status_ok s" "layout_ok s" using assms False by (simp_all add: status_inv_def layout_inv_def)
  then have loaded: "loaded_ok (wd_statuses s) (source_ids s)" by (simp add: status_ok_def)
  show ?thesis
  proof (cases "wd_ready s")
    case True
    then have "fst ` set (wd_active s) \<subseteq> fst ` set (wd_statuses s)" using ok by (auto simp: status_ok_def layout_ok_def)
    then have "status_ok (initializeQueryLayers ?s2)"
      using loaded False unfolding s2 [symmetric] by (intro initialize_status)
    then show ?thesis unfolding eq using True s2(4) by (simp add: status_inv_def)
  next
    case nready: False
    show ?thesis
      unfolding eq s2(4) if_not_P [OF nready] status_inv_def status_ok_def s2 using loaded nready by blast
  qed
qed

lemma resolved_status:
  assumes "status_inv s" shows "status_inv (on_resolved k r s)"
proof (cases "k \<in> set (wd_resolving s)")
  case False
  then show ?thesis using assms by (simp add: on_resolved_def)
next
  case True
  let ?s = "s\<lparr>wd_resolving := removeAll k (wd_resolving s)\<rparr>"
  have s: "status_inv ?s" using assms by (simp add: status_inv_def status_ok_def source_ids_def layer_ids_def)
  show ?thesis
  proof (cases "\<exists>l. map_of (wd_active s) (fst k) = Some (snd k, l) \<and> \<not> wd_disposed s")
    case False
    then have "on_resolved k r s = ?s" using True by (auto simp: on_resolved_def Let_def split: option.split)
    then show ?thesis using s by simp
  next
    case active: True
    then obtain l where l: "map_of (wd_active s) (fst k) = Some (snd k, l)" "\<not> wd_disposed s" by blast
    show ?thesis
    proof (cases r)
      case (Inl m)
      then have "on_resolved k r s = say (rl_layer_name l @ '': '' @ m) (failLayer (fst k) SOURCE_METADATA_FAILED ?s)"
        using True l by (simp add: on_resolved_def Let_def)
      moreover have "fst ` set (wd_statuses ?s) \<subseteq> fst ` set (wd_statuses (failLayer (fst k) SOURCE_METADATA_FAILED ?s))"
        by (rule fail_statuses(2))
      ultimately show ?thesis by (simp only:) (rule status_frame [OF s], simp_all add: fail_statuses(1))
    next
      case (Inr x)
      define u where "u = ?s\<lparr>wd_active := map_set (fst k) (snd k, l\<lparr>rl_source_layer := re_sourceLayer x, rl_columns := re_columns x,
          rl_visible := (case config_layer_named (fst k) ?s of None \<Rightarrow> rl_visible l | Some c \<Rightarrow> rl_visible c)\<rparr>) (wd_active ?s),
        wd_config := (case config_layer_named (fst k) ?s of None \<Rightarrow> wd_config ?s
          | Some c \<Rightarrow> set_config_layer (c\<lparr>rl_source_layer := re_sourceLayer x, rl_columns := re_columns x\<rparr>) (wd_config ?s))\<rparr>"
      obtain l' where t: "on_resolved k r s = addReadyLayer l' (snd k) (re_source x) u"
        using True l Inr by (simp add: on_resolved_def Let_def u_def)
      have "fst k \<in> fst ` set (wd_active s)" using l(1) by (force dest: map_of_SomeD)
      then have u: "fst ` set (wd_active u) = fst ` set (wd_active s)" "layer_ids u = layer_ids s" "source_ids u = source_ids s"
        "wd_statuses u = wd_statuses s" "wd_ready u = wd_ready s" "wd_disposed u = wd_disposed s"
        by (auto simp: u_def set_keys_map_set layer_ids_def source_ids_def split: option.split)
      have "wd_ready (addReadyLayer l' (snd k) (re_source x) u) = wd_ready s"
        "wd_disposed (addReadyLayer l' (snd k) (re_source x) u) = wd_disposed s"
        using u by (simp_all add: addReadyLayer_def addLayerOverlay_def Let_def)
      moreover have sub: "source_ids s \<subseteq> source_ids (addReadyLayer l' (snd k) (re_source x) u)"
        using addReadyLayer_status(3) u(3) by metis
      moreover have "loaded_ok (wd_statuses s) (source_ids s) \<Longrightarrow>
          loaded_ok (wd_statuses s) (source_ids (addReadyLayer l' (snd k) (re_source x) u))"
        by (rule loaded_ok_mono [OF _ sub])
      ultimately show ?thesis unfolding t by (intro status_frame [OF assms]) (simp_all add: addReadyLayer_status u)
    qed
  qed
qed

lemma replaced_statuses:
  assumes "status_inv s" and "loaded_ok (wd_statuses s) (source_ids s) \<Longrightarrow> loaded_ok m (source_ids s)"
    and "map fst m = map fst (wd_statuses s)"
  shows "status_inv (report (s\<lparr>wd_statuses := m\<rparr>))"
proof (rule status_frame [OF assms(1)])
  have "fst ` set m = fst ` set (wd_statuses s)" using arg_cong [OF assms(3), of set] by simp
  then show "fst ` set (wd_statuses s) \<subseteq> fst ` set (wd_statuses (report (s\<lparr>wd_statuses := m\<rparr>)))" by simp
  have "source_ids (s\<lparr>wd_statuses := m\<rparr>) = source_ids s" by (simp add: source_ids_def)
  then show "loaded_ok (wd_statuses s) (source_ids s) \<Longrightarrow>
      loaded_ok (wd_statuses (report (s\<lparr>wd_statuses := m\<rparr>))) (source_ids (report (s\<lparr>wd_statuses := m\<rparr>)))"
    using assms(2) by simp
qed (simp_all add: source_ids_def layer_ids_def)

lemma reported_status:
  assumes "status_inv s" shows "status_inv (reportLoadedSources loaded s)"
proof -
  have "fst (loaded_status loaded s e) = fst e" for e by (simp add: loaded_status_def)
  then have "map fst (map (loaded_status loaded s) (wd_statuses s)) = map fst (wd_statuses s)" by simp
  moreover have "loaded_ok (wd_statuses s) (source_ids s) \<Longrightarrow>
      loaded_ok (map (loaded_status loaded s) (wd_statuses s)) (source_ids s)"
    by (auto simp: loaded_ok_def loaded_status_def source_ids_def split: if_splits)
  ultimately show ?thesis using replaced_statuses [OF assms] assms by (simp add: reportLoadedSources_def)
qed

lemma loading_status:
  assumes "status_inv s" shows "status_inv (on_sourcedataloading sourceId s)"
  unfolding on_sourcedataloading_def
  by (rule replaced_statuses [OF assms]) (auto simp: loaded_ok_def split: if_splits)

lemma toggled_not_loaded: "ls_status (toggled_status s i visible st) \<noteq> StatusLoaded"
  by (simp add: toggled_status_def preparation_load_def Let_def split: option.split preparation.split)

lemma toggle_status:
  assumes "status_inv s" shows "status_inv (changeLayerVisibility i visible s)"
proof -
  define s1 where "s1 = (if wd_disposed s then s
    else report (case map_of (wd_statuses s) i of None \<Rightarrow> s | Some st \<Rightarrow> set_status i (toggled_status s i visible st) s))"
  have eq: "changeLayerVisibility i visible s =
    (case config_layer_named i s1 of None \<Rightarrow> s1
     | Some l \<Rightarrow> s1\<lparr>wd_config := set_config_layer (l\<lparr>rl_visible := visible\<rparr>) (wd_config s1),
         wd_names := map_set (rl_layer_name l) visible (wd_names s1)\<rparr>)"
    unfolding changeLayerVisibility_def s1_def Let_def by (rule refl)
  have "status_inv s1"
    by (rule status_frame [OF assms])
      (auto simp: s1_def set_keys_map_set toggled_not_loaded intro: loaded_ok_set split: option.split)
  then have "status_inv (s1\<lparr>wd_config := set_config_layer l (wd_config s1), wd_names := ns\<rparr>)" for l ns
    by (simp add: status_inv_def status_ok_def source_ids_def layer_ids_def)
  with \<open>status_inv s1\<close> show ?thesis unfolding eq by (simp split: option.split)
qed

lemma error_status:
  assumes "status_inv s" shows "status_inv (handleError k visible d s)"
proof (rule status_frame [OF assms])
  show "loaded_ok (wd_statuses s) (source_ids s) \<Longrightarrow>
      loaded_ok (wd_statuses (handleError k visible d s)) (source_ids (handleError k visible d s))"
    by (auto simp: handleError_def report_error_def Let_def source_ids_def fail_statuses(1) intro!: loaded_ok_set split: option.split)
  have "(i, st) \<in> set (wd_statuses u) \<Longrightarrow> i \<in> fst ` set (wd_statuses (failLayer j e u))" for i st j e u
    using fail_statuses(2) by force
  then show "fst ` set (wd_statuses s) \<subseteq> fst ` set (wd_statuses (handleError k visible d s))"
    by (auto simp: handleError_def report_error_def Let_def set_keys_map_set split: option.split)
qed (auto simp: handleError_def report_error_def Let_def source_ids_def layer_ids_def split: option.split)

lemma status_step:
  assumes "layout_inv s" and "status_inv s" shows "status_inv (widget_step e s)"
proof (cases e)
  case (Idle loaded)
  have "status_inv (reportLoadedSources loaded s)" by (rule reported_status [OF assms(2)])
  then show ?thesis by (simp add: Idle on_idle_def status_inv_def status_ok_def source_ids_def layer_ids_def)
next
  case (MapError sourceId)
  show ?thesis unfolding MapError
    by (rule status_frame [OF assms(2)]) (simp_all add: on_map_error_def source_ids_def layer_ids_def)
next
  case (Renewed i ok)
  show ?thesis unfolding Renewed
    by (rule status_frame [OF assms(2)])
      (use fail_statuses in \<open>auto simp: on_renewed_def Let_def source_ids_def layer_ids_def\<close>)
next
  case (ChangeBasemap b)
  show ?thesis unfolding ChangeBasemap
    by (rule status_frame [OF assms(2)]) (simp_all add: changeBasemap_def)
next
  case Deliver
  show ?thesis unfolding Deliver
    by (rule status_frame [OF assms(2)]) (auto simp: deliver_def source_ids_def layer_ids_def split: list.split)
next
  case Dispose
  then show ?thesis by (simp add: status_inv_def dispose_def)
qed (simp_all add: assms style_load_status configure_status reported_status loading_status resolved_status error_status toggle_status)

lemma first_status_not_loaded: "ls_status (first_status l) \<noteq> StatusLoaded"
  by (simp add: first_status_def preparation_load_def split: option.split preparation.split)

lemma reachable_status: "widget_reachable s \<Longrightarrow> status_inv s"
proof (induction rule: widget_reachable.induct)
  case (opened c names tokens)
  have "loaded_ok (map (\<lambda>l. (rl_id l, first_status l)) (rc_layers c)) S" for S
    by (auto simp: loaded_ok_def first_status_not_loaded)
  then show ?case by (simp add: open_map_def status_inv_def status_ok_def)
next
  case (stepped s e)
  then show ?case using status_step reachable_layout by blast
qed

lemma overall_loaded:
  assumes "overall g sts = MapLoaded" and "st \<in> set sts"
  shows "ls_status st \<in> {StatusLoaded, StatusHidden, StatusEmptyResult}"
proof -
  have "filter is_failed sts = []" "\<not> list_ex is_unfinished sts"
    using assms(1) by (auto simp: overall_def Let_def split: if_splits)
  then have "\<not> is_failed st" "\<not> is_unfinished st" using assms(2) by (auto simp: filter_empty_conv list_ex_iff)
  then show ?thesis by (cases "ls_status st") (auto simp: is_failed_def is_unfinished_def)
qed

text \<open>
  C0: a report that the map is loaded is true: whenever the status that the widget reports to the host is \<open>loaded\<close>, each layer of the
  configuration has a status, and it is hidden, known to be empty, or its three overlays are on the map.
\<close>

theorem loaded_report_means_drawn:
  assumes "widget_reachable s" and "\<not> wd_disposed s" "wd_ready s" and "mst_status (snapshot_of s) = MapLoaded"
    and "i \<in> set (layer_ids s)"
  shows "\<exists>st. map_of (wd_statuses s) i = Some st \<and>
    (ls_status st = StatusHidden \<or> ls_status st = StatusEmptyResult \<or>
     ls_status st = StatusLoaded \<and> set (queryRenderLayerIds i) \<subseteq> yl_id ` set (wd_style s))"
proof -
  have ok: "status_ok s" "layout_ok s"
    using reachable_status [OF assms(1)] reachable_layout [OF assms(1)] assms(2) by (simp_all add: status_inv_def layout_inv_def)
  then have "i \<in> fst ` set (wd_statuses s)" using assms(3,5) by (auto simp: status_ok_def)
  then obtain st where st: "map_of (wd_statuses s) i = Some st" by (metis map_of_eq_None_iff not_Some_eq)
  then have mem: "(i, st) \<in> set (wd_statuses s)" by (rule map_of_SomeD)
  then have "ls_status st \<in> {StatusLoaded, StatusHidden, StatusEmptyResult}"
    using assms(4) overall_loaded by (force simp: snapshot_of_def Let_def)
  moreover have "set (queryRenderLayerIds i) \<subseteq> yl_id ` set (wd_style s)" if "ls_status st = StatusLoaded"
  proof -
    have "i \<in> source_ids s" using ok(1) mem that by (auto simp: status_ok_def loaded_ok_def)
    then show ?thesis using has_overlay_iff [OF ok(2) _ assms(5)] by (auto simp: has_layer_def)
  qed
  ultimately show ?thesis using st by auto
qed

theorem loaded_report_means_drawn_witness:
  "let s = widget_run (sample_events @ [Idle (\<lambda>i. True)]) (open_map [] [] sample_config) in
   mst_status (snapshot_of s) = MapLoaded \<and> set (queryRenderLayerIds ''b'') \<subseteq> yl_id ` set (wd_style s)"
proof -
  let ?es = "sample_events @ [Idle (\<lambda>i. True)]"
  let ?s = "widget_run ?es (open_map [] [] sample_config)"
  have "distinct (map rl_id (rc_layers sample_config))" by (simp add: sample_config_def sample_layer_def)
  moreover have "events_ok ?es (open_map [] [] sample_config)" by code_simp
  ultimately have reach: "widget_reachable ?s" using run_reachable widget_reachable.opened by blast
  have s: "\<not> wd_disposed ?s" "wd_ready ?s" "mst_status (snapshot_of ?s) = MapLoaded" "''b'' \<in> set (layer_ids ?s)" by code_simp+
  have "map_option ls_status (map_of (wd_statuses ?s) ''b'') = Some StatusLoaded" by code_simp
  then show ?thesis using loaded_report_means_drawn [OF reach s] s(3) by (auto simp: Let_def)
qed

end
