(* ===== verification/WidgetSelection.thy ===== *)
theory WidgetSelection
  imports WidgetMap
begin

text \<open>
  Selecting features on the widget's map, \<open>dataset-mcp/ui/src/components/MapView.tsx\<close>: the box that is dragged, clicks, the
  highlighted features and the context that the host is told about them. The features that MapLibre finds and the answers of
  the host are parameters and events. Two results: the map can be panned unless a box is being dragged, and
  a selection that the host may still hold is never forgotten.
\<close>

section \<open>The state\<close>

text \<open>What MapLibre renders at a point and in a box, in the given layers; \<open>ml_present\<close> are the style's layers.\<close>

record map_view_library =
  ml_point :: "point \<Rightarrow> string list \<Rightarrow> map_feature list"
  ml_box :: "point \<times> point \<Rightarrow> string list \<Rightarrow> map_feature list"
  ml_present :: "string \<Rightarrow> bool"
  ml_compare :: "string \<Rightarrow> string \<Rightarrow> int"

text \<open>\<open>snapshotMapHighlights\<close>, as the record of its members.\<close>

definition highlight_of :: "highlighted_feature \<Rightarrow> snapshot_feature" where
  "highlight_of f =
     \<lparr>sf_id = hf_id f, sf_query_id = hf_queryId f, sf_layer_id = (if hf_queryId f = None then hf_layerId f else None),
      sf_layer_name = hf_layerName f, sf_source_layer_id = hf_sourceLayerId f, sf_feature_id = hf_featureId f,
      sf_centroid = hf_centroid f, sf_properties = hf_properties f\<rparr>"

definition snapshot_record :: "string \<Rightarrow> highlighted_feature list \<Rightarrow> bool \<Rightarrow> map_bounds option \<Rightarrow> highlight_snapshot" where
  "snapshot_record mapTitle fs wasCapped selectionBounds =
     \<lparr>hs_map_title = mapTitle, hs_count = length fs, hs_was_capped = wasCapped, hs_selection_bounds = selectionBounds,
      hs_features = map highlight_of fs\<rparr>"

definition cleared_snapshot :: "string \<Rightarrow> highlight_snapshot" where
  "cleared_snapshot mapTitle = snapshot_record mapTitle [] False None"

text \<open>
  A call of \<open>publishHighlightContext\<close> that waits for its answer: its number, whether its \<open>then\<close> takes the flag
  \<open>hasPublishedHighlightContext\<close> back, and whether it sets the status.
\<close>

record context_request =
  cq_sequence :: nat
  cq_snapshot :: highlight_snapshot
  cq_clears :: bool
  cq_updateStatus :: bool

text \<open>
  The refs and React state of the selection, MapLibre's panning, cursor and box (\<open>pk_boxLayers\<close>: its source and layers are there),
  and \<open>pk_host\<close>, the last update that the host has taken over, with its number.
\<close>

record picker =
  pk_map :: bool
  pk_config :: "render_config option"
  pk_toggle :: bool
  pk_shift :: bool
  pk_active :: bool
  pk_start :: "point option"
  pk_startLngLat :: "point option"
  pk_suppress :: bool
  pk_timers :: nat
  pk_dragPan :: bool
  pk_crosshair :: bool
  pk_boxLayers :: bool
  pk_box :: "point list option"
  pk_features :: "highlighted_feature list"
  pk_capped :: bool
  pk_bounds :: "map_bounds option"
  pk_hasBox :: bool
  pk_sequence :: nat
  pk_published :: bool
  pk_requests :: "context_request list"
  pk_status :: "context_status option"
  pk_host :: "(nat \<times> highlight_snapshot) option"

definition new_picker :: picker where
  "new_picker =
     \<lparr>pk_map = False, pk_config = None, pk_toggle = False, pk_shift = False, pk_active = False, pk_start = None,
      pk_startLngLat = None, pk_suppress = False, pk_timers = 0, pk_dragPan = True, pk_crosshair = False, pk_boxLayers = False,
      pk_box = None, pk_features = [], pk_capped = False, pk_bounds = None, pk_hasBox = False, pk_sequence = 0,
      pk_published = False, pk_requests = [], pk_status = None, pk_host = None\<rparr>"

definition current_title :: "picker \<Rightarrow> string" where
  "current_title s = (case pk_config s of None \<Rightarrow> [] | Some c \<Rightarrow> rc_title c)"

section \<open>The context of the host\<close>

definition publishHighlightContext :: "highlight_snapshot \<Rightarrow> bool \<Rightarrow> bool \<Rightarrow> picker \<Rightarrow> picker" where
  "publishHighlightContext snapshot clears updateStatus s =
     s\<lparr>pk_sequence := Suc (pk_sequence s), pk_status := (if updateStatus then None else pk_status s),
       pk_requests := pk_requests s @ [\<lparr>cq_sequence = Suc (pk_sequence s), cq_snapshot = snapshot, cq_clears = clears,
         cq_updateStatus = updateStatus\<rparr>]\<rparr>"

text \<open>
  The answer to the call of that number, and what follows it in the call. The host takes updates over in the order in which they
  were sent, so an older one changes nothing.
\<close>

definition host_takes :: "context_request \<Rightarrow> (nat \<times> highlight_snapshot) option \<Rightarrow> (nat \<times> highlight_snapshot) option" where
  "host_takes r h =
     (case h of None \<Rightarrow> Some (cq_sequence r, cq_snapshot r)
      | Some (n, x) \<Rightarrow> if n \<le> cq_sequence r then Some (cq_sequence r, cq_snapshot r) else h)"

definition on_answer :: "context_capability option \<Rightarrow> nat \<Rightarrow> bool \<Rightarrow> picker \<Rightarrow> picker" where
  "on_answer capability k accepts s =
     (case List.find (\<lambda>r. cq_sequence r = k) (pk_requests s) of
        None \<Rightarrow> s
      | Some r \<Rightarrow>
          (let status = snd (updateHighlightContext capability (cq_snapshot r) accepts); latest = (pk_sequence s = k) in
           s\<lparr>pk_requests := filter (\<lambda>x. cq_sequence x \<noteq> k) (pk_requests s),
             pk_host := (if status = Updated then host_takes r (pk_host s) else pk_host s),
             pk_status := (if cq_updateStatus r \<and> latest then Some status else pk_status s),
             pk_published := (if cq_clears r \<and> latest \<and> status \<noteq> Rejected then False else pk_published s)\<rparr>))"

section \<open>The selection box\<close>

definition setSelectionBoxFeature :: "point list option \<Rightarrow> picker \<Rightarrow> picker" where
  "setSelectionBoxFeature box s = s\<lparr>pk_boxLayers := True, pk_box := box\<rparr>"

definition cancelActiveBoxSelection :: "picker \<Rightarrow> picker" where
  "cancelActiveBoxSelection s =
     (if \<not> pk_map s \<or> pk_start s = None then s
      else (setSelectionBoxFeature None (s\<lparr>pk_start := None, pk_startLngLat := None, pk_dragPan := True\<rparr>))
        \<lparr>pk_crosshair := pk_active s, pk_hasBox := False\<rparr>)"

definition resetShiftSelectionOnBlur :: "picker \<Rightarrow> picker" where
  "resetShiftSelectionOnBlur s = cancelActiveBoxSelection (s\<lparr>pk_shift := False\<rparr>)"

definition selectionModeActive :: "picker \<Rightarrow> bool" where
  "selectionModeActive s \<longleftrightarrow> pk_toggle s \<or> pk_shift s"

text \<open>The effect after a render with another mode.\<close>

definition mode_rendered :: "picker \<Rightarrow> picker" where
  "mode_rendered s =
     (let s' = s\<lparr>pk_active := selectionModeActive s\<rparr> in
      if pk_map s \<and> pk_start s = None then s'\<lparr>pk_crosshair := selectionModeActive s\<rparr> else s')"

definition box_mousedown :: "bool \<Rightarrow> point \<Rightarrow> point \<Rightarrow> picker \<Rightarrow> picker" where
  "box_mousedown shiftHeld p lngLat s =
     (if \<not> pk_active s \<and> \<not> shiftHeld then s
      else (setSelectionBoxFeature (Some (selectionBoxFeature lngLat lngLat)) (s\<lparr>pk_start := Some p, pk_startLngLat := Some lngLat\<rparr>))
        \<lparr>pk_hasBox := True, pk_crosshair := True, pk_dragPan := False\<rparr>)"

definition box_mousemove :: "point \<Rightarrow> picker \<Rightarrow> picker" where
  "box_mousemove lngLat s =
     (case pk_startLngLat s of None \<Rightarrow> s
      | Some start \<Rightarrow> setSelectionBoxFeature (Some (selectionBoxFeature start lngLat)) s)"

section \<open>Selecting\<close>

text \<open>The features of the visible layers, normalised.\<close>

definition shown_layers :: "map_view_library \<Rightarrow> picker \<Rightarrow> string list" where
  "shown_layers ml s = (case pk_config s of None \<Rightarrow> [] | Some c \<Rightarrow> filter (ml_present ml) (allQueryRenderLayerIds c))"

definition normalized :: "map_view_library \<Rightarrow> map_feature list \<Rightarrow> picker \<Rightarrow> highlighted_feature list \<times> bool" where
  "normalized ml fs s =
     normalizeHighlightedFeatures (ml_compare ml) fs (case pk_config s of None \<Rightarrow> [] | Some c \<Rightarrow> highlightedLayers c)"

definition lngLat_bounds :: "point option \<Rightarrow> point \<Rightarrow> map_bounds" where
  "lngLat_bounds start end =
     (let st = with_default end start in
      (min (fst st) (fst end), min (snd st) (snd end), max (fst st) (fst end), max (snd st) (snd end)))"

definition map_click :: "map_view_library \<Rightarrow> point \<Rightarrow> picker \<Rightarrow> picker" where
  "map_click ml p s =
     (if pk_suppress s then s\<lparr>pk_suppress := False\<rparr>
      else
        (let (fs, capped) = normalized ml (ml_point ml p (shown_layers ml s)) s in
         publishHighlightContext (snapshot_record (current_title s) fs capped None) (fs = []) True
           (s\<lparr>pk_box := (if pk_boxLayers s then None else pk_box s), pk_features := fs, pk_capped := capped, pk_bounds := None,
              pk_hasBox := False, pk_published := (if fs \<noteq> [] then True else pk_published s)\<rparr>)))"

definition box_mouseup :: "map_view_library \<Rightarrow> point \<Rightarrow> point \<Rightarrow> picker \<Rightarrow> picker" where
  "box_mouseup ml p lngLat s =
     (case pk_start s of
        None \<Rightarrow> s
      | Some start \<Rightarrow>
          (let s1 = s\<lparr>pk_start := None, pk_startLngLat := None, pk_dragPan := True, pk_crosshair := pk_active s\<rparr> in
           if \<not> isSelectionDrag start p
           then (setSelectionBoxFeature None s1)\<lparr>pk_bounds := None, pk_hasBox := False\<rparr>
           else
             (let s2 = (case pk_startLngLat s of None \<Rightarrow> s1
                  | Some l \<Rightarrow> setSelectionBoxFeature (Some (selectionBoxFeature l lngLat)) s1);
                  (fs, capped) = normalized ml (ml_box ml (selectionScreenBounds start p) (shown_layers ml s)) s;
                  bounds = lngLat_bounds (pk_startLngLat s) lngLat
              in publishHighlightContext (snapshot_record (current_title s) fs capped (Some bounds)) False True
                (s2\<lparr>pk_suppress := True, pk_timers := Suc (pk_timers s), pk_features := fs, pk_capped := capped,
                   pk_bounds := Some bounds, pk_published := True\<rparr>))))"

definition clearSelection :: "picker \<Rightarrow> picker" where
  "clearSelection s =
     (let s1 = (if pk_map s
          then (setSelectionBoxFeature None (s\<lparr>pk_dragPan := (if pk_start s \<noteq> None then True else pk_dragPan s), pk_start := None,
            pk_startLngLat := None\<rparr>))\<lparr>pk_crosshair := selectionModeActive s\<rparr>
          else s);
          s2 = s1\<lparr>pk_features := [], pk_capped := False, pk_bounds := None, pk_hasBox := False\<rparr>
      in case pk_config s of None \<Rightarrow> s2
         | Some c \<Rightarrow> publishHighlightContext (cleared_snapshot (rc_title c)) True True s2)"

section \<open>The life of the map\<close>

text \<open>The box is part of the map that is removed; the number of the next request and the flag outlive it.\<close>

definition dispose_picker :: "picker \<Rightarrow> picker" where
  "dispose_picker s =
     (if \<not> pk_map s then s
      else s\<lparr>pk_map := False, pk_dragPan := (if pk_start s \<noteq> None then True else pk_dragPan s), pk_start := None,
        pk_startLngLat := None\<rparr>)"

definition clear_published :: "bool \<Rightarrow> picker \<Rightarrow> picker" where
  "clear_published updateStatus s =
     (case pk_config s of None \<Rightarrow> s
      | Some c \<Rightarrow>
          if pk_published s \<and> rc_title c \<noteq> []
          then publishHighlightContext (cleared_snapshot (rc_title c)) True updateStatus s else s)"

text \<open>
  A configuration of the same life cycle is only taken over; any other one disposes of the map, clears the host's context and
  makes a new map.
\<close>

definition take_configuration :: "render_config \<Rightarrow> picker \<Rightarrow> picker" where
  "take_configuration c s =
     (if (case pk_config s of None \<Rightarrow> False | Some previous \<Rightarrow> mapLifecycleKey previous = mapLifecycleKey c)
      then s\<lparr>pk_config := Some c\<rparr>
      else
        (let s1 = (dispose_picker s)\<lparr>pk_config := Some c\<rparr>;
             s2 = (if pk_published s1 then publishHighlightContext (cleared_snapshot (rc_title c)) True True s1 else s1)
         in s2\<lparr>pk_features := [], pk_capped := False, pk_bounds := None, pk_status := None, pk_toggle := False,
              pk_shift := False, pk_hasBox := False, pk_map := True, pk_dragPan := True, pk_crosshair := False,
              pk_boxLayers := False, pk_box := None\<rparr>))"

datatype picker_event =
    Configuration render_config
  | ToggleSelection
  | ShiftDown
  | ShiftUp
  | Blur
  | WindowMouseUp
  | ModeRendered
  | BoxMouseDown bool point point
  | BoxMouseMove point
  | BoxMouseUp point point
  | MapClick point
  | SuppressTimer
  | ClearSelection
  | HostAnswer nat bool
  | TearDown

text \<open>The handlers of the map's own events are gone with the map.\<close>

fun picker_step :: "context_capability option \<Rightarrow> map_view_library \<Rightarrow> picker_event \<Rightarrow> picker \<Rightarrow> picker" where
  "picker_step cap ml (Configuration c) s = take_configuration c s"
| "picker_step cap ml ToggleSelection s = s\<lparr>pk_toggle := \<not> pk_toggle s\<rparr>"
| "picker_step cap ml ShiftDown s = s\<lparr>pk_shift := True\<rparr>"
| "picker_step cap ml ShiftUp s = s\<lparr>pk_shift := False\<rparr>"
| "picker_step cap ml Blur s = resetShiftSelectionOnBlur s"
| "picker_step cap ml WindowMouseUp s = cancelActiveBoxSelection s"
| "picker_step cap ml ModeRendered s = mode_rendered s"
| "picker_step cap ml (BoxMouseDown shift p l) s = (if pk_map s then box_mousedown shift p l s else s)"
| "picker_step cap ml (BoxMouseMove l) s = (if pk_map s then box_mousemove l s else s)"
| "picker_step cap ml (BoxMouseUp p l) s = (if pk_map s then box_mouseup ml p l s else s)"
| "picker_step cap ml (MapClick p) s = (if pk_map s then map_click ml p s else s)"
| "picker_step cap ml SuppressTimer s = (if pk_timers s = 0 then s else s\<lparr>pk_suppress := False, pk_timers := pk_timers s - 1\<rparr>)"
| "picker_step cap ml ClearSelection s = clearSelection s"
| "picker_step cap ml (HostAnswer k accepts) s = on_answer cap k accepts s"
| "picker_step cap ml TearDown s = clear_published False (dispose_picker s)"

section \<open>Panning\<close>

inductive picker_reachable :: "context_capability option \<Rightarrow> map_view_library \<Rightarrow> picker \<Rightarrow> bool" for cap ml where
  started: "picker_reachable cap ml new_picker"
| stepped: "picker_reachable cap ml s \<Longrightarrow> picker_reachable cap ml (picker_step cap ml e s)"

definition picker_run :: "context_capability option \<Rightarrow> map_view_library \<Rightarrow> picker_event list \<Rightarrow> picker" where
  "picker_run cap ml es = fold (picker_step cap ml) es new_picker"

lemma run_reachable_picker: "picker_reachable cap ml (picker_run cap ml es)"
proof (induction es rule: rev_induct)
  case Nil
  show ?case by (simp add: picker_run_def picker_reachable.started)
next
  case (snoc e es)
  then show ?case by (simp add: picker_run_def picker_reachable.stepped)
qed

definition drag_ok :: "picker \<Rightarrow> bool" where
  "drag_ok s \<longleftrightarrow> pk_dragPan s = (pk_start s = None) \<and> (pk_start s = None \<longleftrightarrow> pk_startLngLat s = None) \<and>
     (\<not> pk_map s \<longrightarrow> pk_start s = None)"

lemmas drag_defs = setSelectionBoxFeature_def cancelActiveBoxSelection_def resetShiftSelectionOnBlur_def mode_rendered_def
  box_mousedown_def box_mousemove_def map_click_def box_mouseup_def clearSelection_def dispose_picker_def clear_published_def
  take_configuration_def publishHighlightContext_def on_answer_def Let_def

lemma drag_ok_step: "drag_ok s \<Longrightarrow> drag_ok (picker_step cap ml e s)"
  by (cases e) (auto simp: drag_ok_def drag_defs split: option.splits prod.splits)

lemma reachable_drag: "picker_reachable cap ml s \<Longrightarrow> drag_ok s"
proof (induction rule: picker_reachable.induct)
  case started
  show ?case by (simp add: drag_ok_def new_picker_def)
qed (rule drag_ok_step)

text \<open>
  C0: the widget's map can be panned at any time unless a selection box is being dragged, whatever was pressed, clicked,
  cleared, answered or reconfigured before; and releasing the button, on the map or anywhere else in the window, and leaving the
  window give panning back.
\<close>

theorem panning_unless_dragging:
  assumes "picker_reachable cap ml s"
  shows "(pk_dragPan s \<longleftrightarrow> pk_start s = None) \<and> pk_dragPan (picker_step cap ml WindowMouseUp s) \<and>
    pk_dragPan (picker_step cap ml (BoxMouseUp p l) s) \<and> pk_dragPan (picker_step cap ml Blur s)"
  using reachable_drag [OF assms]
  by (auto simp: drag_ok_def drag_defs split: option.splits prod.splits)

section \<open>The selection that the host holds\<close>

definition held :: "picker \<Rightarrow> snapshot_feature list" where
  "held s = (case pk_host s of None \<Rightarrow> [] | Some (n, x) \<Rightarrow> hs_features x)"

definition supported :: "context_capability option \<Rightarrow> bool" where
  "supported cap \<longleftrightarrow> (case cap of None \<Rightarrow> False | Some c \<Rightarrow> cc_text c \<or> cc_structured c)"

lemma update_status:
  "snd (updateHighlightContext cap x accepts) = (if \<not> supported cap then Unsupported else if accepts then Updated else Rejected)"
  by (auto simp: updateHighlightContext_def context_update_def supported_def split: option.splits)

text \<open>Requests are numbered upwards; those that take the flag back clear the selection; without capability the host holds nothing.\<close>

definition requests_ok :: "context_capability option \<Rightarrow> picker \<Rightarrow> bool" where
  "requests_ok cap s \<longleftrightarrow>
     (\<forall>r \<in> set (pk_requests s). cq_sequence r \<le> pk_sequence s \<and> (cq_clears r \<longrightarrow> hs_features (cq_snapshot r) = [])) \<and>
     distinct (map cq_sequence (pk_requests s)) \<and> (\<forall>n x. pk_host s = Some (n, x) \<longrightarrow> n \<le> pk_sequence s) \<and>
     (supported cap \<or> pk_host s = None)"

text \<open>Nothing is held, and an answer that is still to come cannot change that.\<close>

definition nothing_held :: "context_capability option \<Rightarrow> picker \<Rightarrow> bool" where
  "nothing_held cap s \<longleftrightarrow> held s = [] \<and>
     (supported cap \<longrightarrow> (\<forall>r \<in> set (pk_requests s). hs_features (cq_snapshot r) = [] \<or>
       (\<exists>n x. pk_host s = Some (n, x) \<and> cq_sequence r < n)))"

definition context_ok :: "context_capability option \<Rightarrow> picker \<Rightarrow> bool" where
  "context_ok cap s \<longleftrightarrow> requests_ok cap s \<and> (pk_published s \<or> nothing_held cap s)"

lemma cleared_features [simp]: "hs_features (cleared_snapshot t) = []"
  by (simp add: cleared_snapshot_def snapshot_record_def)

lemma publish_ok:
  assumes "context_ok cap s" and "clears \<Longrightarrow> hs_features x = []" and "hs_features x \<noteq> [] \<Longrightarrow> pk_published s"
  shows "context_ok cap (publishHighlightContext x clears u s)"
proof -
  have "requests_ok cap (publishHighlightContext x clears u s)"
    using assms(1,2) by (auto simp: context_ok_def requests_ok_def publishHighlightContext_def le_Suc_eq)
  then show ?thesis using assms(1,3) by (auto simp: context_ok_def nothing_held_def held_def publishHighlightContext_def)
qed

lemma publish_cleared [simp]: "context_ok cap s \<Longrightarrow> context_ok cap (publishHighlightContext (cleared_snapshot t) c u s)"
  by (rule publish_ok) simp_all

text \<open>What a step must keep besides publishing.\<close>

definition context_part :: "picker \<Rightarrow> nat \<times> context_request list \<times> (nat \<times> highlight_snapshot) option" where
  "context_part s = (pk_sequence s, pk_requests s, pk_host s)"

lemma context_ok_frame:
  assumes "context_part t = context_part s" and "pk_published s \<Longrightarrow> pk_published t" and "context_ok cap s"
  shows "context_ok cap t"
  using assms by (auto simp: context_part_def context_ok_def requests_ok_def nothing_held_def held_def)

lemma answer_ok:
  assumes "context_ok cap s" shows "context_ok cap (on_answer cap k accepts s)"
proof (cases "List.find (\<lambda>r. cq_sequence r = k) (pk_requests s)")
  case None
  then show ?thesis using assms by (simp add: on_answer_def)
next
  case (Some r)
  let ?t = "on_answer cap k accepts s"
  have r: "r \<in> set (pk_requests s)" "cq_sequence r = k" using Some by (auto simp: find_Some_iff in_set_conv_nth)
  note ok = assms [unfolded context_ok_def requests_ok_def]
  have t: "pk_sequence ?t = pk_sequence s" "pk_requests ?t = filter (\<lambda>x. cq_sequence x \<noteq> k) (pk_requests s)"
    "pk_host ?t = (if supported cap \<and> accepts then host_takes r (pk_host s) else pk_host s)"
    "pk_published ?t = (if cq_clears r \<and> pk_sequence s = k \<and> (supported cap \<longrightarrow> accepts) then False else pk_published s)"
    using Some by (auto simp: on_answer_def Let_def update_status)
  have "requests_ok cap ?t" using ok r
    by (auto simp: requests_ok_def t host_takes_def intro: distinct_map_filter split: option.splits if_splits)
  moreover have "nothing_held cap ?t" if np: "\<not> pk_published ?t"
  proof (cases "pk_published s")
    case True
    then have c: "cq_clears r" "pk_sequence s = k" "supported cap \<longrightarrow> accepts" using np t(4) by (auto split: if_splits)
    have older: "\<forall>x \<in> set (pk_requests ?t). cq_sequence x < k"
      using ok c(2) by (auto simp: t(2) intro: le_neq_implies_less)
    show ?thesis
    proof (cases "supported cap")
      case True
      have "n \<le> k" if "pk_host s = Some (n, x)" for n x using that ok c(2) by blast
      then have "pk_host ?t = Some (k, cq_snapshot r)"
        unfolding t(3) using True c(3) r(2) by (auto simp: host_takes_def split: option.split)
      moreover have "hs_features (cq_snapshot r) = []" using ok r(1) c(1) by blast
      ultimately show ?thesis using older by (simp add: nothing_held_def held_def)
    next
      case False
      then show ?thesis using ok by (simp add: nothing_held_def held_def t(3))
    qed
  next
    case False
    then have nh: "nothing_held cap s" using ok by blast
    show ?thesis
    proof (cases "supported cap \<and> accepts")
      case True
      then have host: "pk_host ?t = host_takes r (pk_host s)" using t(3) by simp
      have "hs_features (cq_snapshot r) = [] \<or> (\<exists>n x. pk_host s = Some (n, x) \<and> cq_sequence r < n)"
        using True nh r(1) by (auto simp: nothing_held_def)
      then have "held ?t = []" using nh
        by (auto simp: held_def host host_takes_def nothing_held_def split: option.splits)
      moreover have "hs_features (cq_snapshot x) = [] \<or> (\<exists>n y. pk_host ?t = Some (n, y) \<and> cq_sequence x < n)"
        if "x \<in> set (pk_requests ?t)" for x
      proof -
        have "hs_features (cq_snapshot x) = [] \<or> (\<exists>n y. pk_host s = Some (n, y) \<and> cq_sequence x < n)"
          using that [unfolded t(2)] True nh by (auto simp: nothing_held_def)
        moreover have "\<exists>m y. pk_host ?t = Some (m, y) \<and> cq_sequence x < m" if "pk_host s = Some (n, y)" "cq_sequence x < n" for n y
          using that by (cases "n \<le> cq_sequence r") (simp_all add: host host_takes_def)
        ultimately show ?thesis by blast
      qed
      ultimately show ?thesis by (simp add: nothing_held_def)
    next
      case False
      then have host: "pk_host ?t = pk_host s" unfolding t(3) by auto
      have "set (pk_requests ?t) \<subseteq> set (pk_requests s)" unfolding t(2) by auto
      then show ?thesis using nh unfolding nothing_held_def held_def host by blast
    qed
  qed
  ultimately show ?thesis by (auto simp: context_ok_def)
qed

lemmas selection_defs = setSelectionBoxFeature_def cancelActiveBoxSelection_def resetShiftSelectionOnBlur_def mode_rendered_def
  box_mousedown_def box_mousemove_def dispose_picker_def context_part_def Let_def

lemma frame_step:
  assumes "context_ok cap s" and "e \<in> {ToggleSelection, ShiftDown, ShiftUp, Blur, WindowMouseUp, ModeRendered, SuppressTimer} \<or>
    (\<exists>b p l. e = BoxMouseDown b p l) \<or> (\<exists>l. e = BoxMouseMove l)"
  shows "context_ok cap (picker_step cap ml e s)"
  by (rule context_ok_frame [OF _ _ assms(1)]) (use assms(2) in \<open>auto simp: selection_defs split: option.split\<close>)

lemma dispose_context [simp]:
  "context_part (dispose_picker s) = context_part s" "pk_published (dispose_picker s) = pk_published s"
  "pk_config (dispose_picker s) = pk_config s"
  by (simp_all add: dispose_picker_def context_part_def)

lemma snapshot_features: "hs_features (snapshot_record t fs b k) \<noteq> [] \<longleftrightarrow> fs \<noteq> []"
  by (simp add: snapshot_record_def)

lemma click_context:
  assumes "context_ok cap s" shows "context_ok cap (map_click ml p s)"
proof (cases "pk_suppress s")
  case True
  then show ?thesis using context_ok_frame [OF _ _ assms] by (simp add: map_click_def context_part_def)
next
  case False
  obtain fs capped where n: "normalized ml (ml_point ml p (shown_layers ml s)) s = (fs, capped)" by force
  let ?s = "s\<lparr>pk_box := (if pk_boxLayers s then None else pk_box s), pk_features := fs, pk_capped := capped, pk_bounds := None,
    pk_hasBox := False, pk_published := (if fs \<noteq> [] then True else pk_published s)\<rparr>"
  have "context_ok cap ?s" by (rule context_ok_frame [OF _ _ assms]) (simp_all add: context_part_def)
  then have "context_ok cap (publishHighlightContext (snapshot_record (current_title s) fs capped None) (fs = []) True ?s)"
    by (rule publish_ok) (use snapshot_features in auto)
  then show ?thesis using False by (simp add: map_click_def n)
qed

lemma mouseup_context:
  assumes "context_ok cap s" shows "context_ok cap (box_mouseup ml p l s)"
proof (cases "\<exists>start. pk_start s = Some start \<and> isSelectionDrag start p")
  case False
  then show ?thesis using context_ok_frame [OF _ _ assms]
    by (auto simp: box_mouseup_def selection_defs split: option.split)
next
  case True
  then obtain start where start: "pk_start s = Some start" "isSelectionDrag start p" by blast
  obtain fs capped where n: "normalized ml (ml_box ml (selectionScreenBounds start p) (shown_layers ml s)) s = (fs, capped)" by force
  let ?s1 = "s\<lparr>pk_start := None, pk_startLngLat := None, pk_dragPan := True, pk_crosshair := pk_active s\<rparr>"
  let ?s2 = "case pk_startLngLat s of None \<Rightarrow> ?s1 | Some k \<Rightarrow> setSelectionBoxFeature (Some (selectionBoxFeature k l)) ?s1"
  let ?b = "lngLat_bounds (pk_startLngLat s) l"
  let ?s = "?s2\<lparr>pk_suppress := True, pk_timers := Suc (pk_timers s), pk_features := fs, pk_capped := capped, pk_bounds := Some ?b,
    pk_published := True\<rparr>"
  have "context_ok cap ?s"
    by (rule context_ok_frame [OF _ _ assms]) (simp_all add: context_part_def setSelectionBoxFeature_def split: option.split)
  then have "context_ok cap (publishHighlightContext (snapshot_record (current_title s) fs capped (Some ?b)) False True ?s)"
    by (rule publish_ok) auto
  then show ?thesis using start by (simp add: box_mouseup_def n Let_def)
qed

lemma clear_context:
  assumes "context_ok cap s" shows "context_ok cap (clearSelection s)"
proof -
  define s2 where "s2 = (if pk_map s
      then (setSelectionBoxFeature None (s\<lparr>pk_dragPan := (if pk_start s \<noteq> None then True else pk_dragPan s), pk_start := None,
        pk_startLngLat := None\<rparr>))\<lparr>pk_crosshair := selectionModeActive s\<rparr>
      else s)\<lparr>pk_features := [], pk_capped := False, pk_bounds := None, pk_hasBox := False\<rparr>"
  have "context_ok cap s2"
    by (rule context_ok_frame [OF _ _ assms]) (simp_all add: s2_def context_part_def setSelectionBoxFeature_def)
  moreover have "clearSelection s = (case pk_config s of None \<Rightarrow> s2
      | Some c \<Rightarrow> publishHighlightContext (cleared_snapshot (rc_title c)) True True s2)"
    unfolding clearSelection_def s2_def Let_def by (rule refl)
  ultimately show ?thesis by (simp split: option.split)
qed

lemma configuration_context:
  assumes "context_ok cap s" shows "context_ok cap (take_configuration c s)"
proof (cases "case pk_config s of None \<Rightarrow> False | Some previous \<Rightarrow> mapLifecycleKey previous = mapLifecycleKey c")
  case True
  then show ?thesis using context_ok_frame [OF _ _ assms] by (simp add: take_configuration_def context_part_def)
next
  case False
  let ?s1 = "(dispose_picker s)\<lparr>pk_config := Some c\<rparr>"
  let ?s2 = "if pk_published ?s1 then publishHighlightContext (cleared_snapshot (rc_title c)) True True ?s1 else ?s1"
  have "context_ok cap ?s1"
    by (rule context_ok_frame [OF _ _ assms]) (simp_all add: dispose_picker_def context_part_def)
  then have "context_ok cap ?s2" by simp
  then show ?thesis unfolding take_configuration_def if_not_P [OF False] Let_def
    by (rule context_ok_frame [rotated 2]) (simp_all add: context_part_def)
qed

lemma teardown_context:
  assumes "context_ok cap s" shows "context_ok cap (clear_published u (dispose_picker s))"
proof -
  have "context_ok cap (dispose_picker s)" by (rule context_ok_frame [OF _ _ assms]) simp_all
  then show ?thesis by (simp add: clear_published_def split: option.split)
qed

lemma context_ok_step:
  assumes "context_ok cap s" shows "context_ok cap (picker_step cap ml e s)"
proof (cases "e \<in> {ToggleSelection, ShiftDown, ShiftUp, Blur, WindowMouseUp, ModeRendered, SuppressTimer} \<or>
    (\<exists>b p l. e = BoxMouseDown b p l) \<or> (\<exists>l. e = BoxMouseMove l)")
  case True
  then show ?thesis by (rule frame_step [OF assms])
next
  case False
  then consider c where "e = Configuration c" | p l where "e = BoxMouseUp p l" | p where "e = MapClick p"
    | "e = ClearSelection" | k a where "e = HostAnswer k a" | "e = TearDown"
    by (cases e) auto
  then show ?thesis
    by cases (simp_all add: assms configuration_context mouseup_context click_context clear_context answer_ok teardown_context)
qed

lemma reachable_context: "picker_reachable cap ml s \<Longrightarrow> context_ok cap s"
proof (induction rule: picker_reachable.induct)
  case started
  show ?case by (simp add: context_ok_def requests_ok_def nothing_held_def held_def new_picker_def)
qed (rule context_ok_step)

lemma later_answers:
  assumes "context_ok cap s" and "\<not> pk_published s"
  shows "context_ok cap (fold (\<lambda>(k, a). on_answer cap k a) answers s) \<and>
    \<not> pk_published (fold (\<lambda>(k, a). on_answer cap k a) answers s)"
  using assms
proof (induction answers arbitrary: s)
  case (Cons x xs)
  obtain k a where x: "x = (k, a)" by (cases x)
  have "\<not> pk_published (on_answer cap k a s)"
    using Cons.prems(2) by (simp add: on_answer_def Let_def split: option.split)
  then show ?case using Cons.IH answer_ok [OF Cons.prems(1)] by (simp add: x)
qed simp

lemma unpublished_held: "context_ok cap s \<Longrightarrow> \<not> pk_published s \<Longrightarrow> held s = []"
  by (simp add: context_ok_def nothing_held_def)

lemma find_latest:
  assumes "\<forall>r \<in> set rs. cq_sequence r < n" and "cq_sequence r = n"
  shows "List.find (\<lambda>r. cq_sequence r = n) (rs @ [r]) = Some r"
  using assms by (induction rs) auto

text \<open>
  C0: the widget never leaves a selection behind with the host: once the flag that it keeps about published highlights is off, the
  host holds no selected features, and no answer that is still under way can change that; and when the widget is torn
  down, the answer to its last update leaves the host without selected features.
\<close>

theorem released_selection_is_cleared:
  assumes "picker_reachable cap ml s" and "pk_config s = Some c" "rc_title c \<noteq> []"
  shows "(\<not> pk_published s \<longrightarrow> held (fold (\<lambda>(k, a). on_answer cap k a) answers s) = []) \<and>
    (let t = picker_step cap ml TearDown s in held (on_answer cap (pk_sequence t) True t) = [])"
proof (rule conjI)
  have ok: "context_ok cap s" by (rule reachable_context [OF assms(1)])
  show "\<not> pk_published s \<longrightarrow> held (fold (\<lambda>(k, a). on_answer cap k a) answers s) = []"
    using later_answers [OF ok] unpublished_held by blast
  define t where "t = picker_step cap ml TearDown s"
  have t: "context_ok cap t" unfolding t_def by (rule context_ok_step [OF ok])
  have "\<not> pk_published (on_answer cap (pk_sequence t) True t)"
  proof (cases "pk_published s")
    case True
    define d where "d = dispose_picker s"
    have d: "context_ok cap d" unfolding d_def by (rule context_ok_frame [OF _ _ ok]) simp_all
    then have "\<forall>r \<in> set (pk_requests d). cq_sequence r < Suc (pk_sequence d)"
      by (auto simp: context_ok_def requests_ok_def less_Suc_eq_le)
    moreover have "t = publishHighlightContext (cleared_snapshot (rc_title c)) True False d"
      using True assms(2,3) by (simp add: t_def d_def clear_published_def)
    ultimately show ?thesis
      by (simp add: on_answer_def publishHighlightContext_def find_latest update_status Let_def)
  next
    case False
    then have "\<not> pk_published t" by (simp add: t_def clear_published_def split: option.split)
    then show ?thesis using later_answers [OF t, of "[(pk_sequence t, True)]"] by simp
  qed
  then show "let t = picker_step cap ml TearDown s in held (on_answer cap (pk_sequence t) True t) = []"
    using unpublished_held answer_ok [OF t] unfolding Let_def t_def [symmetric] by blast
qed

section \<open>Examples\<close>

definition demo_config :: render_config where
  "demo_config = \<lparr>rc_title = ''t'', rc_basemap = Street, rc_worker_url = [], rc_camera = None,
     rc_layers = [\<lparr>rl_id = ''a'', rl_layer_name = ''a'', rl_visible = True, rl_style = None, rl_columns = [],
       rl_source_layer = ''l'', rl_initial_bounds = None, rl_result_status = None, rl_query_id = None, rl_query_token = None,
       rl_tile_url = None, rl_source = Some (PmtilesSource [] None), rl_preparation = None, rl_preparation_error = None\<rparr>]\<rparr>"

definition demo_view :: map_view_library where
  "demo_view =
     (let f = \<lparr>mf_id = Some (IdNumber (JsFin 7)), mf_source = querySourceId ''a'', mf_sourceLayer = None, mf_layer_id = ''l'',
        mf_layer_source_layer = None, mf_properties = [], mf_geometry = Geometry ''Point'' (CArr [CNum 1, CNum 2])\<rparr>
      in \<lparr>ml_point = (\<lambda>p ls. [f]), ml_box = (\<lambda>b ls. [f]), ml_present = (\<lambda>i. True), ml_compare = (\<lambda>a b. 0)\<rparr>)"

definition demo_capability :: "context_capability option" where
  "demo_capability = Some \<lparr>cc_text = False, cc_structured = True\<rparr>"

text \<open>A feature is selected by a box, and the host takes the update over.\<close>

definition demo_selection :: "picker_event list" where
  "demo_selection = [Configuration demo_config, ShiftDown, ModeRendered, BoxMouseDown True (0, 0) (0, 0), BoxMouseMove (1, 1),
     BoxMouseUp (9, 9) (2, 2), HostAnswer 1 True]"

theorem panning_unless_dragging_witness:
  "pk_dragPan (picker_run demo_capability demo_view demo_selection) \<and>
   \<not> pk_dragPan (picker_run demo_capability demo_view (take 5 demo_selection))"
proof
  let ?s = "picker_run demo_capability demo_view"
  have "pk_start (?s demo_selection) = None" by code_simp
  then show "pk_dragPan (?s demo_selection)"
    using panning_unless_dragging [OF run_reachable_picker [of demo_capability demo_view demo_selection]] by simp
  have "pk_start (?s (take 5 demo_selection)) \<noteq> None" by code_simp
  then show "\<not> pk_dragPan (?s (take 5 demo_selection))"
    using panning_unless_dragging [OF run_reachable_picker [of demo_capability demo_view "take 5 demo_selection"]] by simp
qed

theorem released_selection_is_cleared_witness:
  "let s = picker_run demo_capability demo_view demo_selection; t = picker_step demo_capability demo_view TearDown s in
   length (held s) = 1 \<and> held (on_answer demo_capability (pk_sequence t) True t) = []"
proof -
  let ?s = "picker_run demo_capability demo_view demo_selection"
  have "pk_config ?s = Some demo_config" by code_simp
  moreover have "rc_title demo_config \<noteq> []" by (simp add: demo_config_def)
  moreover have "length (held ?s) = 1" by code_simp
  ultimately show ?thesis
    using released_selection_is_cleared [OF run_reachable_picker [of demo_capability demo_view demo_selection]]
    by (simp add: Let_def)
qed

end
