(* ===== verification/Spec2Isabelle.thy ===== *)
theory Spec2Isabelle
  imports CatalogLifecycle McpApp DatasetSources LayerStyles FeatureSelection WebMcpTools CatalogFiles FeatureDiff StacApi MapEvents QueryApi CatalogTools WidgetStatus WidgetSelection
begin

text \<open>
  A verification library of HIFLD Next, the catalogue of public environmental data: its web
  application (\<open>src/webapp\<close>), the map core package (\<open>src/packages/map-core\<close>) and the map widget of
  the dataset MCP server (\<open>src/dataset-mcp/ui\<close>).

  \<^bold>\<open>The program.\<close> A published catalogue is a SQLite file. \<open>CatalogLifecycle\<close> keeps one such file open,
  replaces it while requests are reading, and hands each request a repository of queries. The API
  routes turn rows of the repository and published STAC documents into responses: listings with
  paging links, files with versions and assets, and a STAC API. The web client shapes files for
  display, and its map page keeps a list of layers that the visitor, the URL and the WebMCP tools
  change by commands; the viewer synchronises a MapLibre map with that list, colours the layers and
  compares selected features of two versions. The MCP widget shows a map of query layers whose
  tokens expire and are refreshed through its host.

  \<^bold>\<open>Theories.\<close>
  \<^item> \<open>JsPrelude\<close>, \<open>JsNumbers\<close>, \<open>JsJson\<close>, \<open>JsUrl\<close>, \<open>JsBytes\<close>, \<open>JsSchema\<close>: the part of JavaScript and its
    libraries that the source uses: numbers with NaN and infinities, strings, insertion-ordered maps and sets,
    stable sorting, number parsing and printing, \<open>JSON\<close>, percent encoding, \<open>URLSearchParams\<close>, UTF-8 bytes,
    zod schemas as parsers of JSON values.
  \<^item> \<open>CatalogCandidate\<close>, \<open>CatalogLifecycle\<close>: \<open>lib/catalog-repository.ts\<close>, the validation of a candidate
    file, pointer and URL snapshots, and the life cycle as a state machine whose events are the
    returns of its awaits. \<open>CatalogStore\<close>: the queries of \<open>SQLiteCatalogRepository\<close> on lists of rows.
  \<^item> \<open>ApiLinks\<close>, \<open>CatalogListing\<close>, \<open>CatalogFiles\<close>, \<open>StacApi\<close>: \<open>lib/api-links.ts\<close>, \<open>api-problem.ts\<close>,
    \<open>catalog-listing.ts\<close>, \<open>catalog-api.ts\<close>, \<open>catalog-identity.ts\<close>, \<open>stac-api.ts\<close>, \<open>catalog-stac.ts\<close>,
    parts of \<open>api-client.ts\<close>, and the routes over them.
  \<^item> \<open>VersionLabel\<close>, \<open>DatasetSources\<close>: \<open>components/dataset/\<close> (version labels, source URLs, comparable and
    schema sources, the GeoParquet tree, previews).
  \<^item> \<open>MapCore\<close>: \<open>packages/map-core/src\<close> (colours, breaks, legends, categories, palettes, selection
    boxes, basemap controls, query tiles).
  \<^item> \<open>LayerStyles\<close>, \<open>MapLayers\<close>, \<open>FeatureSelection\<close>, \<open>FeatureDiff\<close>, \<open>MapWorkspace\<close>, \<open>MapSources\<close>, \<open>MapEvents\<close>:
    \<open>components/viewer\<close> and \<open>components/map\<close> (styles and category registries; source descriptors and
    loaded layers; capped selections and highlights; the version comparison; workspace commands as
    the hook runs them; the synchronisation of the map with the loaded layers; failing tiles, selection boxes and clicks).
  \<^item> \<open>QueryApi\<close>: \<open>lib/query-api.ts\<close>, the proxy routes \<open>api/queries\<close> and the pages of a result.
  \<^item> \<open>WebMcpResult\<close>, \<open>WebMcpTools\<close>, \<open>CatalogTools\<close>: \<open>lib/webmcp\<close> (bounded results, map and query tools, catalogue tools).
  \<^item> \<open>McpApp\<close>: \<open>dataset-mcp/ui/src/mcp/useMcpApp.ts\<close>, the widget's controller as a state machine. \<open>TileSources\<close>,
    \<open>WidgetConfig\<close>, \<open>WidgetMap\<close>, \<open>WidgetLayout\<close>, \<open>WidgetStatus\<close>, \<open>WidgetSelection\<close>: the widget's tile sources and texts for
    the host, the configurations and tile requests of \<open>components/MapView.tsx\<close>, its map as a state machine, the invariants
    of the map's layers and of its reports, and the selection of features with what the host is told about it.

  A record or datatype keeps the members of the interface it models, a definition keeps the name of
  its function. A handler that awaits is split at its awaits (\<open>addDatasetLayer_begin\<close>,
  \<open>addDatasetLayer_end\<close>; \<open>refresh_snapshot\<close>, \<open>refresh_written\<close>, ...), so that other events may come
  between the parts; reachability is an inductive predicate over these steps. Exceptions are the
  left of a sum, \<open>None\<close>, or a constructor of a response.

  \<^bold>\<open>What the lemmas show.\<close> Life cycle: a repository that a request reads stays open, every replaced
  one is closed exactly once, only validated files are served and a refresh completes. Repository
  and listings: tags that are listed find their datasets, paging links are read back as they were
  written and following them gives every dataset once; the STAC cursor is read back and following
  \<open>next\<close> gives every version once. Files: a requested version is the only one served. Map page: the
  ids of layers stay distinct, commands refine the operations on the list, styles stay within their
  ranges, a camera command moves the camera once to its target. Viewer: the style of the map is sound whatever
  synchronisations replace one another, a finished one draws the list in its order and each
  completes; one basemap is visible. Styling: breaks increase, categories keep their colours.
  Comparison of versions: the rows partition the selection and matched rows agree with their
  method. Queries: a query reaches the service as the client made it and accepted pages are tables.
  Tools: results are bounded in length, a search of the catalogue reaches the listing as it was made, and the query
  sources that are reported can be queried. Widget: answers of superseded maps are ignored and
  shown tokens are those of the current map and go only to its tiles; tile sources are public; layers are drawn in the order of the
  configuration whatever the order of events, and a map that is reported as loaded has them all; panning comes back after every drag,
  and no selection stays behind with the host; properties of features stay quoted in the text for the agent.

  \<^bold>\<open>Interfaces.\<close> Locales state contracts that several operations share: \<open>comparator\<close> (\<open>JsPrelude\<close>)
  for orders that \<open>sort\<close> is called with, \<open>capped_selection\<close> (\<open>FeatureSelection\<close>), \<open>paged_listing\<close>
  (\<open>CatalogListing\<close>) and \<open>cursor_listing\<close> (\<open>StacApi\<close>); each is interpreted on the
  definitions of the model. Code that is not under \<open>src/\<close> is a parameter: MapLibre is a record of the
  operations that the viewer calls (\<open>MapSources\<close>), the URL parser and the web a record in \<open>JsUrl\<close> and
  \<open>StacApi\<close>, SQLite's full-text index, the S2 library and \<open>localeCompare\<close> are function arguments.
  What their documentation promises is a predicate of its own (\<open>maplibre_laws\<close>, ...), satisfied by
  a concrete instance in the examples.

  \<^bold>\<open>Abstractions.\<close> Numbers are exact rationals with NaN and infinities, where JavaScript rounds to
  doubles; printing covers the numbers that print without an exponent. A string is a list of code
  units below 256; text that decodes to characters above U+00FF is outside the model. Objects keep
  their members in insertion order, also for keys that look like integers. SQL statements are
  functions on lists of rows. The path of a URL is not normalised. Between two events the clock
  stands still, and \<open>Promise.all\<close> reports the first failure in list order. React state is read at the
  last render and refs at once, with a render as an event of its own.

  \<^bold>\<open>Bounds and fuel.\<close> The JSON parser has the length of its text as fuel, which suffices since every
  nested call consumes a character; \<open>published_loop\<close> and the crawls of the listings have one more
  unit than there are rows, each page holding at least one; \<open>follow\<close> likewise. Theorems that need
  the fuel state that the result is there.

  \<^bold>\<open>Not modelled.\<close> React components and routes that only arrange markup (\<open>components/ui\<close>, pages,
  headers, charts), the tables and forms over the modelled data, the generated route tree, the OpenAPI document, analytics, sitemaps,
  discovery documents, the registration of WebMCP tools and the schemas of the map tools' inputs, the widget's panels,
  streaming and caching of fetched responses, the query feature
  server and the MCP server in Python, the operations and infrastructure files.
\<close>

end
